(* ===== verification/Prelude.thy ===== *)
theory Prelude
  imports Main "HOL-Library.Word" "HOL-Library.Char_ord" "HOL-Library.List_Lexorder"
begin

text \<open>
  Shared vocabulary of the development: instants and durations, byte-string helpers of
  the Go standard library that the sources use (prefix test, ASCII case folding), and the
  small algebra of table operations (select, update, delete, count over a list of rows)
  in which every SQL statement of the store is written.  The lemmas about that algebra
  are collected in \<open>tbl\<close> and carry most invariant proofs of the store theories.
\<close>

named_theorems tbl \<open>facts on list-of-rows tables\<close>
named_theorems units \<open>the time units of the sources, in nanoseconds\<close>

section \<open>Time\<close>

text \<open>
  \<open>time.Time\<close> is an instant in nanoseconds since the Unix epoch and \<open>time.Duration\<close> a
  number of nanoseconds; both are unbounded integers here.  The only place where the
  64-bit width of a duration matters (the retry back-off) keeps it.
\<close>

type_synonym time = int
type_synonym duration = int

definition Second :: duration where [units]: "Second = 1000000000"
definition Minute :: duration where [units]: "Minute = 60 * Second"
definition Hour :: duration where [units]: "Hour = 60 * Minute"
definition Millisecond :: duration where [units]: "Millisecond = 1000000"

section \<open>Strings\<close>

text \<open>A Go string is a byte string; \<open>strings.HasPrefix\<close>, and ASCII lower case.\<close>

definition hasPrefix :: "string \<Rightarrow> string \<Rightarrow> bool" where
  "hasPrefix s p \<longleftrightarrow> length p \<le> length s \<and> take (length p) s = p"

definition asciiLower :: "char \<Rightarrow> char" where
  "asciiLower c = (if 65 \<le> (of_char c :: nat) \<and> (of_char c :: nat) \<le> 90
                   then char_of ((of_char c :: nat) + 32) else c)"

definition toLowerAscii :: "string \<Rightarrow> string" where
  "toLowerAscii s = map asciiLower s"

lemma hasPrefix_append [simp]: "hasPrefix (p @ s) p"
  by (simp add: hasPrefix_def)

lemma hasPrefix_iff: "hasPrefix s p \<longleftrightarrow> (\<exists>r. s = p @ r)"
  unfolding hasPrefix_def by (metis append_eq_conv_conj append_take_drop_id le_add1 length_append)

lemma asciiLower_idem [simp]: "asciiLower (asciiLower c) = asciiLower c"
proof (cases "65 \<le> (of_char c :: nat) \<and> (of_char c :: nat) \<le> 90")
  case True
  then have "(of_char (asciiLower c) :: nat) = of_char c + 32"
    by (simp add: asciiLower_def)
  then show ?thesis using True by (simp add: asciiLower_def [of "asciiLower c"])
next
  case False
  then have "asciiLower c = c" by (auto simp: asciiLower_def)
  then show ?thesis by simp
qed

lemma toLowerAscii_idem [simp]: "toLowerAscii (toLowerAscii s) = toLowerAscii s"
  by (simp add: toLowerAscii_def)

section \<open>Tables\<close>

text \<open>
  A table is the list of its rows in insertion (rowid) order.  \<open>upd_where\<close> is
  \<open>UPDATE .. SET .. WHERE\<close>, \<open>count_where\<close> both \<open>COUNT(1)\<close> and the number of rows an
  \<open>UPDATE\<close> affects, \<open>del_where\<close> is \<open>DELETE .. WHERE\<close>; a single-row \<open>SELECT\<close> is \<open>find\<close>.
\<close>

definition upd_where :: "('r \<Rightarrow> bool) \<Rightarrow> ('r \<Rightarrow> 'r) \<Rightarrow> 'r list \<Rightarrow> 'r list" where
  "upd_where c f rs = map (\<lambda>r. if c r then f r else r) rs"

definition del_where :: "('r \<Rightarrow> bool) \<Rightarrow> 'r list \<Rightarrow> 'r list" where
  "del_where c rs = filter (\<lambda>r. \<not> c r) rs"

definition count_where :: "('r \<Rightarrow> bool) \<Rightarrow> 'r list \<Rightarrow> nat" where
  "count_where c rs = length (filter c rs)"

lemma upd_where_simps [simp]:
  "upd_where c f [] = []"
  "upd_where c f (r # rs) = (if c r then f r else r) # upd_where c f rs"
  by (simp_all add: upd_where_def)

lemma del_where_simps [simp]:
  "del_where c [] = []"
  "del_where c (r # rs) = (if c r then del_where c rs else r # del_where c rs)"
  by (simp_all add: del_where_def)

lemma count_where_simps [simp]:
  "count_where c [] = 0"
  "count_where c (r # rs) = (if c r then Suc (count_where c rs) else count_where c rs)"
  by (simp_all add: count_where_def)

lemma length_upd_where [simp]: "length (upd_where c f rs) = length rs"
  by (simp add: upd_where_def)

lemma in_upd_where [tbl]:
  "x \<in> set (upd_where c f rs) \<longleftrightarrow> (\<exists>r \<in> set rs. x = (if c r then f r else r))"
  by (auto simp: upd_where_def)

lemma ball_upd_where [tbl]:
  "(\<forall>x \<in> set (upd_where c f rs). P x) \<longleftrightarrow> (\<forall>r \<in> set rs. P (if c r then f r else r))"
  by (auto simp: upd_where_def)

lemma set_del_where [tbl]: "set (del_where c rs) = {r \<in> set rs. \<not> c r}"
  by (simp add: del_where_def)

lemma count_where_0 [tbl]: "count_where c rs = 0 \<longleftrightarrow> (\<forall>r \<in> set rs. \<not> c r)"
  by (simp add: count_where_def filter_empty_conv)

lemma count_where_append [simp]: "count_where c (xs @ ys) = count_where c xs + count_where c ys"
  by (simp add: count_where_def)

lemma count_where_pos [tbl]: "0 < count_where c rs \<longleftrightarrow> (\<exists>r \<in> set rs. c r)"
  by (induction rs) auto

lemma map_upd_where:
  "(\<And>r. r \<in> set rs \<Longrightarrow> c r \<Longrightarrow> k (f r) = k r) \<Longrightarrow> map k (upd_where c f rs) = map k rs"
  by (simp add: upd_where_def)

lemma upd_where_none [tbl]: "(\<forall>r \<in> set rs. \<not> c r) \<Longrightarrow> upd_where c f rs = rs"
  by (induction rs) auto

lemma distinct_del_where [tbl]:
  "distinct (map k rs) \<Longrightarrow> distinct (map k (del_where c rs))"
  by (simp add: del_where_def distinct_map_filter)

lemma find_SomeD: "find P xs = Some x \<Longrightarrow> x \<in> set xs \<and> P x"
  by (induction xs) (auto split: if_splits)

lemma find_NoneD: "find P xs = None \<longleftrightarrow> (\<forall>x \<in> set xs. \<not> P x)"
  by (auto simp: find_None_iff)

lemma find_append [tbl]:
  "find P (xs @ ys) = (case find P xs of None \<Rightarrow> find P ys | Some x \<Rightarrow> Some x)"
  by (induction xs) auto

lemma distinct_map_eqD:
  "distinct (map k rs) \<Longrightarrow> r \<in> set rs \<Longrightarrow> r' \<in> set rs \<Longrightarrow> k r = k r' \<Longrightarrow> r = r'"
  by (auto simp: distinct_map dest: inj_onD)

text \<open>With a unique key, looking a present row up by its key finds exactly that row.\<close>

lemma find_key [tbl]:
  assumes "distinct (map k rs)" and "r \<in> set rs"
  shows "find (\<lambda>x. k x = k r) rs = Some r"
proof (cases "find (\<lambda>x. k x = k r) rs")
  case None
  with assms(2) show ?thesis by (auto simp: find_NoneD)
next
  case (Some x)
  then have "x \<in> set rs" "k x = k r" by (auto dest: find_SomeD)
  with assms show ?thesis using Some distinct_map_eqD by fastforce
qed

lemma find_key_append_new [tbl]:
  "k r = i \<Longrightarrow> i \<notin> k ` set rs \<Longrightarrow> find (\<lambda>x. k x = i) (rs @ [r]) = Some r"
  by (induction rs) auto

lemma find_upd_where_key [tbl]:
  "(\<And>r. k (f r) = k r) \<Longrightarrow>
   find (\<lambda>x. k x = i) (upd_where c f rs) =
   map_option (\<lambda>r. if c r then f r else r) (find (\<lambda>x. k x = i) rs)"
  by (induction rs) auto

lemma find_del_where_key [tbl]:
  "find (\<lambda>x. k x = i) (del_where (\<lambda>r. k r = i) rs) = None"
  by (auto simp: find_NoneD set_del_where)

lemma find_del_where_other [tbl]:
  "i \<noteq> j \<Longrightarrow> find (\<lambda>x. k x = i) (del_where (\<lambda>r. k r = j) rs) = find (\<lambda>x. k x = i) rs"
  by (induction rs) auto

lemma find_upd_where_hit [tbl]:
  "list_ex hit rs \<Longrightarrow> hit row \<Longrightarrow> find hit (upd_where hit (\<lambda>_. row) rs) = Some row"
  by (induction rs) auto

text \<open>With a unique key an update or count keyed by it touches at most one row.\<close>

lemma count_where_key_le [tbl]:
  "distinct (map k rs) \<Longrightarrow> count_where (\<lambda>r. k r = i \<and> c r) rs \<le> 1"
proof (induction rs)
  case Nil
  then show ?case by simp
next
  case (Cons r rs)
  show ?case
  proof (cases "k r = i")
    case True
    with Cons.prems have "\<forall>x \<in> set rs. \<not> (k x = i \<and> c x)" by (auto simp: rev_image_eqI)
    then have "count_where (\<lambda>r. k r = i \<and> c r) rs = 0" by (simp add: count_where_0)
    then show ?thesis by simp
  next
    case False
    with Cons show ?thesis by simp
  qed
qed

lemma map_sum_Inr_iff [simp]: "map_sum f g x = Inr y \<longleftrightarrow> (\<exists>z. x = Inr z \<and> y = g z)"
  by (cases x) auto

lemma map_sum_Inl_iff [simp]: "map_sum f g x = Inl y \<longleftrightarrow> (\<exists>z. x = Inl z \<and> y = f z)"
  by (cases x) auto

section \<open>Position in a list\<close>

fun index_of :: "'a list \<Rightarrow> 'a \<Rightarrow> nat" where
  "index_of [] y = 0"
| "index_of (x # xs) y = (if x = y then 0 else Suc (index_of xs y))"

lemma index_of_nth: "y \<in> set xs \<Longrightarrow> index_of xs y < length xs \<and> xs ! index_of xs y = y"
  by (induction xs) auto

lemma index_of_inj: "inj_on (index_of xs) (set xs)"
  by (metis index_of_nth inj_onI)

lemma map_index_of: "distinct xs \<Longrightarrow> map (index_of xs) xs = [0..<length xs]"
proof (induction xs)
  case Nil
  then show ?case by simp
next
  case (Cons x xs)
  then have "map (index_of (x # xs)) xs = map (\<lambda>y. Suc (index_of xs y)) xs"
    by (intro map_cong) auto
  also have "\<dots> = map Suc (map (index_of xs) xs)" by simp
  also have "\<dots> = map Suc [0..<length xs]" using Cons by simp
  finally have e: "map (index_of (x # xs)) xs = map Suc [0..<length xs]" .
  have "map (index_of (x # xs)) (x # xs) = 0 # map (index_of (x # xs)) xs" by simp
  then show ?case by (simp only: e) (simp add: map_Suc_upt upt_conv_Cons del: upt_Suc)
qed

text \<open>A list whose members' positions in \<open>xs\<close> are sorted is \<open>xs\<close>, if it has the same members.\<close>

lemma sorted_index_of_unique:
  assumes "distinct xs" "distinct ys" "set ys = set xs" "sorted (map (index_of xs) ys)"
  shows "ys = xs"
proof -
  have "sorted (map (index_of xs) xs)" "distinct (map (index_of xs) xs)"
    using assms(1) by (simp_all add: map_index_of)
  moreover have "distinct (map (index_of xs) ys)"
    using assms(2,3) index_of_inj [of xs] by (simp add: distinct_map)
  ultimately have "map (index_of xs) ys = map (index_of xs) xs"
    using assms(3,4) by (intro sorted_distinct_set_unique) simp_all
  then show ?thesis
    using assms(3) index_of_inj [of xs] by (auto dest!: map_inj_on)
qed

section \<open>Transactions\<close>

text \<open>
  Every multi-statement store method opens a transaction, defers \<open>Rollback\<close> and reaches
  \<open>Commit\<close> on its success path only.  The body of such a method returns its result
  together with the state it commits, or \<open>None\<close> when it returned before \<open>Commit\<close>; then
  \<open>with_tx\<close> restores the state at \<open>BeginTx\<close>.
\<close>

definition with_tx :: "('d \<Rightarrow> 'r \<times> 'd option) \<Rightarrow> 'd \<Rightarrow> 'r \<times> 'd" where
  "with_tx body d = (case body d of (r, Some d') \<Rightarrow> (r, d') | (r, None) \<Rightarrow> (r, d))"

lemma with_tx_eq:
  "body d = (r, Some d') \<Longrightarrow> with_tx body d = (r, d')"
  "body d = (r, None) \<Longrightarrow> with_tx body d = (r, d)"
  by (simp_all add: with_tx_def)

end
