(* ===== verification/Model.thy ===== *)
theory Model
  imports Prelude Complex_Main
begin

text \<open>
  The domain entities of \<open>model/model.go\<close> and the sentinel errors of \<open>store/store.go\<close>.
  The string enumerations of the sources become datatypes with the constants as
  constructors; a struct becomes a record whose fields carry a short prefix (\<open>u_\<close>, \<open>c_\<close>,
  \<open>e_\<close>, \<open>j_\<close>) because Isabelle selectors share one name space.  Go's \<open>int\<close> and \<open>int64\<close>
  counters are \<open>int\<close>; a \<open>float64\<close> keeps its non-finite values, which JSON cannot encode.
\<close>

section \<open>Users and channels\<close>

record user =
  u_ID :: string
  u_Email :: string
  u_DisplayName :: string
  u_PasswordHash :: string
  u_OIDCIssuer :: string
  u_OIDCSubject :: string
  u_SessionEpoch :: int
  u_CreatedAt :: time

record channel =
  c_ID :: string
  c_UserID :: string
  c_Title :: string
  c_Description :: string
  c_Language :: string
  c_ImageKey :: string
  c_CreatedAt :: time
  c_UpdatedAt :: time

section \<open>Episodes\<close>

datatype EpisodeStatus = EpisodeDraft | EpisodePublished

datatype MediaKind = MediaAudio | MediaVideo

definition DetectMediaKind :: "string \<Rightarrow> MediaKind" where
  "DetectMediaKind mime = (if hasPrefix mime ''video/'' then MediaVideo else MediaAudio)"

datatype TranscriptStatus =
  TranscriptNone | TranscriptPending | TranscriptProcessing | TranscriptDone | TranscriptFailed

record episode =
  e_ID :: string
  e_ChannelID :: string
  e_Title :: string
  e_Description :: string
  e_MediaKey :: string
  e_MediaMIME :: string
  e_MediaKind :: MediaKind
  e_MediaBytes :: int
  e_DurationSecs :: int
  e_Language :: string
  e_Position :: int
  e_Status :: EpisodeStatus
  e_TranscriptStatus :: TranscriptStatus
  e_PublishedAt :: "time option"
  e_CreatedAt :: time
  e_UpdatedAt :: time

definition IsVideo :: "episode \<Rightarrow> bool" where
  "IsVideo e \<longleftrightarrow> e_MediaKind e = MediaVideo"

section \<open>Transcripts\<close>

datatype float64 = Finite rat | PosInf | NegInf | NaN

record segment =
  s_StartSecs :: float64
  s_EndSecs :: float64
  s_Text :: string

record transcript =
  t_EpisodeID :: string
  t_Language :: string
  t_Segments :: "segment list"
  t_CreatedAt :: time

section \<open>Jobs\<close>

datatype JobKind = JobTranscribe | OtherKind string

datatype JobStatus = JobPending | JobProcessing | JobDone | JobFailed

text \<open>
  A job payload is an opaque JSON text in the sources.  It is represented by what
  \<open>json.Unmarshal\<close> into a \<open>TranscribePayload\<close> makes of it: the episode id, or a failure.
\<close>

datatype payload = TranscribePayload string | BadPayload string

record job =
  j_ID :: string
  j_Kind :: JobKind
  j_Payload :: payload
  j_Status :: JobStatus
  j_Attempts :: int
  j_LastError :: string
  j_RunAfter :: time
  j_CreatedAt :: time
  j_UpdatedAt :: time

section \<open>Errors\<close>

text \<open>
  The sentinels of the store, the constraint failure that \<open>mapErr\<close> does not translate
  (a foreign key), the failure of \<open>json.Marshal\<close>, any other driver failure, and a Go
  run-time panic.  Wrapping
  with \<open>%w\<close> keeps the sentinel visible to \<open>errors.Is\<close>, so a wrapped sentinel is the
  sentinel itself.
\<close>

datatype err =
  ErrNotFound | ErrConflict | ErrStaleClaim | ErrInvalidReorder | ErrBlobDeleting
  | ErrForeignKey | ErrMarshal | ErrDriver | ErrPanic

type_synonym 'a res = "err + 'a"

section \<open>Blob-lifecycle bounds\<close>

definition BlobReservationTTL :: duration where [units]: "BlobReservationTTL = 24 * Hour"
definition UploadProtectWindow :: duration where [units]: "UploadProtectWindow = Hour"
definition BlobDeleteLeaseTTL :: duration where [units]: "BlobDeleteLeaseTTL = 5 * Minute"
definition BlobDeleteTimeout :: duration where [units]: "BlobDeleteTimeout = 30 * Second"

text \<open>The two inequalities the comment of \<open>store.go\<close> calls load-bearing.\<close>

lemma blob_timing_bounds:
  "BlobDeleteTimeout < BlobDeleteLeaseTTL" "UploadProtectWindow < BlobReservationTTL"
  by (simp_all add: units)

end
