(* ===== verification/Db.thy ===== *)
theory Db
  imports Model "HOL-Library.Product_Lexorder"
begin

text \<open>
  The database behind \<open>store/sqlite\<close>: the tables of \<open>schema.sql\<close> as one record of row
  lists, the time encodings of \<open>sqlite.go\<close>, the constraints SQLite enforces (primary keys,
  the case-insensitive e-mail index, the partial OIDC index, foreign keys with cascade)
  and the well-formedness invariant \<open>wf_db\<close> that all of them together give.  Timestamps
  are stored in whole seconds.
\<close>

section \<open>Time encodings\<close>

definition toUnix :: "time \<Rightarrow> int" where "toUnix t = t div 1000000000"

definition toUnixCeil :: "time \<Rightarrow> int" where
  "toUnixCeil t = (if t mod 1000000000 = 0 then t div 1000000000 else t div 1000000000 + 1)"

definition fromUnix :: "int \<Rightarrow> time" where "fromUnix s = s * 1000000000"

definition toUnixPtr :: "time option \<Rightarrow> int option" where "toUnixPtr t = map_option toUnix t"

definition fromUnixPtr :: "int option \<Rightarrow> time option" where "fromUnixPtr n = map_option fromUnix n"

lemma toUnix_fromUnix [simp]: "toUnix (fromUnix s) = s"
  by (simp add: toUnix_def fromUnix_def)

lemma toUnixCeil_fromUnix [simp]: "toUnixCeil (fromUnix s) = s"
  by (simp add: toUnixCeil_def fromUnix_def)

lemma toUnix_mono: "t \<le> t' \<Longrightarrow> toUnix t \<le> toUnix t'"
  by (simp add: toUnix_def zdiv_mono1)

lemma fromUnix_toUnix_le: "fromUnix (toUnix t) \<le> t"
  using div_mult_mod_eq [of t 1000000000] pos_mod_sign [of 1000000000 t]
  by (simp add: fromUnix_def toUnix_def)

lemma toUnix_bounds: "fromUnix (toUnix t) \<le> t" "t < fromUnix (toUnix t) + Second"
  using div_mult_mod_eq [of t 1000000000] pos_mod_bound [of 1000000000 t] pos_mod_sign [of 1000000000 t]
  by (simp_all add: fromUnix_def toUnix_def units)

text \<open>Rounding up never loses time, rounding down never gains any.\<close>

lemma le_toUnix_iff: "s \<le> toUnix t \<longleftrightarrow> fromUnix s \<le> t"
  using toUnix_bounds [of t] by (auto simp: fromUnix_def units)

lemma toUnixCeil_le_iff: "toUnixCeil t \<le> s \<longleftrightarrow> t \<le> fromUnix s"
proof (cases "t mod 1000000000 = 0")
  case True
  then have "t = fromUnix (toUnix t)"
    using div_mult_mod_eq [of t 1000000000] by (simp add: fromUnix_def toUnix_def)
  with True show ?thesis by (auto simp: toUnixCeil_def fromUnix_def toUnix_def)
next
  case False
  then have "toUnixCeil t = toUnix t + 1" by (simp add: toUnixCeil_def toUnix_def)
  moreover have "t \<noteq> fromUnix (toUnix t)" using False by (metis fromUnix_def mod_mult_self2_is_0)
  ultimately show ?thesis using toUnix_bounds [of t] by (auto simp: fromUnix_def units)
qed

lemma less_toUnix_iff: "toUnix t < s \<longleftrightarrow> t < fromUnix s"
  by (simp add: le_toUnix_iff flip: not_le)

section \<open>Rows\<close>

record user_row =
  ur_id :: string
  ur_email :: string
  ur_display_name :: string
  ur_password_hash :: string
  ur_oidc_issuer :: string
  ur_oidc_subject :: string
  ur_session_epoch :: int
  ur_created_at :: int

record channel_row =
  cr_id :: string
  cr_user_id :: string
  cr_title :: string
  cr_description :: string
  cr_language :: string
  cr_image_key :: string
  cr_created_at :: int
  cr_updated_at :: int

record episode_row =
  er_id :: string
  er_channel_id :: string
  er_title :: string
  er_description :: string
  er_media_key :: string
  er_media_mime :: string
  er_media_kind :: MediaKind
  er_media_bytes :: int
  er_duration_secs :: int
  er_language :: string
  er_position :: int
  er_status :: EpisodeStatus
  er_transcript_status :: TranscriptStatus
  er_published_at :: "int option"
  er_created_at :: int
  er_updated_at :: int

text \<open>The \<open>segments\<close> column holds a JSON array; it is represented by the list it encodes.\<close>

record transcript_row =
  tr_episode_id :: string
  tr_language :: string
  tr_segments :: "segment list"
  tr_created_at :: int

text \<open>\<open>blob_reservations\<close> and \<open>blob_delete_leases\<close> have the same columns.\<close>

record blob_row =
  br_id :: int
  br_media_key :: string
  br_created_at :: int

record job_row =
  jr_id :: string
  jr_kind :: JobKind
  jr_payload :: payload
  jr_status :: JobStatus
  jr_attempts :: int
  jr_last_error :: string
  jr_run_after :: int
  jr_created_at :: int
  jr_updated_at :: int

text \<open>
  The two sequence fields are SQLite's \<open>sqlite_sequence\<close> entries of the \<open>AUTOINCREMENT\<close>
  tables: the largest id ever handed out.
\<close>

record db =
  users :: "user_row list"
  channels :: "channel_row list"
  episodes :: "episode_row list"
  transcripts :: "transcript_row list"
  reservations :: "blob_row list"
  reservation_seq :: int
  leases :: "blob_row list"
  lease_seq :: int
  jobs :: "job_row list"

definition empty_db :: db where
  "empty_db = \<lparr>users = [], channels = [], episodes = [], transcripts = [],
     reservations = [], reservation_seq = 0, leases = [], lease_seq = 0, jobs = []\<rparr>"

section \<open>Constraints\<close>

text \<open>\<open>COLLATE NOCASE\<close> folds the ASCII letters only.\<close>

definition oidc_key :: "user_row \<Rightarrow> string \<times> string" where
  "oidc_key r = (ur_oidc_issuer r, ur_oidc_subject r)"

definition linked :: "user_row \<Rightarrow> bool" where "linked r \<longleftrightarrow> ur_oidc_subject r \<noteq> []"

definition wf_users :: "user_row list \<Rightarrow> bool" where
  "wf_users rs \<longleftrightarrow> distinct (map ur_id rs) \<and> distinct (map (\<lambda>r. toLowerAscii (ur_email r)) rs)
     \<and> distinct (map oidc_key (filter linked rs))"

definition wf_channels :: "db \<Rightarrow> bool" where
  "wf_channels d \<longleftrightarrow> distinct (map cr_id (channels d))
     \<and> (\<forall>r \<in> set (channels d). cr_user_id r \<in> ur_id ` set (users d))"

definition wf_episodes :: "db \<Rightarrow> bool" where
  "wf_episodes d \<longleftrightarrow> distinct (map er_id (episodes d))
     \<and> (\<forall>r \<in> set (episodes d). er_channel_id r \<in> cr_id ` set (channels d))"

definition wf_transcripts :: "db \<Rightarrow> bool" where
  "wf_transcripts d \<longleftrightarrow> distinct (map tr_episode_id (transcripts d))
     \<and> (\<forall>r \<in> set (transcripts d). tr_episode_id r \<in> er_id ` set (episodes d))"

definition wf_seq :: "blob_row list \<Rightarrow> int \<Rightarrow> bool" where
  "wf_seq rs n \<longleftrightarrow> 0 \<le> n \<and> distinct (map br_id rs) \<and> (\<forall>r \<in> set rs. 0 < br_id r \<and> br_id r \<le> n)"

definition wf_db :: "db \<Rightarrow> bool" where
  "wf_db d \<longleftrightarrow> wf_users (users d) \<and> wf_channels d \<and> wf_episodes d \<and> wf_transcripts d
     \<and> wf_seq (reservations d) (reservation_seq d) \<and> wf_seq (leases d) (lease_seq d)
     \<and> distinct (map jr_id (jobs d))"

lemmas wf_defs = wf_db_def wf_users_def wf_channels_def wf_episodes_def wf_transcripts_def

lemma wf_empty_db: "wf_db empty_db"
  by (simp add: wf_defs wf_seq_def empty_db_def)

lemma wf_seq_insert [tbl]:
  "wf_seq rs n \<Longrightarrow> br_id r = n + 1 \<Longrightarrow> wf_seq (rs @ [r]) (n + 1)"
  by (fastforce simp: wf_seq_def)

lemma wf_seq_delete [tbl]: "wf_seq rs n \<Longrightarrow> wf_seq (del_where c rs) n"
  by (auto simp: wf_seq_def set_del_where distinct_del_where)

text \<open>An update that leaves the key columns alone keeps a table well formed.\<close>

lemma distinct_upd_where [tbl]:
  "(\<And>r. k (f r) = k r) \<Longrightarrow> distinct (map k (upd_where c f rs)) = distinct (map k rs)"
  by (simp add: map_upd_where)

lemma image_upd_where [tbl]:
  "(\<And>r. k (f r) = k r) \<Longrightarrow> k ` set (upd_where c f rs) = k ` set rs"
  by (metis list.set_map map_upd_where)

lemma all_upd_where [tbl]:
  "(\<And>r. k (f r) = k r) \<Longrightarrow> (\<forall>r \<in> set (upd_where c f rs). P (k r)) \<longleftrightarrow> (\<forall>r \<in> set rs. P (k r))"
  by (simp add: ball_upd_where if_distrib)

lemma filter_upd_where:
  "(\<And>r. P (f r) = P r) \<Longrightarrow> filter P (upd_where c f rs) = upd_where c f (filter P rs)"
  by (induction rs) auto

text \<open>Result of a statement that affected a row or none (\<open>requireAffected\<close>).\<close>

definition requireAffected :: "nat \<Rightarrow> unit res" where
  "requireAffected n = (if n = 0 then Inl ErrNotFound else Inr ())"

end
