(* ===== verification/StoreUsers.thy ===== *)
theory StoreUsers
  imports Db
begin

text \<open>
  The user and channel methods of \<open>store/sqlite/sqlite_crud.go\<close>.  A write takes the
  database and returns its error or result with the new database; a read returns its
  error or result.  The lemmas show what each write leaves of \<open>wf_db\<close>, what a read
  returns after a write, and that only \<open>BumpSessionEpoch\<close> ever moves a session epoch.
\<close>

section \<open>Users\<close>

definition user_to_row :: "user \<Rightarrow> user_row" where
  "user_to_row u = \<lparr>ur_id = u_ID u, ur_email = u_Email u, ur_display_name = u_DisplayName u,
     ur_password_hash = u_PasswordHash u, ur_oidc_issuer = u_OIDCIssuer u,
     ur_oidc_subject = u_OIDCSubject u, ur_session_epoch = 0,
     ur_created_at = toUnix (u_CreatedAt u)\<rparr>"

definition scanUser :: "user_row \<Rightarrow> user" where
  "scanUser r = \<lparr>u_ID = ur_id r, u_Email = ur_email r, u_DisplayName = ur_display_name r,
     u_PasswordHash = ur_password_hash r, u_OIDCIssuer = ur_oidc_issuer r,
     u_OIDCSubject = ur_oidc_subject r, u_SessionEpoch = ur_session_epoch r,
     u_CreatedAt = fromUnix (ur_created_at r)\<rparr>"

text \<open>A row that would collide on the NOCASE e-mail index or the partial OIDC index.\<close>

definition user_clash :: "string \<Rightarrow> string \<Rightarrow> string \<Rightarrow> user_row \<Rightarrow> bool" where
  "user_clash email issuer subject r \<longleftrightarrow> toLowerAscii (ur_email r) = toLowerAscii email
     \<or> (subject \<noteq> [] \<and> ur_oidc_issuer r = issuer \<and> ur_oidc_subject r = subject)"

definition CreateUser :: "user \<Rightarrow> db \<Rightarrow> unit res \<times> db" where
  "CreateUser u d =
     (if list_ex (\<lambda>r. ur_id r = u_ID u
           \<or> user_clash (u_Email u) (u_OIDCIssuer u) (u_OIDCSubject u) r) (users d)
      then (Inl ErrConflict, d)
      else (Inr (), d\<lparr>users := users d @ [user_to_row u]\<rparr>))"

definition set_user_cols :: "user \<Rightarrow> user_row \<Rightarrow> user_row" where
  "set_user_cols u r = r\<lparr>ur_email := u_Email u, ur_display_name := u_DisplayName u,
     ur_password_hash := u_PasswordHash u, ur_oidc_issuer := u_OIDCIssuer u,
     ur_oidc_subject := u_OIDCSubject u\<rparr>"

definition UpdateUser :: "user \<Rightarrow> db \<Rightarrow> unit res \<times> db" where
  "UpdateUser u d =
     (let hit = (\<lambda>r. ur_id r = u_ID u); n = count_where hit (users d)
      in if n \<noteq> 0 \<and> list_ex (user_clash (u_Email u) (u_OIDCIssuer u) (u_OIDCSubject u))
                       (del_where hit (users d))
         then (Inl ErrConflict, d)
         else (requireAffected n, d\<lparr>users := upd_where hit (set_user_cols u) (users d)\<rparr>))"

definition BumpSessionEpoch :: "string \<Rightarrow> db \<Rightarrow> unit res \<times> db" where
  "BumpSessionEpoch uid d =
     (let hit = (\<lambda>r. ur_id r = uid); n = count_where hit (users d)
      in (requireAffected n,
          d\<lparr>users := upd_where hit (\<lambda>r. r\<lparr>ur_session_epoch := ur_session_epoch r + 1\<rparr>) (users d)\<rparr>))"

definition userWhere :: "(user_row \<Rightarrow> bool) \<Rightarrow> db \<Rightarrow> user res" where
  "userWhere c d = (case find c (users d) of None \<Rightarrow> Inl ErrNotFound | Some r \<Rightarrow> Inr (scanUser r))"

definition UserByID :: "string \<Rightarrow> db \<Rightarrow> user res" where
  "UserByID uid = userWhere (\<lambda>r. ur_id r = uid)"

definition UserByEmail :: "string \<Rightarrow> db \<Rightarrow> user res" where
  "UserByEmail email = userWhere (\<lambda>r. toLowerAscii (ur_email r) = toLowerAscii email)"

definition UserByOIDCSubject :: "string \<Rightarrow> string \<Rightarrow> db \<Rightarrow> user res" where
  "UserByOIDCSubject issuer subject =
     userWhere (\<lambda>r. ur_oidc_issuer r = issuer \<and> ur_oidc_subject r = subject \<and> ur_oidc_subject r \<noteq> [])"

text \<open>
  The single conditional \<open>UPDATE\<close>: it matches the account only while it is unlinked or
  already linked to the same identity; matching no row and hitting the unique index of
  another account are both reported as \<open>ErrConflict\<close>.
\<close>

definition linkable :: "string \<Rightarrow> string \<Rightarrow> string \<Rightarrow> user_row \<Rightarrow> bool" where
  "linkable uid issuer subject r \<longleftrightarrow> ur_id r = uid
     \<and> (ur_oidc_subject r = [] \<or> (ur_oidc_issuer r = issuer \<and> ur_oidc_subject r = subject))"

definition LinkOIDCIdentity :: "string \<Rightarrow> string \<Rightarrow> string \<Rightarrow> db \<Rightarrow> unit res \<times> db" where
  "LinkOIDCIdentity uid issuer subject d =
     (let hit = linkable uid issuer subject; n = count_where hit (users d)
      in if n \<noteq> 0 \<and> subject \<noteq> []
            \<and> list_ex (\<lambda>r. ur_oidc_issuer r = issuer \<and> ur_oidc_subject r = subject)
                (del_where hit (users d))
         then (Inl ErrConflict, d)
         else if n = 0 then (Inl ErrConflict, d)
         else (Inr (), d\<lparr>users := upd_where hit
                 (\<lambda>r. r\<lparr>ur_oidc_issuer := issuer, ur_oidc_subject := subject\<rparr>) (users d)\<rparr>))"

section \<open>Channels\<close>

definition channel_to_row :: "channel \<Rightarrow> channel_row" where
  "channel_to_row c = \<lparr>cr_id = c_ID c, cr_user_id = c_UserID c, cr_title = c_Title c,
     cr_description = c_Description c, cr_language = c_Language c, cr_image_key = c_ImageKey c,
     cr_created_at = toUnix (c_CreatedAt c), cr_updated_at = toUnix (c_UpdatedAt c)\<rparr>"

definition scanChannel :: "channel_row \<Rightarrow> channel" where
  "scanChannel r = \<lparr>c_ID = cr_id r, c_UserID = cr_user_id r, c_Title = cr_title r,
     c_Description = cr_description r, c_Language = cr_language r, c_ImageKey = cr_image_key r,
     c_CreatedAt = fromUnix (cr_created_at r), c_UpdatedAt = fromUnix (cr_updated_at r)\<rparr>"

definition CreateChannel :: "channel \<Rightarrow> db \<Rightarrow> unit res \<times> db" where
  "CreateChannel c d =
     (if list_ex (\<lambda>r. cr_id r = c_ID c) (channels d) then (Inl ErrConflict, d)
      else if \<not> list_ex (\<lambda>r. ur_id r = c_UserID c) (users d) then (Inl ErrForeignKey, d)
      else (Inr (), d\<lparr>channels := channels d @ [channel_to_row c]\<rparr>))"

definition set_channel_cols :: "channel \<Rightarrow> channel_row \<Rightarrow> channel_row" where
  "set_channel_cols c r = r\<lparr>cr_title := c_Title c, cr_description := c_Description c,
     cr_language := c_Language c, cr_image_key := c_ImageKey c,
     cr_updated_at := toUnix (c_UpdatedAt c)\<rparr>"

definition UpdateChannel :: "channel \<Rightarrow> db \<Rightarrow> unit res \<times> db" where
  "UpdateChannel c d =
     (let hit = (\<lambda>r. cr_id r = c_ID c); n = count_where hit (channels d)
      in (requireAffected n, d\<lparr>channels := upd_where hit (set_channel_cols c) (channels d)\<rparr>))"

definition channelWhere :: "(channel_row \<Rightarrow> bool) \<Rightarrow> db \<Rightarrow> channel res" where
  "channelWhere c d =
     (case find c (channels d) of None \<Rightarrow> Inl ErrNotFound | Some r \<Rightarrow> Inr (scanChannel r))"

definition ChannelByID :: "string \<Rightarrow> db \<Rightarrow> channel res" where
  "ChannelByID cid = channelWhere (\<lambda>r. cr_id r = cid)"

definition ListChannels :: "db \<Rightarrow> channel list" where
  "ListChannels d = map scanChannel (sort_key (\<lambda>r. toLowerAscii (cr_title r)) (channels d))"

definition ListChannelsByUser :: "string \<Rightarrow> db \<Rightarrow> channel list" where
  "ListChannelsByUser uid d = map scanChannel
     (sort_key (\<lambda>r. toLowerAscii (cr_title r)) (filter (\<lambda>r. cr_user_id r = uid) (channels d)))"

definition ChannelImageKeyExists :: "string \<Rightarrow> db \<Rightarrow> bool" where
  "ChannelImageKeyExists key d \<longleftrightarrow>
     0 < count_where (\<lambda>r. cr_image_key r = key \<and> cr_image_key r \<noteq> []) (channels d)"

section \<open>Well-formedness is kept\<close>

lemma wf_users_alt:
  "wf_users rs \<longleftrightarrow> distinct (map ur_id rs) \<and> inj_on (\<lambda>r. toLowerAscii (ur_email r)) (set rs)
     \<and> inj_on oidc_key {r \<in> set rs. linked r}"
proof -
  have "distinct (map ur_id rs) \<Longrightarrow> distinct rs" by (simp add: distinct_map)
  then show ?thesis by (auto simp: wf_users_def distinct_map)
qed

lemma wf_db_users:
  assumes "wf_db d" and "wf_users us" and "ur_id ` set (users d) \<subseteq> ur_id ` set us"
  shows "wf_db (d\<lparr>users := us\<rparr>)"
  using assms by (fastforce simp: wf_db_def wf_channels_def wf_episodes_def wf_transcripts_def)

lemma wf_db_channels:
  assumes "wf_db d" and "distinct (map cr_id cs)"
    and "\<forall>r \<in> set cs. cr_user_id r \<in> ur_id ` set (users d)"
    and "cr_id ` set (channels d) \<subseteq> cr_id ` set cs"
  shows "wf_db (d\<lparr>channels := cs\<rparr>)"
  using assms by (fastforce simp: wf_db_def wf_channels_def wf_episodes_def wf_transcripts_def)

lemma wf_users_insert:
  assumes "wf_users rs" and "ur_id x \<notin> ur_id ` set rs"
    and "\<forall>r \<in> set rs. \<not> user_clash (ur_email x) (ur_oidc_issuer x) (ur_oidc_subject x) r"
  shows "wf_users (rs @ [x])"
  using assms by (fastforce simp: wf_users_def user_clash_def oidc_key_def linked_def)

lemma wf_users_update:
  assumes wf: "wf_users rs" and ids: "\<And>r. ur_id (f r) = ur_id r"
    and one: "\<And>r r'. r \<in> set rs \<Longrightarrow> r' \<in> set rs \<Longrightarrow> hit r \<Longrightarrow> hit r' \<Longrightarrow> r = r'"
    and emails: "\<And>r r'. r \<in> set rs \<Longrightarrow> r' \<in> set rs \<Longrightarrow> hit r \<Longrightarrow> \<not> hit r' \<Longrightarrow>
      toLowerAscii (ur_email (f r)) \<noteq> toLowerAscii (ur_email r')"
    and keys: "\<And>r r'. r \<in> set rs \<Longrightarrow> r' \<in> set rs \<Longrightarrow> hit r \<Longrightarrow> \<not> hit r' \<Longrightarrow>
      linked (f r) \<Longrightarrow> oidc_key (f r) \<noteq> oidc_key r'"
  shows "wf_users (upd_where hit f rs)"
proof -
  have "distinct (map ur_id (upd_where hit f rs))"
    using wf ids by (simp add: wf_users_def distinct_upd_where)
  moreover have "inj_on (\<lambda>r. toLowerAscii (ur_email r)) (set (upd_where hit f rs))"
  proof (rule inj_onI)
    fix x y
    assume "x \<in> set (upd_where hit f rs)" "y \<in> set (upd_where hit f rs)"
      and eq: "toLowerAscii (ur_email x) = toLowerAscii (ur_email y)"
    then obtain r s where r: "r \<in> set rs" "x = (if hit r then f r else r)"
      and s: "s \<in> set rs" "y = (if hit s then f s else s)" by (auto simp: in_upd_where)
    show "x = y"
      using r s eq one [of r s] emails [of r s] emails [of s r] wf
      by (cases "hit r"; cases "hit s") (auto simp: wf_users_alt dest: inj_onD)
  qed
  moreover have "inj_on oidc_key {r \<in> set (upd_where hit f rs). linked r}"
  proof (rule inj_onI)
    fix x y
    assume "x \<in> {r \<in> set (upd_where hit f rs). linked r}"
      "y \<in> {r \<in> set (upd_where hit f rs). linked r}" and eq: "oidc_key x = oidc_key y"
    then obtain r s where r: "r \<in> set rs" "x = (if hit r then f r else r)" "linked x"
      and s: "s \<in> set rs" "y = (if hit s then f s else s)" "linked y" by (auto simp: in_upd_where)
    show "x = y"
      using r s eq one [of r s] keys [of r s] keys [of s r] wf
      by (cases "hit r"; cases "hit s") (auto simp: wf_users_alt dest: inj_onD)
  qed
  ultimately show ?thesis by (simp add: wf_users_alt)
qed

lemma wf_users_idD: "wf_users rs \<Longrightarrow> r \<in> set rs \<Longrightarrow> r' \<in> set rs \<Longrightarrow> ur_id r = ur_id r' \<Longrightarrow> r = r'"
  by (auto simp: wf_users_def dest: distinct_map_eqD)

lemma CreateUser_wf: "wf_db d \<Longrightarrow> wf_db (snd (CreateUser u d))"
  by (auto simp: CreateUser_def list_ex_iff user_to_row_def
      intro!: wf_db_users wf_users_insert) (auto simp: wf_db_def)

lemma UpdateUser_wf:
  assumes "wf_db d" shows "wf_db (snd (UpdateUser u d))"
proof -
  let ?hit = "\<lambda>r. ur_id r = u_ID u"
  have wf: "wf_users (users d)" using assms by (simp add: wf_db_def)
  have "wf_db (d\<lparr>users := upd_where ?hit (set_user_cols u) (users d)\<rparr>)"
    if clash: "count_where ?hit (users d) \<noteq> 0 \<Longrightarrow>
      \<not> list_ex (user_clash (u_Email u) (u_OIDCIssuer u) (u_OIDCSubject u)) (del_where ?hit (users d))"
  proof (rule wf_db_users [OF assms])
    have nc: "\<not> user_clash (u_Email u) (u_OIDCIssuer u) (u_OIDCSubject u) r'"
      if "r \<in> set (users d)" "r' \<in> set (users d)" "ur_id r = u_ID u" "ur_id r' \<noteq> u_ID u" for r r'
      using clash that by (auto simp: count_where_0 list_ex_iff set_del_where)
    show "wf_users (upd_where ?hit (set_user_cols u) (users d))"
    proof (rule wf_users_update [OF wf])
      fix r r' assume r: "r \<in> set (users d)" "r' \<in> set (users d)" "?hit r" "\<not> ?hit r'"
      show "toLowerAscii (ur_email (set_user_cols u r)) \<noteq> toLowerAscii (ur_email r')"
        using nc [OF r] by (auto simp: set_user_cols_def user_clash_def)
      show "linked (set_user_cols u r) \<Longrightarrow> oidc_key (set_user_cols u r) \<noteq> oidc_key r'"
        using nc [OF r] by (auto simp: set_user_cols_def user_clash_def linked_def oidc_key_def)
    qed (auto simp: set_user_cols_def wf_users_idD [OF wf])
  qed (simp add: image_upd_where set_user_cols_def)
  then show ?thesis using assms by (auto simp: UpdateUser_def Let_def)
qed

lemma BumpSessionEpoch_wf:
  assumes "wf_db d" shows "wf_db (snd (BumpSessionEpoch uid d))"
proof -
  have wf: "wf_users (users d)" using assms by (simp add: wf_db_def)
  let ?f = "\<lambda>r. r\<lparr>ur_session_epoch := ur_session_epoch r + 1\<rparr>"
  have "filter linked (upd_where (\<lambda>r. ur_id r = uid) ?f (users d))
      = upd_where (\<lambda>r. ur_id r = uid) ?f (filter linked (users d))"
    by (rule filter_upd_where) (simp add: linked_def)
  then have "wf_users (upd_where (\<lambda>r. ur_id r = uid) ?f (users d))"
    using wf by (simp add: wf_users_def distinct_upd_where oidc_key_def)
  then show ?thesis
    using assms by (auto simp: BumpSessionEpoch_def Let_def image_upd_where intro!: wf_db_users)
qed

lemma LinkOIDCIdentity_wf:
  assumes "wf_db d" shows "wf_db (snd (LinkOIDCIdentity uid issuer subject d))"
proof -
  let ?hit = "linkable uid issuer subject"
  let ?f = "\<lambda>r. r\<lparr>ur_oidc_issuer := issuer, ur_oidc_subject := subject\<rparr>"
  have wf: "wf_users (users d)" using assms by (simp add: wf_db_def)
  have "wf_users (upd_where ?hit ?f (users d))"
    if "\<not> (subject \<noteq> [] \<and> list_ex (\<lambda>r. ur_oidc_issuer r = issuer \<and> ur_oidc_subject r = subject)
            (del_where ?hit (users d)))"
  proof (rule wf_users_update [OF wf])
    fix r r' assume r: "r \<in> set (users d)" "r' \<in> set (users d)" "?hit r" "\<not> ?hit r'"
    then have "r \<noteq> r'" by auto
    then show "toLowerAscii (ur_email (?f r)) \<noteq> toLowerAscii (ur_email r')"
      using r wf by (auto simp: wf_users_alt dest: inj_onD)
    show "linked (?f r) \<Longrightarrow> oidc_key (?f r) \<noteq> oidc_key r'"
      using that r by (auto simp: linked_def oidc_key_def list_ex_iff set_del_where)
  qed (auto simp: linkable_def wf_users_idD [OF wf])
  then show ?thesis
    using assms by (auto simp: LinkOIDCIdentity_def Let_def image_upd_where intro!: wf_db_users)
qed

lemma CreateChannel_wf: "wf_db d \<Longrightarrow> wf_db (snd (CreateChannel c d))"
  by (auto simp: CreateChannel_def list_ex_iff channel_to_row_def intro!: wf_db_channels)
    (auto simp: wf_db_def wf_channels_def intro: rev_image_eqI)

lemma UpdateChannel_wf:
  assumes "wf_db d" shows "wf_db (snd (UpdateChannel c d))"
proof -
  have "wf_db (d\<lparr>channels := upd_where (\<lambda>r. cr_id r = c_ID c) (set_channel_cols c) (channels d)\<rparr>)"
    using assms by (intro wf_db_channels)
      (auto simp: set_channel_cols_def distinct_upd_where image_upd_where in_upd_where
        wf_db_def wf_channels_def)
  then show ?thesis by (simp add: UpdateChannel_def Let_def)
qed


section \<open>What reads return after writes\<close>

definition stored_user :: "user \<Rightarrow> user" where
  "stored_user u = u\<lparr>u_SessionEpoch := 0, u_CreatedAt := fromUnix (toUnix (u_CreatedAt u))\<rparr>"

lemma scanUser_to_row [simp]: "scanUser (user_to_row u) = stored_user u"
  by (simp add: scanUser_def user_to_row_def stored_user_def)

lemma UserByID_CreateUser:
  assumes "CreateUser u d = (Inr (), d')"
  shows "UserByID (u_ID u) d' = Inr (stored_user u)"
proof -
  have "find (\<lambda>r. ur_id r = u_ID u) (users d @ [user_to_row u]) = Some (user_to_row u)"
    using assms by (intro find_key_append_new)
      (auto simp: CreateUser_def list_ex_iff user_to_row_def split: if_splits)
  then show ?thesis
    using assms by (auto simp: UserByID_def userWhere_def CreateUser_def split: if_splits)
qed

lemma UserByEmail_CreateUser:
  assumes "CreateUser u d = (Inr (), d')" and "toLowerAscii e = toLowerAscii (u_Email u)"
  shows "UserByEmail e d' = Inr (stored_user u)"
proof -
  have "find (\<lambda>r. toLowerAscii (ur_email r) = toLowerAscii e) (users d @ [user_to_row u])
      = Some (user_to_row u)"
    using assms by (intro find_key_append_new)
      (auto simp: CreateUser_def list_ex_iff user_clash_def user_to_row_def split: if_splits)
  then show ?thesis
    using assms by (auto simp: UserByEmail_def userWhere_def CreateUser_def split: if_splits)
qed

text \<open>A lookup finds the row of a present user, whichever unique column it goes by.\<close>

lemma userWhere_Inr: "userWhere c d = Inr u \<Longrightarrow> \<exists>r \<in> set (users d). c r \<and> u = scanUser r"
  by (auto simp: userWhere_def split: option.splits dest: find_SomeD)

lemma userWhere_Inl: "userWhere c d = Inl e \<Longrightarrow> e = ErrNotFound \<and> (\<forall>r \<in> set (users d). \<not> c r)"
  by (auto simp: userWhere_def find_NoneD split: option.splits)

lemma UserByID_row:
  assumes "wf_db d" and "r \<in> set (users d)"
  shows "UserByID (ur_id r) d = Inr (scanUser r)"
  using assms find_key [of ur_id "users d" r]
  by (simp add: UserByID_def userWhere_def wf_db_def wf_users_def)

text \<open>The epoch column: no write but \<open>BumpSessionEpoch\<close> changes it, and that one adds one.\<close>

definition epoch_of :: "string \<Rightarrow> db \<Rightarrow> int option" where
  "epoch_of uid d = map_option ur_session_epoch (find (\<lambda>r. ur_id r = uid) (users d))"

lemma epoch_of_UserByID: "UserByID uid d = Inr u \<Longrightarrow> epoch_of uid d = Some (u_SessionEpoch u)"
  by (auto simp: UserByID_def userWhere_def epoch_of_def scanUser_def split: option.splits)

lemma epoch_of_upd:
  "(\<And>r. ur_id (f r) = ur_id r) \<Longrightarrow>
   epoch_of uid (d\<lparr>users := upd_where c f (users d)\<rparr>) =
   map_option (\<lambda>r. ur_session_epoch (if c r then f r else r)) (find (\<lambda>r. ur_id r = uid) (users d))"
  by (simp add: epoch_of_def find_upd_where_key option.map_comp comp_def)

lemma epoch_of_UpdateUser: "epoch_of uid (snd (UpdateUser u d)) = epoch_of uid d"
  by (simp add: UpdateUser_def Let_def epoch_of_upd set_user_cols_def)
    (simp add: epoch_of_def set_user_cols_def if_distrib cong: if_cong)

lemma epoch_of_LinkOIDCIdentity:
  "epoch_of uid (snd (LinkOIDCIdentity uid' iss sub d)) = epoch_of uid d"
  by (simp add: LinkOIDCIdentity_def Let_def epoch_of_upd)
    (simp add: epoch_of_def if_distrib cong: if_cong)

lemma epoch_of_BumpSessionEpoch:
  "epoch_of uid (snd (BumpSessionEpoch uid' d)) =
   map_option (\<lambda>n. if uid = uid' then n + 1 else n) (epoch_of uid d)"
proof -
  have "map_option (\<lambda>r. ur_session_epoch (if ur_id r = uid' then r\<lparr>ur_session_epoch := ur_session_epoch r + 1\<rparr> else r))
        (find (\<lambda>r. ur_id r = uid) (users d))
      = map_option (\<lambda>n. if uid = uid' then n + 1 else n) (epoch_of uid d)"
    by (cases "find (\<lambda>r. ur_id r = uid) (users d)") (auto simp: epoch_of_def dest: find_SomeD)
  then show ?thesis by (simp add: BumpSessionEpoch_def Let_def epoch_of_upd)
qed

lemma epoch_of_CreateUser:
  "epoch_of uid d = Some n \<Longrightarrow> epoch_of uid (snd (CreateUser u d)) = Some n"
  by (auto simp: CreateUser_def epoch_of_def find_append split: option.splits)

end
