(* ===== verification/StoreEpisodes.thy ===== *)
theory StoreEpisodes
  imports StoreUsers
begin

text \<open>
  The episode methods of \<open>store/sqlite/sqlite_crud.go\<close>: create, the full-row and the
  targeted updates, the atomic reordering of a channel and the listing queries; and the
  stand-alone transcript methods.  The lemmas show that a targeted write leaves every
  other column alone, and that a successful reordering is exactly a permutation of the
  channel whose listing then follows the requested order.
\<close>

section \<open>Episodes\<close>

definition episode_to_row :: "episode \<Rightarrow> episode_row" where
  "episode_to_row e = \<lparr>er_id = e_ID e, er_channel_id = e_ChannelID e, er_title = e_Title e,
     er_description = e_Description e, er_media_key = e_MediaKey e, er_media_mime = e_MediaMIME e,
     er_media_kind = e_MediaKind e, er_media_bytes = e_MediaBytes e,
     er_duration_secs = e_DurationSecs e, er_language = e_Language e, er_position = e_Position e,
     er_status = e_Status e, er_transcript_status = e_TranscriptStatus e,
     er_published_at = toUnixPtr (e_PublishedAt e), er_created_at = toUnix (e_CreatedAt e),
     er_updated_at = toUnix (e_UpdatedAt e)\<rparr>"

definition scanEpisode :: "episode_row \<Rightarrow> episode" where
  "scanEpisode r = \<lparr>e_ID = er_id r, e_ChannelID = er_channel_id r, e_Title = er_title r,
     e_Description = er_description r, e_MediaKey = er_media_key r, e_MediaMIME = er_media_mime r,
     e_MediaKind = er_media_kind r, e_MediaBytes = er_media_bytes r,
     e_DurationSecs = er_duration_secs r, e_Language = er_language r, e_Position = er_position r,
     e_Status = er_status r, e_TranscriptStatus = er_transcript_status r,
     e_PublishedAt = fromUnixPtr (er_published_at r), e_CreatedAt = fromUnix (er_created_at r),
     e_UpdatedAt = fromUnix (er_updated_at r)\<rparr>"

definition CreateEpisode :: "episode \<Rightarrow> db \<Rightarrow> unit res \<times> db" where
  "CreateEpisode e d =
     (if list_ex (\<lambda>r. er_id r = e_ID e) (episodes d) then (Inl ErrConflict, d)
      else if \<not> list_ex (\<lambda>r. cr_id r = e_ChannelID e) (channels d) then (Inl ErrForeignKey, d)
      else (Inr (), d\<lparr>episodes := episodes d @ [episode_to_row e]\<rparr>))"

text \<open>The common shape of the episode updates by id: one \<open>UPDATE\<close>, then \<open>requireAffected\<close>.\<close>

definition update_episode :: "string \<Rightarrow> (episode_row \<Rightarrow> episode_row) \<Rightarrow> db \<Rightarrow> unit res \<times> db" where
  "update_episode eid f d =
     (let hit = (\<lambda>r. er_id r = eid); n = count_where hit (episodes d)
      in (requireAffected n, d\<lparr>episodes := upd_where hit f (episodes d)\<rparr>))"

definition set_episode_cols :: "episode \<Rightarrow> episode_row \<Rightarrow> episode_row" where
  "set_episode_cols e r = r\<lparr>er_title := e_Title e, er_description := e_Description e,
     er_media_key := e_MediaKey e, er_media_mime := e_MediaMIME e, er_media_kind := e_MediaKind e,
     er_media_bytes := e_MediaBytes e, er_duration_secs := e_DurationSecs e,
     er_status := e_Status e, er_transcript_status := e_TranscriptStatus e,
     er_published_at := toUnixPtr (e_PublishedAt e), er_updated_at := toUnix (e_UpdatedAt e),
     er_language := e_Language e, er_position := e_Position e\<rparr>"

definition UpdateEpisode :: "episode \<Rightarrow> db \<Rightarrow> unit res \<times> db" where
  "UpdateEpisode e = update_episode (e_ID e) (set_episode_cols e)"

definition set_status_cols :: "TranscriptStatus \<Rightarrow> time \<Rightarrow> episode_row \<Rightarrow> episode_row" where
  "set_status_cols st t r = r\<lparr>er_transcript_status := st, er_updated_at := toUnix t\<rparr>"

definition SetEpisodeTranscriptStatus ::
    "string \<Rightarrow> TranscriptStatus \<Rightarrow> time \<Rightarrow> db \<Rightarrow> unit res \<times> db" where
  "SetEpisodeTranscriptStatus eid st t = update_episode eid (set_status_cols st t)"

definition UpdateEpisodeMetadata ::
    "string \<Rightarrow> string \<Rightarrow> string \<Rightarrow> string \<Rightarrow> time \<Rightarrow> db \<Rightarrow> unit res \<times> db" where
  "UpdateEpisodeMetadata eid title description language t = update_episode eid
     (\<lambda>r. r\<lparr>er_title := title, er_description := description, er_language := language,
            er_updated_at := toUnix t\<rparr>)"

definition SetEpisodePublication ::
    "string \<Rightarrow> EpisodeStatus \<Rightarrow> time option \<Rightarrow> time \<Rightarrow> db \<Rightarrow> unit res \<times> db" where
  "SetEpisodePublication eid st published t = update_episode eid
     (\<lambda>r. r\<lparr>er_status := st, er_published_at := toUnixPtr published, er_updated_at := toUnix t\<rparr>)"

definition episodeWhere :: "(episode_row \<Rightarrow> bool) \<Rightarrow> db \<Rightarrow> episode res" where
  "episodeWhere c d =
     (case find c (episodes d) of None \<Rightarrow> Inl ErrNotFound | Some r \<Rightarrow> Inr (scanEpisode r))"

definition EpisodeByID :: "string \<Rightarrow> db \<Rightarrow> episode res" where
  "EpisodeByID eid = episodeWhere (\<lambda>r. er_id r = eid)"

definition EpisodeByMediaKey :: "string \<Rightarrow> db \<Rightarrow> episode res" where
  "EpisodeByMediaKey key = episodeWhere (\<lambda>r. er_media_key r = key)"

definition PublishedEpisodeByMediaKey :: "string \<Rightarrow> db \<Rightarrow> episode res" where
  "PublishedEpisodeByMediaKey key =
     episodeWhere (\<lambda>r. er_media_key r = key \<and> er_status r = EpisodePublished)"

section \<open>Listing\<close>

text \<open>
  \<open>ORDER BY position ASC, COALESCE(published_at, created_at) DESC, created_at DESC\<close> as a
  linear order on its sort keys.
\<close>

datatype ep_order = EpOrder (eo_position: int) (eo_published: int) (eo_created: int)

instantiation ep_order :: linorder
begin

definition less_eq_ep_order :: "ep_order \<Rightarrow> ep_order \<Rightarrow> bool" where
  "a \<le> b \<longleftrightarrow> eo_position a < eo_position b \<or> (eo_position a = eo_position b \<and>
     (eo_published b < eo_published a \<or> (eo_published b = eo_published a \<and>
       eo_created b \<le> eo_created a)))"

definition less_ep_order :: "ep_order \<Rightarrow> ep_order \<Rightarrow> bool" where
  "a < b \<longleftrightarrow> a \<le> b \<and> \<not> b \<le> (a :: ep_order)"

instance
  by standard (auto simp: less_eq_ep_order_def less_ep_order_def ep_order.expand)

end

definition episode_order :: "episode_row \<Rightarrow> ep_order" where
  "episode_order r = EpOrder (er_position r)
     (case er_published_at r of Some p \<Rightarrow> p | None \<Rightarrow> er_created_at r) (er_created_at r)"

record EpisodeFilter =
  f_ChannelID :: string
  f_PublishedOnly :: bool
  f_Limit :: int

definition filter_match :: "EpisodeFilter \<Rightarrow> episode_row \<Rightarrow> bool" where
  "filter_match f r \<longleftrightarrow> (f_ChannelID f = [] \<or> er_channel_id r = f_ChannelID f)
     \<and> (\<not> f_PublishedOnly f \<or> er_status r = EpisodePublished)"

definition ListEpisodes :: "EpisodeFilter \<Rightarrow> db \<Rightarrow> episode list" where
  "ListEpisodes f d =
     (let rs = sort_key episode_order (filter (filter_match f) (episodes d))
      in map scanEpisode (if 0 < f_Limit f then take (nat (f_Limit f)) rs else rs))"

section \<open>Reordering\<close>

definition channelEpisodeIDs :: "string \<Rightarrow> db \<Rightarrow> string list" where
  "channelEpisodeIDs cid d = remdups (map er_id (filter (\<lambda>r. er_channel_id r = cid) (episodes d)))"

text \<open>The validation loop over the requested ids, with the ids seen so far.\<close>

fun check_ids :: "string list \<Rightarrow> string list \<Rightarrow> string list \<Rightarrow> bool" where
  "check_ids current seen [] = True"
| "check_ids current seen (i # is) =
     (if i \<notin> set current then False
      else if i \<in> set seen then False
      else check_ids current (i # seen) is)"

text \<open>The renumbering loop: position \<open>idx\<close> for the id at index \<open>idx\<close>, moving rows only.\<close>

fun renumber :: "string \<Rightarrow> int \<Rightarrow> int \<Rightarrow> string list \<Rightarrow> episode_row list \<Rightarrow> episode_row list" where
  "renumber cid upd idx [] rs = rs"
| "renumber cid upd idx (i # is) rs =
     renumber cid upd (idx + 1) is
       (upd_where (\<lambda>r. er_id r = i \<and> er_channel_id r = cid \<and> er_position r \<noteq> idx)
          (\<lambda>r. r\<lparr>er_position := idx, er_updated_at := upd\<rparr>) rs)"

definition ReorderEpisodes :: "string \<Rightarrow> string list \<Rightarrow> time \<Rightarrow> db \<Rightarrow> unit res \<times> db" where
  "ReorderEpisodes cid orderedIDs t = with_tx (\<lambda>d.
     let current = channelEpisodeIDs cid d
     in if length orderedIDs \<noteq> length current then (Inl ErrInvalidReorder, None)
        else if \<not> check_ids current [] orderedIDs then (Inl ErrInvalidReorder, None)
        else (Inr (), Some (d\<lparr>episodes := renumber cid (toUnix t) 0 orderedIDs (episodes d)\<rparr>)))"

section \<open>Transcripts\<close>

fun finite_float :: "float64 \<Rightarrow> bool" where
  "finite_float (Finite _) = True"
| "finite_float _ = False"

text \<open>\<open>json.Marshal\<close> fails exactly on a segment time that is infinite or not a number.\<close>

definition marshalSegments :: "segment list \<Rightarrow> segment list option" where
  "marshalSegments ss = (if list_all (\<lambda>s. finite_float (s_StartSecs s) \<and> finite_float (s_EndSecs s)) ss
     then Some ss else None)"

definition transcript_to_row :: "transcript \<Rightarrow> segment list \<Rightarrow> transcript_row" where
  "transcript_to_row t segs = \<lparr>tr_episode_id = t_EpisodeID t, tr_language = t_Language t,
     tr_segments = segs, tr_created_at = toUnix (t_CreatedAt t)\<rparr>"

text \<open>
  \<open>INSERT .. ON CONFLICT(episode_id) DO UPDATE\<close>: replaces the three value columns of the
  row already there, or appends a new one, whose episode must exist.
\<close>

definition upsert_transcript :: "transcript \<Rightarrow> db \<Rightarrow> db res" where
  "upsert_transcript t d =
     (case marshalSegments (t_Segments t) of None \<Rightarrow> Inl ErrMarshal
      | Some segs \<Rightarrow>
          (let hit = (\<lambda>r. tr_episode_id r = t_EpisodeID t); row = transcript_to_row t segs
           in if list_ex hit (transcripts d)
              then Inr (d\<lparr>transcripts := upd_where hit (\<lambda>_. row) (transcripts d)\<rparr>)
              else if \<not> list_ex (\<lambda>r. er_id r = t_EpisodeID t) (episodes d) then Inl ErrForeignKey
              else Inr (d\<lparr>transcripts := transcripts d @ [row]\<rparr>)))"

definition SaveTranscript :: "transcript \<Rightarrow> db \<Rightarrow> unit res \<times> db" where
  "SaveTranscript t d =
     (case upsert_transcript t d of Inl e \<Rightarrow> (Inl e, d) | Inr d' \<Rightarrow> (Inr (), d'))"

definition scanTranscript :: "transcript_row \<Rightarrow> transcript" where
  "scanTranscript r = \<lparr>t_EpisodeID = tr_episode_id r, t_Language = tr_language r,
     t_Segments = tr_segments r, t_CreatedAt = fromUnix (tr_created_at r)\<rparr>"

definition TranscriptByEpisode :: "string \<Rightarrow> db \<Rightarrow> transcript res" where
  "TranscriptByEpisode eid d =
     (case find (\<lambda>r. tr_episode_id r = eid) (transcripts d) of
        None \<Rightarrow> Inl ErrNotFound | Some r \<Rightarrow> Inr (scanTranscript r))"


section \<open>Well-formedness is kept\<close>

lemma wf_db_episodes:
  assumes "wf_db d" and "distinct (map er_id es)"
    and "\<forall>r \<in> set es. er_channel_id r \<in> cr_id ` set (channels d)"
    and "er_id ` set (episodes d) \<subseteq> er_id ` set es"
  shows "wf_db (d\<lparr>episodes := es\<rparr>)"
  using assms by (fastforce simp: wf_db_def wf_channels_def wf_episodes_def wf_transcripts_def)

lemma wf_db_transcripts:
  assumes "wf_db d" and "distinct (map tr_episode_id ts)"
    and "\<forall>r \<in> set ts. tr_episode_id r \<in> er_id ` set (episodes d)"
  shows "wf_db (d\<lparr>transcripts := ts\<rparr>)"
  using assms by (auto simp: wf_db_def wf_channels_def wf_episodes_def wf_transcripts_def)

lemma wf_db_upd_episodes:
  assumes "wf_db d" and "\<And>r. er_id (f r) = er_id r" and "\<And>r. er_channel_id (f r) = er_channel_id r"
  shows "wf_db (d\<lparr>episodes := upd_where c f (episodes d)\<rparr>)"
  by (rule wf_db_episodes [OF assms(1)])
    (use assms in \<open>auto simp: distinct_upd_where image_upd_where in_upd_where wf_db_def wf_episodes_def\<close>)

lemma CreateEpisode_wf: "wf_db d \<Longrightarrow> wf_db (snd (CreateEpisode e d))"
  by (auto simp: CreateEpisode_def list_ex_iff episode_to_row_def intro!: wf_db_episodes)
    (auto simp: wf_db_def wf_episodes_def intro: rev_image_eqI)

lemma update_episode_wf:
  assumes "wf_db d" and "\<And>r. er_id (f r) = er_id r" and "\<And>r. er_channel_id (f r) = er_channel_id r"
  shows "wf_db (snd (update_episode eid f d))"
  using wf_db_upd_episodes [OF assms] by (simp add: update_episode_def Let_def)

lemma UpdateEpisode_wf: "wf_db d \<Longrightarrow> wf_db (snd (UpdateEpisode e d))"
  by (simp add: UpdateEpisode_def update_episode_wf set_episode_cols_def)

lemma SetEpisodeTranscriptStatus_wf: "wf_db d \<Longrightarrow> wf_db (snd (SetEpisodeTranscriptStatus eid st t d))"
  by (simp add: SetEpisodeTranscriptStatus_def update_episode_wf set_status_cols_def)

lemma UpdateEpisodeMetadata_wf: "wf_db d \<Longrightarrow> wf_db (snd (UpdateEpisodeMetadata eid ti de la t d))"
  by (simp add: UpdateEpisodeMetadata_def update_episode_wf)

lemma SetEpisodePublication_wf: "wf_db d \<Longrightarrow> wf_db (snd (SetEpisodePublication eid st p t d))"
  by (simp add: SetEpisodePublication_def update_episode_wf)

lemma upsert_transcript_wf:
  assumes "wf_db d" and "upsert_transcript t d = Inr d'"
  shows "wf_db d'"
proof -
  from assms(2) obtain segs where m: "marshalSegments (t_Segments t) = Some segs"
    by (auto simp: upsert_transcript_def split: option.splits)
  let ?hit = "\<lambda>r. tr_episode_id r = t_EpisodeID t" and ?row = "transcript_to_row t segs"
  have id: "tr_episode_id ?row = t_EpisodeID t" by (simp add: transcript_to_row_def)
  have "map tr_episode_id (upd_where ?hit (\<lambda>_. ?row) (transcripts d)) = map tr_episode_id (transcripts d)"
    by (rule map_upd_where) (simp add: id)
  then have "wf_db (d\<lparr>transcripts := upd_where ?hit (\<lambda>_. ?row) (transcripts d)\<rparr>)"
    by (intro wf_db_transcripts [OF assms(1)])
      (use assms(1) in \<open>auto simp: wf_db_def wf_transcripts_def in_upd_where id; metis\<close>)+
  moreover have "wf_db (d\<lparr>transcripts := transcripts d @ [?row]\<rparr>)"
    if "\<not> list_ex ?hit (transcripts d)" "list_ex (\<lambda>r. er_id r = t_EpisodeID t) (episodes d)"
    by (rule wf_db_transcripts [OF assms(1)])
      (use that assms(1) in \<open>auto simp: wf_db_def wf_transcripts_def id list_ex_iff intro: rev_image_eqI\<close>)
  ultimately show ?thesis
    using assms(2) m by (auto simp: upsert_transcript_def Let_def split: if_splits)
qed

lemma SaveTranscript_wf: "wf_db d \<Longrightarrow> wf_db (snd (SaveTranscript t d))"
  by (auto simp: SaveTranscript_def upsert_transcript_wf split: sum.splits)


section \<open>Reordering\<close>

lemma check_ids_iff:
  "check_ids current seen is \<longleftrightarrow> distinct is \<and> set is \<subseteq> set current \<and> set is \<inter> set seen = {}"
  by (induction "is" arbitrary: seen) auto

text \<open>What the renumbering loop does to one row.\<close>

definition renumbered :: "string \<Rightarrow> int \<Rightarrow> int \<Rightarrow> string list \<Rightarrow> episode_row \<Rightarrow> episode_row" where
  "renumbered cid upd k is r =
     (if er_channel_id r = cid \<and> er_id r \<in> set is \<and> er_position r \<noteq> k + int (index_of is (er_id r))
      then r\<lparr>er_position := k + int (index_of is (er_id r)), er_updated_at := upd\<rparr> else r)"

lemma renumber_eq:
  "distinct is \<Longrightarrow> renumber cid upd k is rs = map (renumbered cid upd k is) rs"
proof (induction "is" arbitrary: k rs)
  case Nil
  show ?case by (induction rs) (simp_all add: renumbered_def)
next
  case (Cons i "is")
  have "renumbered cid upd (k + 1) is
          (if er_id r = i \<and> er_channel_id r = cid \<and> er_position r \<noteq> k
           then r\<lparr>er_position := k, er_updated_at := upd\<rparr> else r) = renumbered cid upd k (i # is) r" for r
    using Cons.prems by (cases "er_id r = i") (auto simp: renumbered_def)
  then show ?case using Cons by (simp add: upd_where_def comp_def)
qed

lemma renumbered_frame [simp]:
  "er_id (renumbered cid upd k is r) = er_id r"
  "er_channel_id (renumbered cid upd k is r) = er_channel_id r"
  "er_status (renumbered cid upd k is r) = er_status r"
  "er_transcript_status (renumbered cid upd k is r) = er_transcript_status r"
  "er_media_key (renumbered cid upd k is r) = er_media_key r"
  by (simp_all add: renumbered_def)

lemma renumbered_position:
  "er_channel_id r = cid \<Longrightarrow> er_id r \<in> set is \<Longrightarrow>
   er_position (renumbered cid upd k is r) = k + int (index_of is (er_id r))"
  by (simp add: renumbered_def)

lemma set_channelEpisodeIDs:
  "set (channelEpisodeIDs cid d) = er_id ` {r \<in> set (episodes d). er_channel_id r = cid}"
  by (simp add: channelEpisodeIDs_def)

lemma distinct_channelEpisodeIDs: "distinct (channelEpisodeIDs cid d)"
  by (simp add: channelEpisodeIDs_def)

lemma perm_iff:
  assumes "distinct current"
  shows "length is = length current \<and> check_ids current [] is \<longleftrightarrow> distinct is \<and> set is = set current"
proof -
  have "length is = length current" if "distinct is" "set is = set current"
    using that assms by (metis distinct_card)
  moreover have "set is = set current"
    if "length is = length current" "distinct is" "set is \<subseteq> set current"
    using that assms by (metis List.finite_set card_subset_eq distinct_card)
  ultimately show ?thesis by (auto simp: check_ids_iff)
qed

lemma ReorderEpisodes_eq:
  "ReorderEpisodes cid ids t d =
     (if distinct ids \<and> set ids = set (channelEpisodeIDs cid d)
      then (Inr (), d\<lparr>episodes := map (renumbered cid (toUnix t) 0 ids) (episodes d)\<rparr>)
      else (Inl ErrInvalidReorder, d))"
  using perm_iff [OF distinct_channelEpisodeIDs, of ids cid d]
  by (auto simp: ReorderEpisodes_def with_tx_def Let_def renumber_eq)

lemma ReorderEpisodes_wf:
  assumes "wf_db d" shows "wf_db (snd (ReorderEpisodes cid ids t d))"
proof -
  have "wf_db (d\<lparr>episodes := map (renumbered cid (toUnix t) 0 ids) (episodes d)\<rparr>)"
    by (rule wf_db_episodes [OF assms])
      (use assms in \<open>auto simp: wf_db_def wf_episodes_def comp_def image_image\<close>)
  then show ?thesis using assms by (simp add: ReorderEpisodes_eq)
qed

lemma sorted_positions:
  assumes "sorted (map episode_order rs)"
    and "\<And>r. r \<in> set rs \<Longrightarrow> er_position r = int (index_of ids (er_id r))"
  shows "sorted (map (index_of ids) (map er_id rs))"
proof -
  have "sorted (map (\<lambda>r. int (index_of ids (er_id r))) rs)"
    unfolding sorted_map
  proof (rule sorted_wrt_mono_rel [OF _ assms(1) [unfolded sorted_map]])
    fix x y assume "x \<in> set rs" "y \<in> set rs" "episode_order x \<le> episode_order y"
    then show "int (index_of ids (er_id x)) \<le> int (index_of ids (er_id y))"
      using assms(2) by (auto simp: less_eq_ep_order_def episode_order_def)
  qed
  then show ?thesis by (simp add: sorted_map)
qed

lemma ListEpisodes_reordered:
  assumes wf: "wf_db d" and cid: "cid \<noteq> []"
    and ok: "ReorderEpisodes cid ids t d = (Inr (), d')"
  shows "map e_ID (ListEpisodes \<lparr>f_ChannelID = cid, f_PublishedOnly = False, f_Limit = 0\<rparr> d') = ids"
proof -
  let ?f = "\<lparr>f_ChannelID = cid, f_PublishedOnly = False, f_Limit = 0\<rparr>"
  let ?rs = "sort_key episode_order (filter (filter_match ?f) (episodes d'))"
  have perm: "distinct ids" "set ids = er_id ` {r \<in> set (episodes d). er_channel_id r = cid}"
    and d': "episodes d' = map (renumbered cid (toUnix t) 0 ids) (episodes d)"
    using ok by (auto simp: ReorderEpisodes_eq set_channelEpisodeIDs split: if_splits)
  have m: "filter_match ?f r \<longleftrightarrow> er_channel_id r = cid" for r
    using cid by (auto simp: filter_match_def)
  have ids': "map er_id (episodes d') = map er_id (episodes d)" by (simp add: d')
  then have "distinct (map er_id (episodes d'))" using wf by (simp add: wf_db_def wf_episodes_def)
  then have "distinct (map er_id (filter (filter_match ?f) (episodes d')))"
    by (rule distinct_map_filter)
  then have dist: "distinct (map er_id ?rs)" by (simp add: distinct_map)
  have set: "set (map er_id ?rs) = set ids"
  proof -
    have "filter (\<lambda>r. er_channel_id r = cid) (episodes d')
        = map (renumbered cid (toUnix t) 0 ids) (filter (\<lambda>r. er_channel_id r = cid) (episodes d))"
      by (simp add: d' filter_map comp_def)
    then have "er_id ` set (filter (\<lambda>r. er_channel_id r = cid) (episodes d'))
        = er_id ` set (filter (\<lambda>r. er_channel_id r = cid) (episodes d))"
      by (simp only: set_map image_image renumbered_frame)
    then show ?thesis by (simp add: perm m)
  qed
  have pos: "er_position r = int (index_of ids (er_id r))" if "r \<in> set ?rs" for r
  proof -
    from that have "r \<in> set (episodes d')" and c: "er_channel_id r = cid" by (simp_all add: m)
    then obtain q where q: "q \<in> set (episodes d)" "r = renumbered cid (toUnix t) 0 ids q"
      unfolding d' by auto
    with c have "er_channel_id q = cid" by (simp only: renumbered_frame)
    with q show ?thesis using renumbered_position [of q cid ids] perm(2) by simp
  qed
  have "map er_id ?rs = ids"
    by (rule sorted_index_of_unique [OF perm(1) dist set])
      (rule sorted_positions [OF sorted_sort_key pos])
  then show ?thesis by (simp add: ListEpisodes_def Let_def scanEpisode_def comp_def)
qed

section \<open>What reads return after writes\<close>

lemma episodeWhere_Inr: "episodeWhere c d = Inr e \<Longrightarrow> \<exists>r \<in> set (episodes d). c r \<and> e = scanEpisode r"
  by (auto simp: episodeWhere_def split: option.splits dest: find_SomeD)

lemma EpisodeByID_update_episode:
  assumes "\<And>r. er_id (f r) = er_id r"
  shows "EpisodeByID i (snd (update_episode eid f d)) =
    (case find (\<lambda>r. er_id r = i) (episodes d) of None \<Rightarrow> Inl ErrNotFound
     | Some r \<Rightarrow> Inr (scanEpisode (if i = eid then f r else r)))"
  using assms
  by (auto simp: EpisodeByID_def episodeWhere_def update_episode_def Let_def find_upd_where_key
      split: option.splits dest: find_SomeD)

lemma update_episode_fst:
  "fst (update_episode eid f d) = (case EpisodeByID eid d of Inl e \<Rightarrow> Inl ErrNotFound | Inr _ \<Rightarrow> Inr ())"
  by (auto simp: update_episode_def EpisodeByID_def episodeWhere_def Let_def requireAffected_def
      count_where_0 find_NoneD split: option.splits sum.splits dest: find_SomeD)

lemma EpisodeByID_metadata:
  "EpisodeByID i (snd (UpdateEpisodeMetadata eid ti de la t d)) =
     map_sum id (\<lambda>e. if i = eid then e\<lparr>e_Title := ti, e_Description := de, e_Language := la,
       e_UpdatedAt := fromUnix (toUnix t)\<rparr> else e) (EpisodeByID i d)"
  by (simp add: UpdateEpisodeMetadata_def EpisodeByID_update_episode)
    (simp add: EpisodeByID_def episodeWhere_def scanEpisode_def split: option.splits)

lemma EpisodeByID_publication:
  "EpisodeByID i (snd (SetEpisodePublication eid st p t d)) =
     map_sum id (\<lambda>e. if i = eid then e\<lparr>e_Status := st,
       e_PublishedAt := fromUnixPtr (toUnixPtr p), e_UpdatedAt := fromUnix (toUnix t)\<rparr> else e)
       (EpisodeByID i d)"
  by (simp add: SetEpisodePublication_def EpisodeByID_update_episode)
    (simp add: EpisodeByID_def episodeWhere_def scanEpisode_def split: option.splits)

lemma PublishedEpisodeByMediaKey_status:
  "PublishedEpisodeByMediaKey key d = Inr e \<Longrightarrow> e_Status e = EpisodePublished \<and> e_MediaKey e = key"
  unfolding PublishedEpisodeByMediaKey_def
  by (drule episodeWhere_Inr) (auto simp: scanEpisode_def)

lemma TranscriptByEpisode_upsert:
  assumes "upsert_transcript t d = Inr d'"
  shows "TranscriptByEpisode (t_EpisodeID t) d'
     = Inr (t\<lparr>t_CreatedAt := fromUnix (toUnix (t_CreatedAt t))\<rparr>)"
proof -
  from assms obtain segs where m: "marshalSegments (t_Segments t) = Some segs" "segs = t_Segments t"
    by (auto simp: upsert_transcript_def marshalSegments_def split: option.splits if_splits)
  let ?hit = "\<lambda>r. tr_episode_id r = t_EpisodeID t" and ?row = "transcript_to_row t segs"
  have "find ?hit (transcripts d') = Some ?row"
  proof (cases "list_ex ?hit (transcripts d)")
    case True
    then have "find ?hit (upd_where ?hit (\<lambda>_. ?row) (transcripts d)) = Some ?row"
      by (rule find_upd_where_hit) (simp add: transcript_to_row_def)
    with True assms m show ?thesis by (auto simp: upsert_transcript_def Let_def)
  next
    case False
    then have "t_EpisodeID t \<notin> tr_episode_id ` set (transcripts d)" by (auto simp: list_ex_iff)
    moreover have "transcripts d' = transcripts d @ [?row]"
      using False assms m by (auto simp: upsert_transcript_def Let_def split: if_splits)
    ultimately show ?thesis by (simp add: find_key_append_new transcript_to_row_def)
  qed
  then show ?thesis
    using m by (simp add: TranscriptByEpisode_def scanTranscript_def transcript_to_row_def)
qed

end
