(* ===== verification/StoreBlobs.thy ===== *)
theory StoreBlobs
  imports StoreEpisodes
begin

text \<open>
  The media-blob bookkeeping of \<open>store/sqlite/sqlite_crud.go\<close>: the reference count of a
  content-addressed key, the upload reservations, the single-winner delete lease and the
  episode delete that decides orphan-hood and takes the lease in one transaction.  The
  interface the upload and delete handlers rely on is the locale \<open>blob_guard\<close>; its laws
  give that a key is never reserved and leased at once, and it is interpreted on these
  definitions.
\<close>

section \<open>Cut-offs and counts\<close>

definition reservationCutoff :: "time \<Rightarrow> int" where
  "reservationCutoff now = toUnix (now - BlobReservationTTL)"

definition deleteLeaseCutoff :: "time \<Rightarrow> int" where
  "deleteLeaseCutoff now = toUnix (now - BlobDeleteLeaseTTL)"

definition countBlobRefs :: "string \<Rightarrow> int \<Rightarrow> db \<Rightarrow> nat" where
  "countBlobRefs key cutoff d =
     count_where (\<lambda>r. er_media_key r = key) (episodes d)
     + count_where (\<lambda>r. cr_image_key r = key \<and> cr_image_key r \<noteq> []) (channels d)
     + count_where (\<lambda>r. br_media_key r = key \<and> cutoff < br_created_at r) (reservations d)"

section \<open>Leases and reservations\<close>

text \<open>The owner token when the lease was acquired, \<open>None\<close> while another one is active.\<close>

definition acquireDeleteLeaseTx :: "string \<Rightarrow> time \<Rightarrow> db \<Rightarrow> int option \<times> db" where
  "acquireDeleteLeaseTx key now d =
     (if 0 < count_where (\<lambda>r. br_media_key r = key \<and> deleteLeaseCutoff now < br_created_at r) (leases d)
      then (None, d)
      else (let kept = del_where (\<lambda>r. br_media_key r = key) (leases d);
                token = lease_seq d + 1
            in (Some token,
                d\<lparr>leases := kept @ [\<lparr>br_id = token, br_media_key = key, br_created_at = toUnix now\<rparr>],
                  lease_seq := token\<rparr>)))"

definition ReserveBlob :: "string \<Rightarrow> time \<Rightarrow> db \<Rightarrow> int res \<times> db" where
  "ReserveBlob key now = with_tx (\<lambda>d.
     if 0 < count_where (\<lambda>r. br_media_key r = key \<and> deleteLeaseCutoff now < br_created_at r) (leases d)
     then (Inl ErrBlobDeleting, None)
     else (let token = reservation_seq d + 1
           in (Inr token, Some (d\<lparr>reservations := reservations d
                 @ [\<lparr>br_id = token, br_media_key = key, br_created_at = toUnix now\<rparr>],
                 reservation_seq := token\<rparr>))))"

definition ReleaseBlob :: "int \<Rightarrow> db \<Rightarrow> unit res \<times> db" where
  "ReleaseBlob token d =
     (Inr (), d\<lparr>reservations := del_where (\<lambda>r. br_id r = token) (reservations d)\<rparr>)"

definition ReleaseDeleteLease :: "int \<Rightarrow> db \<Rightarrow> unit res \<times> db" where
  "ReleaseDeleteLease token d = (Inr (), d\<lparr>leases := del_where (\<lambda>r. br_id r = token) (leases d)\<rparr>)"

text \<open>
  \<open>(orphaned, deleteToken)\<close>.  The returns before \<open>Commit\<close> carry no error: nothing was
  written, so rolling back changes nothing.
\<close>

definition BlobOrphaned :: "string \<Rightarrow> time \<Rightarrow> db \<Rightarrow> (bool \<times> int) res \<times> db" where
  "BlobOrphaned key now d =
     (if key = [] then (Inr (False, 0), d)
      else with_tx (\<lambda>d.
        if countBlobRefs key (reservationCutoff now) d \<noteq> 0 then (Inr (False, 0), None)
        else (case acquireDeleteLeaseTx key now d of
                (None, _) \<Rightarrow> (Inr (False, 0), None)
              | (Some token, d') \<Rightarrow> (Inr (True, token), Some d'))) d)"

section \<open>Deleting an episode\<close>

text \<open>\<open>DELETE FROM episodes\<close> with the cascade to the transcript of the episode.\<close>

definition delete_episode_row :: "string \<Rightarrow> db \<Rightarrow> db" where
  "delete_episode_row eid d =
     d\<lparr>episodes := del_where (\<lambda>r. er_id r = eid) (episodes d),
       transcripts := del_where (\<lambda>r. tr_episode_id r = eid) (transcripts d)\<rparr>"

text \<open>The result is \<open>(mediaKey, orphaned, deleteToken)\<close>.\<close>

definition DeleteEpisode :: "string \<Rightarrow> time \<Rightarrow> db \<Rightarrow> (string \<times> bool \<times> int) res \<times> db" where
  "DeleteEpisode eid now = with_tx (\<lambda>d.
     case find (\<lambda>r. er_id r = eid) (episodes d) of
       None \<Rightarrow> (Inl ErrNotFound, None)
     | Some row \<Rightarrow>
         (let key = er_media_key row; d1 = delete_episode_row eid d
          in if key \<noteq> [] \<and> countBlobRefs key (reservationCutoff now) d1 = 0
             then (case acquireDeleteLeaseTx key now d1 of
                     (None, d2) \<Rightarrow> (Inr (key, False, 0), Some d2)
                   | (Some token, d2) \<Rightarrow> (Inr (key, True, token), Some d2))
             else (Inr (key, False, 0), Some d1)))"

section \<open>Observations\<close>

text \<open>What the counts of the code test: an active reservation, an active lease, a reference.\<close>

definition reserved :: "string \<Rightarrow> time \<Rightarrow> db \<Rightarrow> bool" where
  "reserved key now d \<longleftrightarrow> (\<exists>r \<in> set (reservations d).
     br_media_key r = key \<and> reservationCutoff now < br_created_at r)"

definition leased :: "string \<Rightarrow> time \<Rightarrow> db \<Rightarrow> bool" where
  "leased key now d \<longleftrightarrow> (\<exists>r \<in> set (leases d).
     br_media_key r = key \<and> deleteLeaseCutoff now < br_created_at r)"

definition referenced :: "string \<Rightarrow> db \<Rightarrow> bool" where
  "referenced key d \<longleftrightarrow> (\<exists>r \<in> set (episodes d). er_media_key r = key)
     \<or> (\<exists>r \<in> set (channels d). cr_image_key r = key \<and> key \<noteq> [])"

lemma countBlobRefs_0:
  "countBlobRefs key (reservationCutoff now) d = 0 \<longleftrightarrow> \<not> referenced key d \<and> \<not> reserved key now d"
  by (auto simp: countBlobRefs_def count_where_0 referenced_def reserved_def)

lemma lease_count_pos:
  "0 < count_where (\<lambda>r. br_media_key r = key \<and> deleteLeaseCutoff now < br_created_at r) (leases d)
     \<longleftrightarrow> leased key now d"
  by (simp add: count_where_pos leased_def)

text \<open>An entry written now is active, and an entry active later was active before.\<close>

lemma cutoffs_now [simp]:
  "reservationCutoff now < toUnix now" "deleteLeaseCutoff now < toUnix now"
  using toUnix_mono [of "now - BlobReservationTTL" "now - Second"]
    toUnix_mono [of "now - BlobDeleteLeaseTTL" "now - Second"]
    div_mult_mod_eq [of now 1000000000]
  by (simp_all add: reservationCutoff_def deleteLeaseCutoff_def toUnix_def units)

lemma cutoff_mono:
  "now \<le> now' \<Longrightarrow> reservationCutoff now \<le> reservationCutoff now'"
  "now \<le> now' \<Longrightarrow> deleteLeaseCutoff now \<le> deleteLeaseCutoff now'"
  by (simp_all add: reservationCutoff_def deleteLeaseCutoff_def toUnix_mono)

lemma reserved_antimono: "now \<le> now' \<Longrightarrow> reserved key now' d \<Longrightarrow> reserved key now d"
  using cutoff_mono(1) [of now now'] by (fastforce simp: reserved_def)

lemma leased_antimono: "now \<le> now' \<Longrightarrow> leased key now' d \<Longrightarrow> leased key now d"
  using cutoff_mono(2) [of now now'] by (fastforce simp: leased_def)

section \<open>Well-formedness is kept\<close>

lemma wf_db_leases: "wf_db d \<Longrightarrow> wf_seq rs n \<Longrightarrow> wf_db (d\<lparr>leases := rs, lease_seq := n\<rparr>)"
  by (simp add: wf_db_def wf_channels_def wf_episodes_def wf_transcripts_def)

lemma wf_db_reservations: "wf_db d \<Longrightarrow> wf_seq rs n \<Longrightarrow> wf_db (d\<lparr>reservations := rs, reservation_seq := n\<rparr>)"
  by (simp add: wf_db_def wf_channels_def wf_episodes_def wf_transcripts_def)

lemma acquire_wf:
  assumes "wf_db d" shows "wf_db (snd (acquireDeleteLeaseTx key now d))"
proof -
  have "wf_seq (leases d) (lease_seq d)" using assms by (simp add: wf_db_def)
  then have "wf_seq (del_where (\<lambda>r. br_media_key r = key) (leases d)
      @ [\<lparr>br_id = lease_seq d + 1, br_media_key = key, br_created_at = toUnix now\<rparr>]) (lease_seq d + 1)"
    by (simp add: wf_seq_insert wf_seq_delete)
  with assms show ?thesis by (simp add: acquireDeleteLeaseTx_def Let_def wf_db_leases)
qed

lemma ReserveBlob_wf: "wf_db d \<Longrightarrow> wf_db (snd (ReserveBlob key now d))"
  by (auto simp: ReserveBlob_def with_tx_def Let_def intro!: wf_db_reservations wf_seq_insert)
    (simp add: wf_db_def)

lemma ReleaseBlob_wf:
  assumes "wf_db d" shows "wf_db (snd (ReleaseBlob token d))"
  using wf_db_reservations [OF assms, of "del_where (\<lambda>r. br_id r = token) (reservations d)" "reservation_seq d"]
    assms by (simp add: ReleaseBlob_def wf_seq_delete wf_db_def)

lemma ReleaseDeleteLease_wf:
  assumes "wf_db d" shows "wf_db (snd (ReleaseDeleteLease token d))"
  using wf_db_leases [OF assms, of "del_where (\<lambda>r. br_id r = token) (leases d)" "lease_seq d"]
    assms by (simp add: ReleaseDeleteLease_def wf_seq_delete wf_db_def)

lemma BlobOrphaned_wf: "wf_db d \<Longrightarrow> wf_db (snd (BlobOrphaned key now d))"
  using acquire_wf [of d key now]
  by (auto simp: BlobOrphaned_def with_tx_def split: prod.splits option.splits)

lemma delete_episode_row_wf:
  assumes "wf_db d" shows "wf_db (delete_episode_row eid d)"
  using assms
  by (auto simp: delete_episode_row_def wf_db_def wf_channels_def wf_episodes_def wf_transcripts_def
      distinct_del_where set_del_where image_iff)

lemma DeleteEpisode_wf: "wf_db d \<Longrightarrow> wf_db (snd (DeleteEpisode eid now d))"
  using acquire_wf [OF delete_episode_row_wf [of d eid], of _ now]
  by (auto simp: DeleteEpisode_def with_tx_def Let_def delete_episode_row_wf
      split: prod.splits option.splits) (metis snd_conv)+

section \<open>Exact behaviour\<close>

lemma acquire_eq:
  "acquireDeleteLeaseTx key now d =
     (if leased key now d then (None, d)
      else (Some (lease_seq d + 1),
            d\<lparr>leases := del_where (\<lambda>r. br_media_key r = key) (leases d)
                 @ [\<lparr>br_id = lease_seq d + 1, br_media_key = key, br_created_at = toUnix now\<rparr>],
              lease_seq := lease_seq d + 1\<rparr>))"
  unfolding acquireDeleteLeaseTx_def lease_count_pos by (simp add: Let_def)

lemma ReserveBlob_eq:
  "ReserveBlob key now d =
     (if leased key now d then (Inl ErrBlobDeleting, d)
      else (Inr (reservation_seq d + 1),
            d\<lparr>reservations := reservations d
                 @ [\<lparr>br_id = reservation_seq d + 1, br_media_key = key, br_created_at = toUnix now\<rparr>],
              reservation_seq := reservation_seq d + 1\<rparr>))"
  unfolding ReserveBlob_def lease_count_pos by (simp add: with_tx_def Let_def)

lemma BlobOrphaned_eq:
  "BlobOrphaned key now d =
     (if key \<noteq> [] \<and> \<not> referenced key d \<and> \<not> reserved key now d \<and> \<not> leased key now d
      then (Inr (True, lease_seq d + 1), snd (acquireDeleteLeaseTx key now d))
      else (Inr (False, 0), d))"
  using countBlobRefs_0 [of key now d]
  by (auto simp: BlobOrphaned_def with_tx_def acquire_eq)

lemma delete_episode_row_obs [simp]:
  "reserved key now (delete_episode_row eid d) = reserved key now d"
  "leased key now (delete_episode_row eid d) = leased key now d"
  "lease_seq (delete_episode_row eid d) = lease_seq d"
  by (simp_all add: delete_episode_row_def reserved_def leased_def)

text \<open>What is left of the references to a key once the episode's row is gone.\<close>

definition referenced_elsewhere :: "string \<Rightarrow> string \<Rightarrow> db \<Rightarrow> bool" where
  "referenced_elsewhere eid key d \<longleftrightarrow>
     (\<exists>r \<in> set (episodes d). er_id r \<noteq> eid \<and> er_media_key r = key)
     \<or> (\<exists>r \<in> set (channels d). cr_image_key r = key \<and> key \<noteq> [])"

lemma referenced_deleted:
  "referenced key (delete_episode_row eid d) = referenced_elsewhere eid key d"
  by (auto simp: referenced_def referenced_elsewhere_def delete_episode_row_def set_del_where)

lemma DeleteEpisode_eq:
  "DeleteEpisode eid now d =
     (case find (\<lambda>r. er_id r = eid) (episodes d) of None \<Rightarrow> (Inl ErrNotFound, d)
      | Some row \<Rightarrow>
          (let key = er_media_key row; d1 = delete_episode_row eid d in
           if key \<noteq> [] \<and> \<not> referenced_elsewhere eid key d \<and> \<not> reserved key now d \<and> \<not> leased key now d
           then (Inr (key, True, lease_seq d + 1), snd (acquireDeleteLeaseTx key now d1))
           else (Inr (key, False, 0), d1)))"
proof (cases "find (\<lambda>r. er_id r = eid) (episodes d)")
  case None
  then show ?thesis by (simp add: DeleteEpisode_def with_tx_def)
next
  case (Some row)
  then show ?thesis
    using countBlobRefs_0 [of "er_media_key row" now "delete_episode_row eid d"]
    by (auto simp: DeleteEpisode_def with_tx_def Let_def acquire_eq referenced_deleted)
qed

section \<open>The interface of the upload and delete handlers\<close>

text \<open>
  What the handlers rely on, and no more: a reservation is refused while the key is
  leased; an orphan decision is positive only for a key without reference, reservation
  and lease, and then holds the lease; releases only remove; entries only expire.
\<close>

locale blob_guard =
  fixes reserve :: "string \<Rightarrow> time \<Rightarrow> 'd \<Rightarrow> int res \<times> 'd"
    and orphan :: "string \<Rightarrow> time \<Rightarrow> 'd \<Rightarrow> (bool \<times> int) res \<times> 'd"
    and drop_reservation :: "int \<Rightarrow> 'd \<Rightarrow> unit res \<times> 'd"
    and drop_lease :: "int \<Rightarrow> 'd \<Rightarrow> unit res \<times> 'd"
    and held :: "string \<Rightarrow> time \<Rightarrow> 'd \<Rightarrow> bool"
    and deleting :: "string \<Rightarrow> time \<Rightarrow> 'd \<Rightarrow> bool"
    and refd :: "string \<Rightarrow> 'd \<Rightarrow> bool"
  assumes reserve_blocked: "deleting key now d \<Longrightarrow> reserve key now d = (Inl ErrBlobDeleting, d)"
    and reserve_free: "\<not> deleting key now d \<Longrightarrow> \<exists>tok d'. reserve key now d = (Inr tok, d')"
    and reserve_held: "reserve key now d = (Inr tok, d') \<Longrightarrow> held key now d'"
    and reserve_other: "reserve key now d = (Inr tok, d') \<Longrightarrow> k \<noteq> key \<Longrightarrow> held k t d' = held k t d"
    and reserve_lease: "reserve key now d = (Inr tok, d') \<Longrightarrow> deleting k t d' = deleting k t d"
    and orphan_True: "orphan key now d = (Inr (True, tok), d') \<Longrightarrow>
          \<not> refd key d \<and> \<not> held key now d \<and> \<not> deleting key now d \<and> deleting key now d'"
    and orphan_False: "orphan key now d = (Inr (False, tok), d') \<Longrightarrow> d' = d"
    and orphan_held: "orphan key now d = (Inr r, d') \<Longrightarrow> held k t d' = held k t d"
    and orphan_lease: "orphan key now d = (Inr r, d') \<Longrightarrow> k \<noteq> key \<Longrightarrow> deleting k t d' = deleting k t d"
    and drop_reservation_held: "held k t (snd (drop_reservation tok d)) \<Longrightarrow> held k t d"
    and drop_reservation_lease: "deleting k t (snd (drop_reservation tok d)) = deleting k t d"
    and drop_lease_held: "held k t (snd (drop_lease tok d)) = held k t d"
    and drop_lease_lease: "deleting k t (snd (drop_lease tok d)) \<Longrightarrow> deleting k t d"
    and held_expires: "now \<le> now' \<Longrightarrow> held k now' d \<Longrightarrow> held k now d"
    and deleting_expires: "now \<le> now' \<Longrightarrow> deleting k now' d \<Longrightarrow> deleting k now d"
begin

definition exclusive :: "time \<Rightarrow> 'd \<Rightarrow> bool" where
  "exclusive now d \<longleftrightarrow> (\<forall>k. \<not> (held k now d \<and> deleting k now d))"

lemma exclusive_wait: "exclusive now d \<Longrightarrow> now \<le> now' \<Longrightarrow> exclusive now' d"
  unfolding exclusive_def using held_expires deleting_expires by blast

lemma exclusive_reserve:
  assumes "exclusive now d" and "reserve key now d = (Inr tok, d')"
  shows "exclusive now d'"
proof -
  have "\<not> deleting key now d" using assms(2) reserve_blocked by fastforce
  then have "\<not> deleting key now d'" using reserve_lease [OF assms(2)] by simp
  moreover have "\<not> (held k now d' \<and> deleting k now d')" if "k \<noteq> key" for k
    using assms(1) reserve_other [OF assms(2) that] reserve_lease [OF assms(2)]
    by (simp add: exclusive_def)
  ultimately show ?thesis unfolding exclusive_def by metis
qed

lemma exclusive_orphan:
  assumes "exclusive now d" and "orphan key now d = (Inr (b, tok), d')"
  shows "exclusive now d'"
proof (cases b)
  case False
  then have "d' = d" using assms(2) orphan_False by simp
  with assms(1) show ?thesis by simp
next
  case True
  then have "\<not> held key now d'"
    using assms(2) orphan_True [of key now d tok d'] orphan_held [OF assms(2)] by simp
  moreover have "\<not> (held k now d' \<and> deleting k now d')" if "k \<noteq> key" for k
    using assms(1) orphan_held [OF assms(2)] orphan_lease [OF assms(2) that]
    by (simp add: exclusive_def)
  ultimately show ?thesis unfolding exclusive_def by metis
qed

lemma exclusive_drop:
  "exclusive now d \<Longrightarrow> exclusive now (snd (drop_reservation tok d))"
  "exclusive now d \<Longrightarrow> exclusive now (snd (drop_lease tok d))"
  using drop_reservation_held drop_reservation_lease drop_lease_held drop_lease_lease
  by (auto simp: exclusive_def)

text \<open>A second orphan decision cannot win while the first lease is active.\<close>

lemma single_winner:
  assumes "orphan key now d = (Inr (True, tok), d')" and "orphan key now d' = (Inr (b, tok'), d'')"
  shows "\<not> b"
proof
  assume b
  with assms(2) have "\<not> deleting key now d'" using orphan_True by simp
  with assms(1) show False using orphan_True by blast
qed

lemma reserve_after_orphan:
  "orphan key now d = (Inr (True, tok), d') \<Longrightarrow> reserve key now d' = (Inl ErrBlobDeleting, d')"
  using orphan_True reserve_blocked by blast

end

lemma leased_acquired:
  "\<not> leased key now d \<Longrightarrow> leased k t (snd (acquireDeleteLeaseTx key now d)) \<longleftrightarrow>
     (if k = key then deleteLeaseCutoff t < toUnix now else leased k t d)"
  by (auto simp: acquire_eq leased_def set_del_where)

lemma reserved_acquired [simp]: "reserved k t (snd (acquireDeleteLeaseTx key now d)) = reserved k t d"
  by (simp add: acquire_eq reserved_def)

interpretation bg: blob_guard ReserveBlob BlobOrphaned ReleaseBlob ReleaseDeleteLease
    reserved leased referenced
proof unfold_locales
  fix key k :: string and now now' t :: time and d d' :: db and tok :: int and r :: "bool \<times> int"
  show "leased key now d \<Longrightarrow> ReserveBlob key now d = (Inl ErrBlobDeleting, d)"
    by (simp add: ReserveBlob_eq)
  show "\<not> leased key now d \<Longrightarrow> \<exists>tok d'. ReserveBlob key now d = (Inr tok, d')"
    by (simp add: ReserveBlob_eq)
  show "ReserveBlob key now d = (Inr tok, d') \<Longrightarrow> reserved key now d'"
    by (auto simp: ReserveBlob_eq reserved_def split: if_splits)
  show "ReserveBlob key now d = (Inr tok, d') \<Longrightarrow> k \<noteq> key \<Longrightarrow> reserved k t d' = reserved k t d"
    by (auto simp: ReserveBlob_eq reserved_def split: if_splits)
  show "ReserveBlob key now d = (Inr tok, d') \<Longrightarrow> leased k t d' = leased k t d"
    by (auto simp: ReserveBlob_eq leased_def split: if_splits)
  show "BlobOrphaned key now d = (Inr (True, tok), d') \<Longrightarrow>
      \<not> referenced key d \<and> \<not> reserved key now d \<and> \<not> leased key now d \<and> leased key now d'"
    by (auto simp: BlobOrphaned_eq leased_acquired split: if_splits)
  show "BlobOrphaned key now d = (Inr (False, tok), d') \<Longrightarrow> d' = d"
    by (auto simp: BlobOrphaned_eq split: if_splits)
  show "BlobOrphaned key now d = (Inr r, d') \<Longrightarrow> reserved k t d' = reserved k t d"
    by (auto simp: BlobOrphaned_eq split: if_splits)
  show "BlobOrphaned key now d = (Inr r, d') \<Longrightarrow> k \<noteq> key \<Longrightarrow> leased k t d' = leased k t d"
    by (auto simp: BlobOrphaned_eq leased_acquired split: if_splits)
  show "reserved k t (snd (ReleaseBlob tok d)) \<Longrightarrow> reserved k t d"
    by (auto simp: ReleaseBlob_def reserved_def set_del_where)
  show "leased k t (snd (ReleaseBlob tok d)) = leased k t d"
    by (simp add: ReleaseBlob_def leased_def)
  show "reserved k t (snd (ReleaseDeleteLease tok d)) = reserved k t d"
    by (simp add: ReleaseDeleteLease_def reserved_def)
  show "leased k t (snd (ReleaseDeleteLease tok d)) \<Longrightarrow> leased k t d"
    by (auto simp: ReleaseDeleteLease_def leased_def set_del_where)
qed (fact reserved_antimono leased_antimono)+

end
