(* ===== verification/StoreJobs.thy ===== *)
theory StoreJobs
  imports StoreBlobs
begin

text \<open>
  \<open>store/sqlite/sqlite_jobs.go\<close> and the two settlement methods of \<open>sqlite_crud.go\<close>: the
  job table behind the queue.  A claim leases the oldest runnable row and bumps its
  \<open>attempts\<close>, which is the claim's fencing token; every settlement applies only while the
  token and the \<open>processing\<close> state still hold.
\<close>

section \<open>Rows\<close>

definition job_to_row :: "job \<Rightarrow> job_row" where
  "job_to_row j = \<lparr>jr_id = j_ID j, jr_kind = j_Kind j, jr_payload = j_Payload j,
     jr_status = j_Status j, jr_attempts = j_Attempts j, jr_last_error = j_LastError j,
     jr_run_after = toUnix (j_RunAfter j), jr_created_at = toUnix (j_CreatedAt j),
     jr_updated_at = toUnix (j_UpdatedAt j)\<rparr>"

definition scanJob :: "job_row \<Rightarrow> job" where
  "scanJob r = \<lparr>j_ID = jr_id r, j_Kind = jr_kind r, j_Payload = jr_payload r,
     j_Status = jr_status r, j_Attempts = jr_attempts r, j_LastError = jr_last_error r,
     j_RunAfter = fromUnix (jr_run_after r), j_CreatedAt = fromUnix (jr_created_at r),
     j_UpdatedAt = fromUnix (jr_updated_at r)\<rparr>"

section \<open>Enqueueing\<close>

definition insertJob :: "job \<Rightarrow> db \<Rightarrow> db res" where
  "insertJob j d =
     (if list_ex (\<lambda>r. jr_id r = j_ID j) (jobs d) then Inl ErrConflict
      else Inr (d\<lparr>jobs := jobs d @ [job_to_row j]\<rparr>))"

definition EnqueueJob :: "job \<Rightarrow> db \<Rightarrow> unit res \<times> db" where
  "EnqueueJob j d = (case insertJob j d of Inl e \<Rightarrow> (Inl e, d) | Inr d' \<Rightarrow> (Inr (), d'))"

definition in_progress :: "TranscriptStatus \<Rightarrow> bool" where
  "in_progress st \<longleftrightarrow> st = TranscriptPending \<or> st = TranscriptProcessing"

definition EnqueueTranscriptionJob :: "job \<Rightarrow> string \<Rightarrow> time \<Rightarrow> db \<Rightarrow> unit res \<times> db" where
  "EnqueueTranscriptionJob j eid t = with_tx (\<lambda>d.
     let hit = (\<lambda>r. er_id r = eid \<and> \<not> in_progress (er_transcript_status r));
         d1 = d\<lparr>episodes := upd_where hit (set_status_cols TranscriptPending t) (episodes d)\<rparr>
     in if count_where hit (episodes d) = 0
        then (if list_ex (\<lambda>r. er_id r = eid) (episodes d) then (Inl ErrConflict, None)
              else (Inl ErrNotFound, None))
        else (case insertJob j d1 of Inl e \<Rightarrow> (Inl e, None) | Inr d2 \<Rightarrow> (Inr (), Some d2)))"

definition JobByID :: "string \<Rightarrow> db \<Rightarrow> job res" where
  "JobByID jid d =
     (case find (\<lambda>r. jr_id r = jid) (jobs d) of None \<Rightarrow> Inl ErrNotFound | Some r \<Rightarrow> Inr (scanJob r))"

section \<open>Claiming\<close>

definition runnable :: "time \<Rightarrow> job_row \<Rightarrow> bool" where
  "runnable now r \<longleftrightarrow> jr_status r \<in> {JobPending, JobProcessing} \<and> jr_run_after r \<le> toUnix now"

definition kind_match :: "JobKind list \<Rightarrow> job_row \<Rightarrow> bool" where
  "kind_match kinds r \<longleftrightarrow> kinds = [] \<or> jr_kind r \<in> set kinds"

text \<open>\<open>ORDER BY run_after ASC, created_at ASC LIMIT 1\<close>.\<close>

definition job_order :: "job_row \<Rightarrow> int \<times> int" where
  "job_order r = (jr_run_after r, jr_created_at r)"

definition select_runnable :: "JobKind list \<Rightarrow> time \<Rightarrow> db \<Rightarrow> job_row option" where
  "select_runnable kinds now d =
     (case sort_key job_order (filter (\<lambda>r. runnable now r \<and> kind_match kinds r) (jobs d)) of
        [] \<Rightarrow> None | r # _ \<Rightarrow> Some r)"

definition leased_job :: "time \<Rightarrow> duration \<Rightarrow> job \<Rightarrow> job" where
  "leased_job now lease j = j\<lparr>j_Status := JobProcessing, j_Attempts := j_Attempts j + 1,
     j_UpdatedAt := now, j_RunAfter := fromUnix (toUnixCeil (now + lease))\<rparr>"

definition ClaimJob :: "JobKind list \<Rightarrow> time \<Rightarrow> duration \<Rightarrow> db \<Rightarrow> job res \<times> db" where
  "ClaimJob kinds now lease = with_tx (\<lambda>d.
     case select_runnable kinds now d of
       None \<Rightarrow> (Inl ErrNotFound, None)
     | Some row \<Rightarrow>
         (let j = leased_job now lease (scanJob row);
              hit = (\<lambda>r. jr_id r = j_ID j \<and> jr_status r = jr_status row
                         \<and> jr_attempts r = jr_attempts row \<and> jr_run_after r = jr_run_after row);
              upd = (\<lambda>r. r\<lparr>jr_status := j_Status j, jr_attempts := j_Attempts j,
                           jr_run_after := toUnix (j_RunAfter j), jr_updated_at := toUnix (j_UpdatedAt j)\<rparr>)
          in if count_where hit (jobs d) \<noteq> 1 then (Inl ErrNotFound, None)
             else (Inr j, Some (d\<lparr>jobs := upd_where hit upd (jobs d)\<rparr>))))"

definition CountPendingJobs :: "time \<Rightarrow> db \<Rightarrow> nat" where
  "CountPendingJobs now d = count_where (runnable now) (jobs d)"

section \<open>Settling\<close>

definition setJobStatus ::
    "string \<Rightarrow> int \<Rightarrow> JobStatus \<Rightarrow> string \<Rightarrow> time option \<Rightarrow> time \<Rightarrow> db \<Rightarrow> unit res \<times> db" where
  "setJobStatus jid token st cause runAfter now d =
     (let hit = (\<lambda>r. jr_id r = jid \<and> jr_attempts r = token \<and> jr_status r = JobProcessing);
          upd = (\<lambda>r. case runAfter of
                   Some t \<Rightarrow> r\<lparr>jr_status := st, jr_last_error := cause,
                              jr_run_after := toUnix t, jr_updated_at := toUnix now\<rparr>
                 | None \<Rightarrow> r\<lparr>jr_status := st, jr_last_error := cause, jr_updated_at := toUnix now\<rparr>);
          d' = d\<lparr>jobs := upd_where hit upd (jobs d)\<rparr>
      in if count_where hit (jobs d) = 0 then (Inl ErrStaleClaim, d') else (Inr (), d'))"

definition CompleteJob :: "string \<Rightarrow> int \<Rightarrow> time \<Rightarrow> db \<Rightarrow> unit res \<times> db" where
  "CompleteJob jid token = setJobStatus jid token JobDone [] None"

definition RescheduleJob :: "string \<Rightarrow> int \<Rightarrow> time \<Rightarrow> string \<Rightarrow> time \<Rightarrow> db \<Rightarrow> unit res \<times> db" where
  "RescheduleJob jid token runAfter cause = setJobStatus jid token JobPending cause (Some runAfter)"

definition FailJob :: "string \<Rightarrow> int \<Rightarrow> string \<Rightarrow> time \<Rightarrow> db \<Rightarrow> unit res \<times> db" where
  "FailJob jid token cause = setJobStatus jid token JobFailed cause None"

definition setEpisodeStatusTx :: "string \<Rightarrow> TranscriptStatus \<Rightarrow> time \<Rightarrow> db \<Rightarrow> db" where
  "setEpisodeStatusTx eid st t d =
     d\<lparr>episodes := upd_where (\<lambda>r. er_id r = eid) (set_status_cols st t) (episodes d)\<rparr>"

definition save_and_mark ::
    "transcript option \<Rightarrow> string \<Rightarrow> TranscriptStatus \<Rightarrow> time \<Rightarrow> db \<Rightarrow> db res" where
  "save_and_mark transcript eid st t d =
     (case transcript of
        None \<Rightarrow> Inr (setEpisodeStatusTx eid st t d)
      | Some tr \<Rightarrow> map_sum id (setEpisodeStatusTx eid st t) (upsert_transcript tr d))"

definition settle_source_states :: "transcript option \<Rightarrow> TranscriptStatus \<Rightarrow> JobStatus list" where
  "settle_source_states transcript st =
     (if st = TranscriptFailed \<and> transcript = None then [JobProcessing, JobFailed] else [JobProcessing])"

definition SettleEpisodeTranscript ::
    "string \<Rightarrow> int \<Rightarrow> string \<Rightarrow> transcript option \<Rightarrow> TranscriptStatus \<Rightarrow> time \<Rightarrow> db \<Rightarrow> unit res \<times> db" where
  "SettleEpisodeTranscript jid token eid transcript st t = with_tx (\<lambda>d.
     if count_where (\<lambda>r. jr_id r = jid \<and> jr_attempts r = token
          \<and> jr_status r \<in> set (settle_source_states transcript st)) (jobs d) = 0
     then (Inl ErrStaleClaim, None)
     else (case save_and_mark transcript eid st t d of
             Inl e \<Rightarrow> (Inl e, None) | Inr d' \<Rightarrow> (Inr (), Some d')))"

definition SettleEpisodeTranscriptAndCompleteJob ::
    "string \<Rightarrow> int \<Rightarrow> string \<Rightarrow> transcript option \<Rightarrow> TranscriptStatus \<Rightarrow> time \<Rightarrow> db \<Rightarrow> unit res \<times> db" where
  "SettleEpisodeTranscriptAndCompleteJob jid token eid transcript st t = with_tx (\<lambda>d.
     let hit = (\<lambda>r. jr_id r = jid \<and> jr_attempts r = token \<and> jr_status r = JobProcessing);
         d1 = d\<lparr>jobs := upd_where hit (\<lambda>r. r\<lparr>jr_status := JobDone, jr_last_error := [],
                                              jr_updated_at := toUnix t\<rparr>) (jobs d)\<rparr>
     in if count_where hit (jobs d) = 0 then (Inl ErrStaleClaim, None)
        else (case save_and_mark transcript eid st t d1 of
                Inl e \<Rightarrow> (Inl e, None) | Inr d2 \<Rightarrow> (Inr (), Some d2)))"

section \<open>The claim a job row is under\<close>

definition job_state :: "string \<Rightarrow> db \<Rightarrow> (JobStatus \<times> int) option" where
  "job_state jid d = map_option (\<lambda>r. (jr_status r, jr_attempts r)) (find (\<lambda>r. jr_id r = jid) (jobs d))"

definition claimed :: "string \<Rightarrow> int \<Rightarrow> db \<Rightarrow> bool" where
  "claimed jid token d \<longleftrightarrow> job_state jid d = Some (JobProcessing, token)"

definition wf_jobs :: "db \<Rightarrow> bool" where "wf_jobs d \<longleftrightarrow> distinct (map jr_id (jobs d))"

lemma wf_jobs_eqD:
  "wf_jobs d \<Longrightarrow> r \<in> set (jobs d) \<Longrightarrow> r' \<in> set (jobs d) \<Longrightarrow> jr_id r = jr_id r' \<Longrightarrow> r = r'"
  unfolding wf_jobs_def by (rule distinct_map_eqD)

lemma wf_jobsI: "wf_db d \<Longrightarrow> wf_jobs d" by (simp add: wf_db_def wf_jobs_def)

lemma wf_db_jobs: "wf_db d \<Longrightarrow> distinct (map jr_id js) \<Longrightarrow> wf_db (d\<lparr>jobs := js\<rparr>)"
  by (simp add: wf_db_def wf_channels_def wf_episodes_def wf_transcripts_def)

lemma job_state_row:
  "wf_jobs d \<Longrightarrow> r \<in> set (jobs d) \<Longrightarrow> job_state (jr_id r) d = Some (jr_status r, jr_attempts r)"
  using find_key [of jr_id "jobs d" r] by (simp add: job_state_def wf_jobs_def)

lemma claim_count_0:
  assumes "wf_jobs d"
  shows "count_where (\<lambda>r. jr_id r = jid \<and> jr_attempts r = token \<and> P (jr_status r)) (jobs d) = 0
     \<longleftrightarrow> \<not> (\<exists>st. job_state jid d = Some (st, token) \<and> P st)"
proof (cases "find (\<lambda>r. jr_id r = jid) (jobs d)")
  case None
  then have "\<forall>r \<in> set (jobs d). jr_id r \<noteq> jid" by (simp add: find_NoneD)
  then show ?thesis using None by (simp add: count_where_0 job_state_def)
next
  case (Some r)
  then have r: "r \<in> set (jobs d)" "jr_id r = jid" by (auto dest: find_SomeD)
  have "\<forall>x \<in> set (jobs d). jr_id x = jid \<longrightarrow> x = r"
  proof (intro ballI impI)
    fix x assume "x \<in> set (jobs d)" "jr_id x = jid"
    then show "x = r" using wf_jobs_eqD [OF assms _ r(1)] r(2) by simp
  qed
  then have "(\<exists>x \<in> set (jobs d). jr_id x = jid \<and> jr_attempts x = token \<and> P (jr_status x))
      \<longleftrightarrow> jr_attempts r = token \<and> P (jr_status r)" using r by blast
  then have "count_where (\<lambda>r. jr_id r = jid \<and> jr_attempts r = token \<and> P (jr_status r)) (jobs d) = 0
      \<longleftrightarrow> \<not> (jr_attempts r = token \<and> P (jr_status r))" by (simp only: count_where_0) blast
  then show ?thesis using Some by (simp add: job_state_def conj_commute)
qed

lemma claimed_count:
  "wf_jobs d \<Longrightarrow> count_where (\<lambda>r. jr_id r = jid \<and> jr_attempts r = token \<and> jr_status r = JobProcessing)
     (jobs d) = 0 \<longleftrightarrow> \<not> claimed jid token d"
  using claim_count_0 [of d jid token "\<lambda>st. st = JobProcessing"] by (simp add: claimed_def)

lemma job_state_upd:
  "(\<And>r. jr_id (f r) = jr_id r) \<Longrightarrow>
   job_state jid (d\<lparr>jobs := upd_where c f (jobs d)\<rparr>) =
   map_option (\<lambda>r. if c r then (jr_status (f r), jr_attempts (f r)) else (jr_status r, jr_attempts r))
     (find (\<lambda>r. jr_id r = jid) (jobs d))"
  by (auto simp: job_state_def find_upd_where_key option.map_comp comp_def intro!: map_option_cong)

section \<open>Exact behaviour of the settlements\<close>

definition settled_row :: "JobStatus \<Rightarrow> string \<Rightarrow> time option \<Rightarrow> time \<Rightarrow> job_row \<Rightarrow> job_row" where
  "settled_row st cause runAfter now r = (case runAfter of
     Some t \<Rightarrow> r\<lparr>jr_status := st, jr_last_error := cause, jr_run_after := toUnix t, jr_updated_at := toUnix now\<rparr>
   | None \<Rightarrow> r\<lparr>jr_status := st, jr_last_error := cause, jr_updated_at := toUnix now\<rparr>)"

lemma settled_row_simps [simp]:
  "jr_id (settled_row st cause ra now r) = jr_id r"
  "jr_kind (settled_row st cause ra now r) = jr_kind r"
  "jr_payload (settled_row st cause ra now r) = jr_payload r"
  "jr_status (settled_row st cause ra now r) = st"
  "jr_attempts (settled_row st cause ra now r) = jr_attempts r"
  by (simp_all add: settled_row_def split: option.splits)

abbreviation claim_hit :: "string \<Rightarrow> int \<Rightarrow> job_row \<Rightarrow> bool" where
  "claim_hit jid token \<equiv> (\<lambda>r. jr_id r = jid \<and> jr_attempts r = token \<and> jr_status r = JobProcessing)"

lemma jobs_self [simp]: "d\<lparr>jobs := jobs d\<rparr> = d" by simp

lemma setJobStatus_eq:
  assumes "wf_jobs d"
  shows "setJobStatus jid token st cause ra now d =
    (if claimed jid token d
     then (Inr (), d\<lparr>jobs := upd_where (claim_hit jid token) (settled_row st cause ra now) (jobs d)\<rparr>)
     else (Inl ErrStaleClaim, d))"
proof (cases "claimed jid token d")
  case True
  then show ?thesis
    using claimed_count [OF assms, of jid token] by (simp add: setJobStatus_def settled_row_def [abs_def])
next
  case False
  then have "\<forall>r \<in> set (jobs d). \<not> claim_hit jid token r"
    using claimed_count [OF assms, of jid token] by (simp add: count_where_0)
  then have "upd_where (claim_hit jid token) f (jobs d) = jobs d" for f by (rule upd_where_none)
  then show ?thesis
    using False claimed_count [OF assms, of jid token] by (simp add: setJobStatus_def)
qed

lemma job_state_settled:
  assumes "claimed jid token d"
  shows "job_state i (d\<lparr>jobs := upd_where (claim_hit jid token) (settled_row st cause ra now) (jobs d)\<rparr>)
    = (if i = jid then Some (st, token) else job_state i d)"
proof -
  have eq: "job_state i (d\<lparr>jobs := upd_where (claim_hit jid token) (settled_row st cause ra now) (jobs d)\<rparr>)
    = map_option (\<lambda>r. if claim_hit jid token r then (st, jr_attempts r) else (jr_status r, jr_attempts r))
        (find (\<lambda>r. jr_id r = i) (jobs d))"
    by (simp add: job_state_upd cong: if_cong)
  then show ?thesis
  proof (cases "find (\<lambda>r. jr_id r = i) (jobs d)")
    case (Some x)
    then have "jr_id x = i" by (auto dest: find_SomeD)
    with eq Some assms show ?thesis by (auto simp: claimed_def job_state_def)
  qed (use assms in \<open>auto simp: claimed_def job_state_def\<close>)
qed

lemma wf_jobs_upd: "wf_jobs d \<Longrightarrow> (\<And>r. jr_id (f r) = jr_id r) \<Longrightarrow> wf_jobs (d\<lparr>jobs := upd_where c f (jobs d)\<rparr>)"
  by (simp add: wf_jobs_def distinct_upd_where)

lemma wf_db_upd_jobs: "wf_db d \<Longrightarrow> (\<And>r. jr_id (f r) = jr_id r) \<Longrightarrow> wf_db (d\<lparr>jobs := upd_where c f (jobs d)\<rparr>)"
  by (rule wf_db_jobs) (simp_all add: distinct_upd_where wf_db_def)

lemma setJobStatus_wf: "wf_db d \<Longrightarrow> wf_db (snd (setJobStatus jid token st cause ra now d))"
  by (simp add: setJobStatus_eq wf_jobsI wf_db_upd_jobs)

section \<open>Exact behaviour of the claim\<close>

lemma select_runnable_None:
  "select_runnable kinds now d = None \<longleftrightarrow> (\<forall>r \<in> set (jobs d). \<not> (runnable now r \<and> kind_match kinds r))"
proof -
  let ?rs = "sort_key job_order (filter (\<lambda>r. runnable now r \<and> kind_match kinds r) (jobs d))"
  have "select_runnable kinds now d = None \<longleftrightarrow> set ?rs = {}"
    by (cases ?rs) (auto simp: select_runnable_def)
  then show ?thesis by auto
qed

lemma select_runnable_Some:
  assumes "select_runnable kinds now d = Some r"
  shows "r \<in> set (jobs d)" "runnable now r" "kind_match kinds r"
    and "\<And>r'. r' \<in> set (jobs d) \<Longrightarrow> runnable now r' \<Longrightarrow> kind_match kinds r' \<Longrightarrow> job_order r \<le> job_order r'"
proof -
  let ?rs = "sort_key job_order (filter (\<lambda>r. runnable now r \<and> kind_match kinds r) (jobs d))"
  from assms obtain rest where rs: "?rs = r # rest"
    by (auto simp: select_runnable_def split: list.splits)
  have mem: "x \<in> set ?rs \<longleftrightarrow> x \<in> set (jobs d) \<and> runnable now x \<and> kind_match kinds x" for x by auto
  show "r \<in> set (jobs d)" "runnable now r" "kind_match kinds r"
    using mem [of r] by (simp_all add: rs)
  have "sorted (map job_order ?rs)" by (rule sorted_sort_key)
  then have "\<forall>x \<in> set rest. job_order r \<le> job_order x" by (simp add: rs)
  then show "job_order r \<le> job_order r'"
    if "r' \<in> set (jobs d)" "runnable now r'" "kind_match kinds r'" for r'
    using that mem [of r'] by (auto simp: rs)
qed

definition leased_row :: "time \<Rightarrow> duration \<Rightarrow> job_row \<Rightarrow> job_row" where
  "leased_row now lease r = r\<lparr>jr_status := JobProcessing, jr_attempts := jr_attempts r + 1,
     jr_run_after := toUnixCeil (now + lease), jr_updated_at := toUnix now\<rparr>"

lemma leased_row_simps [simp]:
  "jr_id (leased_row now lease r) = jr_id r" "jr_kind (leased_row now lease r) = jr_kind r"
  "jr_payload (leased_row now lease r) = jr_payload r"
  "jr_status (leased_row now lease r) = JobProcessing"
  "jr_attempts (leased_row now lease r) = jr_attempts r + 1"
  "jr_run_after (leased_row now lease r) = toUnixCeil (now + lease)"
  by (simp_all add: leased_row_def)

lemma count_unique:
  assumes "wf_jobs d" and "r \<in> set (jobs d)" and "P r"
  shows "count_where (\<lambda>x. jr_id x = jr_id r \<and> P x) (jobs d) = 1"
  using count_where_key_le [of jr_id "jobs d" "jr_id r" P] assms
    count_where_pos [of "\<lambda>x. jr_id x = jr_id r \<and> P x" "jobs d"]
  by (fastforce simp: wf_jobs_def)

text \<open>The guarded \<open>UPDATE\<close> always hits the selected row, and only it.\<close>

lemma ClaimJob_eq:
  assumes wf: "wf_jobs d"
  shows "ClaimJob kinds now lease d =
    (case select_runnable kinds now d of
       None \<Rightarrow> (Inl ErrNotFound, d)
     | Some r \<Rightarrow> (Inr (leased_job now lease (scanJob r)),
                 d\<lparr>jobs := upd_where (\<lambda>x. jr_id x = jr_id r) (leased_row now lease) (jobs d)\<rparr>))"
proof (cases "select_runnable kinds now d")
  case None
  then show ?thesis by (simp add: ClaimJob_def with_tx_def)
next
  case (Some r)
  then have r: "r \<in> set (jobs d)" by (rule select_runnable_Some)
  let ?j = "leased_job now lease (scanJob r)"
  let ?hit = "\<lambda>x. jr_id x = j_ID ?j \<and> jr_status x = jr_status r \<and> jr_attempts x = jr_attempts r
      \<and> jr_run_after x = jr_run_after r"
  let ?upd = "\<lambda>x. x\<lparr>jr_status := j_Status ?j, jr_attempts := j_Attempts ?j,
      jr_run_after := toUnix (j_RunAfter ?j), jr_updated_at := toUnix (j_UpdatedAt ?j)\<rparr>"
  have id: "j_ID ?j = jr_id r" by (simp add: leased_job_def scanJob_def)
  have one: "count_where ?hit (jobs d) = 1"
    unfolding id by (rule count_unique [OF wf r]) simp
  have "upd_where ?hit ?upd (jobs d)
      = upd_where (\<lambda>x. jr_id x = jr_id r) (leased_row now lease) (jobs d)"
    unfolding upd_where_def id
  proof (rule map_cong [OF refl])
    fix x assume "x \<in> set (jobs d)"
    then have "jr_id x = jr_id r \<Longrightarrow> x = r"
      by (rule wf_jobs_eqD [OF wf _ r])
    then show "(if jr_id x = jr_id r \<and> jr_status x = jr_status r \<and> jr_attempts x = jr_attempts r
          \<and> jr_run_after x = jr_run_after r then ?upd x else x)
        = (if jr_id x = jr_id r then leased_row now lease x else x)"
      by (auto simp: leased_row_def leased_job_def scanJob_def)
  qed
  then show ?thesis using Some one by (simp add: ClaimJob_def with_tx_def Let_def)
qed

lemma ClaimJob_wf: "wf_db d \<Longrightarrow> wf_db (snd (ClaimJob kinds now lease d))"
  by (auto simp: ClaimJob_eq wf_jobsI wf_db_upd_jobs split: option.splits)

lemma job_state_leased:
  assumes "wf_jobs d" and "r \<in> set (jobs d)"
  shows "job_state i (d\<lparr>jobs := upd_where (\<lambda>x. jr_id x = jr_id r) (leased_row now lease) (jobs d)\<rparr>)
    = (if i = jr_id r then Some (JobProcessing, jr_attempts r + 1) else job_state i d)"
proof -
  have eq: "job_state i (d\<lparr>jobs := upd_where (\<lambda>x. jr_id x = jr_id r) (leased_row now lease) (jobs d)\<rparr>)
    = map_option (\<lambda>x. if jr_id x = jr_id r then (JobProcessing, jr_attempts x + 1)
        else (jr_status x, jr_attempts x)) (find (\<lambda>r. jr_id r = i) (jobs d))"
    by (simp add: job_state_upd cong: if_cong)
  have r: "find (\<lambda>x. jr_id x = jr_id r) (jobs d) = Some r"
    using assms by (simp add: wf_jobs_def find_key)
  show ?thesis
  proof (cases "find (\<lambda>r. jr_id r = i) (jobs d)")
    case None
    moreover have "i \<noteq> jr_id r" using None r by auto
    ultimately show ?thesis unfolding eq by (simp add: job_state_def)
  next
    case (Some x)
    then have "jr_id x = i" by (auto dest: find_SomeD)
    moreover have "i = jr_id r \<Longrightarrow> x = r" using Some r by simp
    ultimately show ?thesis unfolding eq using Some by (simp add: job_state_def) 
  qed
qed

text \<open>
  The lease rounds up and the test rounds down, so a job claimed at \<open>now\<close> is not runnable
  again before \<open>now + lease\<close> has really passed.
\<close>

lemma leased_not_runnable: "now' < now + lease \<Longrightarrow> \<not> runnable now' (leased_row now lease r)"
  using toUnixCeil_le_iff [of "now + lease" "toUnix now'"] fromUnix_toUnix_le [of now']
  by (auto simp: runnable_def)

lemma CountPendingJobs_0: "CountPendingJobs now d = 0 \<longleftrightarrow> select_runnable [] now d = None"
  by (auto simp: CountPendingJobs_def count_where_0 select_runnable_None kind_match_def)

section \<open>Enqueueing\<close>

lemma insertJob_wf: "wf_db d \<Longrightarrow> insertJob j d = Inr d' \<Longrightarrow> wf_db d'"
  by (auto simp: insertJob_def list_ex_iff job_to_row_def split: if_splits intro!: wf_db_jobs)
    (auto simp: wf_db_def)

lemma EnqueueJob_wf: "wf_db d \<Longrightarrow> wf_db (snd (EnqueueJob j d))"
  by (auto simp: EnqueueJob_def insertJob_wf split: sum.splits)

lemma EnqueueTranscriptionJob_wf:
  assumes "wf_db d" shows "wf_db (snd (EnqueueTranscriptionJob j eid t d))"
proof -
  have "wf_db (d\<lparr>episodes := upd_where (\<lambda>r. er_id r = eid \<and> \<not> in_progress (er_transcript_status r))
      (set_status_cols TranscriptPending t) (episodes d)\<rparr>)"
    by (rule wf_db_upd_episodes [OF assms]) (simp_all add: set_status_cols_def)
  then show ?thesis
    using assms by (auto simp: EnqueueTranscriptionJob_def with_tx_def Let_def insertJob_wf
        split: sum.splits)
qed

section \<open>Settlement transactions\<close>

lemma setEpisodeStatusTx_wf: "wf_db d \<Longrightarrow> wf_db (setEpisodeStatusTx eid st t d)"
  by (simp add: setEpisodeStatusTx_def wf_db_upd_episodes set_status_cols_def)

lemma upsert_transcript_frame:
  "upsert_transcript tr d = Inr d' \<Longrightarrow> \<exists>ts. d' = d\<lparr>transcripts := ts\<rparr>"
  by (auto simp: upsert_transcript_def Let_def split: option.splits if_splits)

lemma save_and_mark_wf: "wf_db d \<Longrightarrow> save_and_mark tr eid st t d = Inr d' \<Longrightarrow> wf_db d'"
  by (auto simp: save_and_mark_def setEpisodeStatusTx_wf upsert_transcript_wf
      split: option.splits)

lemma save_and_mark_frame:
  assumes "save_and_mark tr eid st t d = Inr d'"
  shows "\<exists>ts. d' = d\<lparr>transcripts := ts,
    episodes := upd_where (\<lambda>r. er_id r = eid) (set_status_cols st t) (episodes d)\<rparr>"
proof (cases tr)
  case None
  then have "d' = d\<lparr>transcripts := transcripts d,
      episodes := upd_where (\<lambda>r. er_id r = eid) (set_status_cols st t) (episodes d)\<rparr>"
    using assms by (simp add: save_and_mark_def setEpisodeStatusTx_def)
  then show ?thesis by blast
next
  case (Some x)
  then obtain d1 where "upsert_transcript x d = Inr d1" "d' = setEpisodeStatusTx eid st t d1"
    using assms by (auto simp: save_and_mark_def)
  then show ?thesis by (auto simp: setEpisodeStatusTx_def dest!: upsert_transcript_frame)
qed

lemma SettleEpisodeTranscript_wf:
  "wf_db d \<Longrightarrow> wf_db (snd (SettleEpisodeTranscript jid token eid tr st t d))"
  by (auto simp: SettleEpisodeTranscript_def with_tx_def save_and_mark_wf split: sum.splits)

lemma SettleAndComplete_wf:
  assumes "wf_db d"
  shows "wf_db (snd (SettleEpisodeTranscriptAndCompleteJob jid token eid tr st t d))"
proof -
  have "wf_db (d\<lparr>jobs := upd_where (claim_hit jid token)
      (\<lambda>r. r\<lparr>jr_status := JobDone, jr_last_error := [], jr_updated_at := toUnix t\<rparr>) (jobs d)\<rparr>)"
    by (rule wf_db_upd_jobs [OF assms]) simp
  then show ?thesis
    using assms by (auto simp: SettleEpisodeTranscriptAndCompleteJob_def with_tx_def Let_def
        save_and_mark_wf split: sum.splits)
qed

end
