(* ===== verification/Queue.thy ===== *)
theory Queue
  imports StoreJobs
begin

text \<open>
  \<open>queue/dbqueue/dbqueue.go\<close>: the store-backed job queue and its retry policy.  The queue
  holds its store as an interface value, so the store's job methods are a record of
  functions here and the queue's methods call through it.  The locale \<open>job_store\<close> is the
  contract the queue relies on; the facts proved inside it (a stale acknowledgement is a
  no-op, a job past its limit is never handed out to run, ..) reach the program through
  its interpretation on the SQLite methods.
\<close>

section \<open>The store the queue calls\<close>

record 'd JobStore =
  sEnqueueJob :: "job \<Rightarrow> 'd \<Rightarrow> unit res \<times> 'd"
  sEnqueueTranscriptionJob :: "job \<Rightarrow> string \<Rightarrow> time \<Rightarrow> 'd \<Rightarrow> unit res \<times> 'd"
  sClaimJob :: "JobKind list \<Rightarrow> time \<Rightarrow> duration \<Rightarrow> 'd \<Rightarrow> job res \<times> 'd"
  sCompleteJob :: "string \<Rightarrow> int \<Rightarrow> time \<Rightarrow> 'd \<Rightarrow> unit res \<times> 'd"
  sRescheduleJob :: "string \<Rightarrow> int \<Rightarrow> time \<Rightarrow> string \<Rightarrow> time \<Rightarrow> 'd \<Rightarrow> unit res \<times> 'd"
  sFailJob :: "string \<Rightarrow> int \<Rightarrow> string \<Rightarrow> time \<Rightarrow> 'd \<Rightarrow> unit res \<times> 'd"

definition sqlite_jobs :: "db JobStore" where
  "sqlite_jobs = \<lparr>sEnqueueJob = EnqueueJob, sEnqueueTranscriptionJob = EnqueueTranscriptionJob,
     sClaimJob = ClaimJob, sCompleteJob = CompleteJob, sRescheduleJob = RescheduleJob,
     sFailJob = FailJob\<rparr>"

section \<open>Configuration and back-off\<close>

text \<open>A back-off is \<open>None\<close> where computing it panics (a negative shift count).\<close>

record 'd Queue =
  q_store :: "'d JobStore"
  q_maxAttempts :: int
  q_lease :: duration
  q_backoff :: "int \<Rightarrow> duration option"

datatype QueueOption =
  WithMaxAttempts int | WithLease duration | WithBackoff "int \<Rightarrow> duration option"

text \<open>\<open>time.Duration\<close> is a signed 64-bit integer: the shift wraps around.\<close>

definition maxBackoff :: "64 word" where "maxBackoff = word_of_int 3600000000000"
definition minuteWord :: "64 word" where "minuteWord = word_of_int 60000000000"

definition defaultBackoff :: "int \<Rightarrow> 64 word option" where
  "defaultBackoff attempt =
     (if 6 \<le> attempt then Some maxBackoff
      else if attempt < 0 then None
      else (let d = push_bit (nat attempt) minuteWord
            in if sint maxBackoff < sint d then Some maxBackoff else Some d))"

fun apply_option :: "QueueOption \<Rightarrow> 'd Queue \<Rightarrow> 'd Queue" where
  "apply_option (WithMaxAttempts n) q = q\<lparr>q_maxAttempts := n\<rparr>"
| "apply_option (WithLease l) q = q\<lparr>q_lease := l\<rparr>"
| "apply_option (WithBackoff f) q = q\<lparr>q_backoff := f\<rparr>"

definition NewQueue :: "'d JobStore \<Rightarrow> QueueOption list \<Rightarrow> 'd Queue" where
  "NewQueue s options = fold apply_option options
     \<lparr>q_store = s, q_maxAttempts = 5, q_lease = 10 * Minute,
      q_backoff = (\<lambda>a. map_option sint (defaultBackoff a))\<rparr>"

section \<open>Operations\<close>

text \<open>\<open>idgen.New()\<close> and \<open>time.Now()\<close> are the arguments \<open>i\<close> and \<open>now\<close>.\<close>

definition new_job :: "JobKind \<Rightarrow> payload \<Rightarrow> string \<Rightarrow> time \<Rightarrow> job" where
  "new_job kind data i now = \<lparr>j_ID = i, j_Kind = kind, j_Payload = data, j_Status = JobPending,
     j_Attempts = 0, j_LastError = [], j_RunAfter = now, j_CreatedAt = now, j_UpdatedAt = now\<rparr>"

definition Enqueue :: "'d Queue \<Rightarrow> JobKind \<Rightarrow> payload option \<Rightarrow> string \<Rightarrow> time \<Rightarrow> 'd \<Rightarrow> unit res \<times> 'd" where
  "Enqueue q kind marshalled i now d =
     (case marshalled of None \<Rightarrow> (Inl ErrMarshal, d)
      | Some data \<Rightarrow> sEnqueueJob (q_store q) (new_job kind data i now) d)"

definition EnqueueTranscription :: "'d Queue \<Rightarrow> string \<Rightarrow> string \<Rightarrow> time \<Rightarrow> 'd \<Rightarrow> unit res \<times> 'd" where
  "EnqueueTranscription q eid i now d =
     sEnqueueTranscriptionJob (q_store q)
       (new_job JobTranscribe (TranscribePayload eid) i now) eid now d"

text \<open>\<open>None\<close> when nothing is runnable, otherwise the job and its \<open>deadLettered\<close> flag.\<close>

definition Dequeue ::
    "'d Queue \<Rightarrow> JobKind list \<Rightarrow> time \<Rightarrow> time \<Rightarrow> 'd \<Rightarrow> (job \<times> bool) option res \<times> 'd" where
  "Dequeue q kinds now now' d =
     (case sClaimJob (q_store q) kinds now (q_lease q) d of
        (Inl e, d1) \<Rightarrow> if e = ErrNotFound then (Inr None, d1) else (Inl e, d1)
      | (Inr j, d1) \<Rightarrow>
          if q_maxAttempts q < j_Attempts j
          then (case sFailJob (q_store q) (j_ID j) (j_Attempts j)
                       ''dbqueue: exceeded max attempts'' now' d1 of
                  (Inl e, d2) \<Rightarrow> (Inl e, d2)
                | (Inr _, d2) \<Rightarrow> (Inr (Some (j, True)), d2))
          else (Inr (Some (j, False)), d1))"

definition Ack :: "'d Queue \<Rightarrow> job \<Rightarrow> time \<Rightarrow> 'd \<Rightarrow> unit res \<times> 'd" where
  "Ack q j now d =
     (case sCompleteJob (q_store q) (j_ID j) (j_Attempts j) now d of
        (Inl e, d') \<Rightarrow> if e = ErrStaleClaim then (Inr (), d') else (Inl e, d')
      | (Inr _, d') \<Rightarrow> (Inr (), d'))"

text \<open>The result is the \<open>dead\<close> flag; \<open>cause\<close> is \<open>None\<close> for a nil error.\<close>

definition Nack :: "'d Queue \<Rightarrow> job \<Rightarrow> string option \<Rightarrow> time \<Rightarrow> time \<Rightarrow> 'd \<Rightarrow> bool res \<times> 'd" where
  "Nack q j cause now now' d =
     (let msg = (case cause of None \<Rightarrow> [] | Some m \<Rightarrow> m) in
      if q_maxAttempts q \<le> j_Attempts j
      then (case sFailJob (q_store q) (j_ID j) (j_Attempts j) msg now' d of
              (Inl e, d') \<Rightarrow> if e = ErrStaleClaim then (Inr False, d') else (Inl e, d')
            | (Inr _, d') \<Rightarrow> (Inr True, d'))
      else (case q_backoff q (j_Attempts j) of
              None \<Rightarrow> (Inl ErrPanic, d)
            | Some b \<Rightarrow>
                (case sRescheduleJob (q_store q) (j_ID j) (j_Attempts j) (now + b) msg now' d of
                   (Inl e, d') \<Rightarrow> if e = ErrStaleClaim then (Inr False, d') else (Inl e, d')
                 | (Inr _, d') \<Rightarrow> (Inr False, d'))))"

section \<open>The back-off\<close>

lemma push_minute:
  "0 \<le> a \<Longrightarrow> a < 6 \<Longrightarrow> sint (push_bit (nat a) minuteWord) = 2 ^ nat a * Minute"
proof -
  assume "0 \<le> a" "a < 6"
  then have "a \<in> {0, 1, 2, 3, 4, 5}" by auto
  then show ?thesis by (auto simp: minuteWord_def units)
qed

lemma defaultBackoff_small:
  assumes "0 \<le> a" "a < 6"
  shows "map_option sint (defaultBackoff a) = Some (2 ^ nat a * Minute)"
proof -
  from assms have "a \<in> {0, 1, 2, 3, 4, 5}" by auto
  then have "2 ^ nat a * Minute \<le> sint maxBackoff" by (auto simp: maxBackoff_def units)
  then show ?thesis using assms push_minute [OF assms] by (auto simp: defaultBackoff_def Let_def)
qed

lemma defaultBackoff_large: "6 \<le> a \<Longrightarrow> map_option sint (defaultBackoff a) = Some Hour"
  by (simp add: defaultBackoff_def maxBackoff_def units)

section \<open>The contract of the store and its consequences\<close>

text \<open>
  \<open>state\<close> is the status and fencing token of a job.  The claim advances both; a
  settlement succeeds exactly while the token and the processing state hold, moves that
  job only, keeps its token, and otherwise reports a stale claim and writes nothing.
\<close>

locale job_store =
  fixes st :: "'d JobStore"
    and state :: "string \<Rightarrow> 'd \<Rightarrow> (JobStatus \<times> int) option"
    and inv :: "'d \<Rightarrow> bool"
  assumes claim_Inl: "inv d \<Longrightarrow> sClaimJob st ks now l d = (Inl e, d') \<Longrightarrow> d' = d"
    and claim_Inr: "inv d \<Longrightarrow> sClaimJob st ks now l d = (Inr j, d') \<Longrightarrow>
      inv d' \<and> (\<exists>s. state (j_ID j) d = Some (s, j_Attempts j - 1) \<and> s \<in> {JobPending, JobProcessing})
      \<and> (\<forall>i. state i d' = (if i = j_ID j then Some (JobProcessing, j_Attempts j) else state i d))"
    and complete_live: "inv d \<Longrightarrow> state i d = Some (JobProcessing, n) \<Longrightarrow>
      \<exists>d'. sCompleteJob st i n now d = (Inr (), d') \<and> inv d'
        \<and> (\<forall>k. state k d' = (if k = i then Some (JobDone, n) else state k d))"
    and reschedule_live: "inv d \<Longrightarrow> state i d = Some (JobProcessing, n) \<Longrightarrow>
      \<exists>d'. sRescheduleJob st i n t c now d = (Inr (), d') \<and> inv d'
        \<and> (\<forall>k. state k d' = (if k = i then Some (JobPending, n) else state k d))"
    and fail_live: "inv d \<Longrightarrow> state i d = Some (JobProcessing, n) \<Longrightarrow>
      \<exists>d'. sFailJob st i n c now d = (Inr (), d') \<and> inv d'
        \<and> (\<forall>k. state k d' = (if k = i then Some (JobFailed, n) else state k d))"
    and complete_stale: "inv d \<Longrightarrow> state i d \<noteq> Some (JobProcessing, n) \<Longrightarrow>
      sCompleteJob st i n now d = (Inl ErrStaleClaim, d)"
    and reschedule_stale: "inv d \<Longrightarrow> state i d \<noteq> Some (JobProcessing, n) \<Longrightarrow>
      sRescheduleJob st i n t c now d = (Inl ErrStaleClaim, d)"
    and fail_stale: "inv d \<Longrightarrow> state i d \<noteq> Some (JobProcessing, n) \<Longrightarrow>
      sFailJob st i n c now d = (Inl ErrStaleClaim, d)"
begin

abbreviation live :: "job \<Rightarrow> 'd \<Rightarrow> bool" where
  "live j d \<equiv> state (j_ID j) d = Some (JobProcessing, j_Attempts j)"

lemma Ack_stale: "inv d \<Longrightarrow> q_store q = st \<Longrightarrow> \<not> live j d \<Longrightarrow> Ack q j now d = (Inr (), d)"
  by (simp add: Ack_def complete_stale)

lemma Ack_live:
  assumes "inv d" "q_store q = st" "live j d"
  shows "\<exists>d'. Ack q j now d = (Inr (), d') \<and> inv d'
    \<and> (\<forall>k. state k d' = (if k = j_ID j then Some (JobDone, j_Attempts j) else state k d))"
  using complete_live [OF assms(1,3), of now] assms(2) by (auto simp: Ack_def)

lemma Nack_stale:
  assumes "inv d" "q_store q = st" "\<not> live j d"
    and "j_Attempts j < q_maxAttempts q \<Longrightarrow> q_backoff q (j_Attempts j) \<noteq> None"
  shows "Nack q j cause now now' d = (Inr False, d)"
proof (cases "q_maxAttempts q \<le> j_Attempts j")
  case True
  then show ?thesis using assms(2) fail_stale [OF assms(1,3)] by (simp add: Nack_def Let_def)
next
  case False
  then obtain b where "q_backoff q (j_Attempts j) = Some b" using assms(4) by force
  then show ?thesis
    using False assms(2) reschedule_stale [OF assms(1,3)] by (simp add: Nack_def Let_def)
qed

lemma Nack_exhausted:
  assumes "inv d" "q_store q = st" "live j d" "q_maxAttempts q \<le> j_Attempts j"
  shows "\<exists>d'. Nack q j cause now now' d = (Inr True, d') \<and> inv d'
    \<and> (\<forall>k. state k d' = (if k = j_ID j then Some (JobFailed, j_Attempts j) else state k d))"
proof -
  let ?msg = "case cause of None \<Rightarrow> [] | Some m \<Rightarrow> m"
  from fail_live [OF assms(1,3), of ?msg now'] assms(2,4) show ?thesis
    by (auto simp: Nack_def Let_def)
qed

lemma Nack_retry:
  assumes "inv d" "q_store q = st" "live j d" "j_Attempts j < q_maxAttempts q"
    and "q_backoff q (j_Attempts j) = Some b"
  shows "\<exists>d'. Nack q j cause now now' d = (Inr False, d') \<and> inv d'
    \<and> (\<forall>k. state k d' = (if k = j_ID j then Some (JobPending, j_Attempts j) else state k d))"
proof -
  let ?msg = "case cause of None \<Rightarrow> [] | Some m \<Rightarrow> m"
  from reschedule_live [OF assms(1,3), of "now + b" ?msg now'] assms(2,4,5) show ?thesis
    by (auto simp: Nack_def Let_def)
qed

lemma Dequeue_run:
  assumes "inv d" "q_store q = st" "Dequeue q ks now now' d = (Inr (Some (j, False)), d')"
  shows "inv d' \<and> j_Attempts j \<le> q_maxAttempts q \<and> live j d'
    \<and> (\<exists>s. state (j_ID j) d = Some (s, j_Attempts j - 1) \<and> s \<in> {JobPending, JobProcessing})
    \<and> (\<forall>k. k \<noteq> j_ID j \<longrightarrow> state k d' = state k d)"
proof -
  obtain r d1 where c: "sClaimJob st ks now (q_lease q) d = (r, d1)" by fastforce
  with assms(2,3) have "r = Inr j" "d' = d1" "j_Attempts j \<le> q_maxAttempts q"
    by (auto simp: Dequeue_def split: sum.splits if_splits prod.splits)
  with claim_Inr [OF assms(1), of ks now "q_lease q" j d1] c show ?thesis by auto
qed

lemma Dequeue_dead:
  assumes "inv d" "q_store q = st" "Dequeue q ks now now' d = (Inr (Some (j, True)), d')"
  shows "inv d' \<and> q_maxAttempts q < j_Attempts j \<and> state (j_ID j) d' = Some (JobFailed, j_Attempts j)
    \<and> (\<forall>k. k \<noteq> j_ID j \<longrightarrow> state k d' = state k d)"
proof -
  obtain r d1 where c: "sClaimJob st ks now (q_lease q) d = (r, d1)" by fastforce
  with assms(2,3) have r: "r = Inr j" "q_maxAttempts q < j_Attempts j"
    by (auto simp: Dequeue_def split: sum.splits if_splits prod.splits)
  with claim_Inr [OF assms(1)] c have i1: "inv d1" and l1: "live j d1"
    and o1: "\<forall>k. k \<noteq> j_ID j \<longrightarrow> state k d1 = state k d" by fastforce+
  from fail_live [OF i1 l1, of "''dbqueue: exceeded max attempts''" now'] obtain d2
    where "sFailJob st (j_ID j) (j_Attempts j) ''dbqueue: exceeded max attempts'' now' d1 = (Inr (), d2)"
      and "inv d2"
      and "\<forall>k. state k d2 = (if k = j_ID j then Some (JobFailed, j_Attempts j) else state k d1)"
    by blast
  with r c assms(2,3) o1 show ?thesis by (auto simp: Dequeue_def)
qed

lemma Dequeue_none:
  assumes "inv d" "q_store q = st" "Dequeue q ks now now' d = (Inr None, d')"
  shows "d' = d"
proof -
  obtain r d1 where c: "sClaimJob st ks now (q_lease q) d = (r, d1)" by fastforce
  with assms(2,3) obtain e where "r = Inl e" "d' = d1"
    by (auto simp: Dequeue_def split: sum.splits if_splits prod.splits)
  with claim_Inl [OF assms(1)] c show ?thesis by blast
qed

text \<open>Dead-lettering inside \<open>Dequeue\<close> cannot fail on its own fresh claim.\<close>

lemma Dequeue_err:
  assumes "inv d" "q_store q = st" "Dequeue q ks now now' d = (Inl e, d')"
  shows "d' = d \<and> e \<noteq> ErrNotFound"
proof -
  obtain r d1 where c: "sClaimJob st ks now (q_lease q) d = (r, d1)" by fastforce
  show ?thesis
  proof (cases r)
    case (Inl e')
    with c assms claim_Inl [OF assms(1)] show ?thesis
      by (auto simp: Dequeue_def split: if_splits)
  next
    case (Inr j)
    with claim_Inr [OF assms(1)] c have i1: "inv d1" and l1: "live j d1" by fastforce+
    from fail_live [OF i1 l1, of "''dbqueue: exceeded max attempts''" now'] Inr c assms(2,3)
    show ?thesis by (auto simp: Dequeue_def split: if_splits)
  qed
qed

end

section \<open>The SQLite store meets the contract\<close>

lemma job_state_setJobStatus:
  assumes "wf_jobs d" "claimed i n d"
  shows "\<exists>d'. setJobStatus i n s c ra now d = (Inr (), d') \<and> wf_jobs d'
    \<and> (\<forall>k. job_state k d' = (if k = i then Some (s, n) else job_state k d))"
  using assms by (simp add: setJobStatus_eq wf_jobs_upd job_state_settled)

interpretation sq: job_store sqlite_jobs job_state wf_jobs
proof unfold_locales
  fix d d' :: db and ks :: "JobKind list" and now l t :: int and e j and i c :: string and n :: int
  assume wf: "wf_jobs d"
  show "d' = d" if "sClaimJob sqlite_jobs ks now l d = (Inl e, d')"
    using that by (auto simp: sqlite_jobs_def ClaimJob_eq [OF wf] split: option.splits)
  show "wf_jobs d' \<and> (\<exists>s. job_state (j_ID j) d = Some (s, j_Attempts j - 1) \<and> s \<in> {JobPending, JobProcessing})
      \<and> (\<forall>i. job_state i d' = (if i = j_ID j then Some (JobProcessing, j_Attempts j) else job_state i d))"
    if "sClaimJob sqlite_jobs ks now l d = (Inr j, d')"
  proof -
    from that obtain r where sel: "select_runnable ks now d = Some r"
      and j: "j = leased_job now l (scanJob r)"
      and d': "d' = d\<lparr>jobs := upd_where (\<lambda>x. jr_id x = jr_id r) (leased_row now l) (jobs d)\<rparr>"
      by (auto simp: sqlite_jobs_def ClaimJob_eq [OF wf] split: option.splits)
    have r: "r \<in> set (jobs d)" "runnable now r" using select_runnable_Some [OF sel] by simp_all
    have "j_ID j = jr_id r" "j_Attempts j = jr_attempts r + 1"
      by (simp_all add: j leased_job_def scanJob_def)
    then show ?thesis
      using job_state_leased [OF wf r(1)] job_state_row [OF wf r(1)] r(2) wf
      by (auto simp: d' runnable_def wf_jobs_upd)
  qed
  show "\<exists>d'. sCompleteJob sqlite_jobs i n now d = (Inr (), d') \<and> wf_jobs d'
      \<and> (\<forall>k. job_state k d' = (if k = i then Some (JobDone, n) else job_state k d))"
    if "job_state i d = Some (JobProcessing, n)"
    using job_state_setJobStatus [OF wf] that by (simp add: sqlite_jobs_def CompleteJob_def claimed_def)
  show "\<exists>d'. sRescheduleJob sqlite_jobs i n t c now d = (Inr (), d') \<and> wf_jobs d'
      \<and> (\<forall>k. job_state k d' = (if k = i then Some (JobPending, n) else job_state k d))"
    if "job_state i d = Some (JobProcessing, n)"
    using job_state_setJobStatus [OF wf] that by (simp add: sqlite_jobs_def RescheduleJob_def claimed_def)
  show "\<exists>d'. sFailJob sqlite_jobs i n c now d = (Inr (), d') \<and> wf_jobs d'
      \<and> (\<forall>k. job_state k d' = (if k = i then Some (JobFailed, n) else job_state k d))"
    if "job_state i d = Some (JobProcessing, n)"
    using job_state_setJobStatus [OF wf] that by (simp add: sqlite_jobs_def FailJob_def claimed_def)
qed (simp_all add: sqlite_jobs_def CompleteJob_def RescheduleJob_def FailJob_def setJobStatus_eq claimed_def)

end
