(* ===== verification/StoreSystem.thy ===== *)
theory StoreSystem
  imports Queue
begin

text \<open>
  The store as a whole: every writing method of the \<open>store.Store\<close> interface as one
  operation type, with \<open>exec\<close> running it on the SQLite definitions.  Processes interleave
  at the granularity of these operations because SQLite serialises writers, so a run is a
  list of operations.  The lemmas are what holds of every operation: constraints are kept,
  a failed operation writes nothing, claims and session epochs only move forward.
\<close>

section \<open>Operations and runs\<close>

datatype store_op =
  OpCreateUser user | OpUpdateUser user | OpBumpSessionEpoch string
| OpLinkOIDCIdentity string string string
| OpCreateChannel channel | OpUpdateChannel channel
| OpCreateEpisode episode | OpUpdateEpisode episode
| OpSetEpisodeTranscriptStatus string TranscriptStatus time
| OpUpdateEpisodeMetadata string string string string time
| OpSetEpisodePublication string EpisodeStatus "time option" time
| OpReorderEpisodes string "string list" time
| OpDeleteEpisode string time | OpBlobOrphaned string time | OpReserveBlob string time
| OpReleaseBlob int | OpReleaseDeleteLease int
| OpSaveTranscript transcript
| OpSettle string int string "transcript option" TranscriptStatus time
| OpSettleAndComplete string int string "transcript option" TranscriptStatus time
| OpEnqueueJob job | OpEnqueueTranscriptionJob job string time
| OpClaimJob "JobKind list" time duration
| OpCompleteJob string int time | OpRescheduleJob string int time string time
| OpFailJob string int string time

definition outcome :: "'a res \<times> db \<Rightarrow> unit res \<times> db" where
  "outcome r = (map_sum id (\<lambda>_. ()) (fst r), snd r)"

lemma snd_outcome [simp]: "snd (outcome r) = snd r"
  by (simp add: outcome_def)

lemma fst_outcome_Inl [simp]: "fst (outcome r) = Inl e \<longleftrightarrow> fst r = Inl e"
  by (simp add: outcome_def)

fun exec :: "store_op \<Rightarrow> db \<Rightarrow> unit res \<times> db" where
  "exec (OpCreateUser u) d = CreateUser u d"
| "exec (OpUpdateUser u) d = UpdateUser u d"
| "exec (OpBumpSessionEpoch uid) d = BumpSessionEpoch uid d"
| "exec (OpLinkOIDCIdentity uid iss sub) d = LinkOIDCIdentity uid iss sub d"
| "exec (OpCreateChannel c) d = CreateChannel c d"
| "exec (OpUpdateChannel c) d = UpdateChannel c d"
| "exec (OpCreateEpisode e) d = CreateEpisode e d"
| "exec (OpUpdateEpisode e) d = UpdateEpisode e d"
| "exec (OpSetEpisodeTranscriptStatus eid st t) d = SetEpisodeTranscriptStatus eid st t d"
| "exec (OpUpdateEpisodeMetadata eid ti de la t) d = UpdateEpisodeMetadata eid ti de la t d"
| "exec (OpSetEpisodePublication eid st p t) d = SetEpisodePublication eid st p t d"
| "exec (OpReorderEpisodes cid ids t) d = ReorderEpisodes cid ids t d"
| "exec (OpDeleteEpisode eid now) d = outcome (DeleteEpisode eid now d)"
| "exec (OpBlobOrphaned key now) d = outcome (BlobOrphaned key now d)"
| "exec (OpReserveBlob key now) d = outcome (ReserveBlob key now d)"
| "exec (OpReleaseBlob tok) d = ReleaseBlob tok d"
| "exec (OpReleaseDeleteLease tok) d = ReleaseDeleteLease tok d"
| "exec (OpSaveTranscript t) d = SaveTranscript t d"
| "exec (OpSettle jid tok eid tr st t) d = SettleEpisodeTranscript jid tok eid tr st t d"
| "exec (OpSettleAndComplete jid tok eid tr st t) d =
     SettleEpisodeTranscriptAndCompleteJob jid tok eid tr st t d"
| "exec (OpEnqueueJob j) d = EnqueueJob j d"
| "exec (OpEnqueueTranscriptionJob j eid t) d = EnqueueTranscriptionJob j eid t d"
| "exec (OpClaimJob ks now l) d = outcome (ClaimJob ks now l d)"
| "exec (OpCompleteJob jid tok now) d = CompleteJob jid tok now d"
| "exec (OpRescheduleJob jid tok ra c now) d = RescheduleJob jid tok ra c now d"
| "exec (OpFailJob jid tok c now) d = FailJob jid tok c now d"

definition exec_all :: "store_op list \<Rightarrow> db \<Rightarrow> db" where
  "exec_all ops d = fold (\<lambda>op d. snd (exec op d)) ops d"

lemma exec_all_simps [simp]:
  "exec_all [] d = d" "exec_all (op # ops) d = exec_all ops (snd (exec op d))"
  "exec_all (ops @ ops') d = exec_all ops' (exec_all ops d)"
  by (simp_all add: exec_all_def)

text \<open>The databases a run of the program can reach from the empty schema.\<close>

inductive reachable :: "db \<Rightarrow> bool" where
  init: "reachable empty_db"
| step: "reachable d \<Longrightarrow> reachable (snd (exec op d))"

section \<open>The constraints always hold\<close>

lemmas store_wf = CreateUser_wf UpdateUser_wf BumpSessionEpoch_wf LinkOIDCIdentity_wf
  CreateChannel_wf UpdateChannel_wf CreateEpisode_wf UpdateEpisode_wf
  SetEpisodeTranscriptStatus_wf UpdateEpisodeMetadata_wf SetEpisodePublication_wf
  ReorderEpisodes_wf DeleteEpisode_wf BlobOrphaned_wf ReserveBlob_wf ReleaseBlob_wf
  ReleaseDeleteLease_wf SaveTranscript_wf SettleEpisodeTranscript_wf SettleAndComplete_wf
  EnqueueJob_wf EnqueueTranscriptionJob_wf ClaimJob_wf setJobStatus_wf

lemma exec_wf: "wf_db d \<Longrightarrow> wf_db (snd (exec op d))"
  by (cases op) (simp_all add: store_wf CompleteJob_def RescheduleJob_def FailJob_def)

lemma exec_all_wf: "wf_db d \<Longrightarrow> wf_db (exec_all ops d)"
  by (induction ops arbitrary: d) (simp_all add: exec_wf)

lemma reachable_wf_db: "reachable d \<Longrightarrow> wf_db d"
  by (induction rule: reachable.induct) (simp_all add: wf_empty_db exec_wf)

section \<open>A failed operation writes nothing\<close>

lemma update_episode_atomic: "fst (update_episode eid f d) = Inl e \<Longrightarrow> snd (update_episode eid f d) = d"
  by (auto simp: update_episode_def Let_def requireAffected_def count_where_0 upd_where_none
      split: if_splits)

lemma with_tx_atomic: "fst (with_tx body d) = Inl e \<Longrightarrow> snd (body d) = None \<Longrightarrow> snd (with_tx body d) = d"
  by (simp add: with_tx_def split: prod.splits)

lemma users_atomic:
  "fst (CreateUser u d) = Inl e \<Longrightarrow> snd (CreateUser u d) = d"
  "fst (UpdateUser u d) = Inl e \<Longrightarrow> snd (UpdateUser u d) = d"
  "fst (BumpSessionEpoch uid d) = Inl e \<Longrightarrow> snd (BumpSessionEpoch uid d) = d"
  "fst (LinkOIDCIdentity uid iss sub d) = Inl e \<Longrightarrow> snd (LinkOIDCIdentity uid iss sub d) = d"
  "fst (CreateChannel c d) = Inl e \<Longrightarrow> snd (CreateChannel c d) = d"
  "fst (UpdateChannel c d) = Inl e \<Longrightarrow> snd (UpdateChannel c d) = d"
  by (auto simp: CreateUser_def UpdateUser_def BumpSessionEpoch_def LinkOIDCIdentity_def
      CreateChannel_def UpdateChannel_def Let_def requireAffected_def count_where_0 upd_where_none
      split: if_splits)

lemma episodes_atomic:
  "fst (CreateEpisode ep d) = Inl e \<Longrightarrow> snd (CreateEpisode ep d) = d"
  "fst (ReorderEpisodes cid ids t d) = Inl e \<Longrightarrow> snd (ReorderEpisodes cid ids t d) = d"
  "fst (SaveTranscript tr d) = Inl e \<Longrightarrow> snd (SaveTranscript tr d) = d"
  "fst (EnqueueJob j d) = Inl e \<Longrightarrow> snd (EnqueueJob j d) = d"
  "fst (ReserveBlob key now d) = Inl e \<Longrightarrow> snd (ReserveBlob key now d) = d"
  "fst (BlobOrphaned key now d) = Inl e \<Longrightarrow> snd (BlobOrphaned key now d) = d"
  "fst (DeleteEpisode eid now d) = Inl e \<Longrightarrow> snd (DeleteEpisode eid now d) = d"
  by (auto simp: CreateEpisode_def ReorderEpisodes_eq SaveTranscript_def EnqueueJob_def
      ReserveBlob_eq BlobOrphaned_eq DeleteEpisode_eq Let_def split: if_splits sum.splits option.splits)

lemma settle_atomic:
  "fst (SettleEpisodeTranscript jid tok eid tr st t d) = Inl e \<Longrightarrow>
   snd (SettleEpisodeTranscript jid tok eid tr st t d) = d"
  "fst (SettleEpisodeTranscriptAndCompleteJob jid tok eid tr st t d) = Inl e \<Longrightarrow>
   snd (SettleEpisodeTranscriptAndCompleteJob jid tok eid tr st t d) = d"
  "fst (EnqueueTranscriptionJob j eid t d) = Inl e \<Longrightarrow> snd (EnqueueTranscriptionJob j eid t d) = d"
  by (auto simp: SettleEpisodeTranscript_def SettleEpisodeTranscriptAndCompleteJob_def
      EnqueueTranscriptionJob_def with_tx_def Let_def split: if_splits sum.splits)

lemma jobs_atomic:
  "wf_jobs d \<Longrightarrow> fst (ClaimJob ks now l d) = Inl e \<Longrightarrow> snd (ClaimJob ks now l d) = d"
  "wf_jobs d \<Longrightarrow> fst (setJobStatus jid tok st c ra now d) = Inl e \<Longrightarrow>
   snd (setJobStatus jid tok st c ra now d) = d"
  by (auto simp: ClaimJob_eq setJobStatus_eq split: option.splits if_splits)

lemma exec_atomic:
  assumes "wf_db d" "fst (exec op d) = Inl e"
  shows "snd (exec op d) = d"
  using assms users_atomic [where d = d and e = e] episodes_atomic [where d = d and e = e]
    settle_atomic [where d = d and e = e] jobs_atomic [OF wf_jobsI [OF assms(1)], where e = e]
    update_episode_atomic [where d = d and e = e]
  by (cases op) (simp_all add: ReleaseBlob_def ReleaseDeleteLease_def CompleteJob_def
      RescheduleJob_def FailJob_def UpdateEpisode_def SetEpisodeTranscriptStatus_def
      UpdateEpisodeMetadata_def SetEpisodePublication_def)

section \<open>Claims only move forward\<close>

text \<open>
  A later state of a job has a larger token, or the same one with the status unchanged or
  settled from processing; a done or failed job is final.
\<close>

definition forward :: "JobStatus \<times> int \<Rightarrow> JobStatus \<times> int \<Rightarrow> bool" where
  "forward p q \<longleftrightarrow> p = q \<or> (fst p \<in> {JobPending, JobProcessing} \<and> snd p < snd q)
     \<or> (fst p = JobProcessing \<and> snd p = snd q)"

definition jobs_forward :: "db \<Rightarrow> db \<Rightarrow> bool" where
  "jobs_forward d d' \<longleftrightarrow> (\<forall>i p. job_state i d = Some p \<longrightarrow> (\<exists>q. job_state i d' = Some q \<and> forward p q))"

lemma forward_refl [simp]: "forward p p" by (simp add: forward_def)

lemma forward_trans: "forward p q \<Longrightarrow> forward q r \<Longrightarrow> forward p r"
  by (auto simp: forward_def)

lemma jobs_forward_refl [simp]: "jobs_forward d d" by (auto simp: jobs_forward_def)

lemma jobs_forward_trans: "jobs_forward d d' \<Longrightarrow> jobs_forward d' d'' \<Longrightarrow> jobs_forward d d''"
  unfolding jobs_forward_def by (meson forward_trans)

lemma jobs_forward_same: "jobs d' = jobs d \<Longrightarrow> jobs_forward d d'"
proof -
  assume "jobs d' = jobs d"
  then have "job_state i d' = job_state i d" for i by (simp add: job_state_def)
  then show ?thesis by (auto simp: jobs_forward_def)
qed

lemma jobs_forward_append: "jobs d' = jobs d @ js \<Longrightarrow> jobs_forward d d'"
  by (auto simp: jobs_forward_def job_state_def find_append)

lemma jobs_forward_set:
  "job_state i d = Some p \<Longrightarrow> forward p q \<Longrightarrow>
   (\<And>k. job_state k d' = (if k = i then Some q else job_state k d)) \<Longrightarrow> jobs_forward d d'"
  unfolding jobs_forward_def by (metis forward_refl option.inject)

text \<open>An operation that does not touch the job table.\<close>

lemma update_episode_jobs [simp]: "jobs (snd (update_episode eid f d)) = jobs d"
  by (simp add: update_episode_def Let_def)

lemma jobs_frame [simp]:
  "jobs (snd (CreateUser u d)) = jobs d" "jobs (snd (UpdateUser u d)) = jobs d"
  "jobs (snd (BumpSessionEpoch uid d)) = jobs d" "jobs (snd (LinkOIDCIdentity uid iss sub d)) = jobs d"
  "jobs (snd (CreateChannel c d)) = jobs d" "jobs (snd (UpdateChannel c d)) = jobs d"
  "jobs (snd (CreateEpisode e d)) = jobs d" "jobs (snd (UpdateEpisode e d)) = jobs d"
  "jobs (snd (SetEpisodeTranscriptStatus eid st t d)) = jobs d"
  "jobs (snd (UpdateEpisodeMetadata eid ti de la t d)) = jobs d"
  "jobs (snd (SetEpisodePublication eid est p t d)) = jobs d"
  "jobs (snd (ReorderEpisodes cid ids t d)) = jobs d"
  "jobs (snd (ReleaseBlob tok d)) = jobs d" "jobs (snd (ReleaseDeleteLease tok d)) = jobs d"
  by (simp_all add: CreateUser_def UpdateUser_def BumpSessionEpoch_def LinkOIDCIdentity_def
      CreateChannel_def UpdateChannel_def CreateEpisode_def UpdateEpisode_def
      SetEpisodeTranscriptStatus_def UpdateEpisodeMetadata_def SetEpisodePublication_def
      ReorderEpisodes_eq ReleaseBlob_def ReleaseDeleteLease_def Let_def)

lemma jobs_frame_blobs [simp]:
  "jobs (snd (ReserveBlob key now d)) = jobs d"
  "jobs (snd (BlobOrphaned key now d)) = jobs d"
  "jobs (snd (DeleteEpisode eid now d)) = jobs d"
  "jobs (snd (SaveTranscript tr d)) = jobs d"
  by (auto simp: ReserveBlob_eq BlobOrphaned_eq DeleteEpisode_eq acquire_eq delete_episode_row_def
      SaveTranscript_def Let_def dest: upsert_transcript_frame split: option.splits sum.splits)

lemma save_and_mark_jobs: "save_and_mark tr eid st t d = Inr d' \<Longrightarrow> jobs d' = jobs d"
  by (auto dest!: save_and_mark_frame)

lemma SettleEpisodeTranscript_jobs [simp]:
  "jobs (snd (SettleEpisodeTranscript jid tok eid tr st t d)) = jobs d"
  by (auto simp: SettleEpisodeTranscript_def with_tx_def dest: save_and_mark_jobs split: sum.splits)

lemma job_state_cong: "jobs d' = jobs d \<Longrightarrow> job_state i d' = job_state i d"
  by (simp add: job_state_def)

text \<open>The combined settlement: either nothing happens, or this claim becomes done.\<close>

lemma SettleAndComplete_cases:
  assumes "wf_jobs d"
  shows "(\<exists>e. SettleEpisodeTranscriptAndCompleteJob jid tok eid tr st t d = (Inl e, d)
           \<and> (e = ErrStaleClaim \<longleftrightarrow> \<not> claimed jid tok d))
    \<or> (\<exists>d' ts. SettleEpisodeTranscriptAndCompleteJob jid tok eid tr st t d = (Inr (), d')
         \<and> claimed jid tok d
         \<and> d' = d\<lparr>jobs := upd_where (claim_hit jid tok) (settled_row JobDone [] None t) (jobs d),
             transcripts := ts,
             episodes := upd_where (\<lambda>r. er_id r = eid) (set_status_cols st t) (episodes d)\<rparr>
         \<and> save_and_mark tr eid st t
             (d\<lparr>jobs := upd_where (claim_hit jid tok) (settled_row JobDone [] None t) (jobs d)\<rparr>) = Inr d')"
proof (cases "claimed jid tok d")
  case False
  then show ?thesis
    using claimed_count [OF assms, of jid tok]
    by (simp add: SettleEpisodeTranscriptAndCompleteJob_def with_tx_def Let_def)
next
  case True
  let ?d1 = "d\<lparr>jobs := upd_where (claim_hit jid tok) (settled_row JobDone [] None t) (jobs d)\<rparr>"
  have row: "(\<lambda>r. r\<lparr>jr_status := JobDone, jr_last_error := [], jr_updated_at := toUnix t\<rparr>)
      = settled_row JobDone [] None t" by (auto simp: settled_row_def)
  have eq: "SettleEpisodeTranscriptAndCompleteJob jid tok eid tr st t d
      = (case save_and_mark tr eid st t ?d1 of Inl e \<Rightarrow> (Inl e, d) | Inr d2 \<Rightarrow> (Inr (), d2))"
    using True claimed_count [OF assms, of jid tok]
    by (simp add: SettleEpisodeTranscriptAndCompleteJob_def with_tx_def Let_def row split: sum.splits)
  show ?thesis
  proof (cases "save_and_mark tr eid st t ?d1")
    case (Inl e)
    then have "e \<noteq> ErrStaleClaim"
      by (auto simp: save_and_mark_def upsert_transcript_def Let_def split: option.splits if_splits)
    with Inl eq True show ?thesis by simp
  next
    case (Inr d')
    with eq True save_and_mark_frame [OF Inr] show ?thesis by auto
  qed
qed

lemma insertJob_forward: "insertJob j d = Inr d' \<Longrightarrow> jobs_forward d d'"
  by (auto simp: insertJob_def split: if_splits intro: jobs_forward_append)

lemma EnqueueJob_forward: "jobs_forward d (snd (EnqueueJob j d))"
  by (auto simp: EnqueueJob_def insertJob_forward split: sum.splits)

lemma EnqueueTranscriptionJob_forward: "jobs_forward d (snd (EnqueueTranscriptionJob j eid t d))"
proof -
  have "jobs_forward d d'" if "insertJob j (d\<lparr>episodes := es\<rparr>) = Inr d'" for d' es
    using jobs_forward_trans [OF jobs_forward_same insertJob_forward [OF that]] by simp
  then show ?thesis
    by (auto simp: EnqueueTranscriptionJob_def with_tx_def Let_def split: sum.splits)
qed

lemma setJobStatus_forward:
  assumes "wf_jobs d" shows "jobs_forward d (snd (setJobStatus jid tok st c ra now d))"
proof (cases "claimed jid tok d")
  case True
  from job_state_setJobStatus [OF assms True] obtain d' where
    "setJobStatus jid tok st c ra now d = (Inr (), d')"
    "\<forall>k. job_state k d' = (if k = jid then Some (st, tok) else job_state k d)" by blast
  with True show ?thesis
    by (auto simp: claimed_def intro!: jobs_forward_set [where q = "(st, tok)"]) (simp add: forward_def)
qed (simp add: setJobStatus_eq [OF assms])

lemma ClaimJob_forward:
  assumes "wf_jobs d" shows "jobs_forward d (snd (ClaimJob ks now l d))"
proof (cases "select_runnable ks now d")
  case (Some r)
  note r = select_runnable_Some(1,2) [OF Some]
  have "jobs_forward d (d\<lparr>jobs := upd_where (\<lambda>x. jr_id x = jr_id r) (leased_row now l) (jobs d)\<rparr>)"
    by (rule jobs_forward_set [OF job_state_row [OF assms r(1)] _ job_state_leased [OF assms r(1)]])
      (use r(2) in \<open>auto simp: forward_def runnable_def\<close>)
  with Some show ?thesis by (simp add: ClaimJob_eq [OF assms])
qed (simp add: ClaimJob_eq [OF assms])

lemma SettleAndComplete_forward:
  assumes "wf_jobs d"
  shows "jobs_forward d (snd (SettleEpisodeTranscriptAndCompleteJob jid tok eid tr st t d))"
  using SettleAndComplete_cases [OF assms, of jid tok eid tr st t]
proof (elim disjE exE conjE)
  fix d' ts
  let ?js = "upd_where (claim_hit jid tok) (settled_row JobDone [] None t) (jobs d)"
  assume c: "claimed jid tok d" and r: "SettleEpisodeTranscriptAndCompleteJob jid tok eid tr st t d = (Inr (), d')"
    and d': "d' = d\<lparr>jobs := ?js, transcripts := ts,
             episodes := upd_where (\<lambda>r. er_id r = eid) (set_status_cols st t) (episodes d)\<rparr>"
  have "job_state k d' = (if k = jid then Some (JobDone, tok) else job_state k d)" for k
  proof -
    have "job_state k d' = job_state k (d\<lparr>jobs := ?js\<rparr>)" by (rule job_state_cong) (simp add: d')
    then show ?thesis by (simp add: job_state_settled [OF c])
  qed
  with c show ?thesis
    by (auto simp: r claimed_def forward_def intro!: jobs_forward_set [where q = "(JobDone, tok)"])
qed simp

lemma exec_forward:
  assumes "wf_db d" shows "jobs_forward d (snd (exec op d))"
  using wf_jobsI [OF assms]
  by (cases op) (simp_all add: jobs_forward_same EnqueueJob_forward EnqueueTranscriptionJob_forward
      ClaimJob_forward SettleAndComplete_forward setJobStatus_forward CompleteJob_def
      RescheduleJob_def FailJob_def)

lemma exec_all_forward: "wf_db d \<Longrightarrow> jobs_forward d (exec_all ops d)"
proof (induction ops arbitrary: d)
  case (Cons op ops)
  from jobs_forward_trans [OF exec_forward [OF Cons.prems] Cons.IH [OF exec_wf [OF Cons.prems]]]
  show ?case by simp
qed simp

text \<open>A claim that was lost or settled is never held again with the same token.\<close>

definition spent :: "string \<Rightarrow> int \<Rightarrow> db \<Rightarrow> bool" where
  "spent jid tok d \<longleftrightarrow> (\<exists>st a. job_state jid d = Some (st, a) \<and> tok \<le> a \<and> \<not> claimed jid tok d)"

lemma spent_forward: "spent jid tok d \<Longrightarrow> jobs_forward d d' \<Longrightarrow> spent jid tok d'"
  by (fastforce simp: spent_def jobs_forward_def forward_def claimed_def)

lemma spent_not_claimed: "spent jid tok d \<Longrightarrow> \<not> claimed jid tok d"
  by (auto simp: spent_def)

lemma held_or_spent:
  "claimed jid tok d \<Longrightarrow> jobs_forward d d' \<Longrightarrow> claimed jid tok d' \<or> spent jid tok d'"
  by (fastforce simp: spent_def jobs_forward_def forward_def claimed_def)

section \<open>Session epochs only move forward\<close>

lemma epoch_of_same: "users d' = users d \<Longrightarrow> epoch_of uid d' = epoch_of uid d"
  by (simp add: epoch_of_def)

lemma users_frame [simp]:
  "users (snd (CreateChannel c d)) = users d" "users (snd (UpdateChannel c d)) = users d"
  "users (snd (CreateEpisode e d)) = users d"
  "users (snd (update_episode eid f d)) = users d"
  "users (snd (ReorderEpisodes cid ids t d)) = users d"
  "users (snd (ReleaseBlob tok d)) = users d" "users (snd (ReleaseDeleteLease tok d)) = users d"
  "users (snd (ReserveBlob key now d)) = users d"
  "users (snd (setJobStatus jid token st cause ra now d)) = users d"
  by (simp_all add: CreateChannel_def UpdateChannel_def CreateEpisode_def update_episode_def
      ReorderEpisodes_eq ReleaseBlob_def ReleaseDeleteLease_def ReserveBlob_eq setJobStatus_def Let_def)

lemma insertJob_users: "insertJob j d = Inr d' \<Longrightarrow> users d' = users d"
  by (auto simp: insertJob_def split: if_splits)

lemma users_frame_blobs [simp]:
  "users (snd (BlobOrphaned key now d)) = users d"
  "users (snd (DeleteEpisode eid now d)) = users d"
  by (auto simp: BlobOrphaned_eq DeleteEpisode_eq acquire_eq delete_episode_row_def Let_def
      split: option.splits)

lemma upsert_users: "upsert_transcript tr d = Inr d' \<Longrightarrow> users d' = users d"
  by (drule upsert_transcript_frame) auto

lemma save_and_mark_users: "save_and_mark tr eid st t d = Inr d' \<Longrightarrow> users d' = users d"
  by (drule save_and_mark_frame) auto

lemma users_frame_tx [simp]:
  "users (snd (SaveTranscript tr d)) = users d"
  "users (snd (EnqueueJob j d)) = users d"
  by (simp_all add: SaveTranscript_def EnqueueJob_def upsert_users insertJob_users split: sum.splits)

lemma users_frame_enqueue [simp]: "users (snd (EnqueueTranscriptionJob j eid t d)) = users d"
proof -
  have "users d' = users d" if "insertJob j (d\<lparr>episodes := es\<rparr>) = Inr d'" for d' es
    using insertJob_users [OF that] by simp
  then show ?thesis
    by (auto simp: EnqueueTranscriptionJob_def with_tx_def Let_def split: sum.splits)
qed

lemma users_frame_claim [simp]: "users (snd (ClaimJob ks now l d)) = users d"
  by (cases "select_runnable ks now d") (simp_all add: ClaimJob_def with_tx_def Let_def)

lemma users_frame_settle [simp]:
  "users (snd (SettleEpisodeTranscript jid tok eid tro tst t d)) = users d"
  "users (snd (SettleEpisodeTranscriptAndCompleteJob jid tok eid tro tst t d)) = users d"
  by (auto simp: SettleEpisodeTranscript_def SettleEpisodeTranscriptAndCompleteJob_def with_tx_def
      Let_def save_and_mark_users split: sum.splits)

fun user_op :: "store_op \<Rightarrow> bool" where
  "user_op (OpCreateUser _) = True"
| "user_op (OpUpdateUser _) = True"
| "user_op (OpBumpSessionEpoch _) = True"
| "user_op (OpLinkOIDCIdentity _ _ _) = True"
| "user_op _ = False"

lemma exec_users: "\<not> user_op op \<Longrightarrow> users (snd (exec op d)) = users d"
  by (cases op) (simp_all add: UpdateEpisode_def SetEpisodeTranscriptStatus_def
      UpdateEpisodeMetadata_def SetEpisodePublication_def CompleteJob_def RescheduleJob_def FailJob_def)

lemma exec_epoch:
  "epoch_of uid d = Some n \<Longrightarrow>
   epoch_of uid (snd (exec op d)) = Some (if op = OpBumpSessionEpoch uid then n + 1 else n)"
  using exec_users [of op d]
  by (cases op) (simp_all add: epoch_of_UpdateUser epoch_of_LinkOIDCIdentity epoch_of_BumpSessionEpoch
      epoch_of_CreateUser, simp_all add: epoch_of_def)

lemma exec_all_epoch:
  "epoch_of uid d = Some n \<Longrightarrow>
   epoch_of uid (exec_all ops d) = Some (n + int (count_where (\<lambda>op. op = OpBumpSessionEpoch uid) ops))"
  by (induction ops arbitrary: d n) (auto simp: exec_epoch count_where_def)

section \<open>What sequences of operations give\<close>

text \<open>Databases one sequence of operations apart, all of them of a kind.\<close>

definition opRuns :: "(store_op \<Rightarrow> bool) \<Rightarrow> db \<Rightarrow> db \<Rightarrow> bool" where
  "opRuns P d d' \<longleftrightarrow> (\<exists>ops. list_all P ops \<and> d' = exec_all ops d)"

abbreviation runs :: "db \<Rightarrow> db \<Rightarrow> bool" where "runs \<equiv> opRuns (\<lambda>_. True)"

lemma opRuns_refl [simp]: "opRuns P d d"
  unfolding opRuns_def by (rule exI [of _ "[]"]) simp

lemma opRuns_trans: "opRuns P d d' \<Longrightarrow> opRuns P d' d'' \<Longrightarrow> opRuns P d d''"
  unfolding opRuns_def by (metis exec_all_simps(3) list_all_append)

lemma opRuns_all: "list_all P ops \<Longrightarrow> opRuns P d (exec_all ops d)"
  by (auto simp: opRuns_def)

lemma runs_exec_all [simp]: "runs d (exec_all ops d)"
  by (simp add: opRuns_all list_all_iff)

lemma opRuns_exec: "P op \<Longrightarrow> opRuns P d (snd (exec op d))"
  unfolding opRuns_def by (rule exI [of _ "[op]"]) simp

lemma opRuns_wf: "opRuns P d d' \<Longrightarrow> wf_db d \<Longrightarrow> wf_db d'"
  by (auto simp: opRuns_def exec_all_wf)

lemma runs_forward: "runs d d' \<Longrightarrow> wf_db d \<Longrightarrow> jobs_forward d d'"
  by (auto simp: opRuns_def exec_all_forward)

lemma runs_reachable: "runs d d' \<Longrightarrow> reachable d \<Longrightarrow> reachable d'"
proof -
  have "reachable d \<Longrightarrow> reachable (exec_all ops d)" for ops
    by (induction ops arbitrary: d) (simp_all add: reachable.step)
  then show "runs d d' \<Longrightarrow> reachable d \<Longrightarrow> reachable d'" by (auto simp: opRuns_def)
qed

text \<open>What a worker does to the store.\<close>

fun worker_op :: "store_op \<Rightarrow> bool" where
  "worker_op (OpClaimJob _ _ _) = True"
| "worker_op (OpCompleteJob _ _ _) = True"
| "worker_op (OpRescheduleJob _ _ _ _ _) = True"
| "worker_op (OpFailJob _ _ _ _) = True"
| "worker_op (OpSettle _ _ _ _ _ _) = True"
| "worker_op (OpSettleAndComplete _ _ _ _ _ _) = True"
| "worker_op _ = False"

lemma worker_opRuns:
  assumes "\<And>op. worker_op op \<Longrightarrow> P op"
  shows "opRuns P d (snd (ClaimJob ks now l d))" "opRuns P d (snd (CompleteJob jid tok now d))"
    "opRuns P d (snd (RescheduleJob jid tok ra c now d))" "opRuns P d (snd (FailJob jid tok c now d))"
    "opRuns P d (snd (SettleEpisodeTranscript jid tok eid tr st t d))"
    "opRuns P d (snd (SettleEpisodeTranscriptAndCompleteJob jid tok eid tr st t d))"
  using opRuns_exec [of P "OpClaimJob ks now l" d] opRuns_exec [of P "OpCompleteJob jid tok now" d]
    opRuns_exec [of P "OpRescheduleJob jid tok ra c now" d] opRuns_exec [of P "OpFailJob jid tok c now" d]
    opRuns_exec [of P "OpSettle jid tok eid tr st t" d] opRuns_exec [of P "OpSettleAndComplete jid tok eid tr st t" d] assms
  by simp_all

end
