(* ===== verification/Examples.thy ===== *)
theory Examples
  imports StoreSystem
begin

text \<open>
  A small concrete installation for the witnesses of the development: one user with one
  channel, a published episode without transcript, an episode queued for transcription,
  and its pending job.
\<close>

definition ex_user_row :: user_row where
  "ex_user_row = \<lparr>ur_id = ''u'', ur_email = ''a@b'', ur_display_name = ''A'', ur_password_hash = ''h'',
     ur_oidc_issuer = [], ur_oidc_subject = [], ur_session_epoch = 0, ur_created_at = 0\<rparr>"

definition ex_channel_row :: channel_row where
  "ex_channel_row = \<lparr>cr_id = ''c'', cr_user_id = ''u'', cr_title = ''T'', cr_description = [],
     cr_language = ''en'', cr_image_key = [], cr_created_at = 0, cr_updated_at = 0\<rparr>"

definition ex_episode_row :: "string \<Rightarrow> string \<Rightarrow> TranscriptStatus \<Rightarrow> episode_row" where
  "ex_episode_row eid key ts = \<lparr>er_id = eid, er_channel_id = ''c'', er_title = ''E'', er_description = [],
     er_media_key = key, er_media_mime = ''audio/mpeg'', er_media_kind = MediaAudio, er_media_bytes = 1,
     er_duration_secs = 60, er_language = ''en'', er_position = 0, er_status = EpisodePublished,
     er_transcript_status = ts, er_published_at = Some 0, er_created_at = 0, er_updated_at = 0\<rparr>"

definition ex_job_row :: "JobStatus \<Rightarrow> int \<Rightarrow> int \<Rightarrow> job_row" where
  "ex_job_row st n ra = \<lparr>jr_id = ''j'', jr_kind = JobTranscribe, jr_payload = TranscribePayload ''e'',
     jr_status = st, jr_attempts = n, jr_last_error = [], jr_run_after = ra, jr_created_at = 0,
     jr_updated_at = 0\<rparr>"

definition ex_db :: "TranscriptStatus \<Rightarrow> JobStatus \<Rightarrow> int \<Rightarrow> int \<Rightarrow> db" where
  "ex_db ts st n ra = empty_db\<lparr>users := [ex_user_row], channels := [ex_channel_row],
     episodes := [ex_episode_row ''e'' ''k'' ts, ex_episode_row ''f'' ''l'' TranscriptNone],
     jobs := [ex_job_row st n ra]\<rparr>"

named_theorems ex \<open>the definitions of the concrete installation\<close>

declare ex_user_row_def [ex] ex_channel_row_def [ex] ex_episode_row_def [ex] ex_job_row_def [ex]
  ex_db_def [ex] empty_db_def [ex]

lemma ex_wf: "wf_db (ex_db ts st n ra)"
  by (simp add: wf_defs wf_seq_def ex oidc_key_def linked_def)

lemma ex_job_state: "job_state i (ex_db ts st n ra) = (if i = ''j'' then Some (st, n) else None)"
  by (simp add: ex job_state_def)

lemma ex_claimed: "claimed ''j'' n (ex_db ts JobProcessing n ra)"
  by (simp add: claimed_def ex_job_state)

lemma ex_spent: "st \<noteq> JobProcessing \<Longrightarrow> spent ''j'' n (ex_db ts st n ra)"
  by (simp add: spent_def claimed_def ex_job_state)

lemma ex_EpisodeByID:
  "EpisodeByID ''e'' (ex_db ts st n ra) = Inr (scanEpisode (ex_episode_row ''e'' ''k'' ts))"
  by (simp add: EpisodeByID_def episodeWhere_def ex)

lemma ex_ClaimJob:
  "\<exists>d' j. ClaimJob [JobTranscribe] 0 l (ex_db ts JobPending n 0) = (Inr j, d')
     \<and> j_ID j = ''j'' \<and> j_Attempts j = n + 1"
proof -
  have "select_runnable [JobTranscribe] 0 (ex_db ts JobPending n 0) = Some (ex_job_row JobPending n 0)"
    by (simp add: select_runnable_def ex runnable_def kind_match_def toUnix_def)
  then show ?thesis
    by (simp add: ClaimJob_eq [OF wf_jobsI [OF ex_wf]] leased_job_def scanJob_def ex_job_row_def)
qed

end
