(* ===== verification/StoreGuarantees.thy ===== *)
theory StoreGuarantees
  imports Examples
begin

text \<open>
  What the store and the job queue promise to the rest of the program, stated over the
  operations themselves: constraints, atomicity, fencing, exclusive claims, ordering,
  orphan detection and the round trips of the reads.  The proofs are the component lemmas;
  every statement with a hypothesis is applied to the concrete installation of \<open>Examples\<close>.
\<close>

section \<open>The database as a whole\<close>

text \<open>
  C29: Every database a run of the store operations can reach satisfies the schema: unique
  ids, e-mail addresses unique up to ASCII case, an OIDC identity on at most one account,
  and no dangling owner, channel or episode reference.
\<close>

theorem constraints_hold:
  assumes "reachable d"
  shows "distinct (map ur_id (users d)) \<and> distinct (map (\<lambda>r. toLowerAscii (ur_email r)) (users d))
    \<and> (\<forall>r \<in> set (users d). \<forall>r' \<in> set (users d). ur_oidc_subject r \<noteq> [] \<and> oidc_key r = oidc_key r' \<longrightarrow> r = r')
    \<and> distinct (map cr_id (channels d)) \<and> (\<forall>r \<in> set (channels d). cr_user_id r \<in> ur_id ` set (users d))
    \<and> distinct (map er_id (episodes d)) \<and> (\<forall>r \<in> set (episodes d). er_channel_id r \<in> cr_id ` set (channels d))
    \<and> distinct (map tr_episode_id (transcripts d))
    \<and> (\<forall>r \<in> set (transcripts d). tr_episode_id r \<in> er_id ` set (episodes d))
    \<and> distinct (map jr_id (jobs d))"
proof -
  have wf: "wf_db d" by (rule reachable_wf_db [OF assms])
  then have inj: "inj_on oidc_key {r \<in> set (users d). linked r}" by (simp add: wf_db_def wf_users_alt)
  have "r = r'" if "r \<in> set (users d)" "r' \<in> set (users d)" "ur_oidc_subject r \<noteq> []" "oidc_key r = oidc_key r'" for r r'
    using inj_onD [OF inj that(4)] that by (auto simp: linked_def oidc_key_def)
  then show ?thesis using wf by (auto simp: wf_defs)
qed

lemma constraints_hold_witness:
  "distinct (map (\<lambda>r. toLowerAscii (ur_email r)) (users (snd (exec (OpBumpSessionEpoch ''u'') empty_db))))"
  using constraints_hold [OF reachable.step [OF reachable.init]] by blast

text \<open>
  C15: An operation that reports an error, of any kind and at any point of its transaction,
  leaves every table exactly as it was.
\<close>

theorem failed_operation_writes_nothing:
  assumes "wf_db d" "fst (exec op d) = Inl e"
  shows "snd (exec op d) = d"
  by (rule exec_atomic [OF assms])

lemma failed_operation_writes_nothing_witness:
  "snd (exec (OpSettleAndComplete ''j'' 4 ''e'' None TranscriptNone 0) (ex_db TranscriptPending JobProcessing 5 0))
     = ex_db TranscriptPending JobProcessing 5 0"
  by (rule failed_operation_writes_nothing [OF ex_wf, where e = ErrStaleClaim])
    (simp add: SettleEpisodeTranscriptAndCompleteJob_def with_tx_def ex)

text \<open>
  The fencing token works: once a claim of a job has been lost or settled, no sequence of
  operations of any process gives it back, so a late settlement under it reports a stale
  claim and changes nothing.
\<close>

theorem lost_claim_stays_lost:
  assumes "wf_db d" "claimed jid tok d" "\<not> claimed jid tok (exec_all ops d)"
  shows "let d' = exec_all later (exec_all ops d) in
    \<not> claimed jid tok d' \<and> CompleteJob jid tok now d' = (Inl ErrStaleClaim, d')
    \<and> RescheduleJob jid tok ra c now d' = (Inl ErrStaleClaim, d')
    \<and> SettleEpisodeTranscriptAndCompleteJob jid tok eid tr st now d' = (Inl ErrStaleClaim, d')"
proof -
  let ?d = "exec_all later (exec_all ops d)"
  have wf: "wf_db (exec_all ops d)" "wf_db ?d" using assms(1) exec_all_wf by blast+
  have "spent jid tok (exec_all ops d)"
    using held_or_spent [OF assms(2) exec_all_forward [OF assms(1)]] assms(3) by blast
  then have n: "\<not> claimed jid tok ?d"
    by (rule spent_not_claimed [OF spent_forward [OF _ exec_all_forward [OF wf(1)]]])
  then show ?thesis
    using setJobStatus_eq [OF wf_jobsI [OF wf(2)]] claimed_count [OF wf_jobsI [OF wf(2)]]
    by (simp add: CompleteJob_def RescheduleJob_def SettleEpisodeTranscriptAndCompleteJob_def with_tx_def Let_def)
qed

lemma lost_claim_stays_lost_witness:
  "\<not> claimed ''j'' 5 (exec_all [OpClaimJob [] (2 * Second) 0]
     (exec_all [OpClaimJob [] Second 0] (ex_db TranscriptProcessing JobProcessing 5 0)))"
proof -
  have "\<not> claimed ''j'' 5 (exec_all [OpClaimJob [] Second 0] (ex_db TranscriptProcessing JobProcessing 5 0))"
    by code_simp
  from lost_claim_stays_lost [OF ex_wf ex_claimed this, of "[OpClaimJob [] (2 * Second) 0]"]
  show ?thesis by (simp add: Let_def)
qed

text \<open>
  The session epoch of an account moves only by \<open>BumpSessionEpoch\<close> for that account, by
  one each time: profile edits, identity links and everything else leave it alone.
\<close>

text \<open>
  The session epoch moves only by BumpSessionEpoch of that account, by one each time.
\<close>

theorem epoch_counts_bumps:
  assumes "UserByID uid d = Inr u" "UserByID uid (exec_all ops d) = Inr u'"
  shows "u_SessionEpoch u' = u_SessionEpoch u + int (count_where (\<lambda>op. op = OpBumpSessionEpoch uid) ops)"
  using exec_all_epoch [OF epoch_of_UserByID [OF assms(1)], of ops] epoch_of_UserByID [OF assms(2)] by simp

lemma ex_UserByID: "UserByID ''u'' (ex_db ts st n ra) = Inr (scanUser ex_user_row)"
  by (simp add: UserByID_def userWhere_def ex)

lemma epoch_counts_bumps_witness:
  "u_SessionEpoch ((scanUser ex_user_row)\<lparr>u_SessionEpoch := 1\<rparr>)
     = u_SessionEpoch (scanUser ex_user_row)
       + int (count_where (\<lambda>op. op = OpBumpSessionEpoch ''u'') [OpBumpSessionEpoch ''u'', OpReleaseBlob 3])"
  by (rule epoch_counts_bumps [OF ex_UserByID])
    (simp add: BumpSessionEpoch_def ReleaseBlob_def UserByID_def userWhere_def scanUser_def ex Let_def)

section \<open>Episodes and transcripts\<close>

text \<open>
  A reorder is accepted exactly when the ids are a permutation of the channel's episodes,
  and then the channel lists in that order; otherwise it is refused and nothing moves.
\<close>

theorem reorder_sets_listing:
  assumes "wf_db d" "cid \<noteq> []"
  shows "let (res, d') = ReorderEpisodes cid ids t d;
             listing = \<lambda>d. map e_ID (ListEpisodes \<lparr>f_ChannelID = cid, f_PublishedOnly = False, f_Limit = 0\<rparr> d) in
    (res = Inr () \<longleftrightarrow> distinct ids \<and> set ids = er_id ` {r \<in> set (episodes d). er_channel_id r = cid})
    \<and> (res = Inr () \<longrightarrow> listing d' = ids) \<and> (res \<noteq> Inr () \<longrightarrow> res = Inl ErrInvalidReorder \<and> d' = d)"
proof -
  obtain res d' where r: "ReorderEpisodes cid ids t d = (res, d')" by fastforce
  have "res = Inr () \<longrightarrow> map e_ID (ListEpisodes \<lparr>f_ChannelID = cid, f_PublishedOnly = False, f_Limit = 0\<rparr> d') = ids"
    using ListEpisodes_reordered [OF assms] r by blast
  then show ?thesis using r by (auto simp: ReorderEpisodes_eq set_channelEpisodeIDs split: if_splits)
qed

lemma reorder_sets_listing_witness:
  "map e_ID (ListEpisodes \<lparr>f_ChannelID = ''c'', f_PublishedOnly = False, f_Limit = 0\<rparr>
     (snd (ReorderEpisodes ''c'' [''f'', ''e''] 0 (ex_db TranscriptNone JobDone 1 0)))) = [''f'', ''e'']"
proof -
  have "er_id ` {r \<in> set (episodes (ex_db TranscriptNone JobDone 1 0)). er_channel_id r = ''c''} = {''e'', ''f''}"
    by (force simp: ex)
  then show ?thesis
    using reorder_sets_listing [OF ex_wf, of "''c''" "[''f'', ''e'']" 0 TranscriptNone JobDone 1 0]
    by (auto simp: Let_def split: prod.splits)
qed

text \<open>
  The targeted writes of the admin handlers cannot undo the worker: editing an episode's
  metadata or publishing it keeps the transcript status, media key and order that are in the
  database at that moment, and touches no other episode.
\<close>

theorem targeted_writes_keep_transcript:
  assumes "EpisodeByID i d = Inr e"
  shows "\<exists>m p. EpisodeByID i (snd (UpdateEpisodeMetadata eid title descr lang t d)) = Inr m
    \<and> EpisodeByID i (snd (SetEpisodePublication eid st pub t d)) = Inr p
    \<and> (\<forall>x \<in> {m, p}. e_TranscriptStatus x = e_TranscriptStatus e \<and> e_MediaKey x = e_MediaKey e
         \<and> e_Position x = e_Position e \<and> (i \<noteq> eid \<longrightarrow> x = e))
    \<and> e_Status m = e_Status e \<and> e_PublishedAt m = e_PublishedAt e
    \<and> (i = eid \<longrightarrow> e_Title m = title \<and> e_Status p = st)"
  using assms by (auto simp: EpisodeByID_metadata EpisodeByID_publication)

lemma targeted_writes_keep_transcript_witness:
  "\<exists>m. EpisodeByID ''e'' (snd (UpdateEpisodeMetadata ''e'' ''new'' [] [] 9 (ex_db TranscriptDone JobDone 1 0))) = Inr m
     \<and> e_Title m = ''new'' \<and> e_TranscriptStatus m = TranscriptDone"
  using targeted_writes_keep_transcript [OF ex_EpisodeByID, of "''e''" "''new''" "[]" "[]" 9 TranscriptDone JobDone 1 0]
  by (auto simp: scanEpisode_def ex)

text \<open>
  A transcript is read back as it was saved, up to the second of its time stamp, whatever
  was stored before; saving fails exactly for a time that JSON cannot encode or an episode
  that does not exist.
\<close>

theorem transcript_roundtrip:
  "case SaveTranscript tr d of
     (Inr _, d') \<Rightarrow> TranscriptByEpisode (t_EpisodeID tr) d'
                     = Inr (tr\<lparr>t_CreatedAt := fromUnix (toUnix (t_CreatedAt tr))\<rparr>)
   | (Inl e, d') \<Rightarrow> d' = d \<and> (if e = ErrMarshal then \<exists>s \<in> set (t_Segments tr).
         \<not> (finite_float (s_StartSecs s) \<and> finite_float (s_EndSecs s))
       else e = ErrForeignKey \<and> t_EpisodeID tr \<notin> er_id ` set (episodes d))"
proof (cases "upsert_transcript tr d")
  case (Inl e)
  then show ?thesis
    by (auto simp: SaveTranscript_def upsert_transcript_def marshalSegments_def Let_def list_all_iff list_ex_iff
        split: if_splits)
next
  case (Inr d')
  then show ?thesis using TranscriptByEpisode_upsert [OF Inr] by (simp add: SaveTranscript_def)
qed

section \<open>The blob guard\<close>

text \<open>
  C36: Deleting an episode removes it and its transcript, and reports its media orphaned, with a
  fresh lease, exactly when no other episode, no cover image, no live upload reservation and no
  running deletion uses the same bytes.
\<close>

theorem delete_reports_orphans_exactly:
  assumes "wf_db d" "EpisodeByID eid d = Inr e" "DeleteEpisode eid now d = (res, d')"
  shows "\<exists>orphaned token. res = Inr (e_MediaKey e, orphaned, token)
    \<and> (orphaned \<longleftrightarrow> e_MediaKey e \<noteq> [] \<and> \<not> reserved (e_MediaKey e) now d \<and> \<not> leased (e_MediaKey e) now d
        \<and> (\<forall>r \<in> set (episodes d). er_media_key r = e_MediaKey e \<longrightarrow> er_id r = eid)
        \<and> (\<forall>r \<in> set (channels d). cr_image_key r \<noteq> e_MediaKey e))
    \<and> (orphaned \<longrightarrow> leased (e_MediaKey e) now d' \<and> (\<forall>r \<in> set (leases d). br_id r < token))
    \<and> EpisodeByID eid d' = Inl ErrNotFound \<and> TranscriptByEpisode eid d' = Inl ErrNotFound"
proof -
  obtain r where r: "find (\<lambda>r. er_id r = eid) (episodes d) = Some r" "e_MediaKey e = er_media_key r"
    using assms(2) by (auto simp: EpisodeByID_def episodeWhere_def scanEpisode_def split: option.splits)
  have gone: "EpisodeByID eid (delete_episode_row eid d) = Inl ErrNotFound"
    "TranscriptByEpisode eid (delete_episode_row eid d) = Inl ErrNotFound"
    by (simp_all add: EpisodeByID_def episodeWhere_def TranscriptByEpisode_def delete_episode_row_def
        find_del_where_key [where k = er_id] find_del_where_key [where k = tr_episode_id])
  have acq: "episodes (snd (acquireDeleteLeaseTx k now d1)) = episodes d1"
    "transcripts (snd (acquireDeleteLeaseTx k now d1)) = transcripts d1" for k d1
    by (simp_all add: acquire_eq)
  have fresh: "\<forall>r \<in> set (leases d). br_id r < lease_seq d + 1"
    using assms(1) by (auto simp: wf_db_def wf_seq_def)
  show ?thesis
  proof (cases "er_media_key r \<noteq> [] \<and> \<not> referenced_elsewhere eid (er_media_key r) d
      \<and> \<not> reserved (er_media_key r) now d \<and> \<not> leased (er_media_key r) now d")
    case True
    then have res: "res = Inr (er_media_key r, True, lease_seq d + 1)"
      and d': "d' = snd (acquireDeleteLeaseTx (er_media_key r) now (delete_episode_row eid d))"
      using assms(3) r(1) by (simp_all add: DeleteEpisode_eq Let_def)
    have "leased (er_media_key r) now d'"
      unfolding d' using True by (simp add: leased_acquired)
    moreover have "EpisodeByID eid d' = Inl ErrNotFound" "TranscriptByEpisode eid d' = Inl ErrNotFound"
      using gone by (simp_all add: d' EpisodeByID_def episodeWhere_def TranscriptByEpisode_def acq)
    ultimately show ?thesis
      using True res r(2) fresh by (auto simp: referenced_elsewhere_def)
  next
    case False
    then have "res = Inr (er_media_key r, False, 0)" "d' = delete_episode_row eid d"
      using assms(3) r(1) by (auto simp: DeleteEpisode_eq Let_def split: if_splits)
    then show ?thesis using False r(2) gone by (auto simp: referenced_elsewhere_def)
  qed
qed

lemma delete_reports_orphans_exactly_witness:
  "\<exists>token. fst (DeleteEpisode ''e'' 0 (ex_db TranscriptDone JobDone 1 0)) = Inr (''k'', True, token)"
proof -
  obtain res d' where "DeleteEpisode ''e'' 0 (ex_db TranscriptDone JobDone 1 0) = (res, d')" by fastforce
  from delete_reports_orphans_exactly [OF ex_wf ex_EpisodeByID this] this show ?thesis
    by (auto simp: scanEpisode_def ex reserved_def leased_def)
qed

text \<open>
  An upload reservation and a deletion lease of the same media never coexist, whatever the
  order of the operations: if they are exclusive now, they are after any reservation, orphan
  check, release or passing of time; of two orphan checks only one wins the lease; and while it
  is held a reservation is refused.
\<close>

theorem reservation_excludes_deletion:
  assumes "\<forall>k. \<not> (reserved k now d \<and> leased k now d)" "now \<le> later"
  shows "(\<forall>k. \<not> (reserved k later d \<and> leased k later d))
    \<and> (\<forall>k. \<not> (reserved k now (snd (ReserveBlob key now d)) \<and> leased k now (snd (ReserveBlob key now d))))
    \<and> (\<forall>k. \<not> (reserved k now (snd (BlobOrphaned key now d)) \<and> leased k now (snd (BlobOrphaned key now d))))
    \<and> (\<forall>k. \<not> (reserved k now (snd (ReleaseBlob tok d)) \<and> leased k now (snd (ReleaseBlob tok d))))
    \<and> (\<forall>k. \<not> (reserved k now (snd (ReleaseDeleteLease tok d)) \<and> leased k now (snd (ReleaseDeleteLease tok d))))
    \<and> (\<forall>lease d'. BlobOrphaned key now d = (Inr (True, lease), d') \<longrightarrow>
         ReserveBlob key now d' = (Inl ErrBlobDeleting, d')
         \<and> (\<forall>b lease' d''. BlobOrphaned key now d' = (Inr (b, lease'), d'') \<longrightarrow> \<not> b))"
proof -
  have ex: "bg.exclusive now d" using assms(1) by (simp add: bg.exclusive_def)
  have "bg.exclusive now (snd (ReserveBlob key now d))"
  proof (cases "leased key now d")
    case True
    then show ?thesis using ex by (simp add: ReserveBlob_eq)
  next
    case False
    then obtain tok' d' where "ReserveBlob key now d = (Inr tok', d')" using bg.reserve_free by blast
    then show ?thesis using bg.exclusive_reserve [OF ex] by simp
  qed
  moreover have "bg.exclusive now (snd (BlobOrphaned key now d))"
  proof -
    have "\<exists>b tok' d'. BlobOrphaned key now d = (Inr (b, tok'), d')"
      unfolding BlobOrphaned_eq by (simp split: if_split) blast
    then show ?thesis using bg.exclusive_orphan [OF ex] by fastforce
  qed
  ultimately show ?thesis
    using bg.exclusive_wait [OF ex assms(2)] bg.exclusive_drop [OF ex] bg.reserve_after_orphan bg.single_winner
    unfolding bg.exclusive_def by blast
qed

lemma reservation_excludes_deletion_witness:
  "ReserveBlob ''k'' 0 (snd (BlobOrphaned ''k'' 0 empty_db))
     = (Inl ErrBlobDeleting, snd (BlobOrphaned ''k'' 0 empty_db))"
proof -
  have "\<forall>k. \<not> (reserved k 0 empty_db \<and> leased k 0 empty_db)" by (simp add: reserved_def empty_db_def)
  from reservation_excludes_deletion [OF this order_refl, of "''k''"]
  show ?thesis by (simp add: BlobOrphaned_eq reserved_def leased_def referenced_def empty_db_def)
qed

section \<open>Claims and the queue\<close>

text \<open>
  C30: A claim takes a job of a requested kind that is due, with the earliest due time and then the
  earliest creation; it is the only job that changes, it carries the next fencing token, and no
  worker can claim it again before its lease runs out.
\<close>

theorem claim_is_fair_and_exclusive:
  assumes "wf_db d" "ClaimJob ks now lease d = (Inr j, d')"
  shows "\<exists>r \<in> set (jobs d). j = leased_job now lease (scanJob r)
    \<and> jr_status r \<in> {JobPending, JobProcessing} \<and> jr_run_after r \<le> toUnix now \<and> (ks = [] \<or> jr_kind r \<in> set ks)
    \<and> (\<forall>r' \<in> set (jobs d). runnable now r' \<and> kind_match ks r' \<longrightarrow> job_order r \<le> job_order r')
    \<and> (\<forall>i. job_state i d' = (if i = jr_id r then Some (JobProcessing, jr_attempts r + 1) else job_state i d))
    \<and> (\<forall>ks' now' l' j' d2. now' < now + lease \<longrightarrow> ClaimJob ks' now' l' d' = (Inr j', d2) \<longrightarrow> j_ID j' \<noteq> j_ID j)"
proof -
  have wf: "wf_jobs d" by (rule wf_jobsI [OF assms(1)])
  obtain r where sel: "select_runnable ks now d = Some r" and j: "j = leased_job now lease (scanJob r)"
    and d': "d' = d\<lparr>jobs := upd_where (\<lambda>x. jr_id x = jr_id r) (leased_row now lease) (jobs d)\<rparr>"
    using assms(2) by (auto simp: ClaimJob_eq [OF wf] split: option.splits)
  note s = select_runnable_Some [OF sel]
  have wf': "wf_jobs d'" unfolding d' by (rule wf_jobs_upd [OF wf]) simp
  have again: "j_ID j' \<noteq> j_ID j" if "now' < now + lease" "ClaimJob ks' now' l' d' = (Inr j', d2)" for ks' now' l' j' d2
  proof
    note claimed_again = that(2)
    assume eq: "j_ID j' = j_ID j"
    obtain r' where r': "select_runnable ks' now' d' = Some r'" "j' = leased_job now' l' (scanJob r')"
      using claimed_again by (auto simp: ClaimJob_eq [OF wf'] split: option.splits)
    note s' = select_runnable_Some [OF r'(1)]
    have "jr_id r' = jr_id r" using eq r'(2) by (simp add: j leased_job_def scanJob_def)
    with s'(1) obtain x where "r' = leased_row now lease x" by (auto simp: d' in_upd_where split: if_splits)
    with s'(2) leased_not_runnable [OF that(1)] show False by simp
  qed
  show ?thesis
    using s j job_state_leased [OF wf s(1)] again
    by (intro bexI [of _ r]) (auto simp: runnable_def kind_match_def d')
qed

lemma claim_is_fair_and_exclusive_witness:
  "\<exists>j d'. ClaimJob [JobTranscribe] 0 Minute (ex_db TranscriptPending JobPending 0 0) = (Inr j, d')
     \<and> job_state ''j'' d' = Some (JobProcessing, 1)"
proof -
  obtain j d' where c: "ClaimJob [JobTranscribe] 0 Minute (ex_db TranscriptPending JobPending 0 0) = (Inr j, d')"
    using ex_ClaimJob by blast
  from claim_is_fair_and_exclusive [OF ex_wf c] c show ?thesis by (auto simp: ex_db_def ex_job_row_def)
qed

text \<open>
  C16: The combined settlement is all or nothing and fenced: it succeeds exactly when the claim is
  live and the transcript can be stored, and then job, episode status and transcript change
  together; otherwise the database is untouched, and a stale claim is reported as such.
\<close>

theorem settlement_is_fenced_and_atomic:
  assumes "wf_db d" "SettleEpisodeTranscriptAndCompleteJob jid tok eid tr st t d = (res, d')"
  shows "(res = Inl ErrStaleClaim \<longleftrightarrow> \<not> claimed jid tok d) \<and> (res \<noteq> Inr () \<longrightarrow> d' = d)
    \<and> (res = Inr () \<longrightarrow> (\<forall>i. job_state i d' = (if i = jid then Some (JobDone, tok) else job_state i d))
        \<and> (\<forall>e. EpisodeByID eid d' = Inr e \<longrightarrow> e_TranscriptStatus e = st)
        \<and> (\<forall>x. tr = Some x \<longrightarrow> TranscriptByEpisode (t_EpisodeID x) d'
              = Inr (x\<lparr>t_CreatedAt := fromUnix (toUnix (t_CreatedAt x))\<rparr>)))"
proof -
  have wf: "wf_jobs d" by (rule wf_jobsI [OF assms(1)])
  from SettleAndComplete_cases [OF wf, of jid tok eid tr st t] show ?thesis
  proof (elim disjE exE conjE)
    fix e assume "SettleEpisodeTranscriptAndCompleteJob jid tok eid tr st t d = (Inl e, d)"
      "(e = ErrStaleClaim) = (\<not> claimed jid tok d)"
    then show ?thesis using assms(2) by auto
  next
    fix d2 ts
    let ?d1 = "d\<lparr>jobs := upd_where (claim_hit jid tok) (settled_row JobDone [] None t) (jobs d)\<rparr>"
    assume s: "SettleEpisodeTranscriptAndCompleteJob jid tok eid tr st t d = (Inr (), d2)" "claimed jid tok d"
      and d2: "d2 = d\<lparr>jobs := upd_where (claim_hit jid tok) (settled_row JobDone [] None t) (jobs d),
             transcripts := ts,
             episodes := upd_where (\<lambda>r. er_id r = eid) (set_status_cols st t) (episodes d)\<rparr>"
      and m: "save_and_mark tr eid st t ?d1 = Inr d2"
    have "job_state i d2 = job_state i ?d1" for i by (rule job_state_cong) (simp add: d2)
    then have js: "job_state i d2 = (if i = jid then Some (JobDone, tok) else job_state i d)" for i
      using job_state_settled [OF s(2)] by simp
    have st: "e_TranscriptStatus e = st" if "EpisodeByID eid d2 = Inr e" for e
    proof -
      from episodeWhere_Inr [OF that [unfolded EpisodeByID_def]] obtain r where
        "r \<in> set (episodes d2)" "er_id r = eid" "e = scanEpisode r" by blast
      then obtain x where "r = (if er_id x = eid then set_status_cols st t x else x)"
        by (auto simp: d2 in_upd_where)
      with \<open>er_id r = eid\<close> have "r = set_status_cols st t x" by (auto split: if_splits)
      then show ?thesis using \<open>e = scanEpisode r\<close> by (simp add: scanEpisode_def set_status_cols_def)
    qed
    have tr: "TranscriptByEpisode (t_EpisodeID x) d2 = Inr (x\<lparr>t_CreatedAt := fromUnix (toUnix (t_CreatedAt x))\<rparr>)"
      if "tr = Some x" for x
    proof -
      note some = that
      obtain d3 where d3: "upsert_transcript x ?d1 = Inr d3" "d2 = setEpisodeStatusTx eid st t d3"
        using m some by (cases "upsert_transcript x ?d1") (auto simp: save_and_mark_def)
      then show ?thesis
        using TranscriptByEpisode_upsert [OF d3(1)] by (simp add: TranscriptByEpisode_def setEpisodeStatusTx_def)
    qed
    from s assms(2) js st tr show ?thesis by simp
  qed
qed

lemma settlement_is_fenced_and_atomic_witness:
  "fst (SettleEpisodeTranscriptAndCompleteJob ''j'' 4 ''e'' None TranscriptNone 0
     (ex_db TranscriptPending JobProcessing 5 0)) = Inl ErrStaleClaim"
proof -
  obtain r d' where e: "SettleEpisodeTranscriptAndCompleteJob ''j'' 4 ''e'' None TranscriptNone 0
     (ex_db TranscriptPending JobProcessing 5 0) = (r, d')" by fastforce
  show ?thesis using settlement_is_fenced_and_atomic [OF ex_wf e] e by (simp add: claimed_def ex_job_state)
qed

text \<open>
  A failed attempt ends in one of three ways: a lost claim changes nothing and is not an
  error, an exhausted job is dead-lettered, and any other job goes back to pending under the
  same token.
\<close>

theorem nack_outcomes:
  assumes "wf_db d" "q_store q = sqlite_jobs" "q_backoff q (j_Attempts j) = Some b"
  shows "\<exists>d'. Nack q j cause now now' d = (Inr (claimed (j_ID j) (j_Attempts j) d \<and> q_maxAttempts q \<le> j_Attempts j), d')
    \<and> (if claimed (j_ID j) (j_Attempts j) d
       then \<forall>k. job_state k d' = (if k = j_ID j
              then Some (if q_maxAttempts q \<le> j_Attempts j then JobFailed else JobPending, j_Attempts j)
              else job_state k d)
       else d' = d)"
proof (cases "claimed (j_ID j) (j_Attempts j) d")
  case True
  then show ?thesis
    using sq.Nack_exhausted [OF wf_jobsI [OF assms(1)] assms(2), of j cause now now']
      sq.Nack_retry [OF wf_jobsI [OF assms(1)] assms(2) _ _ assms(3), of cause now now']
    by (cases "q_maxAttempts q \<le> j_Attempts j") (auto simp: claimed_def)
next
  case False
  then show ?thesis
    using sq.Nack_stale [OF wf_jobsI [OF assms(1)] assms(2), of j cause now now'] assms(3)
    by (simp add: claimed_def)
qed

lemma nack_outcomes_witness:
  "\<exists>d'. Nack (NewQueue sqlite_jobs []) (scanJob (ex_job_row JobProcessing 5 0)) None 0 0
       (ex_db TranscriptProcessing JobProcessing 5 0) = (Inr True, d')
     \<and> job_state ''j'' d' = Some (JobFailed, 5)"
proof -
  let ?q = "NewQueue sqlite_jobs []" and ?j = "scanJob (ex_job_row JobProcessing 5 0)"
  have "q_backoff ?q (j_Attempts ?j) = Some (2 ^ 5 * Minute)"
    using defaultBackoff_small [of 5] by (simp add: NewQueue_def scanJob_def ex)
  from nack_outcomes [OF ex_wf _ this, of None 0 0 TranscriptProcessing JobProcessing 5 0] show ?thesis
    by (auto simp: NewQueue_def scanJob_def ex_job_row_def ex_claimed)
qed

text \<open>
  \<open>Dequeue\<close> hands out a job to run only within its attempt limit and under a live claim; a job
  past the limit comes back dead-lettered and failed; an empty queue or an error changes
  nothing.
\<close>

text \<open>
  Dequeue hands out a job to run only within its attempt limit and dead-letters one past
  it.
\<close>

theorem dequeue_outcomes:
  assumes "wf_db d" "q_store q = sqlite_jobs" "Dequeue q ks now now' d = (res, d')"
  shows "case res of
      Inr (Some (j, dead)) \<Rightarrow> (if dead then q_maxAttempts q < j_Attempts j \<and> job_state (j_ID j) d' = Some (JobFailed, j_Attempts j)
          else j_Attempts j \<le> q_maxAttempts q \<and> claimed (j_ID j) (j_Attempts j) d')
        \<and> (\<forall>k. k \<noteq> j_ID j \<longrightarrow> job_state k d' = job_state k d)
    | Inr None \<Rightarrow> d' = d
    | Inl e \<Rightarrow> d' = d \<and> e \<noteq> ErrNotFound"
proof -
  note wf = wf_jobsI [OF assms(1)]
  show ?thesis
  proof (cases res)
    case (Inl e)
    then show ?thesis using sq.Dequeue_err [OF wf assms(2)] assms(3) by simp
  next
    case (Inr x)
    then show ?thesis
      using assms(3) sq.Dequeue_none [OF wf assms(2), of ks now now' d']
        sq.Dequeue_run [OF wf assms(2), of ks now now' _ d'] sq.Dequeue_dead [OF wf assms(2), of ks now now' _ d']
      by (auto simp: claimed_def split: option.splits)
  qed
qed

lemma dequeue_outcomes_witness:
  "\<exists>j d'. Dequeue (NewQueue sqlite_jobs []) [JobTranscribe] 0 0 (ex_db TranscriptPending JobPending 5 0) = (Inr (Some (j, True)), d')
     \<and> job_state (j_ID j) d' = Some (JobFailed, j_Attempts j)"
proof -
  let ?q = "NewQueue sqlite_jobs []"
  have "case fst (Dequeue ?q [JobTranscribe] 0 0 (ex_db TranscriptPending JobPending 5 0)) of
      Inr (Some (j, dead)) \<Rightarrow> dead | _ \<Rightarrow> False" by code_simp
  then obtain j d' where "Dequeue ?q [JobTranscribe] 0 0 (ex_db TranscriptPending JobPending 5 0) = (Inr (Some (j, True)), d')"
    by (cases "Dequeue ?q [JobTranscribe] 0 0 (ex_db TranscriptPending JobPending 5 0)")
      (auto split: sum.splits option.splits)
  moreover from dequeue_outcomes [OF ex_wf _ this] have "job_state (j_ID j) d' = Some (JobFailed, j_Attempts j)"
    by (simp add: NewQueue_def)
  ultimately show ?thesis by blast
qed

text \<open>
  C39: The default back-off never overflows or panics for an attempt count that occurs: it is
  between one minute and one hour, doubles up to the cap, and stays there.
\<close>

theorem backoff_bounds:
  assumes "0 \<le> a"
  shows "\<exists>b c. defaultBackoff a = Some b \<and> defaultBackoff (a + 1) = Some c
    \<and> Minute \<le> sint b \<and> sint b \<le> Hour \<and> sint c = min Hour (2 * sint b)"
proof -
  have c: "a \<in> {0, 1, 2, 3, 4, 5} \<or> 6 \<le> a" using assms by auto
  have s: "\<exists>b. defaultBackoff k = Some b \<and> sint b = min Hour (2 ^ nat k * Minute)" if "0 \<le> k" for k
  proof (cases "k < 6")
    case True
    have "2 ^ nat k * Minute \<le> Hour \<or> k = 6" using True that
      by (cases "k \<in> {0, 1, 2, 3, 4, 5}") (auto simp: units)
    with True defaultBackoff_small [OF that True] show ?thesis by (auto simp: min_def)
  next
    case False
    then have "6 \<le> nat k" by simp
    then have "2 ^ 6 \<le> (2 :: int) ^ nat k" by (rule power_increasing) simp
    then have "Hour \<le> 2 ^ nat k * Minute" by (simp add: units)
    with False defaultBackoff_large [of k] show ?thesis by (auto simp: min_def)
  qed
  obtain b c where "defaultBackoff a = Some b" "sint b = min Hour (2 ^ nat a * Minute)"
    "defaultBackoff (a + 1) = Some c" "sint c = min Hour (2 ^ nat (a + 1) * Minute)"
    using s [of a] s [of "a + 1"] assms by auto
  moreover have "nat (a + 1) = Suc (nat a)" "1 \<le> (2 :: int) ^ nat a" using assms by simp_all
  ultimately show ?thesis by (auto simp: units min_def)
qed

lemma backoff_bounds_witness: "\<exists>b. defaultBackoff 3 = Some b \<and> Minute \<le> sint b \<and> sint b \<le> Hour"
  using backoff_bounds [of 3] by auto

end
