(* ===== verification/BlobProtocol.thy ===== *)
theory BlobProtocol
  imports Examples
begin

text \<open>
  The upload and delete protocol around a media blob, from \<open>handleEpisodeCreate\<close>,
  \<open>handleEpisodeDelete\<close>, \<open>deleteLeasedBlob\<close>, \<open>releaseBlob\<close> and \<open>deleteOrphanBlob\<close> of
  \<open>server/handlers_admin.go\<close>, as an interleaving of their atomic parts: store transactions,
  blob writes and blob deletes of any number of concurrent requests, crashes of any of
  them, every other store operation, and time.  A request reads its clock before the
  transaction it uses the reading in, so every reading is an earlier instant.

  \<open>gap\<close> bounds the time from the clock reading a delete lease is stamped with to the start
  of the \<open>BlobDeleteTimeout\<close> context; the physical delete ends within that timeout.
\<close>

section \<open>States\<close>

datatype stage = Reserved | Stored | Committed

record upload =
  up_tok :: int
  up_key :: string
  up_t :: time
  up_stage :: stage

record deletion =
  de_tok :: int
  de_key :: string
  de_t :: time
  de_done :: bool

record bsys =
  b_now :: time
  b_db :: db
  b_blobs :: "string set"
  b_uploads :: "upload set"
  b_deletes :: "deletion set"

definition b_init :: "db \<Rightarrow> bsys" where
  "b_init d = \<lparr>b_now = 0, b_db = d, b_blobs = {k. \<exists>r \<in> set (episodes d). er_media_key r = k},
     b_uploads = {}, b_deletes = {}\<rparr>"

text \<open>Operations that neither write a media key nor the reservation and lease tables.\<close>

fun blob_neutral :: "store_op \<Rightarrow> bool" where
  "blob_neutral (OpCreateEpisode _) = False"
| "blob_neutral (OpUpdateEpisode _) = False"
| "blob_neutral (OpDeleteEpisode _ _) = False"
| "blob_neutral (OpBlobOrphaned _ _) = False"
| "blob_neutral (OpReserveBlob _ _) = False"
| "blob_neutral (OpReleaseBlob _) = False"
| "blob_neutral (OpReleaseDeleteLease _) = False"
| "blob_neutral _ = True"

section \<open>Steps\<close>

definition del_deadline :: "duration \<Rightarrow> deletion \<Rightarrow> time" where
  "del_deadline gap x = de_t x + gap + BlobDeleteTimeout"

definition up_deadline :: "upload \<Rightarrow> time" where
  "up_deadline u = up_t u + UploadProtectWindow"

inductive bstep :: "duration \<Rightarrow> bsys \<Rightarrow> bsys \<Rightarrow> bool" for gap where
  tick: "0 \<le> n \<Longrightarrow> bstep gap s (s\<lparr>b_now := b_now s + n\<rparr>)"
| other: "blob_neutral op \<Longrightarrow> bstep gap s (s\<lparr>b_db := snd (exec op (b_db s))\<rparr>)"
| reserve: "t \<le> b_now s \<Longrightarrow> ReserveBlob key t (b_db s) = (Inr tok, d') \<Longrightarrow>
    bstep gap s (s\<lparr>b_db := d',
      b_uploads := insert \<lparr>up_tok = tok, up_key = key, up_t = t, up_stage = Reserved\<rparr> (b_uploads s)\<rparr>)"
| put: "u \<in> b_uploads s \<Longrightarrow> up_stage u = Reserved \<Longrightarrow>
    bstep gap s (s\<lparr>b_blobs := insert (up_key u) (b_blobs s),
      b_uploads := insert (u\<lparr>up_stage := Stored\<rparr>) (b_uploads s - {u})\<rparr>)"
| create: "u \<in> b_uploads s \<Longrightarrow> up_stage u = Stored \<Longrightarrow> b_now s \<le> up_deadline u \<Longrightarrow>
    e_MediaKey ep = up_key u \<Longrightarrow> CreateEpisode ep (b_db s) = (Inr (), d') \<Longrightarrow>
    bstep gap s (s\<lparr>b_db := d', b_uploads := insert (u\<lparr>up_stage := Committed\<rparr>) (b_uploads s - {u})\<rparr>)"
| release: "u \<in> b_uploads s \<Longrightarrow>
    bstep gap s (s\<lparr>b_db := snd (ReleaseBlob (up_tok u) (b_db s)), b_uploads := b_uploads s - {u}\<rparr>)"
| crash_upload: "u \<in> b_uploads s \<Longrightarrow> bstep gap s (s\<lparr>b_uploads := b_uploads s - {u}\<rparr>)"
| delete_episode: "t \<le> b_now s \<Longrightarrow> DeleteEpisode eid t (b_db s) = (Inr (key, orphaned, tok), d') \<Longrightarrow>
    bstep gap s (s\<lparr>b_db := d', b_deletes :=
      (if orphaned then insert \<lparr>de_tok = tok, de_key = key, de_t = t, de_done = False\<rparr> (b_deletes s)
       else b_deletes s)\<rparr>)"
| orphan_check: "t \<le> b_now s \<Longrightarrow> BlobOrphaned key t (b_db s) = (Inr (orphaned, tok), d') \<Longrightarrow>
    bstep gap s (s\<lparr>b_db := d', b_deletes :=
      (if orphaned then insert \<lparr>de_tok = tok, de_key = key, de_t = t, de_done = False\<rparr> (b_deletes s)
       else b_deletes s)\<rparr>)"
| physical: "x \<in> b_deletes s \<Longrightarrow> \<not> de_done x \<Longrightarrow> b_now s \<le> del_deadline gap x \<Longrightarrow>
    bstep gap s (s\<lparr>b_blobs := b_blobs s - {de_key x},
      b_deletes := insert (x\<lparr>de_done := True\<rparr>) (b_deletes s - {x})\<rparr>)"
| unlease: "x \<in> b_deletes s \<Longrightarrow>
    bstep gap s (s\<lparr>b_db := snd (ReleaseDeleteLease (de_tok x) (b_db s)), b_deletes := b_deletes s - {x}\<rparr>)"
| crash_delete: "x \<in> b_deletes s \<Longrightarrow> bstep gap s (s\<lparr>b_deletes := b_deletes s - {x}\<rparr>)"

inductive_cases bstepE [elim]: "bstep gap s s'"

inductive breach :: "duration \<Rightarrow> db \<Rightarrow> bsys \<Rightarrow> bool" for gap d0 where
  init: "breach gap d0 (b_init d0)"
| step: "breach gap d0 s \<Longrightarrow> bstep gap s s' \<Longrightarrow> breach gap d0 s'"

section \<open>Safety and the invariant\<close>

definition media_keys :: "db \<Rightarrow> string set" where
  "media_keys d = er_media_key ` set (episodes d)"

text \<open>Every episode's media is in the blob store.\<close>

definition media_present :: "bsys \<Rightarrow> bool" where
  "media_present s \<longleftrightarrow> (\<forall>k \<in> media_keys (b_db s). k \<noteq> [] \<longrightarrow> k \<in> b_blobs s)"

definition backed_upload :: "bsys \<Rightarrow> upload \<Rightarrow> bool" where
  "backed_upload s u \<longleftrightarrow> up_tok u \<le> reservation_seq (b_db s)
     \<and> (\<exists>r \<in> set (reservations (b_db s)). br_id r = up_tok u \<and> br_media_key r = up_key u
          \<and> br_created_at r = toUnix (up_t u))
     \<and> (up_stage u \<noteq> Reserved \<longrightarrow> b_now s \<le> up_deadline u \<longrightarrow> up_key u \<in> b_blobs s)"

definition pending :: "duration \<Rightarrow> bsys \<Rightarrow> deletion \<Rightarrow> bool" where
  "pending gap s x \<longleftrightarrow> \<not> de_done x \<and> b_now s \<le> del_deadline gap x"

definition guarded_delete :: "duration \<Rightarrow> bsys \<Rightarrow> deletion \<Rightarrow> bool" where
  "guarded_delete gap s x \<longleftrightarrow> de_tok x \<le> lease_seq (b_db s)
     \<and> (pending gap s x \<longrightarrow>
          (\<exists>r \<in> set (leases (b_db s)). br_id r = de_tok x \<and> br_media_key r = de_key x
             \<and> br_created_at r = toUnix (de_t x))
          \<and> de_key x \<notin> media_keys (b_db s)
          \<and> (\<forall>u \<in> b_uploads s. up_key u = de_key x \<longrightarrow> up_deadline u < b_now s))"

definition binv :: "duration \<Rightarrow> bsys \<Rightarrow> bool" where
  "binv gap s \<longleftrightarrow> wf_db (b_db s) \<and> media_present s
     \<and> (\<forall>u \<in> b_uploads s. backed_upload s u) \<and> inj_on up_tok (b_uploads s)
     \<and> (\<forall>x \<in> b_deletes s. guarded_delete gap s x) \<and> inj_on de_tok (b_deletes s)"

lemma binvI:
  assumes "wf_db (b_db s)" "media_present s"
    and "\<And>u. u \<in> b_uploads s \<Longrightarrow> backed_upload s u" "inj_on up_tok (b_uploads s)"
    and "\<And>x. x \<in> b_deletes s \<Longrightarrow> guarded_delete gap s x" "inj_on de_tok (b_deletes s)"
  shows "binv gap s"
  using assms by (simp add: binv_def)

text \<open>Stamps are read before now, so a fresh enough stamp is active at every reading.\<close>

lemma lease_active: "t \<le> a + BlobDeleteLeaseTTL - Second \<Longrightarrow> deleteLeaseCutoff t < toUnix a"
  using toUnix_mono [of "t - BlobDeleteLeaseTTL" "a - 1 * Second"]
    div_mult_self1 [of 1000000000 a "-1"]
  by (simp add: deleteLeaseCutoff_def toUnix_def units)

lemma reservation_active: "t \<le> a + BlobReservationTTL - Second \<Longrightarrow> reservationCutoff t < toUnix a"
  using toUnix_mono [of "t - BlobReservationTTL" "a - 1 * Second"]
    div_mult_self1 [of 1000000000 a "-1"]
  by (simp add: reservationCutoff_def toUnix_def units)

lemma upload_holds:
  assumes "backed_upload s u" "t \<le> b_now s" "b_now s \<le> up_deadline u"
  shows "reserved (up_key u) t (b_db s)"
proof -
  have "reservationCutoff t < toUnix (up_t u)"
    using assms(2,3) by (intro reservation_active) (simp add: up_deadline_def units)
  with assms(1) show ?thesis by (auto simp: backed_upload_def reserved_def)
qed

lemma delete_holds:
  assumes "gap + BlobDeleteTimeout \<le> BlobDeleteLeaseTTL - Second"
    and "guarded_delete gap s x" "pending gap s x" "t \<le> b_now s"
  shows "leased (de_key x) t (b_db s)"
proof -
  have "deleteLeaseCutoff t < toUnix (de_t x)"
    using assms(1,3,4) by (intro lease_active) (simp add: pending_def del_deadline_def)
  with assms(2,3) show ?thesis by (auto simp: guarded_delete_def leased_def)
qed

section \<open>Frames\<close>

definition blob_frame :: "db \<Rightarrow> db \<Rightarrow> bool" where
  "blob_frame d d' \<longleftrightarrow> reservations d' = reservations d \<and> reservation_seq d' = reservation_seq d
     \<and> leases d' = leases d \<and> lease_seq d' = lease_seq d \<and> media_keys d' = media_keys d"

lemma blob_frame_refl [simp]: "blob_frame d d" by (simp add: blob_frame_def)

lemma media_keys_upd:
  "(\<And>r. er_media_key (f r) = er_media_key r) \<Longrightarrow>
   er_media_key ` set (upd_where c f es) = er_media_key ` set es"
  by (rule image_upd_where)

lemma update_episode_blob_frame:
  "(\<And>r. er_media_key (f r) = er_media_key r) \<Longrightarrow> blob_frame d (snd (update_episode eid f d))"
  by (simp add: blob_frame_def media_keys_def update_episode_def Let_def media_keys_upd)

lemma jobs_blob_frame [simp]: "blob_frame d (d\<lparr>jobs := js\<rparr>)" "blob_frame d (d\<lparr>users := us\<rparr>)"
    "blob_frame d (d\<lparr>channels := cs\<rparr>)" "blob_frame d (d\<lparr>transcripts := ts\<rparr>)"
  by (simp_all add: blob_frame_def media_keys_def)

lemma blob_frame_trans: "blob_frame d d' \<Longrightarrow> blob_frame d' d'' \<Longrightarrow> blob_frame d d''"
  by (simp add: blob_frame_def)

lemma set_status_blob_frame:
  "blob_frame d (d\<lparr>episodes := upd_where c (set_status_cols st t) (episodes d)\<rparr>)"
  by (simp add: blob_frame_def media_keys_def media_keys_upd set_status_cols_def)

lemma insertJob_blob_frame: "insertJob j d = Inr d' \<Longrightarrow> blob_frame d d'"
  by (auto simp: insertJob_def split: if_splits)

lemma save_and_mark_blob_frame: "save_and_mark tr eid st t d = Inr d' \<Longrightarrow> blob_frame d d'"
proof -
  assume "save_and_mark tr eid st t d = Inr d'"
  then obtain ts where "d' = d\<lparr>transcripts := ts,
      episodes := upd_where (\<lambda>r. er_id r = eid) (set_status_cols st t) (episodes d)\<rparr>"
    using save_and_mark_frame by blast
  then show ?thesis by (simp add: blob_frame_def media_keys_def media_keys_upd set_status_cols_def)
qed

lemma users_blob_frame [simp]:
  "blob_frame d (snd (CreateUser u d))" "blob_frame d (snd (UpdateUser u d))"
  "blob_frame d (snd (BumpSessionEpoch uid d))" "blob_frame d (snd (LinkOIDCIdentity uid iss sub d))"
  "blob_frame d (snd (CreateChannel c d))" "blob_frame d (snd (UpdateChannel c d))"
  by (simp_all add: CreateUser_def UpdateUser_def BumpSessionEpoch_def LinkOIDCIdentity_def
      CreateChannel_def UpdateChannel_def Let_def)

lemma episodes_blob_frame [simp]:
  "blob_frame d (snd (SetEpisodeTranscriptStatus eid ts t d))"
  "blob_frame d (snd (UpdateEpisodeMetadata eid ti de la t d))"
  "blob_frame d (snd (SetEpisodePublication eid st p t d))"
  "blob_frame d (snd (ReorderEpisodes cid ids t d))"
  by (simp_all add: SetEpisodeTranscriptStatus_def UpdateEpisodeMetadata_def SetEpisodePublication_def
      update_episode_blob_frame set_status_cols_def)
    (simp add: ReorderEpisodes_eq blob_frame_def media_keys_def image_image)

lemma settle_blob_frame [simp]:
  "blob_frame d (snd (SaveTranscript tr d))"
  "blob_frame d (snd (SettleEpisodeTranscript jid tok eid tro tst t d))"
  by (auto simp: SaveTranscript_def SettleEpisodeTranscript_def with_tx_def
      dest: upsert_transcript_frame save_and_mark_blob_frame split: sum.splits)

lemma combined_blob_frame [simp]:
  "blob_frame d (snd (SettleEpisodeTranscriptAndCompleteJob jid tok eid tro tst t d))"
  by (auto simp: SettleEpisodeTranscriptAndCompleteJob_def with_tx_def Let_def
      dest!: save_and_mark_blob_frame split: sum.splits
      intro: blob_frame_trans [OF jobs_blob_frame(1)])

lemma jobs_ops_blob_frame [simp]:
  "blob_frame d (snd (EnqueueJob j d))"
  "blob_frame d (snd (EnqueueTranscriptionJob j eid t d))"
  "blob_frame d (snd (ClaimJob ks now l d))"
  "blob_frame d (snd (setJobStatus jid tok jst c ra now d))"
  by (auto simp: EnqueueJob_def EnqueueTranscriptionJob_def ClaimJob_def setJobStatus_def with_tx_def
      Let_def insertJob_blob_frame split: sum.split option.split
      intro: blob_frame_trans [OF set_status_blob_frame insertJob_blob_frame])

lemma exec_blob_frame: "blob_neutral op \<Longrightarrow> blob_frame d (snd (exec op d))"
  by (cases op) (simp_all add: CompleteJob_def RescheduleJob_def FailJob_def)

section \<open>Every step keeps the invariant\<close>

lemmas binv_defs = binv_def media_present_def backed_upload_def guarded_delete_def pending_def

lemma inj_on_replace:
  "inj_on f A \<Longrightarrow> x \<in> A \<Longrightarrow> f y = f x \<Longrightarrow> inj_on f (insert y (A - {x}))"
  by (auto simp: inj_on_def)

text \<open>A change of the database that keeps the blob tables and the media keys.\<close>

lemma binv_frame:
  assumes "binv gap s" "blob_frame (b_db s) d'" "wf_db d'"
  shows "binv gap (s\<lparr>b_db := d'\<rparr>)"
  using assms by (simp add: binv_defs blob_frame_def)

lemma binv_tick:
  assumes "binv gap s" "0 \<le> n" shows "binv gap (s\<lparr>b_now := b_now s + n\<rparr>)"
  using assms by (auto simp: binv_defs) fastforce+

lemma binv_reserve:
  assumes inv: "binv gap s" and gap: "gap + BlobDeleteTimeout \<le> BlobDeleteLeaseTTL - Second"
    and t: "t \<le> b_now s" and res: "ReserveBlob key t (b_db s) = (Inr tok, d')"
  shows "binv gap (s\<lparr>b_db := d',
      b_uploads := insert \<lparr>up_tok = tok, up_key = key, up_t = t, up_stage = Reserved\<rparr> (b_uploads s)\<rparr>)"
    (is "binv gap ?s'")
proof -
  let ?d = "b_db s" and ?u = "\<lparr>up_tok = tok, up_key = key, up_t = t, up_stage = Reserved\<rparr>"
  from res have free: "\<not> leased key t ?d" and tok: "tok = reservation_seq ?d + 1"
    and d': "d' = ?d\<lparr>reservations := reservations ?d
                 @ [\<lparr>br_id = tok, br_media_key = key, br_created_at = toUnix t\<rparr>], reservation_seq := tok\<rparr>"
    by (auto simp: ReserveBlob_eq split: if_splits)
  show ?thesis
  proof (rule binvI)
    have "wf_db (snd (ReserveBlob key t ?d))" using inv by (simp add: binv_def ReserveBlob_wf)
    then show "wf_db (b_db ?s')" using res by simp
    show "media_present ?s'" using inv by (simp add: binv_defs media_keys_def d')
    show "backed_upload ?s' u" if "u \<in> b_uploads ?s'" for u
      using that inv by (auto simp: binv_defs d' tok)
    have "\<forall>u \<in> b_uploads s. up_tok u < tok" using inv by (auto simp: binv_defs tok)
    then show "inj_on up_tok (b_uploads ?s')" using inv by (auto simp: binv_def)
    show "inj_on de_tok (b_deletes ?s')" using inv by (simp add: binv_def)
    show "guarded_delete gap ?s' x" if x: "x \<in> b_deletes ?s'" for x
    proof -
      have g: "guarded_delete gap s x" using inv x by (simp add: binv_def)
      have "de_key x \<noteq> key" if "pending gap s x"
        using delete_holds [OF gap g that t] free by auto
      with g show ?thesis by (auto simp: guarded_delete_def pending_def d' media_keys_def)
    qed
  qed
qed

lemma binv_put:
  assumes inv: "binv gap s" and u: "u \<in> b_uploads s"
  shows "binv gap (s\<lparr>b_blobs := insert (up_key u) (b_blobs s),
      b_uploads := insert (u\<lparr>up_stage := Stored\<rparr>) (b_uploads s - {u})\<rparr>)" (is "binv gap ?s'")
proof (rule binvI)
  show "wf_db (b_db ?s')" "media_present ?s'" "inj_on de_tok (b_deletes ?s')"
    using inv by (auto simp: binv_defs)
  show "backed_upload ?s' v" if "v \<in> b_uploads ?s'" for v
    using that inv u by (auto simp: binv_defs up_deadline_def)
  show "inj_on up_tok (b_uploads ?s')"
    using inv u inj_on_replace [of up_tok "b_uploads s" u] by (simp add: binv_def)
  show "guarded_delete gap ?s' x" if "x \<in> b_deletes ?s'" for x
    using that inv u by (auto simp: binv_defs up_deadline_def)
qed

lemma binv_create:
  assumes inv: "binv gap s" and u: "u \<in> b_uploads s" "up_stage u = Stored" "b_now s \<le> up_deadline u"
    and ep: "e_MediaKey ep = up_key u" "CreateEpisode ep (b_db s) = (Inr (), d')"
  shows "binv gap (s\<lparr>b_db := d', b_uploads := insert (u\<lparr>up_stage := Committed\<rparr>) (b_uploads s - {u})\<rparr>)"
    (is "binv gap ?s'")
proof -
  let ?d = "b_db s"
  have d': "d' = ?d\<lparr>episodes := episodes ?d @ [episode_to_row ep]\<rparr>"
    using ep(2) by (auto simp: CreateEpisode_def split: if_splits)
  have keys: "media_keys d' = insert (up_key u) (media_keys ?d)"
    by (auto simp: d' media_keys_def episode_to_row_def ep(1))
  have stored: "up_key u \<in> b_blobs s" using inv u by (simp add: binv_defs)
  show ?thesis
  proof (rule binvI)
    have "wf_db (snd (CreateEpisode ep ?d))" using inv by (simp add: binv_def CreateEpisode_wf)
    then show "wf_db (b_db ?s')" using ep(2) by simp
    show "media_present ?s'" using inv stored by (auto simp: media_present_def keys binv_def)
    show "inj_on de_tok (b_deletes ?s')" using inv by (simp add: binv_def)
    show "backed_upload ?s' v" if "v \<in> b_uploads ?s'" for v
      using that inv u stored by (auto simp: binv_defs d' up_deadline_def)
    show "inj_on up_tok (b_uploads ?s')"
      using inv u inj_on_replace [of up_tok "b_uploads s" u] by (simp add: binv_def)
    show "guarded_delete gap ?s' x" if x: "x \<in> b_deletes ?s'" for x
    proof -
      have g: "guarded_delete gap s x" using inv x by (simp add: binv_def)
      have "de_key x \<noteq> up_key u" if "pending gap s x"
        using g that u by (force simp: guarded_delete_def)
      with g u show ?thesis
        by (auto simp: guarded_delete_def pending_def keys up_deadline_def) (auto simp: d')
    qed
  qed
qed

lemma binv_drop_upload:
  assumes "binv gap s" shows "binv gap (s\<lparr>b_uploads := b_uploads s - {u}\<rparr>)"
  using assms by (auto simp: binv_defs intro: inj_on_diff)

lemma binv_release:
  assumes inv: "binv gap s" and u: "u \<in> b_uploads s"
  shows "binv gap (s\<lparr>b_db := snd (ReleaseBlob (up_tok u) (b_db s)), b_uploads := b_uploads s - {u}\<rparr>)"
    (is "binv gap ?s'")
proof -
  let ?d = "b_db s"
  have other: "up_tok v \<noteq> up_tok u" if "v \<in> b_uploads s - {u}" for v
    using inv u that by (auto simp: binv_def dest: inj_onD)
  show ?thesis
  proof (rule binvI)
    show "wf_db (b_db ?s')" using inv by (simp add: binv_def ReleaseBlob_wf)
    show "media_present ?s'" "inj_on de_tok (b_deletes ?s')" "inj_on up_tok (b_uploads ?s')"
      using inv by (auto simp: binv_defs ReleaseBlob_def media_keys_def intro: inj_on_diff)
    show "backed_upload ?s' v" if "v \<in> b_uploads ?s'" for v
    proof -
      have "backed_upload s v" "up_tok v \<noteq> up_tok u" using that inv other by (auto simp: binv_def)
      then show ?thesis by (auto simp: backed_upload_def ReleaseBlob_def set_del_where)
    qed
    show "guarded_delete gap ?s' x" if "x \<in> b_deletes ?s'" for x
      using that inv by (auto simp: binv_defs ReleaseBlob_def media_keys_def)
  qed
qed

text \<open>
  An orphan decision: the lease is taken on a key without references after the removal of
  some episode rows, and without active reservation or lease.
\<close>

lemma binv_acquire:
  assumes inv: "binv gap s" and gap: "gap + BlobDeleteTimeout \<le> BlobDeleteLeaseTTL - Second"
    and t: "t \<le> b_now s" and wf: "wf_db d1"
    and frame: "reservations d1 = reservations (b_db s)" "reservation_seq d1 = reservation_seq (b_db s)"
      "leases d1 = leases (b_db s)" "lease_seq d1 = lease_seq (b_db s)"
      "media_keys d1 \<subseteq> media_keys (b_db s)"
    and free: "key \<notin> media_keys d1" "\<not> reserved key t (b_db s)" "\<not> leased key t (b_db s)"
  shows "binv gap (s\<lparr>b_db := snd (acquireDeleteLeaseTx key t d1), b_deletes :=
      insert \<lparr>de_tok = lease_seq (b_db s) + 1, de_key = key, de_t = t, de_done = False\<rparr> (b_deletes s)\<rparr>)"
    (is "binv gap ?s'")
proof -
  let ?d = "b_db s"
  have "\<not> leased key t d1" using free(3) frame(3) by (simp add: leased_def)
  then have d2: "snd (acquireDeleteLeaseTx key t d1) = d1\<lparr>leases := del_where (\<lambda>r. br_media_key r = key) (leases ?d)
       @ [\<lparr>br_id = lease_seq ?d + 1, br_media_key = key, br_created_at = toUnix t\<rparr>],
       lease_seq := lease_seq ?d + 1\<rparr>"
    by (simp add: acquire_eq frame)
  have mk: "media_keys (snd (acquireDeleteLeaseTx key t d1)) = media_keys d1"
    by (simp add: d2 media_keys_def)
  show ?thesis
  proof (rule binvI)
    show "wf_db (b_db ?s')" using wf by (simp add: acquire_wf)
    show "media_present ?s'" using inv frame(5) by (auto simp: binv_def media_present_def mk)
    show "inj_on up_tok (b_uploads ?s')" using inv by (simp add: binv_def)
    have "\<forall>x \<in> b_deletes s. de_tok x < lease_seq ?d + 1" using inv by (auto simp: binv_defs)
    then show "inj_on de_tok (b_deletes ?s')" using inv by (auto simp: binv_def)
    show "backed_upload ?s' u" if "u \<in> b_uploads ?s'" for u
      using that inv by (auto simp: binv_defs d2 frame)
    have gone: "up_deadline u < b_now s" if "u \<in> b_uploads s" "up_key u = key" for u
      using that inv upload_holds [of s u t] t free(2) by (force simp: binv_def)
    show "guarded_delete gap ?s' x" if "x \<in> b_deletes ?s'" for x
    proof (cases "x \<in> b_deletes s")
      case True
      then have g: "guarded_delete gap s x" using inv by (simp add: binv_def)
      have "de_key x \<noteq> key" if "pending gap s x"
        using delete_holds [OF gap g that t] free(3) by auto
      with g frame(5) show ?thesis
        by (auto simp: guarded_delete_def pending_def d2 media_keys_def set_del_where)
    next
      case False
      with that have "x = \<lparr>de_tok = lease_seq ?d + 1, de_key = key, de_t = t, de_done = False\<rparr>" by simp
      then show ?thesis using free(1) gone by (auto simp: guarded_delete_def mk) (simp_all add: d2)
    qed
  qed
qed

lemma binv_fewer_keys:
  assumes "binv gap s" "wf_db d1" "reservations d1 = reservations (b_db s)"
    "reservation_seq d1 = reservation_seq (b_db s)" "leases d1 = leases (b_db s)"
    "lease_seq d1 = lease_seq (b_db s)" "media_keys d1 \<subseteq> media_keys (b_db s)"
  shows "binv gap (s\<lparr>b_db := d1\<rparr>)"
  using assms by (auto simp: binv_defs)

lemma delete_episode_row_blobs:
  "reservations (delete_episode_row eid d) = reservations d"
  "reservation_seq (delete_episode_row eid d) = reservation_seq d"
  "leases (delete_episode_row eid d) = leases d"
  "media_keys (delete_episode_row eid d) \<subseteq> media_keys d"
  by (auto simp: delete_episode_row_def media_keys_def set_del_where)

lemma binv_delete_episode:
  assumes inv: "binv gap s" and gap: "gap + BlobDeleteTimeout \<le> BlobDeleteLeaseTTL - Second"
    and t: "t \<le> b_now s" and del: "DeleteEpisode eid t (b_db s) = (Inr (key, orphaned, tok), d')"
  shows "binv gap (s\<lparr>b_db := d', b_deletes :=
      (if orphaned then insert \<lparr>de_tok = tok, de_key = key, de_t = t, de_done = False\<rparr> (b_deletes s)
       else b_deletes s)\<rparr>)"
proof -
  let ?d1 = "delete_episode_row eid (b_db s)"
  have wf1: "wf_db ?d1" using inv by (simp add: binv_def delete_episode_row_wf)
  show ?thesis
  proof (cases orphaned)
    case True
    with del have tok: "tok = lease_seq (b_db s) + 1" and d': "d' = snd (acquireDeleteLeaseTx key t ?d1)"
      and free: "\<not> referenced_elsewhere eid key (b_db s)" "\<not> reserved key t (b_db s)" "\<not> leased key t (b_db s)"
      by (auto simp: DeleteEpisode_eq Let_def split: option.splits if_splits)
    have "key \<notin> media_keys ?d1"
      using free(1) by (auto simp: media_keys_def referenced_elsewhere_def delete_episode_row_def set_del_where)
    from binv_acquire [OF inv gap t wf1 delete_episode_row_blobs(1-3) _ delete_episode_row_blobs(4) this free(2,3)]
    show ?thesis using True by (simp add: tok d')
  next
    case False
    with del have "d' = ?d1" by (auto simp: DeleteEpisode_eq Let_def split: option.splits if_splits)
    then show ?thesis
      using False binv_fewer_keys [OF inv wf1 delete_episode_row_blobs(1-3) _ delete_episode_row_blobs(4)]
      by simp
  qed
qed

lemma binv_orphan_check:
  assumes inv: "binv gap s" and gap: "gap + BlobDeleteTimeout \<le> BlobDeleteLeaseTTL - Second"
    and t: "t \<le> b_now s" and orp: "BlobOrphaned key t (b_db s) = (Inr (orphaned, tok), d')"
  shows "binv gap (s\<lparr>b_db := d', b_deletes :=
      (if orphaned then insert \<lparr>de_tok = tok, de_key = key, de_t = t, de_done = False\<rparr> (b_deletes s)
       else b_deletes s)\<rparr>)"
proof (cases orphaned)
  case True
  with orp have tok: "tok = lease_seq (b_db s) + 1" and d': "d' = snd (acquireDeleteLeaseTx key t (b_db s))"
    and free: "\<not> referenced key (b_db s)" "\<not> reserved key t (b_db s)" "\<not> leased key t (b_db s)"
    by (auto simp: BlobOrphaned_eq split: if_splits)
  have "key \<notin> media_keys (b_db s)" using free(1) by (auto simp: media_keys_def referenced_def)
  then show ?thesis
    using binv_acquire [OF inv gap t, of "b_db s" key] inv free True by (simp add: tok d' binv_def)
next
  case False
  with orp have "d' = b_db s" by (auto simp: BlobOrphaned_eq split: if_splits)
  with inv False show ?thesis by simp
qed

lemma binv_physical:
  assumes inv: "binv gap s" and x: "x \<in> b_deletes s" "\<not> de_done x" "b_now s \<le> del_deadline gap x"
  shows "binv gap (s\<lparr>b_blobs := b_blobs s - {de_key x},
      b_deletes := insert (x\<lparr>de_done := True\<rparr>) (b_deletes s - {x})\<rparr>)" (is "binv gap ?s'")
proof -
  have g: "de_key x \<notin> media_keys (b_db s)" "\<forall>u \<in> b_uploads s. up_key u = de_key x \<longrightarrow> up_deadline u < b_now s"
    using inv x by (auto simp: binv_defs)
  show ?thesis
  proof (rule binvI)
    show "wf_db (b_db ?s')" "inj_on up_tok (b_uploads ?s')" using inv by (simp_all add: binv_def)
    show "media_present ?s'" using inv g(1) by (auto simp: binv_defs)
    show "backed_upload ?s' u" if "u \<in> b_uploads ?s'" for u
      using that inv g(2) by (fastforce simp: binv_defs)
    show "inj_on de_tok (b_deletes ?s')"
      using inv x inj_on_replace [of de_tok "b_deletes s" x] by (simp add: binv_def)
    show "guarded_delete gap ?s' y" if "y \<in> b_deletes ?s'" for y
      using that inv x(1) by (auto simp: binv_defs)
  qed
qed

lemma binv_drop_delete:
  assumes "binv gap s" shows "binv gap (s\<lparr>b_deletes := b_deletes s - {x}\<rparr>)"
  using assms by (auto simp: binv_defs intro: inj_on_diff)

lemma binv_unlease:
  assumes inv: "binv gap s" and x: "x \<in> b_deletes s"
  shows "binv gap (s\<lparr>b_db := snd (ReleaseDeleteLease (de_tok x) (b_db s)), b_deletes := b_deletes s - {x}\<rparr>)"
    (is "binv gap ?s'")
proof (rule binvI)
  have other: "de_tok y \<noteq> de_tok x" if "y \<in> b_deletes s - {x}" for y
    using inv x that by (auto simp: binv_def dest: inj_onD)
  show "wf_db (b_db ?s')" using inv by (simp add: binv_def ReleaseDeleteLease_wf)
  show "media_present ?s'" "inj_on de_tok (b_deletes ?s')" "inj_on up_tok (b_uploads ?s')"
    using inv by (auto simp: binv_defs ReleaseDeleteLease_def media_keys_def intro: inj_on_diff)
  show "backed_upload ?s' u" if "u \<in> b_uploads ?s'" for u
    using that inv by (auto simp: binv_defs ReleaseDeleteLease_def)
  show "guarded_delete gap ?s' y" if "y \<in> b_deletes ?s'" for y
  proof -
    have "guarded_delete gap s y" "de_tok y \<noteq> de_tok x" using that inv other by (auto simp: binv_def)
    then show ?thesis
      by (auto simp: guarded_delete_def pending_def ReleaseDeleteLease_def set_del_where media_keys_def)
  qed
qed

lemma binv_step:
  assumes "gap + BlobDeleteTimeout \<le> BlobDeleteLeaseTTL - Second" "bstep gap s s'" "binv gap s"
  shows "binv gap s'"
  using assms(2)
proof cases
  case (other op)
  have "wf_db (b_db s)" using assms(3) by (simp add: binv_def)
  then show ?thesis
    using binv_frame [OF assms(3) exec_blob_frame [OF other(2)] exec_wf] other(1) by simp
qed (use assms in \<open>simp_all add: binv_tick binv_reserve binv_put binv_create binv_release
      binv_drop_upload binv_delete_episode binv_orphan_check binv_physical binv_drop_delete binv_unlease\<close>)

lemma binv_init: "wf_db d \<Longrightarrow> binv gap (b_init d)"
  by (auto simp: binv_def b_init_def media_present_def media_keys_def)

lemma breach_inv:
  assumes "gap + BlobDeleteTimeout \<le> BlobDeleteLeaseTTL - Second" "wf_db d0" "breach gap d0 s"
  shows "binv gap s"
  using assms(3) by induction (use assms(1,2) in \<open>auto simp: binv_init intro: binv_step\<close>)



section \<open>The bound is needed\<close>

text \<open>
  With an unbounded delay between the lease's clock reading and the physical delete (which
  nothing in the code excludes when the process is descheduled, or with a blob store that
  ignores its context, as \<open>localfs\<close> does), a re-upload of the same bytes after the lease
  expired loses its media.
\<close>

definition ex_episode :: episode where
  "ex_episode = (scanEpisode (ex_episode_row ''g'' ''k'' TranscriptNone))"

definition lost_d1 :: db where
  "lost_d1 = snd (DeleteEpisode ''e'' 0 (ex_db TranscriptNone JobDone 1 0))"
definition lost_d2 :: db where "lost_d2 = snd (ReserveBlob ''k'' (5 * Minute) lost_d1)"
definition lost_d3 :: db where "lost_d3 = snd (CreateEpisode ex_episode lost_d2)"

lemma lost_delete: "DeleteEpisode ''e'' 0 (ex_db TranscriptNone JobDone 1 0) = (Inr (''k'', True, 1), lost_d1)"
  by (rule prod_eqI) (simp add: lost_d1_def, simp_all add: lost_d1_def DeleteEpisode_eq ex
      referenced_elsewhere_def reserved_def leased_def Let_def)

lemma lost_reserve: "ReserveBlob ''k'' (5 * Minute) lost_d1 = (Inr 1, lost_d2)"
  by (rule prod_eqI) (simp_all add: lost_d2_def lost_d1_def ReserveBlob_eq DeleteEpisode_eq ex
      referenced_elsewhere_def reserved_def leased_def Let_def acquire_eq delete_episode_row_def
      deleteLeaseCutoff_def toUnix_def units del_where_def)

lemma lost_create: "CreateEpisode ex_episode lost_d2 = (Inr (), lost_d3)"
  by (rule prod_eqI) (simp_all add: lost_d3_def CreateEpisode_def lost_d2_def lost_d1_def ReserveBlob_eq
      DeleteEpisode_eq ex referenced_elsewhere_def reserved_def leased_def Let_def acquire_eq
      delete_episode_row_def deleteLeaseCutoff_def toUnix_def units del_where_def
      ex_episode_def scanEpisode_def)

text \<open>
  Without the time bound on physical deletions a live episode can lose its media.
\<close>

theorem unbounded_delay_loses_media:
  "\<exists>s ep. breach BlobDeleteLeaseTTL (ex_db TranscriptNone JobDone 1 0) s
     \<and> EpisodeByID ''g'' (b_db s) = Inr ep \<and> e_MediaKey ep = ''k'' \<and> ''k'' \<notin> b_blobs s"
proof -
  let ?G = BlobDeleteLeaseTTL and ?d0 = "ex_db TranscriptNone JobDone 1 0"
  let ?x = "\<lparr>de_tok = 1, de_key = ''k'', de_t = 0, de_done = False\<rparr>"
  let ?u = "\<lparr>up_tok = 1, up_key = ''k'', up_t = 5 * Minute, up_stage = Reserved\<rparr>"
  define s0 where "s0 = b_init ?d0"
  define s1 where "s1 = s0\<lparr>b_db := lost_d1, b_deletes := {?x}\<rparr>"
  define s2 where "s2 = s1\<lparr>b_now := 5 * Minute\<rparr>"
  define s3 where "s3 = s2\<lparr>b_db := lost_d2, b_uploads := {?u}\<rparr>"
  define s4 where "s4 = s3\<lparr>b_blobs := insert ''k'' (b_blobs s3), b_uploads := {?u\<lparr>up_stage := Stored\<rparr>}\<rparr>"
  define s5 where "s5 = s4\<lparr>b_db := lost_d3, b_uploads := {?u\<lparr>up_stage := Committed\<rparr>}\<rparr>"
  define s6 where "s6 = s5\<lparr>b_blobs := b_blobs s5 - {''k''}, b_deletes := {?x\<lparr>de_done := True\<rparr>}\<rparr>"
  have r0: "breach ?G ?d0 s0" unfolding s0_def by (rule breach.init)
  have "bstep ?G s0 s1"
    using bstep.delete_episode [of 0 s0 "''e''" "''k''" True 1 lost_d1 ?G] lost_delete
    by (simp add: s0_def s1_def b_init_def)
  then have r1: "breach ?G ?d0 s1" by (rule breach.step [OF r0])
  have "bstep ?G s1 s2"
    using bstep.tick [of "5 * Minute" ?G s1] by (simp add: s0_def s1_def s2_def b_init_def units)
  then have r2: "breach ?G ?d0 s2" by (rule breach.step [OF r1])
  have "bstep ?G s2 s3"
    using bstep.reserve [of "5 * Minute" s2 "''k''" 1 lost_d2 ?G] lost_reserve
    by (simp add: s0_def s1_def s2_def s3_def b_init_def)
  then have r3: "breach ?G ?d0 s3" by (rule breach.step [OF r2])
  have "bstep ?G s3 s4"
    using bstep.put [of ?u s3 ?G] by (simp add: s3_def s4_def)
  then have r4: "breach ?G ?d0 s4" by (rule breach.step [OF r3])
  have "bstep ?G s4 s5"
    using bstep.create [of "?u\<lparr>up_stage := Stored\<rparr>" s4 ex_episode lost_d3 ?G] lost_create
    by (simp add: s2_def s3_def s4_def s5_def up_deadline_def units ex_episode_def scanEpisode_def ex)
  then have r5: "breach ?G ?d0 s5" by (rule breach.step [OF r4])
  have "bstep ?G s5 s6"
    using bstep.physical [of ?x s5 ?G]
    by (simp add: s1_def s2_def s3_def s4_def s5_def s6_def del_deadline_def units)
  then have r6: "breach ?G ?d0 s6" by (rule breach.step [OF r5])
  have "EpisodeByID ''g'' (b_db s6) = Inr (scanEpisode (episode_to_row ex_episode))"
    by (simp add: s5_def s6_def lost_d3_def CreateEpisode_def lost_d2_def lost_d1_def ReserveBlob_eq
      DeleteEpisode_eq ex referenced_elsewhere_def reserved_def leased_def Let_def acquire_eq
      delete_episode_row_def deleteLeaseCutoff_def toUnix_def units del_where_def
      ex_episode_def scanEpisode_def EpisodeByID_def episodeWhere_def episode_to_row_def)
  moreover have "e_MediaKey (scanEpisode (episode_to_row ex_episode)) = ''k''"
    by (simp add: ex_episode_def scanEpisode_def episode_to_row_def ex)
  ultimately show ?thesis using r6 by (auto simp: s6_def)
qed

end
