(* ===== verification/Strconv.thy ===== *)
theory Strconv
  imports Prelude
begin

text \<open>
  The decimal conversions of Go's \<open>strconv\<close> and the separator functions of \<open>strings\<close> that
  the sources use: \<open>FormatInt\<close>, \<open>ParseInt\<close> in base ten with its 64-bit range check,
  \<open>Split\<close> and \<open>Join\<close> on a one-byte separator.  The round trips proved here carry those of
  the session cookies and of the feed.
\<close>

section \<open>Formatting\<close>

definition digit :: "nat \<Rightarrow> char" where "digit n = char_of (48 + n)"

fun natDigits :: "nat \<Rightarrow> string" where
  "natDigits n = (if n < 10 then [digit n] else natDigits (n div 10) @ [digit (n mod 10)])"

declare natDigits.simps [simp del]

definition FormatInt :: "int \<Rightarrow> string" where
  "FormatInt n = (if n < 0 then ''-'' @ natDigits (nat (- n)) else natDigits (nat n))"

section \<open>Parsing\<close>

definition isDigit :: "char \<Rightarrow> bool" where
  "isDigit c \<longleftrightarrow> 48 \<le> (of_char c :: nat) \<and> (of_char c :: nat) \<le> 57"

definition digitsVal :: "string \<Rightarrow> nat" where
  "digitsVal s = foldl (\<lambda>n c. 10 * n + (of_char c - 48)) 0 s"

text \<open>The sign and the digits after it.\<close>

definition splitSign :: "string \<Rightarrow> bool \<times> string" where
  "splitSign s = (case s of [] \<Rightarrow> (False, [])
     | c # cs \<Rightarrow> if c = CHR ''-'' then (True, cs) else if c = CHR ''+'' then (False, cs) else (False, s))"

definition ParseInt :: "string \<Rightarrow> int option" where
  "ParseInt s = (let (neg, ds) = splitSign s; n = int (digitsVal ds) in
     if ds = [] \<or> \<not> list_all isDigit ds then None
     else if \<not> neg \<and> 2 ^ 63 \<le> n then None
     else if neg \<and> 2 ^ 63 < n then None
     else Some (if neg then - n else n))"

section \<open>Separators\<close>

fun Split :: "char \<Rightarrow> string \<Rightarrow> string list" where
  "Split sep [] = [[]]"
| "Split sep (c # cs) =
     (if c = sep then [] # Split sep cs
      else (case Split sep cs of [] \<Rightarrow> [[c]] | w # ws \<Rightarrow> (c # w) # ws))"

fun Join :: "string \<Rightarrow> string list \<Rightarrow> string" where
  "Join sep [] = []"
| "Join sep [w] = w"
| "Join sep (w # ws) = w @ sep @ Join sep ws"

text \<open>\<open>strings.TrimRight\<close> of slashes.\<close>

definition trimRightSlash :: "string \<Rightarrow> string" where
  "trimRightSlash s = rev (dropWhile (\<lambda>c. c = CHR ''/'') (rev s))"

section \<open>Round trips\<close>

lemma of_char_digit [simp]: "n < 10 \<Longrightarrow> (of_char (digit n) :: nat) = 48 + n"
  by (simp add: digit_def)

lemma natDigits_not_Nil [simp]: "natDigits n \<noteq> []"
  by (subst natDigits.simps) simp

lemma natDigits_isDigit: "list_all isDigit (natDigits n)"
proof (induction n rule: natDigits.induct)
  case (1 n)
  show ?case
  proof (cases "n < 10")
    case True
    then show ?thesis by (subst natDigits.simps) (simp add: isDigit_def)
  next
    case False
    have "isDigit (digit (n mod 10))" by (simp add: isDigit_def)
    with False 1 show ?thesis by (subst natDigits.simps) simp
  qed
qed

lemma digitsVal_natDigits [simp]: "digitsVal (natDigits n) = n"
proof (induction n rule: natDigits.induct)
  case (1 n)
  show ?case
  proof (cases "n < 10")
    case True
    then show ?thesis by (subst natDigits.simps) (simp add: digitsVal_def)
  next
    case False
    then have "digitsVal (natDigits (n div 10)) = n div 10" by (rule 1)
    with False show ?thesis by (subst natDigits.simps) (simp add: digitsVal_def)
  qed
qed

lemma isDigit_sign: "isDigit c \<Longrightarrow> c \<noteq> CHR ''-'' \<and> c \<noteq> CHR ''+'' \<and> c \<noteq> CHR ''.''"
  by (auto simp: isDigit_def)

lemma splitSign_digits: "ds \<noteq> [] \<Longrightarrow> list_all isDigit ds \<Longrightarrow> splitSign ds = (False, ds)"
  by (cases ds) (auto simp: splitSign_def dest: isDigit_sign)

lemma ParseInt_FormatInt:
  assumes "- (2 ^ 63) \<le> n" "n < 2 ^ 63"
  shows "ParseInt (FormatInt n) = Some n"
proof (cases "n < 0")
  case True
  then have "splitSign (FormatInt n) = (True, natDigits (nat (- n)))"
    by (simp add: FormatInt_def splitSign_def)
  with True assms show ?thesis by (simp add: ParseInt_def natDigits_isDigit)
next
  case False
  then have "splitSign (FormatInt n) = (False, natDigits (nat n))"
    by (simp add: FormatInt_def splitSign_digits natDigits_isDigit)
  with False assms show ?thesis by (simp add: ParseInt_def natDigits_isDigit)
qed

lemma ParseInt_range: "ParseInt s = Some n \<Longrightarrow> - (2 ^ 63) \<le> n \<and> n < 2 ^ 63"
  by (auto simp: ParseInt_def Let_def split: prod.splits if_splits)

lemma natDigits_inj: "natDigits a = natDigits b \<Longrightarrow> a = b"
  by (metis digitsVal_natDigits)

lemma FormatInt_inj: "FormatInt a = FormatInt b \<longleftrightarrow> a = b"
proof
  assume eq: "FormatInt a = FormatInt b"
  have s: "fst (splitSign (FormatInt n)) = (n < 0)" for n
    by (cases "n < 0")
      (simp_all add: FormatInt_def splitSign_digits natDigits_isDigit, simp add: splitSign_def)
  have "a < 0 \<longleftrightarrow> b < 0" using s [of a] s [of b] eq by simp
  with eq show "a = b" by (auto simp: FormatInt_def dest: natDigits_inj split: if_splits)
qed simp

lemma Split_not_Nil [simp]: "Split sep s \<noteq> []"
  by (induction s) (auto split: list.splits)

lemma Split_word: "sep \<notin> set w \<Longrightarrow> Split sep w = [w]"
  by (induction w) auto

lemma Split_append: "sep \<notin> set w \<Longrightarrow> Split sep (w @ sep # s) = w # Split sep s"
  by (induction w) auto

text \<open>Splitting what was joined from words without the separator gives the words back.\<close>

lemma Split_Join: "ws \<noteq> [] \<Longrightarrow> (\<forall>w \<in> set ws. sep \<notin> set w) \<Longrightarrow> Split sep (Join [sep] ws) = ws"
  by (induction "[sep]" ws rule: Join.induct) (auto simp: Split_word Split_append)

lemma Join_Split: "Join [sep] (Split sep s) = s"
proof (induction s)
  case (Cons c cs)
  obtain w ws where w: "Split sep cs = w # ws" by (cases "Split sep cs") auto
  show ?case using Cons w by (cases ws) auto
qed simp

lemma Split_no_sep: "w \<in> set (Split sep s) \<Longrightarrow> sep \<notin> set w"
proof (induction s arbitrary: w)
  case (Cons c cs)
  obtain v vs where "Split sep cs = v # vs" by (cases "Split sep cs") auto
  with Cons show ?case by (auto split: if_splits)
qed simp

end
