(* ===== verification/Metrics.thy ===== *)
theory Metrics
  imports Strconv "HOL-Library.Multiset" Complex_Main
begin

text \<open>
  \<open>internal/metrics/metrics.go\<close>: the counter and gauge registry behind \<open>/metrics\<close>.  A family
  keeps its series in a map by canonical label text and their first-seen order in a list;
  the registry keeps its families the same way.  Sample values are exact rationals: the
  program only stores counts, Unix seconds and queue depths, integers far below the
  \<open>2 ^ 53\<close> up to which a \<open>float64\<close> is exact.  A computed gauge is a function of the world
  \<open>'w\<close> it reads at scrape time.
\<close>

section \<open>State\<close>

datatype MType = Counter | Gauge

definition MTypeString :: "MType \<Rightarrow> string" where
  "MTypeString t = (if t = Gauge then ''gauge'' else ''counter'')"

record sample =
  sm_labels :: string
  sm_val :: rat

record 'w family =
  fm_name :: string
  fm_help :: string
  fm_typ :: MType
  fm_fn :: "('w \<Rightarrow> rat) option"
  fm_series :: "string \<rightharpoonup> sample"
  fm_order :: "string list"

record 'w Registry =
  rg_fams :: "string \<rightharpoonup> 'w family"
  rg_order :: "string list"

definition emptyRegistry :: "'w Registry" where
  "emptyRegistry = \<lparr>rg_fams = Map.empty, rg_order = []\<rparr>"

section \<open>Labels\<close>

definition escChar :: "bool \<Rightarrow> char \<Rightarrow> string" where
  "escChar quotes c =
     (if c = CHR 0x5C then [CHR 0x5C, CHR 0x5C]
      else if quotes \<and> c = CHR 0x22 then [CHR 0x5C, CHR 0x22]
      else if c = CHR 0x0A then [CHR 0x5C, CHR ''n'']
      else [c])"

definition escapeLabelValue :: "string \<Rightarrow> string" where
  "escapeLabelValue s =
     (if \<not> list_ex (\<lambda>c. c = CHR 0x5C \<or> c = CHR 0x22 \<or> c = CHR 0x0A) s then s
      else concat (map (escChar True) s))"

definition escapeHelp :: "string \<Rightarrow> string" where
  "escapeHelp s =
     (if \<not> list_ex (\<lambda>c. c = CHR 0x5C \<or> c = CHR 0x0A) s then s
      else concat (map (escChar False) s))"

text \<open>The variadic \<open>k1, v1, k2, v2, ..\<close> arguments; an odd trailing key is dropped.\<close>

fun pairUp :: "string list \<Rightarrow> (string \<times> string) list" where
  "pairUp (k # v # kv) = (k, v) # pairUp kv"
| "pairUp _ = []"

definition renderPair :: "string \<times> string \<Rightarrow> string" where
  "renderPair p = fst p @ ''='' @ [CHR 0x22] @ escapeLabelValue (snd p) @ [CHR 0x22]"

definition renderPairs :: "(string \<times> string) list \<Rightarrow> string" where
  "renderPairs ps = ''{'' @ Join '','' (map renderPair (sort_key fst ps)) @ ''}''"

definition renderLabels :: "string list \<Rightarrow> string" where
  "renderLabels kv = (if length kv div 2 = 0 then [] else renderPairs (pairUp kv))"

section \<open>Operations\<close>

definition familyLocked :: "string \<Rightarrow> MType \<Rightarrow> 'w Registry \<Rightarrow> 'w family \<times> 'w Registry" where
  "familyLocked name typ r =
     (case rg_fams r name of
        Some f \<Rightarrow> (f, r)
      | None \<Rightarrow>
          (let f = \<lparr>fm_name = name, fm_help = [], fm_typ = typ, fm_fn = None,
                    fm_series = Map.empty, fm_order = []\<rparr>
           in (f, r\<lparr>rg_fams := (rg_fams r)(name \<mapsto> f), rg_order := rg_order r @ [name]\<rparr>)))"

definition putFamily :: "string \<Rightarrow> 'w family \<Rightarrow> 'w Registry \<Rightarrow> 'w Registry" where
  "putFamily name f r = r\<lparr>rg_fams := (rg_fams r)(name \<mapsto> f)\<rparr>"

definition Register :: "string \<Rightarrow> MType \<Rightarrow> string \<Rightarrow> 'w Registry \<Rightarrow> 'w Registry" where
  "Register name typ help r =
     (let (f, r1) = familyLocked name typ r in putFamily name (f\<lparr>fm_help := help\<rparr>) r1)"

definition GaugeFunc :: "string \<Rightarrow> string \<Rightarrow> ('w \<Rightarrow> rat) \<Rightarrow> 'w Registry \<Rightarrow> 'w Registry" where
  "GaugeFunc name help fn r =
     (let (f, r1) = familyLocked name Gauge r in putFamily name (f\<lparr>fm_help := help, fm_fn := Some fn\<rparr>) r1)"

text \<open>\<open>sample\<close> resolves the series, \<open>add\<close> and \<open>set\<close> store through the pointer it returns.\<close>

definition sampleSeries :: "string \<Rightarrow> MType \<Rightarrow> string list \<Rightarrow> 'w Registry \<Rightarrow> sample \<times> 'w family \<times> 'w Registry" where
  "sampleSeries name typ kv r =
     (let key = renderLabels kv; (f, r1) = familyLocked name typ r in
      case fm_series f key of
        Some s \<Rightarrow> (s, f, r1)
      | None \<Rightarrow>
          (let s = \<lparr>sm_labels = key, sm_val = 0\<rparr>;
               f' = f\<lparr>fm_series := (fm_series f)(key \<mapsto> s), fm_order := fm_order f @ [key]\<rparr>
           in (s, f', putFamily name f' r1)))"

definition storeSample :: "string \<Rightarrow> MType \<Rightarrow> string list \<Rightarrow> (rat \<Rightarrow> rat) \<Rightarrow> 'w Registry \<Rightarrow> 'w Registry" where
  "storeSample name typ kv g r =
     (let (s, f, r1) = sampleSeries name typ kv r
      in putFamily name (f\<lparr>fm_series := (fm_series f)(renderLabels kv \<mapsto> s\<lparr>sm_val := g (sm_val s)\<rparr>)\<rparr>) r1)"

definition Add :: "string \<Rightarrow> rat \<Rightarrow> string list \<Rightarrow> 'w Registry \<Rightarrow> 'w Registry" where
  "Add name delta kv = storeSample name Counter kv (\<lambda>v. v + delta)"

definition Inc :: "string \<Rightarrow> string list \<Rightarrow> 'w Registry \<Rightarrow> 'w Registry" where
  "Inc name kv = Add name 1 kv"

definition SetGauge :: "string \<Rightarrow> rat \<Rightarrow> string list \<Rightarrow> 'w Registry \<Rightarrow> 'w Registry" where
  "SetGauge name v kv = storeSample name Gauge kv (\<lambda>_. v)"

section \<open>Exposition\<close>

text \<open>\<open>FormatFloat(v, 'g', -1, 64)\<close> of a value that is not a small integer is the argument \<open>fmtG\<close>.\<close>

definition formatFloat :: "(rat \<Rightarrow> string) \<Rightarrow> rat \<Rightarrow> string" where
  "formatFloat fmtG v =
     (if v = of_int (floor v) \<and> abs v < 1000000000000000 then FormatInt (floor v) else fmtG v)"

definition newline :: string where "newline = [CHR 0x0A]"

definition writeLine :: "(rat \<Rightarrow> string) \<Rightarrow> string \<Rightarrow> string \<Rightarrow> rat \<Rightarrow> string" where
  "writeLine fmtG name labels v = name @ labels @ '' '' @ formatFloat fmtG v @ newline"

definition writeFamily :: "(rat \<Rightarrow> string) \<Rightarrow> 'w \<Rightarrow> 'w family \<Rightarrow> string" where
  "writeFamily fmtG w f =
     (if fm_help f \<noteq> [] then ''# HELP '' @ fm_name f @ '' '' @ escapeHelp (fm_help f) @ newline else [])
     @ ''# TYPE '' @ fm_name f @ '' '' @ MTypeString (fm_typ f) @ newline
     @ (case fm_fn f of None \<Rightarrow> [] | Some fn \<Rightarrow> writeLine fmtG (fm_name f) [] (fn w))
     @ concat (map (\<lambda>key. case fm_series f key of None \<Rightarrow> []
          | Some s \<Rightarrow> writeLine fmtG (fm_name f) (sm_labels s) (sm_val s)) (fm_order f))"

definition WriteTo :: "(rat \<Rightarrow> string) \<Rightarrow> 'w \<Rightarrow> 'w Registry \<Rightarrow> string" where
  "WriteTo fmtG w r =
     concat (map (\<lambda>name. case rg_fams r name of None \<Rightarrow> [] | Some f \<Rightarrow> writeFamily fmtG w f) (rg_order r))"

section \<open>Reading a series\<close>

definition seriesValue :: "string \<Rightarrow> string \<Rightarrow> 'w Registry \<Rightarrow> rat" where
  "seriesValue name key r =
     (case rg_fams r name of None \<Rightarrow> 0
      | Some f \<Rightarrow> (case fm_series f key of None \<Rightarrow> 0 | Some s \<Rightarrow> sm_val s))"

lemma storeSample_value:
  "seriesValue n k (storeSample name typ kv g r) =
     (if n = name \<and> k = renderLabels kv then g (seriesValue n k r) else seriesValue n k r)"
  by (auto simp: storeSample_def sampleSeries_def familyLocked_def putFamily_def seriesValue_def Let_def
      split: option.splits prod.splits if_splits)

lemma Inc_value:
  "seriesValue n k (Inc name kv r) =
     seriesValue n k r + (if n = name \<and> k = renderLabels kv then 1 else 0)"
  by (simp add: Inc_def Add_def storeSample_value)

lemma SetGauge_value:
  "seriesValue n k (SetGauge name v kv r) =
     (if n = name \<and> k = renderLabels kv then v else seriesValue n k r)"
  by (simp add: SetGauge_def storeSample_value)

lemma Register_value: "seriesValue n k (Register name typ h r) = seriesValue n k r"
  by (auto simp: Register_def familyLocked_def putFamily_def seriesValue_def Let_def
      split: option.splits prod.splits if_splits)

section \<open>Every family and series is listed exactly once\<close>

definition wf_family :: "'w family \<Rightarrow> bool" where
  "wf_family f \<longleftrightarrow> distinct (fm_order f) \<and> set (fm_order f) = dom (fm_series f)
     \<and> (\<forall>k s. fm_series f k = Some s \<longrightarrow> sm_labels s = k)"

definition wf_registry :: "'w Registry \<Rightarrow> bool" where
  "wf_registry r \<longleftrightarrow> distinct (rg_order r) \<and> set (rg_order r) = dom (rg_fams r)
     \<and> (\<forall>n f. rg_fams r n = Some f \<longrightarrow> wf_family f \<and> fm_name f = n)"

lemma wf_emptyRegistry: "wf_registry emptyRegistry"
  by (simp add: wf_registry_def emptyRegistry_def)

lemma familyLocked_wf:
  assumes "wf_registry r" "familyLocked name typ r = (f, r')"
  shows "wf_registry r'" "wf_family f" "fm_name f = name" "rg_fams r' name = Some f"
proof -
  have "wf_registry r' \<and> wf_family f \<and> fm_name f = name \<and> rg_fams r' name = Some f"
  proof (cases "rg_fams r name")
    case None
    let ?f = "\<lparr>fm_name = name, fm_help = [], fm_typ = typ, fm_fn = None,
        fm_series = Map.empty, fm_order = []\<rparr> :: 'a family"
    have "f = ?f" "r' = r\<lparr>rg_fams := (rg_fams r)(name \<mapsto> ?f), rg_order := rg_order r @ [name]\<rparr>"
      using None assms(2) by (auto simp: familyLocked_def Let_def)
    moreover have "wf_family ?f" by (simp add: wf_family_def)
    ultimately show ?thesis using None assms(1) by (auto simp: wf_registry_def)
  qed (use assms in \<open>auto simp: familyLocked_def wf_registry_def\<close>)
  then show "wf_registry r'" "wf_family f" "fm_name f = name" "rg_fams r' name = Some f" by simp_all
qed

lemma putFamily_wf:
  "wf_registry r \<Longrightarrow> rg_fams r name = Some f0 \<Longrightarrow> wf_family f \<Longrightarrow> fm_name f = name \<Longrightarrow>
   wf_registry (putFamily name f r)"
  by (auto simp: wf_registry_def putFamily_def)

lemma wf_family_frame [simp]:
  "wf_family (f\<lparr>fm_help := h\<rparr>) = wf_family f" "wf_family (f\<lparr>fm_fn := g\<rparr>) = wf_family f"
  by (simp_all add: wf_family_def)

lemma familyLocked_putFamily_wf:
  assumes "wf_registry r" "\<And>f. wf_family f \<Longrightarrow> wf_family (h f)" "\<And>f. fm_name (h f) = fm_name f"
  shows "wf_registry (let (f, r1) = familyLocked name typ r in putFamily name (h f) r1)"
proof -
  obtain f r1 where fl: "familyLocked name typ r = (f, r1)" by fastforce
  note w = familyLocked_wf [OF assms(1) fl]
  have "wf_registry (putFamily name (h f) r1)"
    by (rule putFamily_wf [OF w(1,4)]) (simp_all add: assms w)
  then show ?thesis by (simp add: fl)
qed

lemma Register_wf: "wf_registry r \<Longrightarrow> wf_registry (Register name typ h r)"
  unfolding Register_def by (rule familyLocked_putFamily_wf) simp_all

lemma GaugeFunc_wf: "wf_registry r \<Longrightarrow> wf_registry (GaugeFunc name h fn r)"
  unfolding GaugeFunc_def by (rule familyLocked_putFamily_wf) simp_all

lemma sampleSeries_wf:
  assumes "wf_registry r" "sampleSeries name typ kv r = (s, f, r')"
  shows "wf_registry r'" "wf_family f" "fm_name f = name" "rg_fams r' name = Some f"
    "fm_series f (renderLabels kv) = Some s"
proof -
  obtain f0 r1 where fl: "familyLocked name typ r = (f0, r1)" by fastforce
  note f0 = familyLocked_wf [OF assms(1) fl]
  have new: "wf_family (f0\<lparr>fm_series := (fm_series f0)(k \<mapsto> \<lparr>sm_labels = k, sm_val = 0\<rparr>),
      fm_order := fm_order f0 @ [k]\<rparr>)" if "fm_series f0 k = None" for k
    using f0(2) that by (auto simp: wf_family_def)
  have "wf_registry r' \<and> wf_family f \<and> fm_name f = name \<and> rg_fams r' name = Some f
      \<and> fm_series f (renderLabels kv) = Some s"
  proof (cases "fm_series f0 (renderLabels kv)")
    case None
    then show ?thesis
      using assms(2) fl new [OF None] putFamily_wf [OF f0(1,4) new [OF None]] f0(3)
      by (auto simp: sampleSeries_def Let_def putFamily_def)
  next
    case (Some s0)
    then show ?thesis using assms(2) fl f0 by (auto simp: sampleSeries_def Let_def)
  qed
  then show "wf_registry r'" "wf_family f" "fm_name f = name" "rg_fams r' name = Some f"
    "fm_series f (renderLabels kv) = Some s" by simp_all
qed

lemma storeSample_wf:
  assumes "wf_registry r" shows "wf_registry (storeSample name typ kv g r)"
proof -
  obtain s f r1 where ss: "sampleSeries name typ kv r = (s, f, r1)" by (cases "sampleSeries name typ kv r")
  note w = sampleSeries_wf [OF assms ss]
  have "wf_family (f\<lparr>fm_series := (fm_series f)(renderLabels kv \<mapsto> s\<lparr>sm_val := g (sm_val s)\<rparr>)\<rparr>)"
    using w(2,5) by (auto simp: wf_family_def)
  then show ?thesis using ss putFamily_wf [OF w(1,4)] w(3) by (simp add: storeSample_def)
qed

section \<open>Labels cannot collide or inject\<close>

lemma concat_esc: "escapeLabelValue s = concat (map (escChar True) s)"
proof (cases "list_ex (\<lambda>c. c = CHR 0x5C \<or> c = CHR 0x22 \<or> c = CHR 0x0A) s")
  case False
  then have "concat (map (escChar True) s) = s"
    by (induction s) (auto simp: escChar_def)
  with False show ?thesis by (simp add: escapeLabelValue_def)
qed (simp add: escapeLabelValue_def)

lemma escChar_cancel: "escChar True c @ x = escChar True c' @ y \<Longrightarrow> c = c' \<and> x = y"
  unfolding escChar_def
  by (cases "c = CHR 0x5C"; cases "c = CHR 0x22"; cases "c = CHR 0x0A";
      cases "c' = CHR 0x5C"; cases "c' = CHR 0x22"; cases "c' = CHR 0x0A") simp_all

lemma escChar_not_Nil [simp]: "escChar q c \<noteq> []"
  by (simp add: escChar_def)

lemma escapeLabelValue_inj: "escapeLabelValue s = escapeLabelValue s' \<Longrightarrow> s = s'"
  unfolding concat_esc
proof (induction s arbitrary: s')
  case Nil
  then show ?case by (cases s') simp_all
next
  case (Cons c s)
  show ?case
  proof (cases s')
    case Nil
    with Cons.prems show ?thesis by simp
  next
    case (Cons c' t)
    with Cons.prems have "c = c' \<and> concat (map (escChar True) s) = concat (map (escChar True) t)"
      by (intro escChar_cancel) simp
    with Cons.IH Cons show ?thesis by blast
  qed
qed

lemma escapeLabelValue_no_newline: "CHR 0x0A \<notin> set (escapeLabelValue s)"
  by (induction s) (auto simp: concat_esc escChar_def)

lemma renderPairs_perm:
  assumes "distinct (map fst ps)" "mset ps = mset qs"
  shows "renderPairs ps = renderPairs qs"
proof -
  have "inj_on fst (set ps)" using assms(1) by (simp add: distinct_map)
  then have "sort_key fst ps = sort_key fst qs"
    using assms(2) by (intro sort_key_eq_sort_key)
  then show ?thesis by (simp add: renderPairs_def)
qed

end
