(* ===== verification/Worker.thy ===== *)
theory Worker
  imports Metrics Examples
begin

text \<open>
  \<open>worker/worker.go\<close> with the transcriber interface of \<open>transcribe/transcribe.go\<close> and the
  default \<open>transcribe/null\<close>: one pass of the polling loop claims a job, transcribes the
  episode, and settles the outcome under the claim's fence.  Between any two calls of the
  worker other processes may run any operations of the store, and any call may fail before
  it takes effect; both are fields of the environment of a pass.
\<close>

section \<open>The per-job timeout\<close>

text \<open>
  \<open>Factor\<close> is a finite \<open>float64\<close>.  The conversion of the floating-point product to a
  \<open>time.Duration\<close> (its rounding, and what it does out of range) is the argument \<open>conv\<close>.
\<close>

record JobTimeoutPolicy =
  p_Factor :: rat
  p_Min :: duration
  p_Max :: duration

definition defaultTimeoutFactor :: rat where "defaultTimeoutFactor = 3 / 2"
definition defaultTimeoutMin :: duration where [units]: "defaultTimeoutMin = 5 * Minute"
definition defaultTimeoutMax :: duration where [units]: "defaultTimeoutMax = 2 * Hour"
definition defaultSettleTimeout :: duration where [units]: "defaultSettleTimeout = 10 * Second"

definition withDefaults :: "JobTimeoutPolicy \<Rightarrow> JobTimeoutPolicy" where
  "withDefaults p = \<lparr>p_Factor = (if p_Factor p \<le> 0 then defaultTimeoutFactor else p_Factor p),
     p_Min = (if p_Min p \<le> 0 then defaultTimeoutMin else p_Min p),
     p_Max = (if p_Max p \<le> 0 then defaultTimeoutMax else p_Max p)\<rparr>"

definition jobTimeout :: "(rat \<Rightarrow> duration) \<Rightarrow> JobTimeoutPolicy \<Rightarrow> int \<Rightarrow> duration" where
  "jobTimeout conv p durationSecs =
     (if durationSecs \<le> 0 then p_Max p
      else (let d0 = conv (p_Factor p * of_int durationSecs * of_int Second);
                d1 = max d0 (p_Min p)
            in min d1 (p_Max p)))"

section \<open>The worker and its environment\<close>

record Worker =
  w_queue :: "db Queue"
  w_pollInterval :: duration
  w_jobTimeout :: JobTimeoutPolicy
  w_settleTimeout :: duration

datatype WorkerOption =
  WithPollInterval duration | WithJobTimeout JobTimeoutPolicy | WithSettleTimeout duration

fun apply_worker_option :: "WorkerOption \<Rightarrow> Worker \<Rightarrow> Worker" where
  "apply_worker_option (WithPollInterval d) w = w\<lparr>w_pollInterval := d\<rparr>"
| "apply_worker_option (WithJobTimeout p) w = w\<lparr>w_jobTimeout := p\<rparr>"
| "apply_worker_option (WithSettleTimeout d) w = (if 0 < d then w\<lparr>w_settleTimeout := d\<rparr> else w)"

definition metricJobsTotal :: string where "metricJobsTotal = ''transcription_jobs_total''"
definition metricLastSuccess :: string where
  "metricLastSuccess = ''worker_last_success_timestamp_seconds''"

text \<open>\<open>New\<close>: the worker, and the two families registered in its registry.\<close>

definition NewWorker :: "db Queue \<Rightarrow> WorkerOption list \<Rightarrow> 'w Registry \<Rightarrow> Worker \<times> 'w Registry" where
  "NewWorker q options r =
     (let w0 = \<lparr>w_queue = q, w_pollInterval = 5 * Second,
                w_jobTimeout = \<lparr>p_Factor = 0, p_Min = 0, p_Max = 0\<rparr>,
                w_settleTimeout = defaultSettleTimeout\<rparr>;
          w = fold apply_worker_option options w0;
          r1 = Register metricJobsTotal Counter
                 ''Transcription job attempts by outcome (success, skipped, or failure).'' r;
          r2 = Register metricLastSuccess Gauge
                 ''Unix timestamp of the worker's last successful transcription.'' r1
      in (w\<lparr>w_jobTimeout := withDefaults (w_jobTimeout w)\<rparr>, r2))"

text \<open>\<open>transcribe.Input\<close> (the audio is the blob under the key) and what a transcriber returns.\<close>

record TranscribeInput =
  ti_Audio :: string
  ti_MIME :: string
  ti_Filename :: string
  ti_Language :: string

datatype TranscribeResult =
  Transcribed string "segment list" | Unsupported | TranscribeFailed string

definition nullTranscribe :: "TranscribeInput \<Rightarrow> duration \<Rightarrow> TranscribeResult" where
  "nullTranscribe inp timeout = Unsupported"

text \<open>
  The calls of one pass, in program order, and their environment: what other processes do
  before a call, whether it fails without effect, the clock it reads (\<open>ev_now'\<close> where a method
  reads it twice), which keys \<open>blobs.Get\<close> opens, the transcriber, the \<open>time.Duration\<close>
  conversion and the \<open>Error()\<close> text of a store error.
\<close>

datatype call = CDequeue | CLoad | CProgress | CSettle | CAck | CNack | CMark

record env =
  ev_others :: "call \<Rightarrow> store_op list"
  ev_fault :: "call \<Rightarrow> bool"
  ev_now :: "call \<Rightarrow> time"
  ev_now' :: "call \<Rightarrow> time"
  ev_get :: "string \<Rightarrow> bool"
  ev_transcriber :: "TranscribeInput \<Rightarrow> duration \<Rightarrow> TranscribeResult"
  ev_conv :: "rat \<Rightarrow> duration"
  ev_text :: "err \<Rightarrow> string"

definition call_store :: "env \<Rightarrow> call \<Rightarrow> (db \<Rightarrow> 'a res \<times> db) \<Rightarrow> db \<Rightarrow> 'a res \<times> db" where
  "call_store ev c op d =
     (let d0 = exec_all (ev_others ev c) d in if ev_fault ev c then (Inl ErrDriver, d0) else op d0)"

section \<open>One job\<close>

record settlement =
  st_ep :: episode
  st_transcript :: "transcript option"
  st_status :: TranscriptStatus

definition transcribe ::
    "Worker \<Rightarrow> env \<Rightarrow> job \<Rightarrow> db \<Rightarrow> (string + settlement option) \<times> db" where
  "transcribe w ev j d =
     (case j_Payload j of
        BadPayload m \<Rightarrow> (Inl (''worker: bad payload: '' @ m), d)
      | TranscribePayload eid \<Rightarrow>
          (case call_store ev CLoad (\<lambda>d. (EpisodeByID eid d, d)) d of
             (Inl e, d1) \<Rightarrow> if e = ErrNotFound then (Inr None, d1) else (Inl (ev_text ev e), d1)
           | (Inr ep, d1) \<Rightarrow>
               (let d2 = snd (call_store ev CProgress
                      (SettleEpisodeTranscript (j_ID j) (j_Attempts j) (e_ID ep) None
                         TranscriptProcessing (ev_now ev CProgress)) d1)
                in if \<not> ev_get ev (e_MediaKey ep) then (Inl ''worker: open media'', d2)
                   else (case ev_transcriber ev
                            \<lparr>ti_Audio = e_MediaKey ep, ti_MIME = e_MediaMIME ep,
                             ti_Filename = e_ID ep, ti_Language = e_Language ep\<rparr>
                            (jobTimeout (ev_conv ev) (w_jobTimeout w) (e_DurationSecs ep)) of
                       Unsupported \<Rightarrow>
                         (Inr (Some \<lparr>st_ep = ep, st_transcript = None, st_status = TranscriptNone\<rparr>), d2)
                     | TranscribeFailed m \<Rightarrow> (Inl (''worker: transcribe: '' @ m), d2)
                     | Transcribed lang segs \<Rightarrow>
                         (Inr (Some \<lparr>st_ep = ep,
                             st_transcript = Some \<lparr>t_EpisodeID = e_ID ep, t_Language = lang,
                               t_Segments = segs, t_CreatedAt = ev_now' ev CProgress\<rparr>,
                             st_status = TranscriptDone\<rparr>), d2)))))"

fun handle :: "Worker \<Rightarrow> env \<Rightarrow> job \<Rightarrow> db \<Rightarrow> (string + settlement option) \<times> db" where
  "handle w ev j d =
     (case j_Kind j of
        JobTranscribe \<Rightarrow> transcribe w ev j d
      | OtherKind k \<Rightarrow> (Inl (''worker: unknown job kind '' @ k), d))"

definition settleAndComplete :: "env \<Rightarrow> job \<Rightarrow> settlement \<Rightarrow> db \<Rightarrow> (string + bool) \<times> db" where
  "settleAndComplete ev j s d =
     (case call_store ev CSettle
        (SettleEpisodeTranscriptAndCompleteJob (j_ID j) (j_Attempts j) (e_ID (st_ep s))
           (st_transcript s) (st_status s) (ev_now ev CSettle)) d of
        (Inl e, d1) \<Rightarrow>
          if e = ErrStaleClaim then (Inr False, d1)
          else (Inl (''worker: settle episode transcript and complete job: '' @ ev_text ev e), d1)
      | (Inr _, d1) \<Rightarrow> (Inr True, d1))"

definition markTranscript :: "env \<Rightarrow> job \<Rightarrow> TranscriptStatus \<Rightarrow> db \<Rightarrow> db" where
  "markTranscript ev j status d =
     (case j_Payload j of
        BadPayload _ \<Rightarrow> d
      | TranscribePayload eid \<Rightarrow>
          snd (call_store ev CMark
            (SettleEpisodeTranscript (j_ID j) (j_Attempts j) eid None status (ev_now ev CMark)) d))"

section \<open>The terminal bookkeeping\<close>

type_synonym 'w wstate = "db \<times> 'w Registry"

definition ack :: "Worker \<Rightarrow> env \<Rightarrow> job \<Rightarrow> db \<Rightarrow> string option \<times> db" where
  "ack w ev j d =
     (case call_store ev CAck (Ack (w_queue w) j (ev_now ev CAck)) d of
        (Inl e, d1) \<Rightarrow> (Some (ev_text ev e), d1)
      | (Inr _, d1) \<Rightarrow> (None, d1))"

definition fail :: "Worker \<Rightarrow> env \<Rightarrow> job \<Rightarrow> string \<Rightarrow> 'w wstate \<Rightarrow> string option \<times> 'w wstate" where
  "fail w ev j cause s =
     (let d = fst s; r1 = Inc metricJobsTotal [''outcome'', ''failure''] (snd s) in
      case call_store ev CNack (Nack (w_queue w) j (Some cause) (ev_now ev CNack) (ev_now' ev CNack)) d of
        (Inl e, d1) \<Rightarrow> (Some (''nack: '' @ ev_text ev e @ '' (cause: '' @ cause @ '')''), d1, r1)
      | (Inr dead, d1) \<Rightarrow>
          (Some cause, if dead then markTranscript ev j TranscriptFailed d1 else d1, r1))"

definition countOutcome :: "env \<Rightarrow> settlement \<Rightarrow> 'w Registry \<Rightarrow> 'w Registry" where
  "countOutcome ev s r =
     (if st_status s = TranscriptDone
      then SetGauge metricLastSuccess (of_int (toUnix (ev_now' ev CSettle))) []
             (Inc metricJobsTotal [''outcome'', ''success''] r)
      else Inc metricJobsTotal [''outcome'', ''skipped''] r)"

text \<open>The rest of \<open>processOne\<close> after \<open>handle\<close>.\<close>

definition conclude ::
    "Worker \<Rightarrow> env \<Rightarrow> job \<Rightarrow> string + settlement option \<Rightarrow> 'w wstate \<Rightarrow> string option \<times> 'w wstate" where
  "conclude w ev j h st =
     (case h of
        Inl herr \<Rightarrow> fail w ev j herr st
      | Inr None \<Rightarrow> (let (e, d1) = ack w ev j (fst st) in (e, d1, snd st))
      | Inr (Some s) \<Rightarrow>
          (case settleAndComplete ev j s (fst st) of
             (Inl serr, d1) \<Rightarrow> fail w ev j serr (d1, snd st)
           | (Inr committed, d1) \<Rightarrow>
               (None, d1, if committed then countOutcome ev s (snd st) else snd st)))"

text \<open>\<open>(processed, error)\<close> and the state after the pass.\<close>

definition processOne ::
    "Worker \<Rightarrow> env \<Rightarrow> 'w wstate \<Rightarrow> (bool \<times> string option) \<times> 'w wstate" where
  "processOne w ev st =
     (case call_store ev CDequeue
        (Dequeue (w_queue w) [JobTranscribe] (ev_now ev CDequeue) (ev_now' ev CDequeue)) (fst st) of
        (Inl e, d1) \<Rightarrow> ((False, Some (ev_text ev e)), d1, snd st)
      | (Inr None, d1) \<Rightarrow> ((False, None), d1, snd st)
      | (Inr (Some (j, True)), d1) \<Rightarrow>
          ((True, None), markTranscript ev j TranscriptFailed d1,
           Inc metricJobsTotal [''outcome'', ''failure''] (snd st))
      | (Inr (Some (j, False)), d1) \<Rightarrow>
          (let (h, d2) = handle w ev j d1; (e, st') = conclude w ev j h (d2, snd st)
           in ((True, e), st')))"

text \<open>
  The inner loop: one environment per pass; \<open>None\<close> stands for a cancelled context, which is
  tested before each pass.  The result tells whether the queue was drained.
\<close>

fun drain :: "Worker \<Rightarrow> env option list \<Rightarrow> 'w wstate \<Rightarrow> bool \<times> 'w wstate" where
  "drain w [] st = (False, st)"
| "drain w (None # evs) st = (False, st)"
| "drain w (Some ev # evs) st =
     (let ((processed, e), st') = processOne w ev st
      in if processed then drain w evs st' else (True, st'))"

section \<open>The timeout\<close>

lemma withDefaults_pos:
  "0 < p_Factor (withDefaults p)" "0 < p_Min (withDefaults p)" "0 < p_Max (withDefaults p)"
  by (simp_all add: withDefaults_def defaultTimeoutFactor_def units)

lemma jobTimeout_bounds:
  "jobTimeout conv p secs \<le> p_Max p" "min (p_Min p) (p_Max p) \<le> jobTimeout conv p secs"
  by (auto simp: jobTimeout_def Let_def)

lemma NewWorker_timeout: "withDefaults (w_jobTimeout (fst (NewWorker q opts r))) = w_jobTimeout (fst (NewWorker q opts r))"
  by (simp add: NewWorker_def Let_def withDefaults_def defaultTimeoutFactor_def units)

section \<open>A pass is a sequence of store operations\<close>

definition sqlite_worker :: "Worker \<Rightarrow> bool" where
  "sqlite_worker w \<longleftrightarrow> q_store (w_queue w) = sqlite_jobs"

lemma runs_fst: "r = (x, d') \<Longrightarrow> runs d (snd r) \<Longrightarrow> runs d d'" by simp

text \<open>
  A pass whose own operations and those of the others in between are of a kind \<open>P\<close> is a
  sequence of operations of that kind.
\<close>

locale pass_of =
  fixes P :: "store_op \<Rightarrow> bool" and ev :: env
  assumes may: "worker_op op \<Longrightarrow> P op"
    and others: "list_all P (ev_others ev c)"
begin

lemma call_store_runs: "(\<And>d. opRuns P d (snd (op d))) \<Longrightarrow> opRuns P d (snd (call_store ev c op d))"
  by (auto simp: call_store_def Let_def others opRuns_all intro: opRuns_trans [OF opRuns_all [OF others]])

lemma sqlite_runs:
  "opRuns P d (snd (sClaimJob sqlite_jobs ks now l d))"
  "opRuns P d (snd (sCompleteJob sqlite_jobs jid tok now d))"
  "opRuns P d (snd (sRescheduleJob sqlite_jobs jid tok ra c now d))"
  "opRuns P d (snd (sFailJob sqlite_jobs jid tok c now d))"
  by (simp_all add: sqlite_jobs_def worker_opRuns [OF may])

lemma Dequeue_runs:
  assumes "q_store q = sqlite_jobs" shows "opRuns P d (snd (Dequeue q ks now now' d))"
  using assms sqlite_runs(1) [of d ks now "q_lease q"] opRuns_trans [OF _ sqlite_runs(4)]
  by (auto simp: Dequeue_def split: prod.splits sum.splits) (metis snd_conv)+

lemma Ack_runs: "q_store q = sqlite_jobs \<Longrightarrow> opRuns P d (snd (Ack q j now d))"
  using sqlite_runs(2) [of d "j_ID j" "j_Attempts j" now]
  by (auto simp: Ack_def split: prod.splits sum.splits)

lemma Nack_runs:
  assumes "q_store q = sqlite_jobs" shows "opRuns P d (snd (Nack q j cause now now' d))"
proof -
  have "opRuns P d d'" if "sFailJob sqlite_jobs a b c t d = (x, d')" for a b c t x d'
    using sqlite_runs(4) [of d a b c t] that by simp
  moreover have "opRuns P d d'" if "sRescheduleJob sqlite_jobs a b r c t d = (x, d')" for a b r c t x d'
    using sqlite_runs(3) [of d a b r c t] that by simp
  ultimately show ?thesis
    using assms by (auto simp: Nack_def Let_def split: prod.splits sum.splits option.splits)
qed

lemma transcribe_runs: "transcribe w ev j d = (h, d') \<Longrightarrow> opRuns P d d'"
proof -
  have l: "opRuns P d d1" if "call_store ev CLoad (\<lambda>d. (EpisodeByID eid d, d)) d = (x, d1)" for eid x d1
    using call_store_runs [of "\<lambda>d. (EpisodeByID eid d, d)" d CLoad] that by simp
  have p: "opRuns P d (snd (call_store ev CProgress (SettleEpisodeTranscript a b c None s t) d1))"
    if "opRuns P d d1" for a b c s t d1
    by (rule opRuns_trans [OF that call_store_runs]) (rule worker_opRuns [OF may])
  assume "transcribe w ev j d = (h, d')"
  then show "opRuns P d d'"
    using l p by (auto simp: transcribe_def Let_def split: payload.splits prod.splits sum.splits
        if_splits TranscribeResult.splits)
qed

lemma handle_runs: "handle w ev j d = (h, d') \<Longrightarrow> opRuns P d d'"
  by (auto split: JobKind.splits intro: transcribe_runs)

lemma markTranscript_runs: "opRuns P d (markTranscript ev j st d)"
  by (auto simp: markTranscript_def split: payload.splits intro!: call_store_runs worker_opRuns [OF may])

lemma runs_mark: "opRuns P d d1 \<Longrightarrow> opRuns P d (markTranscript ev j st d1)"
  by (rule opRuns_trans [OF _ markTranscript_runs])

lemma fail_runs:
  assumes "sqlite_worker w" "fail w ev j cause s = (e, s')"
  shows "opRuns P (fst s) (fst s')"
proof -
  have "opRuns P (fst s) d1" if "call_store ev CNack (Nack (w_queue w) j c t t') (fst s) = (x, d1)" for c t t' x d1
    using call_store_runs [of "Nack (w_queue w) j c t t'" "fst s" CNack] that assms(1)
    by (simp add: Nack_runs sqlite_worker_def)
  with assms(2) show ?thesis
    by (auto simp: fail_def Let_def runs_mark split: prod.splits sum.splits)
qed

lemma settleAndComplete_runs: "settleAndComplete ev j s d = (x, d') \<Longrightarrow> opRuns P d d'"
proof -
  have "opRuns P d d1"
    if "call_store ev CSettle (SettleEpisodeTranscriptAndCompleteJob a b c tr st t) d = (x, d1)"
    for a b c tr st t x d1
    using call_store_runs [of "SettleEpisodeTranscriptAndCompleteJob a b c tr st t" d CSettle] that
    by (simp add: worker_opRuns [OF may])
  moreover assume "settleAndComplete ev j s d = (x, d')"
  ultimately show "opRuns P d d'"
    by (auto simp: settleAndComplete_def split: prod.splits sum.splits if_splits)
qed

lemma ack_runs: "sqlite_worker w \<Longrightarrow> ack w ev j d = (e, d') \<Longrightarrow> opRuns P d d'"
  using call_store_runs [of "Ack (w_queue w) j (ev_now ev CAck)" d CAck]
  by (auto simp: ack_def sqlite_worker_def Ack_runs split: prod.splits sum.splits)

lemma conclude_runs:
  assumes "sqlite_worker w" "conclude w ev j h s = (e, s')"
  shows "opRuns P (fst s) (fst s')"
proof (cases h)
  case (Inl herr)
  then show ?thesis using assms fail_runs by (simp add: conclude_def)
next
  case (Inr so)
  show ?thesis
  proof (cases so)
    case None
    then show ?thesis
      using assms Inr ack_runs by (auto simp: conclude_def Let_def split: prod.splits)
  next
    case (Some st)
    obtain x d1 where sc: "settleAndComplete ev j st (fst s) = (x, d1)" by fastforce
    have r1: "opRuns P (fst s) d1" by (rule settleAndComplete_runs [OF sc])
    show ?thesis
    proof (cases x)
      case (Inl serr)
      then have "fail w ev j serr (d1, snd s) = (e, s')"
        using assms(2) Inr Some sc by (simp add: conclude_def)
      then show ?thesis using opRuns_trans [OF r1] fail_runs [OF assms(1)] by fastforce
    next
      case (Inr c)
      then show ?thesis using assms(2) \<open>h = Inr so\<close> Some sc r1 by (auto simp: conclude_def)
    qed
  qed
qed

lemma processOne_runs:
  assumes "sqlite_worker w" "processOne w ev s = (r, s')"
  shows "opRuns P (fst s) (fst s')"
proof -
  obtain x d1 where c: "call_store ev CDequeue (Dequeue (w_queue w) [JobTranscribe] (ev_now ev CDequeue)
      (ev_now' ev CDequeue)) (fst s) = (x, d1)" by fastforce
  have r1: "opRuns P (fst s) d1"
    using call_store_runs [of "Dequeue (w_queue w) [JobTranscribe] (ev_now ev CDequeue) (ev_now' ev CDequeue)"
        "fst s" CDequeue] assms(1) c by (simp add: Dequeue_runs sqlite_worker_def)
  show ?thesis
  proof (cases "\<exists>j. x = Inr (Some (j, False))")
    case True
    then obtain j where j: "x = Inr (Some (j, False))" by blast
    obtain h d2 where h: "handle w ev j d1 = (h, d2)" by fastforce
    obtain e s1 where co: "conclude w ev j h (d2, snd s) = (e, s1)" by (metis surj_pair)
    have "s' = s1" using assms(2) c j h co by (simp add: processOne_def del: handle.simps)
    then show ?thesis
      using opRuns_trans [OF r1 opRuns_trans [OF handle_runs [OF h] conclude_runs [OF assms(1) co, simplified]]]
      by simp
  next
    case False
    then show ?thesis
      using assms(2) c r1 by (auto simp: processOne_def runs_mark split: sum.splits option.splits bool.splits)
  qed
qed

end

interpretation any: pass_of "\<lambda>_. True" ev for ev
  by unfold_locales (simp_all add: list_all_iff)

section \<open>No claim outlives its pass\<close>

lemma call_store_ok: "\<not> ev_fault ev c \<Longrightarrow> call_store ev c op d = op (exec_all (ev_others ev c) d)"
  by (simp add: call_store_def Let_def)

lemma spent_runs: "wf_db d \<Longrightarrow> spent i n d \<Longrightarrow> runs d d' \<Longrightarrow> spent i n d'"
  using spent_forward runs_forward by blast

lemma held_runs: "wf_db d \<Longrightarrow> claimed i n d \<Longrightarrow> runs d d' \<Longrightarrow> claimed i n d' \<or> spent i n d'"
  using held_or_spent runs_forward by blast

abbreviation holding :: "job \<Rightarrow> db \<Rightarrow> bool" where
  "holding j d \<equiv> claimed (j_ID j) (j_Attempts j) d"

abbreviation gone :: "job \<Rightarrow> db \<Rightarrow> bool" where
  "gone j d \<equiv> spent (j_ID j) (j_Attempts j) d"

lemma settled_spent:
  "job_state i d = Some (st, n) \<Longrightarrow> st \<noteq> JobProcessing \<Longrightarrow> spent i n d"
  by (simp add: spent_def claimed_def)

lemma Nack_spends:
  assumes "q_store q = sqlite_jobs" "wf_db d" "q_backoff q (j_Attempts j) \<noteq> None"
    and "holding j d \<or> gone j d"
  shows "\<exists>dead d'. Nack q j cause now now' d = (Inr dead, d') \<and> gone j d'"
proof (cases "holding j d")
  case False
  then show ?thesis
    using sq.Nack_stale [OF wf_jobsI [OF assms(2)] assms(1)] assms(3,4) by (auto simp: claimed_def)
next
  case True
  note live = True [unfolded claimed_def]
  show ?thesis
  proof (cases "q_maxAttempts q \<le> j_Attempts j")
    case True
    from sq.Nack_exhausted [OF wf_jobsI [OF assms(2)] assms(1) live this, of cause now now']
    show ?thesis using settled_spent [of "j_ID j" _ JobFailed] by fastforce
  next
    case False
    moreover obtain b where "q_backoff q (j_Attempts j) = Some b" using assms(3) by blast
    ultimately show ?thesis
      using sq.Nack_retry [OF wf_jobsI [OF assms(2)] assms(1) live, of b cause now now']
      using settled_spent [of "j_ID j" _ JobPending] by fastforce
  qed
qed

lemma fail_spends:
  assumes "sqlite_worker w" "wf_db (fst s)" "q_backoff (w_queue w) (j_Attempts j) \<noteq> None"
    and "\<not> ev_fault ev CNack" "holding j (fst s) \<or> gone j (fst s)"
    and "fail w ev j cause s = (e, s')"
  shows "gone j (fst s')"
proof -
  let ?d = "exec_all (ev_others ev CNack) (fst s)"
  have wf: "wf_db ?d" by (rule exec_all_wf [OF assms(2)])
  have "holding j ?d \<or> gone j ?d"
    using assms(5) held_runs [OF assms(2)] spent_runs [OF assms(2)] runs_exec_all by blast
  from Nack_spends [OF assms(1) [unfolded sqlite_worker_def] wf assms(3) this]
  obtain dead d' where n: "Nack (w_queue w) j (Some cause) (ev_now ev CNack) (ev_now' ev CNack) ?d
      = (Inr dead, d')" and g: "gone j d'" by blast
  have "runs ?d d'"
    using any.Nack_runs [OF assms(1) [unfolded sqlite_worker_def], of ?d j "Some cause" "ev_now ev CNack" "ev_now' ev CNack"] n
    by simp
  then have "gone j (markTranscript ev j TranscriptFailed d')"
    using spent_runs [OF opRuns_wf g any.markTranscript_runs] wf by blast
  with g n assms(4,6) show ?thesis by (auto simp: fail_def Let_def call_store_ok)
qed

lemma ack_spends:
  assumes "sqlite_worker w" "wf_db d" "\<not> ev_fault ev CAck" "holding j d \<or> gone j d"
    and "ack w ev j d = (e, d')"
  shows "gone j d'"
proof -
  let ?d = "exec_all (ev_others ev CAck) d"
  have wf: "wf_jobs ?d" by (rule wf_jobsI [OF exec_all_wf [OF assms(2)]])
  have "holding j ?d \<or> gone j ?d"
    using assms(4) held_runs [OF assms(2)] spent_runs [OF assms(2)] runs_exec_all by blast
  then show ?thesis
  proof
    assume "holding j ?d"
    from sq.Ack_live [OF wf assms(1) [unfolded sqlite_worker_def] this [unfolded claimed_def], of "ev_now ev CAck"]
    show ?thesis using assms(3,5) by (auto simp: ack_def call_store_ok intro: settled_spent [of _ _ JobDone])
  next
    assume g: "gone j ?d"
    then have "job_state (j_ID j) ?d \<noteq> Some (JobProcessing, j_Attempts j)"
      by (auto simp: spent_def claimed_def)
    from sq.Ack_stale [OF wf assms(1) [unfolded sqlite_worker_def] this, of "ev_now ev CAck"]
    show ?thesis using g assms(3,5) by (auto simp: ack_def call_store_ok)
  qed
qed

text \<open>What the combined settlement of a claim can do.\<close>

lemma settleAndComplete_outcome:
  assumes "wf_db d" "\<not> ev_fault ev CSettle" "holding j d \<or> gone j d"
    and "settleAndComplete ev j s d = (x, d')"
  shows "case x of Inl _ \<Rightarrow> holding j d' \<and> d' = exec_all (ev_others ev CSettle) d
     | Inr False \<Rightarrow> gone j d' \<and> d' = exec_all (ev_others ev CSettle) d
     | Inr True \<Rightarrow> job_state (j_ID j) d' = Some (JobDone, j_Attempts j)"
proof -
  let ?d = "exec_all (ev_others ev CSettle) d" and ?t = "ev_now ev CSettle"
  have wf: "wf_jobs ?d" by (rule wf_jobsI [OF exec_all_wf [OF assms(1)]])
  have hg: "holding j ?d \<or> gone j ?d"
    using assms(3) held_runs [OF assms(1)] spent_runs [OF assms(1)] runs_exec_all by blast
  from SettleAndComplete_cases [OF wf, of "j_ID j" "j_Attempts j" "e_ID (st_ep s)" "st_transcript s" "st_status s" ?t]
  show ?thesis
  proof (elim disjE exE conjE)
    fix e
    assume r: "SettleEpisodeTranscriptAndCompleteJob (j_ID j) (j_Attempts j) (e_ID (st_ep s))
        (st_transcript s) (st_status s) ?t ?d = (Inl e, ?d)"
      and e: "(e = ErrStaleClaim) = (\<not> holding j ?d)"
    with assms(2,4) hg show ?thesis
      by (auto simp: settleAndComplete_def call_store_ok split: if_splits)
  next
    fix d2 ts
    let ?js = "upd_where (claim_hit (j_ID j) (j_Attempts j)) (settled_row JobDone [] None ?t) (jobs ?d)"
    assume r: "SettleEpisodeTranscriptAndCompleteJob (j_ID j) (j_Attempts j) (e_ID (st_ep s))
        (st_transcript s) (st_status s) ?t ?d = (Inr (), d2)"
      and c: "holding j ?d" and d2: "d2 = ?d\<lparr>jobs := ?js, transcripts := ts,
        episodes := upd_where (\<lambda>r. er_id r = e_ID (st_ep s)) (set_status_cols (st_status s) ?t) (episodes ?d)\<rparr>"
    have "job_state (j_ID j) d2 = job_state (j_ID j) (?d\<lparr>jobs := ?js\<rparr>)"
      by (rule job_state_cong) (simp add: d2)
    then have "job_state (j_ID j) d2 = Some (JobDone, j_Attempts j)"
      by (simp add: job_state_settled [OF c])
    with r assms(2,4) show ?thesis by (auto simp: settleAndComplete_def call_store_ok)
  qed
qed

lemma conclude_spends:
  assumes "sqlite_worker w" "wf_db (fst s)" "q_backoff (w_queue w) (j_Attempts j) \<noteq> None"
    and "\<forall>c \<in> {CSettle, CAck, CNack}. \<not> ev_fault ev c" "holding j (fst s) \<or> gone j (fst s)"
    and "conclude w ev j h s = (e, s')"
  shows "gone j (fst s')"
proof (cases h)
  case (Inl herr)
  then show ?thesis
    using fail_spends [OF assms(1,2,3) _ assms(5), of ev herr e s'] assms(4,6)
    by (simp add: conclude_def)
next
  case (Inr so)
  show ?thesis
  proof (cases so)
    case None
    then show ?thesis
      using ack_spends [OF assms(1,2) _ assms(5)] assms(4,6) Inr
      by (auto simp: conclude_def Let_def split: prod.splits)
  next
    case (Some st)
    obtain x d1 where sc: "settleAndComplete ev j st (fst s) = (x, d1)" by fastforce
    have o: "case x of Inl _ \<Rightarrow> holding j d1 \<and> d1 = exec_all (ev_others ev CSettle) (fst s)
        | Inr False \<Rightarrow> gone j d1 \<and> d1 = exec_all (ev_others ev CSettle) (fst s)
        | Inr True \<Rightarrow> job_state (j_ID j) d1 = Some (JobDone, j_Attempts j)"
      by (rule settleAndComplete_outcome [OF assms(2) _ assms(5) sc]) (use assms(4) in simp)
    have wf1: "wf_db d1" by (rule opRuns_wf [OF any.settleAndComplete_runs [OF sc] assms(2)])
    show ?thesis
    proof (cases x)
      case (Inl serr)
      with o have hd: "holding j d1" by (auto simp only: sum.case)
      have "fail w ev j serr (d1, snd s) = (e, s')"
        using assms(6) Inr Some sc Inl by (simp add: conclude_def)
      then show ?thesis
        using fail_spends [OF assms(1) _ assms(3), of "(d1, snd s)"] wf1 hd assms(4) by fastforce
    next
      case (Inr c)
      then show ?thesis
        using o assms(6) \<open>h = Inr so\<close> Some sc
        by (cases c) (auto simp: conclude_def intro: settled_spent [of _ _ JobDone])
    qed
  qed
qed

lemma Dequeue_claims:
  assumes "sqlite_worker w" "wf_db d"
    and "Dequeue (w_queue w) ks now now' d = (Inr (Some (j, dead)), d')"
  shows "if dead then job_state (j_ID j) d' = Some (JobFailed, j_Attempts j) else holding j d'"
  using sq.Dequeue_run [OF wf_jobsI [OF assms(2)] assms(1) [unfolded sqlite_worker_def], of ks now now' j d']
    sq.Dequeue_dead [OF wf_jobsI [OF assms(2)] assms(1) [unfolded sqlite_worker_def], of ks now now' j d']
    assms(3) by (cases dead) (simp_all add: claimed_def)

text \<open>
  C9: A pass of the worker that took a job never leaves that claim open unless a store call
  failed: whatever the transcriber returns and whatever other processes do meanwhile, the claim
  is settled or already lost at its end.
\<close>

theorem processOne_spends:
  assumes "sqlite_worker w" "wf_db (fst s)" "\<forall>c. \<not> ev_fault ev c"
    and "Dequeue (w_queue w) [JobTranscribe] (ev_now ev CDequeue) (ev_now' ev CDequeue)
           (exec_all (ev_others ev CDequeue) (fst s)) = (Inr (Some (j, dead)), d1)"
    and "q_backoff (w_queue w) (j_Attempts j) \<noteq> None"
    and "processOne w ev s = (r, s')"
  shows "gone j (fst s')"
proof -
  let ?d = "exec_all (ev_others ev CDequeue) (fst s)"
  have wf: "wf_db ?d" by (rule exec_all_wf [OF assms(2)])
  have r1: "runs ?d d1"
    using any.Dequeue_runs [OF assms(1) [unfolded sqlite_worker_def], of ?d "[JobTranscribe]"
        "ev_now ev CDequeue" "ev_now' ev CDequeue"] assms(4) by simp
  have wf1: "wf_db d1" by (rule opRuns_wf [OF r1 wf])
  note cl = Dequeue_claims [OF assms(1) wf assms(4)]
  show ?thesis
  proof (cases dead)
    case True
    with cl have "gone j d1" using settled_spent [of "j_ID j" d1 JobFailed] by simp
    then have "gone j (markTranscript ev j TranscriptFailed d1)"
      by (rule spent_runs [OF wf1 _ any.markTranscript_runs])
    then show ?thesis
      using assms(3,4,6) True by (auto simp: processOne_def call_store_ok)
  next
    case False
    obtain h d2 where h: "handle w ev j d1 = (h, d2)" by fastforce
    note r2 = any.handle_runs [OF h]
    obtain e s1 where co: "conclude w ev j h (d2, snd s) = (e, s1)" by (metis surj_pair)
    have "holding j d2 \<or> gone j d2" using held_runs [OF wf1 _ r2] cl False by simp
    then have "gone j (fst s1)"
      using conclude_spends [OF assms(1) _ assms(5) _ _ co] opRuns_wf [OF r2 wf1] assms(3) by simp
    moreover have "s' = s1"
      using assms(3,4,6) False h co by (auto simp: processOne_def call_store_ok simp del: handle.simps)
    ultimately show ?thesis by simp
  qed
qed

section \<open>A lost claim is discarded\<close>

text \<open>
  A worker whose claim was taken over writes no transcript and no status.
\<close>

theorem lost_claim_discarded:
  assumes "wf_db (fst st)" "gone j (fst st)" "\<not> ev_fault ev CSettle"
  shows "conclude w ev j (Inr (Some s)) st = (None, exec_all (ev_others ev CSettle) (fst st), snd st)"
proof -
  obtain x d1 where sc: "settleAndComplete ev j s (fst st) = (x, d1)" by fastforce
  have g: "gone j (exec_all (ev_others ev CSettle) (fst st))"
    by (rule spent_runs [OF assms(1,2) runs_exec_all])
  have wf: "wf_jobs (exec_all (ev_others ev CSettle) (fst st))"
    by (rule wf_jobsI [OF exec_all_wf [OF assms(1)]])
  have "x = Inr False \<and> d1 = exec_all (ev_others ev CSettle) (fst st)"
    using SettleAndComplete_cases [OF wf, of "j_ID j" "j_Attempts j" "e_ID (st_ep s)" "st_transcript s"
        "st_status s" "ev_now ev CSettle"] spent_not_claimed [OF g] sc assms(3)
    by (auto simp: settleAndComplete_def call_store_ok)
  with sc show ?thesis by (simp add: conclude_def)
qed

section \<open>The success counter is sound\<close>

text \<open>
  What a committed settlement leaves behind: the job done under this claim, the transcript
  stored, and the episode's status as reported.
\<close>

lemma find_status:
  "find (\<lambda>r. er_id r = i) (upd_where (\<lambda>r. er_id r = i) (set_status_cols st t) rs)
     = map_option (set_status_cols st t) (find (\<lambda>r. er_id r = i) rs)"
  by (induction rs) (auto simp: set_status_cols_def upd_where_def)

lemma settled_episode:
  assumes "SettleEpisodeTranscriptAndCompleteJob jid tok eid (Some tr) st t d = (Inr (), d')"
    and "wf_db d" "t_EpisodeID tr = eid"
  shows "job_state jid d' = Some (JobDone, tok)"
    and "TranscriptByEpisode eid d' = Inr (tr\<lparr>t_CreatedAt := fromUnix (toUnix (t_CreatedAt tr))\<rparr>)"
    and "\<exists>ep. EpisodeByID eid d' = Inr ep \<and> e_TranscriptStatus ep = st"
proof -
  from SettleAndComplete_cases [OF wf_jobsI [OF assms(2)], of jid tok eid "Some tr" st t] assms(1)
  obtain ts where c: "claimed jid tok d"
    and d': "d' = d\<lparr>jobs := upd_where (claim_hit jid tok) (settled_row JobDone [] None t) (jobs d),
        transcripts := ts, episodes := upd_where (\<lambda>r. er_id r = eid) (set_status_cols st t) (episodes d)\<rparr>"
    and sm: "save_and_mark (Some tr) eid st t
        (d\<lparr>jobs := upd_where (claim_hit jid tok) (settled_row JobDone [] None t) (jobs d)\<rparr>) = Inr d'"
    by auto
  let ?d1 = "d\<lparr>jobs := upd_where (claim_hit jid tok) (settled_row JobDone [] None t) (jobs d)\<rparr>"
  have "job_state jid d' = job_state jid ?d1" by (rule job_state_cong) (simp add: d')
  then show "job_state jid d' = Some (JobDone, tok)" by (simp add: job_state_settled [OF c])
  from sm obtain d2 where up: "upsert_transcript tr ?d1 = Inr d2" and dd: "d' = setEpisodeStatusTx eid st t d2"
    by (auto simp: save_and_mark_def)
  have "TranscriptByEpisode eid d' = TranscriptByEpisode eid d2"
    by (simp add: TranscriptByEpisode_def dd setEpisodeStatusTx_def)
  then show tr: "TranscriptByEpisode eid d' = Inr (tr\<lparr>t_CreatedAt := fromUnix (toUnix (t_CreatedAt tr))\<rparr>)"
    using TranscriptByEpisode_upsert [OF up] assms(3) by simp
  then obtain r where "find (\<lambda>r. tr_episode_id r = eid) (transcripts d') = Some r"
    by (auto simp: TranscriptByEpisode_def split: option.splits)
  then have "eid \<in> tr_episode_id ` set (transcripts d')" by (force dest: find_SomeD)
  moreover have "wf_db d'" using SettleAndComplete_wf [OF assms(2), of jid tok eid "Some tr" st t] assms(1) by simp
  ultimately have "eid \<in> er_id ` set (episodes d')" by (auto simp: wf_db_def wf_transcripts_def)
  then have "eid \<in> er_id ` set (episodes d)" by (simp add: d' image_upd_where set_status_cols_def)
  then obtain x where "find (\<lambda>r. er_id r = eid) (episodes d) = Some x"
    by (cases "find (\<lambda>r. er_id r = eid) (episodes d)") (auto simp: find_NoneD)
  then show "\<exists>ep. EpisodeByID eid d' = Inr ep \<and> e_TranscriptStatus ep = st"
    by (simp add: EpisodeByID_def episodeWhere_def d' find_status)
      (simp add: scanEpisode_def set_status_cols_def)
qed

definition successKey :: string where "successKey = renderLabels [''outcome'', ''success'']"

lemma outcome_keys:
  "renderLabels [''outcome'', ''failure''] \<noteq> successKey"
  "renderLabels [''outcome'', ''skipped''] \<noteq> successKey"
  "metricLastSuccess \<noteq> metricJobsTotal"
  by (simp_all add: successKey_def renderLabels_def renderPairs_def renderPair_def escapeLabelValue_def
      metricLastSuccess_def metricJobsTotal_def)

definition successes :: "'w Registry \<Rightarrow> rat" where
  "successes r = seriesValue metricJobsTotal successKey r"

lemma successes_Inc:
  "successes (Inc metricJobsTotal [''outcome'', ''failure''] r) = successes r"
  "successes (Inc metricJobsTotal [''outcome'', ''skipped''] r) = successes r"
  "successes (Inc metricJobsTotal [''outcome'', ''success''] r) = successes r + 1"
  "successes (SetGauge metricLastSuccess v [] r) = successes r"
  using outcome_keys
  by (auto simp: successes_def Inc_value SetGauge_value successKey_def)

lemma fail_successes: "fail w ev j cause s = (e, s') \<Longrightarrow> successes (snd s') = successes (snd s)"
  by (auto simp: fail_def Let_def successes_Inc split: prod.splits sum.splits)

lemma transcribe_settlement:
  assumes "transcribe w ev j d = (Inr (Some s), d')" "st_status s = TranscriptDone"
  shows "\<exists>tr. st_transcript s = Some tr \<and> t_EpisodeID tr = e_ID (st_ep s)"
  using assms by (auto simp: transcribe_def Let_def split: payload.splits prod.splits sum.splits
      if_splits TranscribeResult.splits)


section \<open>An exhausted job marks its episode\<close>

text \<open>
  The last failed attempt leaves the job failed and the episode marked failed.
\<close>

theorem exhausted_marks_failed:
  assumes "sqlite_worker w" "wf_db (fst s)" "holding j (fst s)"
    and "q_maxAttempts (w_queue w) \<le> j_Attempts j" "j_Payload j = TranscribePayload eid"
    and "\<not> ev_fault ev CNack" "\<not> ev_fault ev CMark" "ev_others ev CNack = []" "ev_others ev CMark = []"
    and "EpisodeByID eid (fst s) = Inr ep"
    and "fail w ev j cause s = (e, s')"
  shows "job_state (j_ID j) (fst s') = Some (JobFailed, j_Attempts j)
    \<and> (\<exists>ep'. EpisodeByID eid (fst s') = Inr ep' \<and> e_TranscriptStatus ep' = TranscriptFailed)"
proof -
  let ?d = "fst s" and ?t = "ev_now ev CMark"
  from sq.Nack_exhausted [OF wf_jobsI [OF assms(2)] assms(1) [unfolded sqlite_worker_def]
      assms(3) [unfolded claimed_def] assms(4), of "Some cause" "ev_now ev CNack" "ev_now' ev CNack"]
  obtain d' where n: "Nack (w_queue w) j (Some cause) (ev_now ev CNack) (ev_now' ev CNack) ?d = (Inr True, d')"
    and wf': "wf_jobs d'" and js: "job_state (j_ID j) d' = Some (JobFailed, j_Attempts j)" by auto
  have ep': "episodes d' = episodes ?d"
    using n assms(1) by (auto simp: Nack_def Let_def sqlite_worker_def sqlite_jobs_def FailJob_def
        setJobStatus_def RescheduleJob_def split: if_splits option.splits sum.splits)
  have cnt: "count_where (\<lambda>r. jr_id r = j_ID j \<and> jr_attempts r = j_Attempts j
      \<and> jr_status r \<in> set (settle_source_states None TranscriptFailed)) (jobs d') \<noteq> 0"
    using js by (subst claim_count_0 [OF wf']) (auto simp: settle_source_states_def)
  then have m: "markTranscript ev j TranscriptFailed d' = setEpisodeStatusTx eid TranscriptFailed ?t d'"
    using assms(5,7,9) by (simp add: markTranscript_def call_store_ok SettleEpisodeTranscript_def
        with_tx_def save_and_mark_def)
  have fs: "fst s' = setEpisodeStatusTx eid TranscriptFailed ?t d'"
    using assms(6,8,11) n m by (auto simp: fail_def Let_def call_store_ok)
  have "job_state (j_ID j) (fst s') = Some (JobFailed, j_Attempts j)"
    using js by (simp add: fs setEpisodeStatusTx_def job_state_def)
  moreover from assms(10) obtain x where "find (\<lambda>r. er_id r = eid) (episodes ?d) = Some x"
    by (auto simp: EpisodeByID_def episodeWhere_def split: option.splits)
  then have "\<exists>ep'. EpisodeByID eid (fst s') = Inr ep' \<and> e_TranscriptStatus ep' = TranscriptFailed"
    by (simp add: fs setEpisodeStatusTx_def EpisodeByID_def episodeWhere_def ep' find_status)
      (simp add: scanEpisode_def set_status_cols_def)
  ultimately show ?thesis by simp
qed

section \<open>A concrete pass\<close>

definition ex_queue :: "db Queue" where "ex_queue = NewQueue sqlite_jobs []"

definition ex_worker :: Worker where
  "ex_worker = \<lparr>w_queue = ex_queue, w_pollInterval = 5 * Second,
     w_jobTimeout = withDefaults \<lparr>p_Factor = 0, p_Min = 0, p_Max = 0\<rparr>, w_settleTimeout = defaultSettleTimeout\<rparr>"

definition ex_env :: "TranscribeResult \<Rightarrow> env" where
  "ex_env res = \<lparr>ev_others = (\<lambda>_. []), ev_fault = (\<lambda>_. False), ev_now = (\<lambda>_. 0), ev_now' = (\<lambda>_. 0),
     ev_get = (\<lambda>_. True), ev_transcriber = (\<lambda>_ _. res), ev_conv = floor, ev_text = (\<lambda>_. [])\<rparr>"

definition ex_job :: "int \<Rightarrow> job" where "ex_job n = scanJob (ex_job_row JobProcessing n 0)"

lemma ex_sqlite_worker: "sqlite_worker ex_worker"
  by (simp add: sqlite_worker_def ex_worker_def ex_queue_def NewQueue_def)

lemma ex_job_simps [simp]:
  "j_ID (ex_job n) = ''j''" "j_Attempts (ex_job n) = n" "j_Payload (ex_job n) = TranscribePayload ''e''"
  by (simp_all add: ex_job_def scanJob_def ex_job_row_def)

definition ex_settlement :: settlement where
  "ex_settlement = \<lparr>st_ep = scanEpisode (ex_episode_row ''e'' ''k'' TranscriptDone), st_transcript = None,
     st_status = TranscriptNone\<rparr>"

lemma lost_claim_discarded_witness:
  "conclude ex_worker (ex_env Unsupported) (ex_job 1) (Inr (Some ex_settlement))
       (ex_db TranscriptDone JobDone 1 0, emptyRegistry :: unit Registry)
     = (None, ex_db TranscriptDone JobDone 1 0, emptyRegistry)"
  using lost_claim_discarded [of "(ex_db TranscriptDone JobDone 1 0, emptyRegistry :: unit Registry)" "ex_job 1"
      "ex_env Unsupported" ex_worker ex_settlement]
  by (simp add: ex_wf ex_spent ex_env_def)

lemma processOne_spends_witness:
  "gone (ex_job 1) (fst (snd (processOne ex_worker (ex_env (Transcribed ''en'' []))
     (ex_db TranscriptPending JobPending 0 0, emptyRegistry :: unit Registry))))"
proof -
  let ?s = "(ex_db TranscriptPending JobPending 0 0, emptyRegistry :: unit Registry)"
  let ?ev = "ex_env (Transcribed ''en'' [])"
  obtain r s' where p: "processOne ex_worker ?ev ?s = (r, s')" by (metis surj_pair)
  have dq: "\<exists>d1 j. Dequeue (w_queue ex_worker) [JobTranscribe] (ev_now ?ev CDequeue) (ev_now' ?ev CDequeue)
      (exec_all (ev_others ?ev CDequeue) (fst ?s)) = (Inr (Some (j, False)), d1) \<and> j_ID j = ''j'' \<and> j_Attempts j = 1"
    using ex_ClaimJob [of "10 * Minute" TranscriptPending 0]
    by (auto simp: ex_env_def ex_worker_def ex_queue_def NewQueue_def Dequeue_def sqlite_jobs_def)
  moreover have "q_backoff (w_queue ex_worker) 1 \<noteq> None"
    by (simp add: ex_worker_def ex_queue_def NewQueue_def defaultBackoff_small)
  moreover have "\<forall>c. \<not> ev_fault ?ev c" by (simp add: ex_env_def)
  ultimately show ?thesis
    using processOne_spends [OF ex_sqlite_worker _ _ _ _ p, where dead = False] p
    by (auto simp: ex_wf)
qed

lemma ex_success:
  "successes (snd (snd (processOne ex_worker (ex_env (Transcribed ''en'' []))
     (ex_db TranscriptPending JobPending 0 0, emptyRegistry :: unit Registry)))) = 1"
  by code_simp

lemma ex_no_success: "successes (emptyRegistry :: unit Registry) = 0"
  by (simp add: successes_def seriesValue_def emptyRegistry_def)


lemma exhausted_marks_failed_witness:
  "job_state ''j'' (fst (snd (fail ex_worker (ex_env Unsupported) (ex_job 5) ''boom''
     (ex_db TranscriptProcessing JobProcessing 5 0, emptyRegistry :: unit Registry)))) = Some (JobFailed, 5)"
proof -
  let ?s = "(ex_db TranscriptProcessing JobProcessing 5 0, emptyRegistry :: unit Registry)"
  obtain e s' where f: "fail ex_worker (ex_env Unsupported) (ex_job 5) ''boom'' ?s = (e, s')"
    by (metis surj_pair)
  have "q_maxAttempts (w_queue ex_worker) \<le> 5"
    by (simp add: ex_worker_def ex_queue_def NewQueue_def)
  then show ?thesis
    using exhausted_marks_failed [OF ex_sqlite_worker _ _ _ _ _ _ _ _ _ f, of "''e''"] f
    by (simp add: ex_wf ex_claimed ex_env_def ex_EpisodeByID)
qed

end
