(* ===== verification/TranscriptProtocol.thy ===== *)
theory TranscriptProtocol
  imports Worker
begin

text \<open>
  The life of a transcription across processes: the admin handlers enqueue
  (\<open>dbqueue.EnqueueTranscription\<close>), workers claim, mark progress, settle, retry or
  dead-letter (\<open>worker.processOne\<close> and the queue), episodes come and go, and a process may
  die between the two writes of the dead-letter path.  The database is seen through the
  view \<open>jobs\<close> and \<open>transcript statuses\<close>; each store operation refines a map update on that
  view, and the protocol's invariant is proved on the view.
\<close>

section \<open>The view\<close>

type_synonym jview = "string \<rightharpoonup> payload \<times> JobStatus \<times> int"
type_synonym eview = "string \<rightharpoonup> TranscriptStatus"

definition job_view :: "db \<Rightarrow> jview" where
  "job_view d jid = map_option (\<lambda>r. (jr_payload r, jr_status r, jr_attempts r))
     (find (\<lambda>r. jr_id r = jid) (jobs d))"

definition ep_view :: "db \<Rightarrow> eview" where
  "ep_view d eid = map_option er_transcript_status (find (\<lambda>r. er_id r = eid) (episodes d))"

lemma job_view_state: "job_state jid d = map_option snd (job_view d jid)"
  by (auto simp: job_state_def job_view_def option.map_comp comp_def intro!: map_option_cong)

lemma claimed_view: "claimed jid tok d \<longleftrightarrow> (\<exists>p. job_view d jid = Some (p, JobProcessing, tok))"
  by (auto simp: claimed_def job_view_state)

lemma job_view_cong: "jobs d' = jobs d \<Longrightarrow> job_view d' = job_view d"
  by (simp add: job_view_def fun_eq_iff)

lemma ep_view_cong: "episodes d' = episodes d \<Longrightarrow> ep_view d' = ep_view d"
  by (simp add: ep_view_def fun_eq_iff)

lemma job_view_upd:
  "(\<And>r. jr_id (f r) = jr_id r) \<Longrightarrow>
   job_view (d\<lparr>jobs := upd_where c f (jobs d)\<rparr>) i =
     map_option (\<lambda>r. if c r then (jr_payload (f r), jr_status (f r), jr_attempts (f r))
       else (jr_payload r, jr_status r, jr_attempts r)) (find (\<lambda>r. jr_id r = i) (jobs d))"
  by (auto simp: job_view_def find_upd_where_key option.map_comp comp_def intro!: map_option_cong)

lemma ep_view_upd:
  "(\<And>r. er_id (f r) = er_id r) \<Longrightarrow>
   ep_view (d\<lparr>episodes := upd_where c f (episodes d)\<rparr>) i =
     map_option (\<lambda>r. if c r then er_transcript_status (f r) else er_transcript_status r)
       (find (\<lambda>r. er_id r = i) (episodes d))"
  by (auto simp: ep_view_def find_upd_where_key option.map_comp comp_def intro!: map_option_cong)

section \<open>Each operation on the view\<close>

lemma job_view_at:
  assumes ids: "\<And>r. jr_id (f r) = jr_id r" and c: "\<And>r. c r \<Longrightarrow> jr_id r = jid"
    and z: "find (\<lambda>r. jr_id r = jid) (jobs d) = Some z" "c z"
  shows "job_view (d\<lparr>jobs := upd_where c f (jobs d)\<rparr>)
    = (job_view d)(jid \<mapsto> (jr_payload (f z), jr_status (f z), jr_attempts (f z)))"
proof
  fix i
  note eq = job_view_upd [of f c d i, OF ids]
  show "job_view (d\<lparr>jobs := upd_where c f (jobs d)\<rparr>) i
    = ((job_view d)(jid \<mapsto> (jr_payload (f z), jr_status (f z), jr_attempts (f z)))) i"
  proof (cases "i = jid")
    case False
    have "\<not> c x" if "find (\<lambda>r. jr_id r = i) (jobs d) = Some x" for x
      using find_SomeD [OF that] c False by blast
    then show ?thesis
      using False unfolding eq by (cases "find (\<lambda>r. jr_id r = i) (jobs d)") (simp_all add: job_view_def)
  next
    case True
    with z show ?thesis unfolding eq by simp
  qed
qed

lemma ep_view_at:
  assumes ids: "\<And>r. er_id (f r) = er_id r" and c: "\<And>r. c r \<Longrightarrow> er_id r = eid"
    and z: "find (\<lambda>r. er_id r = eid) (episodes d) = Some z" "c z"
  shows "ep_view (d\<lparr>episodes := upd_where c f (episodes d)\<rparr>) = (ep_view d)(eid \<mapsto> er_transcript_status (f z))"
proof
  fix i
  note eq = ep_view_upd [of f c d i, OF ids]
  show "ep_view (d\<lparr>episodes := upd_where c f (episodes d)\<rparr>) i
    = ((ep_view d)(eid \<mapsto> er_transcript_status (f z))) i"
  proof (cases "i = eid")
    case False
    have "\<not> c x" if "find (\<lambda>r. er_id r = i) (episodes d) = Some x" for x
      using find_SomeD [OF that] c False by blast
    then show ?thesis
      using False unfolding eq by (cases "find (\<lambda>r. er_id r = i) (episodes d)") (simp_all add: ep_view_def)
  next
    case True
    with z show ?thesis unfolding eq by simp
  qed
qed

lemma view_settled:
  assumes "job_view d jid = Some (p, JobProcessing, tok)"
  shows "job_view (d\<lparr>jobs := upd_where (claim_hit jid tok) (settled_row st c ra now) (jobs d)\<rparr>)
    = (job_view d)(jid \<mapsto> (p, st, tok))"
proof -
  from assms obtain z where z: "find (\<lambda>r. jr_id r = jid) (jobs d) = Some z"
    "jr_payload z = p" "jr_status z = JobProcessing" "jr_attempts z = tok"
    by (auto simp: job_view_def)
  have "jr_id z = jid" using find_SomeD [OF z(1)] by simp
  then show ?thesis
    using job_view_at [of "settled_row st c ra now" "claim_hit jid tok" jid d z] z by simp
qed

lemma view_setJobStatus:
  assumes "wf_jobs d"
  shows "job_view (snd (setJobStatus jid tok st c ra now d)) =
     (case job_view d jid of Some (p, JobProcessing, n) \<Rightarrow>
        if n = tok then (job_view d)(jid \<mapsto> (p, st, tok)) else job_view d | _ \<Rightarrow> job_view d)"
    "ep_view (snd (setJobStatus jid tok st c ra now d)) = ep_view d"
  by (auto simp: setJobStatus_eq [OF assms] claimed_view view_settled intro!: ep_view_cong
      split: option.split JobStatus.split)

lemma view_ClaimJob:
  assumes "wf_jobs d"
  shows "job_view (snd (ClaimJob ks now l d)) = job_view d
    \<or> (\<exists>i p st n. job_view d i = Some (p, st, n) \<and> st \<in> {JobPending, JobProcessing}
        \<and> job_view (snd (ClaimJob ks now l d)) = (job_view d)(i \<mapsto> (p, JobProcessing, n + 1)))"
    "ep_view (snd (ClaimJob ks now l d)) = ep_view d"
proof -
  show "ep_view (snd (ClaimJob ks now l d)) = ep_view d"
    by (rule ep_view_cong) (simp add: ClaimJob_eq [OF assms] split: option.split)
  show "job_view (snd (ClaimJob ks now l d)) = job_view d
    \<or> (\<exists>i p st n. job_view d i = Some (p, st, n) \<and> st \<in> {JobPending, JobProcessing}
        \<and> job_view (snd (ClaimJob ks now l d)) = (job_view d)(i \<mapsto> (p, JobProcessing, n + 1)))"
  proof (cases "select_runnable ks now d")
    case (Some r)
    note r = select_runnable_Some(1,2) [OF Some]
    have f: "find (\<lambda>x. jr_id x = jr_id r) (jobs d) = Some r"
      using assms r(1) by (simp add: wf_jobs_def find_key)
    have "job_view (d\<lparr>jobs := upd_where (\<lambda>x. jr_id x = jr_id r) (leased_row now l) (jobs d)\<rparr>)
        = (job_view d)(jr_id r \<mapsto> (jr_payload r, JobProcessing, jr_attempts r + 1))"
      using job_view_at [of "leased_row now l" "\<lambda>x. jr_id x = jr_id r" "jr_id r" d r] f by simp
    moreover have "job_view d (jr_id r) = Some (jr_payload r, jr_status r, jr_attempts r)"
      using f by (simp add: job_view_def)
    ultimately show ?thesis
      using Some r(2) unfolding ClaimJob_eq [OF assms] runnable_def by auto
  qed (simp add: ClaimJob_eq [OF assms])
qed

lemma view_status_upd:
  "ep_view (d\<lparr>episodes := upd_where (\<lambda>r. er_id r = eid) (set_status_cols st t) (episodes d)\<rparr>)
     = (if ep_view d eid = None then ep_view d else (ep_view d)(eid \<mapsto> st))"
proof (cases "find (\<lambda>r. er_id r = eid) (episodes d)")
  case None
  then have "\<forall>r \<in> set (episodes d). \<not> er_id r = eid" by (simp add: find_NoneD)
  then show ?thesis using None by (simp add: upd_where_none) (simp add: ep_view_def)
next
  case (Some z)
  have "er_id z = eid" using find_SomeD [OF Some] by simp
  then show ?thesis
    using ep_view_at [of "set_status_cols st t" "\<lambda>r. er_id r = eid" eid d z] Some
    by (simp add: set_status_cols_def [of _ _ z]) (simp add: set_status_cols_def ep_view_def)
qed

lemma view_SettleEpisodeTranscript:
  assumes "wf_jobs d"
  shows "job_view (snd (SettleEpisodeTranscript jid tok eid None st t d)) = job_view d"
    "ep_view (snd (SettleEpisodeTranscript jid tok eid None st t d)) =
      (if (\<exists>p s. job_view d jid = Some (p, s, tok) \<and> s \<in> set (settle_source_states None st))
          \<and> ep_view d eid \<noteq> None then (ep_view d)(eid \<mapsto> st) else ep_view d)"
proof -
  show "job_view (snd (SettleEpisodeTranscript jid tok eid None st t d)) = job_view d"
    by (rule job_view_cong) simp
  let ?P = "\<lambda>s. s \<in> set (settle_source_states None st)"
  have c: "count_where (\<lambda>r. jr_id r = jid \<and> jr_attempts r = tok \<and> ?P (jr_status r)) (jobs d) = 0
     \<longleftrightarrow> \<not> (\<exists>p s. job_view d jid = Some (p, s, tok) \<and> ?P s)"
    using claim_count_0 [OF assms, of jid tok ?P] by (auto simp: job_view_state)
  show "ep_view (snd (SettleEpisodeTranscript jid tok eid None st t d)) =
      (if (\<exists>p s. job_view d jid = Some (p, s, tok) \<and> s \<in> set (settle_source_states None st))
          \<and> ep_view d eid \<noteq> None then (ep_view d)(eid \<mapsto> st) else ep_view d)"
    using c by (auto simp: SettleEpisodeTranscript_def with_tx_def save_and_mark_def
        setEpisodeStatusTx_def view_status_upd)
qed

lemma view_SettleAndComplete:
  assumes "wf_jobs d"
    and "SettleEpisodeTranscriptAndCompleteJob jid tok eid tr st t d = (r, d')"
  shows "d' = d \<or> (\<exists>p. job_view d jid = Some (p, JobProcessing, tok)
     \<and> job_view d' = (job_view d)(jid \<mapsto> (p, JobDone, tok))
     \<and> ep_view d' = (if ep_view d eid = None then ep_view d else (ep_view d)(eid \<mapsto> st)))"
  using SettleAndComplete_cases [OF assms(1), of jid tok eid tr st t] assms(2)
proof (elim disjE exE conjE)
  fix d2 ts
  let ?js = "upd_where (claim_hit jid tok) (settled_row JobDone [] None t) (jobs d)"
  assume r: "SettleEpisodeTranscriptAndCompleteJob jid tok eid tr st t d = (Inr (), d2)"
    and c: "claimed jid tok d" and d2: "d2 = d\<lparr>jobs := ?js, transcripts := ts,
        episodes := upd_where (\<lambda>r. er_id r = eid) (set_status_cols st t) (episodes d)\<rparr>"
  from c obtain p where p: "job_view d jid = Some (p, JobProcessing, tok)" by (auto simp: claimed_view)
  have "job_view d2 = job_view (d\<lparr>jobs := ?js\<rparr>)" by (rule job_view_cong) (simp add: d2)
  moreover have "ep_view d2 = ep_view (d\<lparr>episodes :=
      upd_where (\<lambda>r. er_id r = eid) (set_status_cols st t) (episodes d)\<rparr>)"
    by (rule ep_view_cong) (simp add: d2)
  ultimately show ?thesis
    using r assms(2) p by (auto simp: view_settled [OF p] view_status_upd)
qed auto

lemma view_CreateEpisode:
  "job_view (snd (CreateEpisode e d)) = job_view d"
  "ep_view (snd (CreateEpisode e d)) = ep_view d \<or>
    (ep_view d (e_ID e) = None \<and> ep_view (snd (CreateEpisode e d)) = (ep_view d)(e_ID e \<mapsto> e_TranscriptStatus e))"
proof -
  show "job_view (snd (CreateEpisode e d)) = job_view d" by (rule job_view_cong) simp
  have "ep_view (d\<lparr>episodes := episodes d @ [episode_to_row e]\<rparr>) = (ep_view d)(e_ID e \<mapsto> e_TranscriptStatus e)"
    if "\<forall>r \<in> set (episodes d). er_id r \<noteq> e_ID e"
  proof
    fix i
    have "find (\<lambda>r. er_id r = e_ID e) (episodes d) = None" using that by (simp add: find_NoneD)
    then show "ep_view (d\<lparr>episodes := episodes d @ [episode_to_row e]\<rparr>) i
        = ((ep_view d)(e_ID e \<mapsto> e_TranscriptStatus e)) i"
      by (auto simp: ep_view_def find_append episode_to_row_def split: option.split)
  qed
  then show "ep_view (snd (CreateEpisode e d)) = ep_view d \<or>
    (ep_view d (e_ID e) = None \<and> ep_view (snd (CreateEpisode e d)) = (ep_view d)(e_ID e \<mapsto> e_TranscriptStatus e))"
    by (auto simp: CreateEpisode_def list_ex_iff ep_view_def find_NoneD)
qed

lemma view_DeleteEpisode:
  assumes "wf_db d"
  shows "job_view (snd (DeleteEpisode eid now d)) = job_view d"
    "ep_view (snd (DeleteEpisode eid now d)) = (ep_view d)(eid := None)"
proof -
  show "job_view (snd (DeleteEpisode eid now d)) = job_view d" by (rule job_view_cong) simp
  have del: "ep_view (delete_episode_row eid d) = (ep_view d)(eid := None)"
  proof
    fix i
    show "ep_view (delete_episode_row eid d) i = ((ep_view d)(eid := None)) i"
      by (cases "i = eid") (simp_all add: ep_view_def delete_episode_row_def find_del_where_key find_del_where_other)
  qed
  have acq: "ep_view (snd (acquireDeleteLeaseTx key now d1)) = ep_view d1" for key d1
    by (rule ep_view_cong) (simp add: acquire_eq)
  show "ep_view (snd (DeleteEpisode eid now d)) = (ep_view d)(eid := None)"
    by (auto simp: DeleteEpisode_eq Let_def del acq split: option.split) (auto simp: ep_view_def)
qed

lemma find_id_None: "find (\<lambda>r. er_id r = eid) es = None \<longleftrightarrow> \<not> list_ex (\<lambda>r. er_id r = eid) es"
  by (auto simp: find_NoneD list_ex_iff)

lemma view_insertJob:
  "case insertJob j d of Inl _ \<Rightarrow> job_view d (j_ID j) \<noteq> None
   | Inr d' \<Rightarrow> job_view d (j_ID j) = None
       \<and> job_view d' = (job_view d)(j_ID j \<mapsto> (j_Payload j, j_Status j, j_Attempts j)) \<and> ep_view d' = ep_view d"
proof (cases "list_ex (\<lambda>r. jr_id r = j_ID j) (jobs d)")
  case True
  then show ?thesis by (auto simp: insertJob_def job_view_def find_NoneD list_ex_iff)
next
  case False
  then have n: "find (\<lambda>r. jr_id r = j_ID j) (jobs d) = None" by (auto simp: find_NoneD list_ex_iff)
  have "job_view (d\<lparr>jobs := jobs d @ [job_to_row j]\<rparr>) i
      = ((job_view d)(j_ID j \<mapsto> (j_Payload j, j_Status j, j_Attempts j))) i" for i
    using n by (auto simp: job_view_def find_append job_to_row_def split: option.split)
  then have "job_view (d\<lparr>jobs := jobs d @ [job_to_row j]\<rparr>)
      = (job_view d)(j_ID j \<mapsto> (j_Payload j, j_Status j, j_Attempts j))" by blast
  moreover have "ep_view (d\<lparr>jobs := jobs d @ [job_to_row j]\<rparr>) = ep_view d"
    by (rule ep_view_cong) simp
  ultimately show ?thesis using False n by (simp add: insertJob_def) (simp add: job_view_def)
qed

text \<open>The guard of the enqueue in terms of the view.\<close>

lemma view_EnqueueTranscriptionJob:
  assumes wf: "wf_db d"
    and j: "j_Payload j = TranscribePayload eid" "j_Status j = JobPending" "j_Attempts j = 0"
    and r: "EnqueueTranscriptionJob j eid t d = (r, d')"
  shows "if (\<exists>st. ep_view d eid = Some st \<and> \<not> in_progress st) \<and> job_view d (j_ID j) = None
      then job_view d' = (job_view d)(j_ID j \<mapsto> (TranscribePayload eid, JobPending, 0))
         \<and> ep_view d' = (ep_view d)(eid \<mapsto> TranscriptPending) \<and> r = Inr ()
      else d' = d \<and> (\<exists>e. r = Inl e)"
proof (cases "find (\<lambda>r. er_id r = eid) (episodes d)")
  case None
  then have "\<forall>r \<in> set (episodes d). \<not> (er_id r = eid \<and> \<not> in_progress (er_transcript_status r))"
    by (simp add: find_NoneD)
  then have "count_where (\<lambda>r. er_id r = eid \<and> \<not> in_progress (er_transcript_status r)) (episodes d) = 0"
    by (simp add: count_where_0)
  moreover have "ep_view d eid = None" using None by (simp add: ep_view_def)
  ultimately show ?thesis
    using r by (auto simp: EnqueueTranscriptionJob_def with_tx_def Let_def split: if_splits)
next
  case (Some z)
  let ?hit = "\<lambda>r. er_id r = eid \<and> \<not> in_progress (er_transcript_status r)"
  let ?d1 = "d\<lparr>episodes := upd_where ?hit (set_status_cols TranscriptPending t) (episodes d)\<rparr>"
  note z = find_SomeD [OF Some]
  have uniq: "x = z" if "x \<in> set (episodes d)" "er_id x = eid" for x
    using wf z that by (auto simp: wf_db_def wf_episodes_def intro: distinct_map_eqD)
  have cnt: "count_where ?hit (episodes d) = 0 \<longleftrightarrow> in_progress (er_transcript_status z)"
    using z uniq by (auto simp: count_where_0)
  have st: "ep_view d eid = Some (er_transcript_status z)" using Some by (simp add: ep_view_def)
  show ?thesis
  proof (cases "in_progress (er_transcript_status z)")
    case True
    then show ?thesis
      using r cnt st Some z by (auto simp: EnqueueTranscriptionJob_def with_tx_def Let_def list_ex_iff split: if_splits)
  next
    case False
    have v1: "ep_view ?d1 = (ep_view d)(eid \<mapsto> TranscriptPending)"
      using ep_view_at [of "set_status_cols TranscriptPending t" ?hit eid d z] Some z False
      by (simp add: set_status_cols_def)
    have j1: "job_view ?d1 = job_view d" by (rule job_view_cong) simp
    from r cnt False have r': "(r, d') = (case insertJob j ?d1 of Inl e \<Rightarrow> (Inl e, d) | Inr d2 \<Rightarrow> (Inr (), d2))"
      by (simp add: EnqueueTranscriptionJob_def with_tx_def Let_def split: sum.splits)
    show ?thesis
      using view_insertJob [of ?d1 j] r' st False v1 j1 j by (auto split: sum.splits)
  qed
qed

section \<open>The invariant on the view\<close>

type_synonym marks = "(string \<times> int \<times> string) set"

definition active_at :: "jview \<Rightarrow> string \<Rightarrow> string \<Rightarrow> bool" where
  "active_at J i eid \<longleftrightarrow> (\<exists>st n. J i = Some (TranscribePayload eid, st, n) \<and> st \<in> {JobPending, JobProcessing})"

text \<open>
  One active job per episode; an episode with an active job is in progress; an outstanding
  mark belongs to a failed job of an episode that is still in progress and has no active
  job, and there is only one; and, unless processes die, nothing else is in progress.
\<close>

definition one_job :: "jview \<Rightarrow> bool" where
  "one_job J \<longleftrightarrow> (\<forall>i i' eid. active_at J i eid \<longrightarrow> active_at J i' eid \<longrightarrow> i = i')"

definition job_progress :: "jview \<Rightarrow> eview \<Rightarrow> bool" where
  "job_progress J E \<longleftrightarrow> (\<forall>i eid st. E eid = Some st \<longrightarrow> active_at J i eid \<longrightarrow> in_progress st)"

definition marks_ok :: "jview \<Rightarrow> eview \<Rightarrow> marks \<Rightarrow> bool" where
  "marks_ok J E M \<longleftrightarrow> (\<forall>i n eid. (i, n, eid) \<in> M \<longrightarrow> J i = Some (TranscribePayload eid, JobFailed, n)
     \<and> (\<forall>st. E eid = Some st \<longrightarrow> in_progress st \<and> (\<forall>k. \<not> active_at J k eid)))"

definition one_mark :: "eview \<Rightarrow> marks \<Rightarrow> bool" where
  "one_mark E M \<longleftrightarrow> (\<forall>i n i' n' eid. (i, n, eid) \<in> M \<longrightarrow> (i', n', eid) \<in> M \<longrightarrow> E eid \<noteq> None \<longrightarrow> i = i' \<and> n = n')"

definition backed :: "jview \<Rightarrow> eview \<Rightarrow> marks \<Rightarrow> bool" where
  "backed J E M \<longleftrightarrow> (\<forall>eid st. E eid = Some st \<longrightarrow> in_progress st \<longrightarrow>
     (\<exists>i. active_at J i eid) \<or> (\<exists>i n. (i, n, eid) \<in> M))"

definition vinv :: "bool \<Rightarrow> jview \<Rightarrow> eview \<Rightarrow> marks \<Rightarrow> bool" where
  "vinv crashes J E M \<longleftrightarrow> one_job J \<and> job_progress J E \<and> marks_ok J E M \<and> one_mark E M
     \<and> (crashes \<or> backed J E M)"

lemmas vinv_defs = vinv_def one_job_def job_progress_def marks_ok_def one_mark_def backed_def

lemma vinvI:
  "one_job J \<Longrightarrow> job_progress J E \<Longrightarrow> marks_ok J E M \<Longrightarrow> one_mark E M \<Longrightarrow> (\<not> c \<Longrightarrow> backed J E M) \<Longrightarrow> vinv c J E M"
  by (auto simp: vinv_def)

lemma active_at_upd:
  "active_at (J(i \<mapsto> (p, st, n))) k eid \<longleftrightarrow>
     (if k = i then p = TranscribePayload eid \<and> st \<in> {JobPending, JobProcessing} else active_at J k eid)"
  by (auto simp: active_at_def)

text \<open>What an active job says about its episode.\<close>

lemma vinv_active_facts:
  assumes "vinv c J E M" "active_at J i eid"
  shows "active_at J k eid \<Longrightarrow> k = i" "E eid = Some st \<Longrightarrow> in_progress st"
    "E eid \<noteq> None \<Longrightarrow> (k, m, eid) \<notin> M" "(i, m, e) \<notin> M"
  using assms by (auto simp: vinv_defs) (auto simp: active_at_def)

lemma vinv_idle_facts:
  assumes "vinv c J E M" "E eid = Some st" "\<not> in_progress st"
  shows "\<not> active_at J k eid" "(k, n, eid) \<notin> M"
  using assms by (auto simp: vinv_defs)

lemma vinv_enqueue:
  assumes "vinv c J E M" "E eid = Some st" "\<not> in_progress st" "J i = None"
  shows "vinv c (J(i \<mapsto> (TranscribePayload eid, JobPending, 0))) (E(eid \<mapsto> TranscriptPending)) M"
proof -
  note idle = vinv_idle_facts [OF assms(1-3)]
  have ni: "\<not> active_at J i e" for e using assms(4) by (simp add: active_at_def)
  have mi: "(i, n, e) \<notin> M" for n e using assms(1,4) by (auto simp: vinv_def marks_ok_def)
  have v: "one_job J" "job_progress J E" "marks_ok J E M" "one_mark E M" "\<not> c \<Longrightarrow> backed J E M"
    using assms(1) by (auto simp: vinv_def)
  show ?thesis
  proof (rule vinvI)
    show "one_job (J(i \<mapsto> (TranscribePayload eid, JobPending, 0)))"
      using v(1) idle(1) ni unfolding one_job_def active_at_upd by auto
    show "job_progress (J(i \<mapsto> (TranscribePayload eid, JobPending, 0))) (E(eid \<mapsto> TranscriptPending))"
      using v(2) unfolding job_progress_def active_at_upd by (auto simp: in_progress_def)
    show "marks_ok (J(i \<mapsto> (TranscribePayload eid, JobPending, 0))) (E(eid \<mapsto> TranscriptPending)) M"
      using v(3) idle(2) mi unfolding marks_ok_def active_at_upd by (auto split: if_splits)
    show "one_mark (E(eid \<mapsto> TranscriptPending)) M" using v(4) idle(2) by (auto simp: one_mark_def)
    show "backed (J(i \<mapsto> (TranscribePayload eid, JobPending, 0))) (E(eid \<mapsto> TranscriptPending)) M" if "\<not> c"
      using v(5) [OF that] ni unfolding backed_def active_at_upd by (metis fun_upd_other insert_iff)
  qed
qed

text \<open>A job that stays active: claim and retry.\<close>

lemma vinv_active:
  assumes "vinv c J E M" "J i = Some (p, st, n)" "st \<in> {JobPending, JobProcessing}"
    and "st' \<in> {JobPending, JobProcessing}"
  shows "vinv c (J(i \<mapsto> (p, st', n'))) E M"
proof -
  have a: "active_at (J(i \<mapsto> (p, st', n'))) = active_at J"
    using assms(2-4) by (auto simp: active_at_upd fun_eq_iff) (auto simp: active_at_def)
  have "(i, k, e) \<notin> M" for k e using assms(1-3) by (auto simp: vinv_def marks_ok_def)
  then have "marks_ok (J(i \<mapsto> (p, st', n'))) E M"
    using assms(1) unfolding vinv_def marks_ok_def a by (auto split: if_splits)
  then show ?thesis using assms(1) by (simp add: vinv_def one_job_def job_progress_def backed_def a)
qed

lemma vinv_progress:
  assumes "vinv c J E M" "active_at J i eid" "E eid \<noteq> None"
  shows "vinv c J (E(eid \<mapsto> TranscriptProcessing)) M"
proof -
  note act = vinv_active_facts [OF assms(1,2)]
  have v: "one_job J" "job_progress J E" "marks_ok J E M" "one_mark E M" "\<not> c \<Longrightarrow> backed J E M"
    using assms(1) by (auto simp: vinv_def)
  show ?thesis
  proof (rule vinvI)
    show "one_job J" by (rule v)
    show "job_progress J (E(eid \<mapsto> TranscriptProcessing))" using v(2) by (simp add: job_progress_def in_progress_def)
    show "marks_ok J (E(eid \<mapsto> TranscriptProcessing)) M"
      using v(3) act(3) [OF assms(3)] by (auto simp: marks_ok_def split: if_splits)
    show "one_mark (E(eid \<mapsto> TranscriptProcessing)) M" using v(4) assms(3) by (auto simp: one_mark_def split: if_splits)
    show "backed J (E(eid \<mapsto> TranscriptProcessing)) M" if "\<not> c"
      using v(5) [OF that] assms(2) by (auto simp: backed_def split: if_splits)
  qed
qed

text \<open>The job leaves the active states and the episode (if any) leaves the progress states.\<close>

lemma vinv_settle:
  assumes "vinv c J E M" "J i = Some (TranscribePayload eid, JobProcessing, n)" "\<not> in_progress st"
  shows "vinv c (J(i \<mapsto> (TranscribePayload eid, JobDone, n)))
    (if E eid = None then E else E(eid \<mapsto> st)) M" (is "vinv c ?J ?E M")
proof -
  have a: "active_at J i eid" using assms(2) by (simp add: active_at_def)
  note act = vinv_active_facts [OF assms(1) a]
  have v: "one_job J" "job_progress J E" "marks_ok J E M" "one_mark E M" "\<not> c \<Longrightarrow> backed J E M"
    using assms(1) by (auto simp: vinv_def)
  have sub: "active_at ?J k e \<Longrightarrow> active_at J k e \<and> k \<noteq> i" for k e by (simp add: active_at_upd split: if_splits)
  have up: "active_at J k e \<Longrightarrow> e \<noteq> eid \<Longrightarrow> active_at ?J k e" for k e
    using assms(2) by (auto simp: active_at_upd) (auto simp: active_at_def)
  show ?thesis
  proof (rule vinvI)
    show "one_job ?J" using v(1) sub unfolding one_job_def by blast
    show "job_progress ?J ?E"
      unfolding job_progress_def
    proof (intro allI impI)
      fix k e s assume e: "?E e = Some s" and "active_at ?J k e"
      then have k: "active_at J k e" "e \<noteq> eid" using sub act(1) by blast+
      with e have "E e = Some s" by (simp split: if_splits)
      with k show "in_progress s" using v(2) by (auto simp: job_progress_def)
    qed
    show "marks_ok ?J ?E M"
      using v(3) act(3,4) unfolding marks_ok_def by (auto split: if_splits dest!: sub)
    show "one_mark ?E M" using v(4) by (auto simp: one_mark_def split: if_splits)
    show "backed ?J ?E M" if "\<not> c"
      unfolding backed_def
    proof (intro allI impI)
      fix e s assume e: "?E e = Some s" "in_progress s"
      then have "e \<noteq> eid" using assms(3) by (auto split: if_splits)
      with e have "E e = Some s" by (simp split: if_splits)
      with e(2) v(5) [OF that] up [OF _ \<open>e \<noteq> eid\<close>] show "(\<exists>i. active_at ?J i e) \<or> (\<exists>i n. (i, n, e) \<in> M)"
        unfolding backed_def by blast
    qed
  qed
qed

lemma vinv_dead:
  assumes "vinv c J E M" "J i = Some (TranscribePayload eid, JobProcessing, n)"
  shows "vinv c (J(i \<mapsto> (TranscribePayload eid, JobFailed, n))) E (insert (i, n, eid) M)" (is "vinv c ?J E ?M")
proof -
  have a: "active_at J i eid" using assms(2) by (simp add: active_at_def)
  note act = vinv_active_facts [OF assms(1) a]
  have v: "one_job J" "job_progress J E" "marks_ok J E M" "one_mark E M" "\<not> c \<Longrightarrow> backed J E M"
    using assms(1) by (auto simp: vinv_def)
  have sub: "active_at ?J k e \<Longrightarrow> active_at J k e \<and> k \<noteq> i" for k e by (simp add: active_at_upd split: if_splits)
  have up: "active_at J k e \<Longrightarrow> e \<noteq> eid \<Longrightarrow> active_at ?J k e" for k e
    using assms(2) by (auto simp: active_at_upd) (auto simp: active_at_def)
  show ?thesis
  proof (rule vinvI)
    show "one_job ?J" using v(1) sub unfolding one_job_def by blast
    show "job_progress ?J E" using v(2) sub unfolding job_progress_def by blast
    have "E eid = Some st \<Longrightarrow> in_progress st \<and> (\<forall>k. \<not> active_at ?J k eid)" for st
      using act(1,2) sub by blast
    then show "marks_ok ?J E ?M"
      using v(3) act(4) unfolding marks_ok_def by (auto split: if_splits dest!: sub)
    show "one_mark E ?M" using v(4) act(3) by (auto simp: one_mark_def)
    show "backed ?J E ?M" if "\<not> c"
      using v(5) [OF that] up unfolding backed_def by (metis insertCI)
  qed
qed

lemma vinv_mark:
  assumes "vinv c J E M" "(i, n, eid) \<in> M"
  shows "vinv c J (if E eid = None then E else E(eid \<mapsto> TranscriptFailed)) (M - {(i, n, eid)})" (is "vinv c J ?E ?M")
proof -
  have na: "E eid \<noteq> None \<Longrightarrow> \<not> active_at J k eid" for k using assms by (auto simp: vinv_def marks_ok_def)
  have v: "one_job J" "job_progress J E" "marks_ok J E M" "one_mark E M" "\<not> c \<Longrightarrow> backed J E M"
    using assms(1) by (auto simp: vinv_def)
  show ?thesis
  proof (rule vinvI)
    show "one_job J" by (rule v)
    show "job_progress J ?E" using v(2) na by (auto simp: job_progress_def split: if_splits)
    show "marks_ok J ?E ?M" using v(3,4) assms(2) by (auto simp: marks_ok_def one_mark_def split: if_splits)
    show "one_mark ?E ?M" using v(4) by (auto simp: one_mark_def split: if_splits)
    show "backed J ?E ?M" if "\<not> c"
      unfolding backed_def
    proof (intro allI impI)
      fix e s assume e: "?E e = Some s" "in_progress s"
      then have "e \<noteq> eid" by (auto simp: in_progress_def split: if_splits)
      with e have "E e = Some s" by (simp split: if_splits)
      with e(2) v(5) [OF that] \<open>e \<noteq> eid\<close> show "(\<exists>i. active_at J i e) \<or> (\<exists>i n. (i, n, e) \<in> ?M)"
        by (auto simp: backed_def)
    qed
  qed
qed

lemma vinv_crash:
  assumes "vinv c J E M" "c" shows "vinv c J E (M - {m})"
  using assms by (auto simp: vinv_def marks_ok_def one_mark_def)

lemma vinv_create:
  assumes "vinv c J E M" "\<forall>i st n. J i \<noteq> Some (TranscribePayload eid, st, n)" "\<not> in_progress st"
  shows "vinv c J (E(eid \<mapsto> st)) M"
proof -
  have "\<not> active_at J i eid" for i using assms(2) by (auto simp: active_at_def)
  moreover have "(i, n, eid) \<notin> M" for i n using assms(1,2) unfolding vinv_def marks_ok_def by blast
  ultimately show ?thesis using assms(1,3) by (auto simp: vinv_defs split: if_splits)
qed

lemma vinv_delete: "vinv c J E M \<Longrightarrow> vinv c J (E(eid := None)) M"
  by (auto simp: vinv_defs split: if_splits)

section \<open>The system\<close>

record tsys =
  t_db :: db
  t_marks :: marks

text \<open>Operations that touch neither the jobs nor a transcript status nor the set of episodes.\<close>

fun trans_neutral :: "store_op \<Rightarrow> bool" where
  "trans_neutral (OpCreateUser _) = True"
| "trans_neutral (OpUpdateUser _) = True"
| "trans_neutral (OpBumpSessionEpoch _) = True"
| "trans_neutral (OpLinkOIDCIdentity _ _ _) = True"
| "trans_neutral (OpCreateChannel _) = True"
| "trans_neutral (OpUpdateChannel _) = True"
| "trans_neutral (OpUpdateEpisodeMetadata _ _ _ _ _) = True"
| "trans_neutral (OpSetEpisodePublication _ _ _ _) = True"
| "trans_neutral (OpReorderEpisodes _ _ _) = True"
| "trans_neutral (OpBlobOrphaned _ _) = True"
| "trans_neutral (OpReserveBlob _ _) = True"
| "trans_neutral (OpReleaseBlob _) = True"
| "trans_neutral (OpReleaseDeleteLease _) = True"
| "trans_neutral _ = False"

text \<open>
  The steps the handlers and workers take.  A worker only settles a job for the episode in
  the job's payload; it completes a job without settlement only when that episode is gone;
  a new episode has a fresh id, so no job can name it yet.  Failing a job for good leaves a
  mark outstanding, which the same pass then writes, unless its process dies first.
\<close>

inductive tstep :: "bool \<Rightarrow> tsys \<Rightarrow> tsys \<Rightarrow> bool" for crashes where
  enqueue: "tstep crashes s (s\<lparr>t_db := snd (EnqueueTranscriptionJob
      (new_job JobTranscribe (TranscribePayload eid) i now) eid now (t_db s))\<rparr>)"
| claim: "tstep crashes s (s\<lparr>t_db := snd (ClaimJob ks now lease (t_db s))\<rparr>)"
| progress: "job_view (t_db s) jid = Some (TranscribePayload eid, st, n) \<Longrightarrow>
    tstep crashes s (s\<lparr>t_db := snd (SettleEpisodeTranscript jid tok eid None TranscriptProcessing t (t_db s))\<rparr>)"
| settle: "job_view (t_db s) jid = Some (TranscribePayload eid, st, n) \<Longrightarrow> \<not> in_progress ts \<Longrightarrow>
    tstep crashes s (s\<lparr>t_db := snd (SettleEpisodeTranscriptAndCompleteJob jid tok eid tr ts t (t_db s))\<rparr>)"
| complete: "job_view (t_db s) jid = Some (TranscribePayload eid, st, n) \<Longrightarrow> ep_view (t_db s) eid = None \<Longrightarrow>
    tstep crashes s (s\<lparr>t_db := snd (CompleteJob jid tok t (t_db s))\<rparr>)"
| retry: "tstep crashes s (s\<lparr>t_db := snd (RescheduleJob jid tok ra cause t (t_db s))\<rparr>)"
| dead: "job_view (t_db s) jid = Some (TranscribePayload eid, st, n) \<Longrightarrow>
    FailJob jid tok cause t (t_db s) = (Inr (), d') \<Longrightarrow>
    tstep crashes s (s\<lparr>t_db := d', t_marks := insert (jid, tok, eid) (t_marks s)\<rparr>)"
| mark: "(jid, tok, eid) \<in> t_marks s \<Longrightarrow>
    tstep crashes s (s\<lparr>t_db := snd (SettleEpisodeTranscript jid tok eid None TranscriptFailed t (t_db s)),
      t_marks := t_marks s - {(jid, tok, eid)}\<rparr>)"
| crash: "crashes \<Longrightarrow> tstep crashes s (s\<lparr>t_marks := t_marks s - {m}\<rparr>)"
| create: "\<forall>i st n. job_view (t_db s) i \<noteq> Some (TranscribePayload (e_ID ep), st, n) \<Longrightarrow>
    e_TranscriptStatus ep = TranscriptNone \<Longrightarrow>
    tstep crashes s (s\<lparr>t_db := snd (CreateEpisode ep (t_db s))\<rparr>)"
| delete: "tstep crashes s (s\<lparr>t_db := snd (DeleteEpisode eid now (t_db s))\<rparr>)"
| other: "trans_neutral op \<Longrightarrow> tstep crashes s (s\<lparr>t_db := snd (exec op (t_db s))\<rparr>)"

inductive_cases tstepE [elim]: "tstep crashes s s'"

inductive treach :: "bool \<Rightarrow> tsys \<Rightarrow> bool" for crashes where
  init: "treach crashes \<lparr>t_db = empty_db, t_marks = {}\<rparr>"
| step: "treach crashes s \<Longrightarrow> tstep crashes s s' \<Longrightarrow> treach crashes s'"

lemma view_status_frame:
  assumes "\<And>r. er_id (f r) = er_id r" "\<And>r. er_transcript_status (f r) = er_transcript_status r"
  shows "ep_view (d\<lparr>episodes := map f (episodes d)\<rparr>) = ep_view d"
proof
  fix i
  have "find (\<lambda>r. er_id r = i) (map f es) = map_option f (find (\<lambda>r. er_id r = i) es)" for es
    by (induction es) (simp_all add: assms(1))
  then show "ep_view (d\<lparr>episodes := map f (episodes d)\<rparr>) i = ep_view d i"
    by (simp add: ep_view_def option.map_comp comp_def assms(2))
qed

lemma view_update_episode:
  assumes "\<And>r. er_id (f r) = er_id r" "\<And>r. er_transcript_status (f r) = er_transcript_status r"
  shows "ep_view (snd (update_episode eid f d)) = ep_view d"
  using view_status_frame [of "\<lambda>r. if er_id r = eid then f r else r" d] assms
  by (simp add: update_episode_def Let_def upd_where_def)

lemma view_neutral:
  assumes "trans_neutral op"
  shows "job_view (snd (exec op d)) = job_view d" "ep_view (snd (exec op d)) = ep_view d"
proof -
  show "job_view (snd (exec op d)) = job_view d"
    by (rule job_view_cong) (use assms in \<open>cases op; simp\<close>)
  have acq: "ep_view (snd (acquireDeleteLeaseTx key now d1)) = ep_view d1" for key now d1
    by (rule ep_view_cong) (simp add: acquire_eq)
  show "ep_view (snd (exec op d)) = ep_view d"
    using assms
    by (cases op) (auto simp: UpdateEpisodeMetadata_def SetEpisodePublication_def view_update_episode
        ReorderEpisodes_eq view_status_frame BlobOrphaned_eq ReserveBlob_eq ReleaseBlob_def
        ReleaseDeleteLease_def CreateUser_def UpdateUser_def BumpSessionEpoch_def LinkOIDCIdentity_def
        CreateChannel_def UpdateChannel_def Let_def acq intro: ep_view_cong)
qed

definition tinv :: "bool \<Rightarrow> tsys \<Rightarrow> bool" where
  "tinv c s \<longleftrightarrow> wf_db (t_db s) \<and> vinv c (job_view (t_db s)) (ep_view (t_db s)) (t_marks s)"

lemma tinv_setJobStatus:
  assumes inv: "tinv c s" and st: "st = JobPending"
  shows "tinv c (s\<lparr>t_db := snd (setJobStatus jid tok st cause ra t (t_db s))\<rparr>)"
proof -
  have wf: "wf_jobs (t_db s)" using inv by (simp add: tinv_def wf_jobsI)
  have "vinv c (case job_view (t_db s) jid of Some (p, JobProcessing, n) \<Rightarrow>
        if n = tok then (job_view (t_db s))(jid \<mapsto> (p, st, tok)) else job_view (t_db s)
      | _ \<Rightarrow> job_view (t_db s)) (ep_view (t_db s)) (t_marks s)"
    using inv st by (auto simp: tinv_def split: option.split JobStatus.split intro: vinv_active)
  then show ?thesis using inv by (simp add: tinv_def view_setJobStatus [OF wf] setJobStatus_wf)
qed

lemma setJobStatus_ok:
  assumes "wf_jobs d" "setJobStatus jid tok st c ra now d = (Inr (), d')"
  shows "\<exists>p. job_view d jid = Some (p, JobProcessing, tok) \<and> job_view d' = (job_view d)(jid \<mapsto> (p, st, tok))
     \<and> ep_view d' = ep_view d"
proof -
  have "claimed jid tok d" using assms by (auto simp: setJobStatus_eq split: if_splits)
  then obtain p where "job_view d jid = Some (p, JobProcessing, tok)" by (auto simp: claimed_view)
  then show ?thesis using view_setJobStatus [OF assms(1), of jid tok st c ra now] assms(2) by simp
qed

lemma tinv_step:
  assumes "tstep c s s'" "tinv c s" shows "tinv c s'"
proof -
  let ?d = "t_db s" and ?J = "job_view (t_db s)" and ?E = "ep_view (t_db s)" and ?M = "t_marks s"
  have wf: "wf_db ?d" and v: "vinv c ?J ?E ?M" using assms(2) by (simp_all add: tinv_def)
  have wj: "wf_jobs ?d" by (rule wf_jobsI [OF wf])
  from assms(1) show ?thesis
  proof cases
    case (enqueue eid i now)
    let ?j = "new_job JobTranscribe (TranscribePayload eid) i now"
    obtain r d' where r: "EnqueueTranscriptionJob ?j eid now ?d = (r, d')" by fastforce
    have "vinv c (job_view d') (ep_view d') ?M"
      using view_EnqueueTranscriptionJob [OF wf _ _ _ r] v
      by (auto simp: new_job_def vinv_enqueue split: if_splits)
    then show ?thesis using enqueue r EnqueueTranscriptionJob_wf [OF wf, of ?j eid now] by (simp add: tinv_def)
  next
    case (claim ks now lease)
    have "vinv c (job_view (snd (ClaimJob ks now lease ?d))) ?E ?M"
      using view_ClaimJob(1) [OF wj, of ks now lease] v by (auto intro: vinv_active)
    then show ?thesis using claim view_ClaimJob(2) [OF wj] ClaimJob_wf [OF wf] by (simp add: tinv_def)
  next
    case (progress jid eid st n tok t)
    have "vinv c ?J (if (\<exists>p s. ?J jid = Some (p, s, tok) \<and> s \<in> set (settle_source_states None TranscriptProcessing))
        \<and> ?E eid \<noteq> None then ?E(eid \<mapsto> TranscriptProcessing) else ?E) ?M"
      using v progress(2) vinv_progress [of c ?J ?E ?M jid eid]
      by (auto simp: settle_source_states_def active_at_def)
    then show ?thesis
      using progress(1) view_SettleEpisodeTranscript [OF wj, of jid tok eid TranscriptProcessing t]
        SettleEpisodeTranscript_wf [OF wf] by (simp add: tinv_def)
  next
    case (settle jid eid st n ts tok tr t)
    obtain r d' where r: "SettleEpisodeTranscriptAndCompleteJob jid tok eid tr ts t ?d = (r, d')" by fastforce
    have "vinv c (job_view d') (ep_view d') ?M"
      using view_SettleAndComplete [OF wj r] v settle(2,3) vinv_settle [OF v, of jid eid tok ts] by auto
    then show ?thesis using settle(1) r SettleAndComplete_wf [OF wf, of jid tok eid tr ts t] by (simp add: tinv_def)
  next
    case (complete jid eid st n tok t)
    have "vinv c (case ?J jid of Some (p, JobProcessing, m) \<Rightarrow>
        if m = tok then ?J(jid \<mapsto> (p, JobDone, tok)) else ?J | _ \<Rightarrow> ?J) ?E ?M"
      using v complete(2,3) vinv_settle [OF v, of jid eid tok TranscriptNone]
      by (auto simp: in_progress_def split: JobStatus.split)
    then show ?thesis
      using complete(1) view_setJobStatus [OF wj] setJobStatus_wf [OF wf] by (simp add: tinv_def CompleteJob_def)
  next
    case (retry jid tok ra cause t)
    then show ?thesis using tinv_setJobStatus [OF assms(2)] by (simp add: RescheduleJob_def)
  next
    case (dead jid eid st n tok cause t d')
    from setJobStatus_ok [OF wj dead(3) [unfolded FailJob_def]] dead(2)
    have p: "?J jid = Some (TranscribePayload eid, JobProcessing, tok)"
      and jv: "job_view d' = ?J(jid \<mapsto> (TranscribePayload eid, JobFailed, tok))" and ev: "ep_view d' = ?E" by auto
    have "wf_db d'" using setJobStatus_wf [OF wf, of jid tok JobFailed cause None t] dead(3) by (simp add: FailJob_def)
    then show ?thesis using dead(1) vinv_dead [OF v p] jv ev by (simp add: tinv_def)
  next
    case (mark jid tok eid t)
    have p: "?J jid = Some (TranscribePayload eid, JobFailed, tok)" using v mark(2) by (auto simp: vinv_def marks_ok_def)
    have "ep_view (snd (SettleEpisodeTranscript jid tok eid None TranscriptFailed t ?d))
        = (if ?E eid = None then ?E else ?E(eid \<mapsto> TranscriptFailed))"
      using view_SettleEpisodeTranscript(2) [OF wj, of jid tok eid TranscriptFailed t] p
      by (auto simp: settle_source_states_def)
    then show ?thesis
      using mark(1) vinv_mark [OF v mark(2)] view_SettleEpisodeTranscript(1) [OF wj]
        SettleEpisodeTranscript_wf [OF wf] by (simp add: tinv_def)
  next
    case (create ep)
    have "vinv c ?J (ep_view (snd (CreateEpisode ep ?d))) ?M"
      using view_CreateEpisode(2) [of ep ?d] v create(2,3) vinv_create [OF v, of "e_ID ep" TranscriptNone]
      by (auto simp: in_progress_def)
    then show ?thesis using create(1) view_CreateEpisode(1) CreateEpisode_wf [OF wf] by (simp add: tinv_def)
  next
    case (delete eid now)
    then show ?thesis using v view_DeleteEpisode [OF wf] DeleteEpisode_wf [OF wf] vinv_delete by (simp add: tinv_def)
  next
    case (other op)
    then show ?thesis using v view_neutral [OF other(2)] exec_wf [OF wf] by (simp add: tinv_def)
  qed (use wf v in \<open>simp add: tinv_def vinv_crash\<close>)
qed

lemma treach_inv: "treach c s \<Longrightarrow> tinv c s"
proof (induction rule: treach.induct)
  case init
  have "job_view empty_db i = None" "ep_view empty_db i = None" for i
    by (simp_all add: job_view_def ep_view_def empty_db_def)
  then show ?case by (simp add: tinv_def wf_empty_db vinv_defs active_at_def)
qed (rule tinv_step)

section \<open>What the invariant gives\<close>

lemma row_active:
  assumes "wf_jobs d" "r \<in> set (jobs d)" "jr_payload r = TranscribePayload eid"
    and "jr_status r \<in> {JobPending, JobProcessing}"
  shows "active_at (job_view d) (jr_id r) eid"
  using assms find_key [of jr_id "jobs d" r] by (auto simp: active_at_def job_view_def wf_jobs_def)

lemma active_row:
  assumes "active_at (job_view d) i eid"
  shows "\<exists>r \<in> set (jobs d). jr_id r = i \<and> jr_payload r = TranscribePayload eid
    \<and> jr_status r \<in> {JobPending, JobProcessing}"
  using assms by (auto simp: active_at_def job_view_def dest: find_SomeD)

lemma EpisodeByID_view: "EpisodeByID eid d = Inr ep \<Longrightarrow> ep_view d eid = Some (e_TranscriptStatus ep)"
  by (auto simp: EpisodeByID_def episodeWhere_def ep_view_def scanEpisode_def split: option.splits)

text \<open>
  C2: At most one pending or processing transcription job exists per episode in every reachable
  state of the handlers and workers, crashes included.
\<close>

theorem one_active_job:
  assumes "treach crashes s" "r \<in> set (jobs (t_db s))" "r' \<in> set (jobs (t_db s))"
    and "jr_payload r = TranscribePayload eid" "jr_payload r' = TranscribePayload eid"
    and "jr_status r \<in> {JobPending, JobProcessing}" "jr_status r' \<in> {JobPending, JobProcessing}"
  shows "r = r'"
proof -
  have inv: "tinv crashes s" by (rule treach_inv [OF assms(1)])
  then have wf: "wf_jobs (t_db s)" by (simp add: tinv_def wf_jobsI)
  have "jr_id r = jr_id r'"
    using inv row_active [OF wf assms(2,4,6)] row_active [OF wf assms(3,5,7)]
    by (auto simp: tinv_def vinv_def one_job_def)
  then show ?thesis by (rule wf_jobs_eqD [OF wf assms(2,3)])
qed


text \<open>
  An episode not in progress has no pending or processing job.
\<close>

theorem settled_has_no_job:
  assumes "treach crashes s" "EpisodeByID eid (t_db s) = Inr ep" "\<not> in_progress (e_TranscriptStatus ep)"
    and "r \<in> set (jobs (t_db s))" "jr_payload r = TranscribePayload eid"
  shows "jr_status r \<in> {JobDone, JobFailed}"
proof (rule ccontr)
  assume "jr_status r \<notin> {JobDone, JobFailed}"
  then have "jr_status r \<in> {JobPending, JobProcessing}" by (cases "jr_status r") simp_all
  moreover have inv: "tinv crashes s" by (rule treach_inv [OF assms(1)])
  ultimately have "active_at (job_view (t_db s)) (jr_id r) eid"
    using row_active [of "t_db s" r eid] assms(4,5) by (simp add: tinv_def wf_jobsI)
  with inv EpisodeByID_view [OF assms(2)] assms(3) show False
    by (auto simp: tinv_def vinv_def job_progress_def)
qed

section \<open>A lost mark\<close>

text \<open>
  The dead-letter path writes the failed job and the episode's status in two transactions.
  When the second never happens, the episode stays in progress with no job left to end it.
\<close>

definition stranded :: "string \<Rightarrow> tsys \<Rightarrow> bool" where
  "stranded eid s \<longleftrightarrow> wf_db (t_db s)
     \<and> (\<exists>i n. job_view (t_db s) i = Some (TranscribePayload eid, JobFailed, n))
     \<and> (\<forall>i. \<not> active_at (job_view (t_db s)) i eid) \<and> (\<forall>i n. (i, n, eid) \<notin> t_marks s)
     \<and> (\<forall>st. ep_view (t_db s) eid = Some st \<longrightarrow> in_progress st)"

definition stranded_view :: "string \<Rightarrow> jview \<Rightarrow> eview \<Rightarrow> marks \<Rightarrow> bool" where
  "stranded_view eid J E M \<longleftrightarrow> (\<exists>i n. J i = Some (TranscribePayload eid, JobFailed, n))
     \<and> (\<forall>i. \<not> active_at J i eid) \<and> (\<forall>i n. (i, n, eid) \<notin> M) \<and> (\<forall>st. E eid = Some st \<longrightarrow> in_progress st)"

lemma stranded_alt:
  "stranded eid s \<longleftrightarrow> wf_db (t_db s) \<and> stranded_view eid (job_view (t_db s)) (ep_view (t_db s)) (t_marks s)"
  by (simp add: stranded_def stranded_view_def)

text \<open>An update of another job's row, or of the job of another episode, changes nothing.\<close>

lemma stranded_job_upd:
  assumes "stranded_view eid J E M" "J i = None \<or> (\<exists>st n. J i = Some (p, st, n) \<and> st \<in> {JobPending, JobProcessing})"
    and "J i = None \<Longrightarrow> p \<noteq> TranscribePayload eid"
  shows "stranded_view eid (J(i \<mapsto> (p, st', n'))) E M"
proof -
  have p: "p \<noteq> TranscribePayload eid"
    using assms by (auto simp: stranded_view_def active_at_def)
  moreover have "J k = Some (TranscribePayload eid, JobFailed, n) \<Longrightarrow> k \<noteq> i" for k n
    using assms(2) by auto
  ultimately show ?thesis
    using assms(1) unfolding stranded_view_def active_at_upd by (metis fun_upd_other)
qed

lemma stranded_active_upd:
  "stranded_view eid J E M \<Longrightarrow> J i = Some (p, st, n) \<Longrightarrow> st \<in> {JobPending, JobProcessing} \<Longrightarrow>
   stranded_view eid (J(i \<mapsto> (p, st', n'))) E M"
  by (rule stranded_job_upd) auto

lemma stranded_step:
  assumes "tstep c s s'" "stranded eid s"
  shows "stranded eid s' \<and> ep_view (t_db s') eid \<in> {ep_view (t_db s) eid, None}"
proof -
  let ?d = "t_db s" and ?J = "job_view (t_db s)" and ?E = "ep_view (t_db s)" and ?M = "t_marks s"
  have wf: "wf_db ?d" and v: "stranded_view eid ?J ?E ?M" using assms(2) by (simp_all add: stranded_alt)
  have wj: "wf_jobs ?d" by (rule wf_jobsI [OF wf])
  have na: "?J i \<noteq> Some (TranscribePayload eid, JobProcessing, n)"
      "?J i \<noteq> Some (TranscribePayload eid, JobPending, n)" for i n
    using v by (auto simp: stranded_view_def active_at_def)
  have eupd: "stranded_view eid J (?E(e \<mapsto> ts)) M" if "stranded_view eid J ?E M" "e \<noteq> eid" for J e ts M
    using that by (simp add: stranded_view_def)
  have set: "stranded_view eid (job_view (snd (setJobStatus jid tok st cause ra t ?d))) ?E ?M" for jid tok st cause ra t
  proof (cases "\<exists>a. ?J jid = Some (a, JobProcessing, tok)")
    case True
    then obtain a where a: "?J jid = Some (a, JobProcessing, tok)" by blast
    then have "stranded_view eid (?J(jid \<mapsto> (a, st, tok))) ?E ?M" by (intro stranded_job_upd [OF v]) auto
    with a show ?thesis by (simp add: view_setJobStatus [OF wj])
  next
    case False
    with v show ?thesis by (auto simp: view_setJobStatus [OF wj] split: option.split JobStatus.split)
  qed
  from assms(1) show ?thesis
  proof cases
    case (enqueue e i now)
    let ?j = "new_job JobTranscribe (TranscribePayload e) i now"
    obtain r d' where r: "EnqueueTranscriptionJob ?j e now ?d = (r, d')" by fastforce
    have "stranded_view eid (job_view d') (ep_view d') ?M \<and> ep_view d' eid = ?E eid"
      using view_EnqueueTranscriptionJob [OF wf _ _ _ r] v stranded_job_upd [OF v, of i "TranscribePayload e"]
      by (auto simp: new_job_def eupd stranded_view_def [of _ ?J] split: if_splits)
    then show ?thesis
      using enqueue r EnqueueTranscriptionJob_wf [OF wf, of ?j e now] by (simp add: stranded_alt)
  next
    case (claim ks now lease)
    have "stranded_view eid (job_view (snd (ClaimJob ks now lease ?d))) ?E ?M"
      using view_ClaimJob(1) [OF wj, of ks now lease] v by (auto intro: stranded_active_upd)
    then show ?thesis using claim view_ClaimJob(2) [OF wj] ClaimJob_wf [OF wf] by (simp add: stranded_alt)
  next
    case (progress jid e st n tok t)
    have "E' eid = ?E eid \<and> stranded_view eid ?J E' ?M"
      if "E' = (if (\<exists>p s. ?J jid = Some (p, s, tok) \<and> s \<in> set (settle_source_states None TranscriptProcessing))
        \<and> ?E e \<noteq> None then ?E(e \<mapsto> TranscriptProcessing) else ?E)" for E'
      using that v progress(2) na eupd [OF v] by (cases "e = eid") (auto simp: settle_source_states_def)
    then show ?thesis
      using progress(1) view_SettleEpisodeTranscript [OF wj, of jid tok e TranscriptProcessing t]
        SettleEpisodeTranscript_wf [OF wf] by (simp add: stranded_alt)
  next
    case (settle jid e st n ts tok tr t)
    obtain r d' where r: "SettleEpisodeTranscriptAndCompleteJob jid tok e tr ts t ?d = (r, d')" by fastforce
    have "stranded_view eid (job_view d') (ep_view d') ?M \<and> ep_view d' eid = ?E eid"
      using view_SettleAndComplete [OF wj r] v settle(2) na
        stranded_job_upd [OF v, of jid "TranscribePayload e" JobDone tok] by (cases "e = eid") (auto simp: eupd)
    then show ?thesis using settle(1) r SettleAndComplete_wf [OF wf, of jid tok e tr ts t] by (simp add: stranded_alt)
  next
    case (complete jid e st n tok t)
    then show ?thesis
      using set view_setJobStatus(2) [OF wj] setJobStatus_wf [OF wf] by (simp add: stranded_alt CompleteJob_def)
  next
    case (retry jid tok ra cause t)
    then show ?thesis
      using set view_setJobStatus(2) [OF wj] setJobStatus_wf [OF wf] by (simp add: stranded_alt RescheduleJob_def)
  next
    case (dead jid e st n tok cause t d')
    from setJobStatus_ok [OF wj dead(3) [unfolded FailJob_def]] dead(2)
    have p: "?J jid = Some (TranscribePayload e, JobProcessing, tok)"
      and jv: "job_view d' = ?J(jid \<mapsto> (TranscribePayload e, JobFailed, tok))" and ev: "ep_view d' = ?E" by auto
    have "e \<noteq> eid" using p na by auto
    then have "stranded_view eid (job_view d') ?E (insert (jid, tok, e) ?M)"
      using stranded_job_upd [OF v, of jid "TranscribePayload e" JobFailed tok] p by (auto simp: jv stranded_view_def)
    moreover have "wf_db d'" using setJobStatus_wf [OF wf, of jid tok JobFailed cause None t] dead(3) by (simp add: FailJob_def)
    ultimately show ?thesis using dead(1) ev by (simp add: stranded_alt)
  next
    case (mark jid tok e t)
    then have "e \<noteq> eid" using v by (auto simp: stranded_view_def)
    then have "stranded_view eid ?J (ep_view (snd (SettleEpisodeTranscript jid tok e None TranscriptFailed t ?d))) (?M - {(jid, tok, e)})
        \<and> ep_view (snd (SettleEpisodeTranscript jid tok e None TranscriptFailed t ?d)) eid = ?E eid"
      using v by (auto simp: view_SettleEpisodeTranscript(2) [OF wj] stranded_view_def)
    then show ?thesis
      using mark(1) view_SettleEpisodeTranscript(1) [OF wj] SettleEpisodeTranscript_wf [OF wf] by (simp add: stranded_alt)
  next
    case (create ep)
    have "e_ID ep \<noteq> eid" using create(2) v by (auto simp: stranded_view_def)
    then have "stranded_view eid ?J (ep_view (snd (CreateEpisode ep ?d))) ?M \<and> ep_view (snd (CreateEpisode ep ?d)) eid = ?E eid"
      using view_CreateEpisode(2) [of ep ?d] v eupd [OF v] by auto
    then show ?thesis using create(1) view_CreateEpisode(1) CreateEpisode_wf [OF wf] by (simp add: stranded_alt)
  next
    case (delete e now)
    have "stranded_view eid ?J (?E(e := None)) ?M" using v by (simp add: stranded_view_def)
    then show ?thesis using delete view_DeleteEpisode [OF wf] DeleteEpisode_wf [OF wf] by (simp add: stranded_alt)
  next
    case (other op)
    then show ?thesis using v view_neutral [OF other(2)] exec_wf [OF wf] by (simp add: stranded_alt)
  qed (use wf v in \<open>simp add: stranded_alt stranded_view_def\<close>)
qed

lemma stranded_steps:
  assumes "rtranclp (tstep c) s s'" "stranded eid s"
  shows "stranded eid s' \<and> ep_view (t_db s') eid \<in> {ep_view (t_db s) eid, None}"
  using assms(1)
proof induction
  case (step s1 s2)
  then show ?case using stranded_step [of c s1 s2 eid] by auto
qed (use assms(2) in simp)

theorem stranded_forever:
  assumes "stranded eid s" "rtranclp (tstep True) s s'" "EpisodeByID eid (t_db s) = Inr ep"
    and "EpisodeByID eid (t_db s') = Inr ep'"
  shows "e_TranscriptStatus ep' = e_TranscriptStatus ep \<and> in_progress (e_TranscriptStatus ep')
    \<and> (\<forall>i now. snd (EnqueueTranscriptionJob (new_job JobTranscribe (TranscribePayload eid) i now) eid now (t_db s'))
         = t_db s')
    \<and> (\<forall>r \<in> set (jobs (t_db s')). jr_payload r = TranscribePayload eid \<longrightarrow> \<not> runnable t r)"
proof -
  have st: "stranded eid s'" and e: "ep_view (t_db s') eid \<in> {ep_view (t_db s) eid, None}"
    using stranded_steps [OF assms(2,1)] by simp_all
  have eq: "e_TranscriptStatus ep' = e_TranscriptStatus ep"
    using e EpisodeByID_view [OF assms(3)] EpisodeByID_view [OF assms(4)] by simp
  have ip: "in_progress (e_TranscriptStatus ep')"
    using st EpisodeByID_view [OF assms(4)] by (simp add: stranded_def)
  have wf: "wf_db (t_db s')" using st by (simp add: stranded_def)
  have "snd (EnqueueTranscriptionJob (new_job JobTranscribe (TranscribePayload eid) i now) eid now (t_db s')) = t_db s'" for i now
  proof -
    obtain r d' where r: "EnqueueTranscriptionJob (new_job JobTranscribe (TranscribePayload eid) i now) eid now (t_db s') = (r, d')"
      by fastforce
    then show ?thesis
      using view_EnqueueTranscriptionJob [OF wf _ _ _ r] EpisodeByID_view [OF assms(4)] ip
      by (auto simp: new_job_def split: if_splits)
  qed
  moreover have "\<not> runnable t r" if "r \<in> set (jobs (t_db s'))" "jr_payload r = TranscribePayload eid" for r
    using st row_active [OF wf_jobsI [OF wf] that] by (auto simp: stranded_def runnable_def)
  ultimately show ?thesis using eq ip by simp
qed

text \<open>One failed write in the last pass over a job strands its episode.\<close>

lemma transcribing_view:
  "job_view (ex_db ts st n ra) = [''j'' \<mapsto> (TranscribePayload ''e'', st, n)]"
  "ep_view (ex_db ts st n ra) = [''e'' \<mapsto> ts, ''f'' \<mapsto> TranscriptNone]"
  by (auto simp: fun_eq_iff job_view_def ep_view_def ex)

definition lost_mark_env :: env where
  "lost_mark_env = (ex_env Unsupported)\<lparr>ev_fault := (\<lambda>c. c = CMark)\<rparr>"

text \<open>
  When the failure mark after the last attempt is lost, the episode is left in progress
  with no job.
\<close>

theorem lost_mark_strands:
  "\<exists>d' r'. fail ex_worker lost_mark_env (ex_job 5) ''boom''
       (ex_db TranscriptProcessing JobProcessing 5 0, emptyRegistry :: unit Registry) = (Some ''boom'', d', r')
     \<and> stranded ''e'' \<lparr>t_db = d', t_marks = {}\<rparr> \<and> ep_view d' ''e'' = Some TranscriptProcessing"
proof -
  let ?d = "ex_db TranscriptProcessing JobProcessing 5 0"
  have wj: "wf_jobs ?d" by (rule wf_jobsI [OF ex_wf])
  obtain x d' where f: "setJobStatus ''j'' 5 JobFailed ''boom'' None 0 ?d = (x, d')" by fastforce
  have x: "x = Inr ()" using f by (simp add: setJobStatus_eq [OF wj] ex_claimed split: if_splits)
  from setJobStatus_ok [OF wj f [unfolded x]]
  have v: "job_view d' = [''j'' \<mapsto> (TranscribePayload ''e'', JobFailed, 5)]"
    "ep_view d' = [''e'' \<mapsto> TranscriptProcessing, ''f'' \<mapsto> TranscriptNone]"
    by (auto simp: transcribing_view)
  have "wf_db d'" using setJobStatus_wf [OF ex_wf, of "''j''" 5 JobFailed "''boom''" None 0] f by (metis snd_conv)
  then have "stranded ''e'' \<lparr>t_db = d', t_marks = {}\<rparr>"
    by (simp add: stranded_def v active_at_def in_progress_def)
  moreover have "fail ex_worker lost_mark_env (ex_job 5) ''boom'' (?d, emptyRegistry :: unit Registry)
      = (Some ''boom'', d', Inc metricJobsTotal [''outcome'', ''failure''] emptyRegistry)"
    using f x by (simp add: fail_def Let_def call_store_def lost_mark_env_def ex_env_def Nack_def
        ex_worker_def ex_queue_def NewQueue_def sqlite_jobs_def FailJob_def markTranscript_def)
  ultimately show ?thesis using v by auto
qed

section \<open>A concrete run\<close>

text \<open>An installation built from nothing: an account, its channel, an episode, its job, a settlement.\<close>

definition run_setup :: db where
  "run_setup = exec_all [OpCreateUser (scanUser ex_user_row), OpCreateChannel (scanChannel ex_channel_row)] empty_db"

definition run_episode :: db where
  "run_episode = snd (CreateEpisode (scanEpisode (ex_episode_row ''e'' ''k'' TranscriptNone)) run_setup)"

definition run_queued :: db where
  "run_queued = snd (EnqueueTranscriptionJob (new_job JobTranscribe (TranscribePayload ''e'') ''j'' 0) ''e'' 0 run_episode)"

definition run_settled :: db where
  "run_settled = snd (SettleEpisodeTranscriptAndCompleteJob ''j'' 1 ''e'' None TranscriptNone 1
     (snd (ClaimJob [] 0 0 run_queued)))"

lemmas run_defs = run_setup_def run_episode_def run_queued_def run_settled_def

lemma run_no_jobs: "job_view run_setup i = None"
proof -
  have "jobs run_setup = []" by code_simp
  then show ?thesis by (simp add: job_view_def)
qed

lemma run_queued_reached: "treach c \<lparr>t_db = run_queued, t_marks = {}\<rparr>"
proof -
  let ?s = "\<lambda>d. \<lparr>t_db = d, t_marks = {}\<rparr> :: tsys"
  have upd: "(?s d)\<lparr>t_db := d'\<rparr> = ?s d'" for d d' by simp
  let ?d1 = "snd (exec (OpCreateUser (scanUser ex_user_row)) empty_db)"
  have "tstep c (?s empty_db) (?s ?d1)"
    using tstep.other [of "OpCreateUser (scanUser ex_user_row)" c "?s empty_db"] by simp
  then have 1: "treach c (?s ?d1)" by (rule treach.step [OF treach.init])
  have "tstep c (?s ?d1) (?s run_setup)"
    using tstep.other [of "OpCreateChannel (scanChannel ex_channel_row)" c "?s ?d1"] by (simp add: run_setup_def)
  then have 2: "treach c (?s run_setup)" by (rule treach.step [OF 1])
  have "tstep c (?s run_setup) (?s run_episode)"
    using tstep.create [of "?s run_setup" "scanEpisode (ex_episode_row ''e'' ''k'' TranscriptNone)" c]
    by (simp add: run_no_jobs run_episode_def scanEpisode_def ex_episode_row_def)
  then have 3: "treach c (?s run_episode)" by (rule treach.step [OF 2])
  have "tstep c (?s run_episode) (?s run_queued)"
    using tstep.enqueue [of c "?s run_episode" "''e''" "''j''" 0] by (simp add: run_queued_def)
  then show ?thesis by (rule treach.step [OF 3])
qed

lemma run_settled_reached: "treach c \<lparr>t_db = run_settled, t_marks = {}\<rparr>"
proof -
  let ?s = "\<lambda>d. \<lparr>t_db = d, t_marks = {}\<rparr> :: tsys" and ?d = "snd (ClaimJob [] 0 0 run_queued)"
  have "tstep c (?s run_queued) (?s ?d)" using tstep.claim [of c "?s run_queued" "[]" 0 0] by simp
  then have 1: "treach c (?s ?d)" by (rule treach.step [OF run_queued_reached])
  have "job_view ?d ''j'' = Some (TranscribePayload ''e'', JobProcessing, 1)" by code_simp
  then have "tstep c (?s ?d) (?s run_settled)"
    using tstep.settle [of "?s ?d" "''j''" "''e''" JobProcessing 1 TranscriptNone c 1 None 1]
    by (simp add: run_settled_def in_progress_def)
  then show ?thesis by (rule treach.step [OF 1])
qed

lemma one_active_job_witness: "hd (jobs run_queued) = last (jobs run_queued)"
proof -
  have "length (jobs run_queued) = 1 \<and> jr_payload (hd (jobs run_queued)) = TranscribePayload ''e''
     \<and> jr_status (hd (jobs run_queued)) = JobPending" by code_simp
  then obtain r where r: "jobs run_queued = [r]" "jr_payload r = TranscribePayload ''e''" "jr_status r = JobPending"
    by (cases "jobs run_queued") auto
  show ?thesis
    by (rule one_active_job [OF run_queued_reached [of True], where eid = "''e''"]) (simp_all add: r)
qed

lemma run_queued_episode:
  "EpisodeByID ''e'' run_queued = Inr (scanEpisode (ex_episode_row ''e'' ''k'' TranscriptPending))"
  by code_simp


lemma settled_has_no_job_witness: "jr_status (hd (jobs run_settled)) \<in> {JobDone, JobFailed}"
proof -
  have "length (jobs run_settled) = 1 \<and> jr_payload (hd (jobs run_settled)) = TranscribePayload ''e''" by code_simp
  then have j: "hd (jobs run_settled) \<in> set (jobs run_settled)"
    "jr_payload (hd (jobs run_settled)) = TranscribePayload ''e''"
    by (auto intro!: hd_in_set)
  have "case EpisodeByID ''e'' run_settled of Inl _ \<Rightarrow> False | Inr e \<Rightarrow> \<not> in_progress (e_TranscriptStatus e)"
    by code_simp
  then obtain e where "EpisodeByID ''e'' run_settled = Inr e" "\<not> in_progress (e_TranscriptStatus e)"
    by (auto split: sum.splits)
  from settled_has_no_job [OF run_settled_reached [of True], simplified, OF this j] show ?thesis by simp
qed

lemma ex_stranded: "stranded ''e'' \<lparr>t_db = ex_db TranscriptProcessing JobFailed 5 0, t_marks = {}\<rparr>"
  by (auto simp: stranded_def ex_wf transcribing_view active_at_def in_progress_def)

lemma stranded_forever_witness:
  "snd (EnqueueTranscriptionJob (new_job JobTranscribe (TranscribePayload ''e'') ''j2'' 7) ''e'' 7
        (snd (ClaimJob [] 0 0 (ex_db TranscriptProcessing JobFailed 5 0))))
     = snd (ClaimJob [] 0 0 (ex_db TranscriptProcessing JobFailed 5 0))"
proof -
  let ?s = "\<lparr>t_db = ex_db TranscriptProcessing JobFailed 5 0, t_marks = {}\<rparr> :: tsys"
  let ?s' = "?s\<lparr>t_db := snd (ClaimJob [] 0 0 (t_db ?s))\<rparr>"
  have step: "rtranclp (tstep True) ?s ?s'" by (rule r_into_rtranclp) (rule tstep.claim)
  have "EpisodeByID ''e'' (snd (ClaimJob [] 0 0 (ex_db TranscriptProcessing JobFailed 5 0)))
      = Inr (scanEpisode (ex_episode_row ''e'' ''k'' TranscriptProcessing))" by code_simp
  then show ?thesis
    using stranded_forever [OF ex_stranded step] ex_EpisodeByID by fastforce
qed

section \<open>Asking for a transcription\<close>

text \<open>
  Asking the queue for a transcription is one step or none: it succeeds exactly when the episode
  exists, is not already in progress and the job id is new, and then the episode is pending
  and the job queued; otherwise nothing is written and the reason is reported.
\<close>

theorem enqueue_is_atomic:
  assumes "wf_db d" "q_store q = sqlite_jobs" "EnqueueTranscription q eid i now d = (res, d')"
  shows "(res = Inr () \<longleftrightarrow> (\<exists>ep. EpisodeByID eid d = Inr ep \<and> \<not> in_progress (e_TranscriptStatus ep)) \<and> job_state i d = None)
    \<and> (res = Inr () \<longrightarrow> ep_view d' = (ep_view d)(eid \<mapsto> TranscriptPending)
         \<and> job_view d' = (job_view d)(i \<mapsto> (TranscribePayload eid, JobPending, 0)))
    \<and> (res \<noteq> Inr () \<longrightarrow> d' = d)"
proof -
  have r: "EnqueueTranscriptionJob (new_job JobTranscribe (TranscribePayload eid) i now) eid now d = (res, d')"
    using assms(2,3) by (simp add: EnqueueTranscription_def sqlite_jobs_def)
  have e: "(\<exists>st. ep_view d eid = Some st \<and> \<not> in_progress st) \<longleftrightarrow> (\<exists>ep. EpisodeByID eid d = Inr ep \<and> \<not> in_progress (e_TranscriptStatus ep))"
    by (auto simp: ep_view_def EpisodeByID_def episodeWhere_def scanEpisode_def split: option.splits)
  have j: "job_view d i = None \<longleftrightarrow> job_state i d = None" by (auto simp: job_view_def job_state_def)
  show ?thesis
    using view_EnqueueTranscriptionJob [OF assms(1) _ _ _ r] e j by (auto simp: new_job_def split: if_splits)
qed

lemma enqueue_is_atomic_witness:
  "fst (EnqueueTranscription ex_queue ''e'' ''j2'' 0 (ex_db TranscriptPending JobPending 0 0)) \<noteq> Inr ()"
proof -
  obtain r d' where e: "EnqueueTranscription ex_queue ''e'' ''j2'' 0 (ex_db TranscriptPending JobPending 0 0) = (r, d')"
    by fastforce
  have "q_store ex_queue = sqlite_jobs" by (simp add: ex_queue_def NewQueue_def)
  from enqueue_is_atomic [OF ex_wf this e] e show ?thesis
    by (simp add: ex_EpisodeByID scanEpisode_def ex_episode_row_def in_progress_def)
qed

end
