(* ===== verification/Session.thy ===== *)
theory Session
  imports Strconv Db
begin

text \<open>
  \<open>internal/session/session.go\<close>: stateless signed session cookies.  The unpadded URL-safe
  base64 of the standard library is written out (with its tolerance for line breaks and
  for stray trailing bits); HMAC-SHA256 under the manager's key is a function of the
  payload that the manager carries.  The lemmas give the round trip of a cookie and what
  an accepted cookie proves about its contents.
\<close>

section \<open>Base64\<close>

definition b64alphabet :: string where
  "b64alphabet = ''ABCDEFGHIJKLMNOPQRSTUVWXYZabcdefghijklmnopqrstuvwxyz0123456789-_''"

definition b64char :: "nat \<Rightarrow> char" where "b64char n = b64alphabet ! n"

abbreviation byte :: "char \<Rightarrow> nat" where "byte c \<equiv> of_char c"

fun b64enc :: "string \<Rightarrow> string" where
  "b64enc [] = []"
| "b64enc [a] = [b64char (byte a div 4), b64char (byte a mod 4 * 16)]"
| "b64enc [a, b] = [b64char (byte a div 4), b64char (byte a mod 4 * 16 + byte b div 16),
     b64char (byte b mod 16 * 4)]"
| "b64enc (a # b # c # s) = b64char (byte a div 4) # b64char (byte a mod 4 * 16 + byte b div 16)
     # b64char (byte b mod 16 * 4 + byte c div 64) # b64char (byte c mod 64) # b64enc s"

definition b64val :: "char \<Rightarrow> nat option" where
  "b64val c = map_option fst (find (\<lambda>p. snd p = c) (zip [0..<64] b64alphabet))"

fun b64bytes :: "nat list \<Rightarrow> string option" where
  "b64bytes [] = Some []"
| "b64bytes [_] = None"
| "b64bytes [x, y] = Some [char_of (x * 4 + y div 16)]"
| "b64bytes [x, y, z] = Some [char_of (x * 4 + y div 16), char_of (y mod 16 * 16 + z div 4)]"
| "b64bytes (x # y # z # w # ns) = map_option (\<lambda>s. char_of (x * 4 + y div 16)
     # char_of (y mod 16 * 16 + z div 4) # char_of (z mod 4 * 64 + w) # s) (b64bytes ns)"

definition b64dec :: "string \<Rightarrow> string option" where
  "b64dec s = (let vs = map b64val (filter (\<lambda>c. c \<noteq> CHR 0x0A \<and> c \<noteq> CHR 0x0D) s)
     in if list_all (\<lambda>v. v \<noteq> None) vs then b64bytes (map the vs) else None)"

section \<open>The manager\<close>

record Manager =
  m_mac :: "string \<Rightarrow> string"
  m_cookieName :: string
  m_ttl :: duration
  m_secure :: bool

datatype SessionOption = WithCookieName string | WithTTL duration | WithSecure bool

fun apply_session_option :: "SessionOption \<Rightarrow> Manager \<Rightarrow> Manager" where
  "apply_session_option (WithCookieName n) m = m\<lparr>m_cookieName := n\<rparr>"
| "apply_session_option (WithTTL d) m = m\<lparr>m_ttl := d\<rparr>"
| "apply_session_option (WithSecure b) m = m\<lparr>m_secure := b\<rparr>"

text \<open>\<open>hmacSHA256 key\<close> is the keyed function of the standard library.\<close>

definition NewManager :: "('k \<Rightarrow> string \<Rightarrow> string) \<Rightarrow> 'k \<Rightarrow> SessionOption list \<Rightarrow> Manager" where
  "NewManager hmacSHA256 key options = fold apply_session_option options
     \<lparr>m_mac = hmacSHA256 key, m_cookieName = ''castlet_session'', m_ttl = 720 * Hour, m_secure = False\<rparr>"

record cookie =
  ck_Name :: string
  ck_Value :: string
  ck_Path :: string
  ck_Expires :: "time option"
  ck_MaxAge :: int
  ck_HttpOnly :: bool
  ck_Secure :: bool
  ck_SameSiteLax :: bool

definition sign :: "Manager \<Rightarrow> string \<Rightarrow> int \<Rightarrow> time \<Rightarrow> string" where
  "sign m userID epoch expiry =
     (let payload = b64enc userID @ ''.'' @ b64enc (FormatInt (toUnix expiry)) @ ''.'' @ b64enc (FormatInt epoch)
      in payload @ ''.'' @ b64enc (m_mac m payload))"

text \<open>\<open>None\<close> is \<open>errInvalid\<close>; the order of the tests is the code's.\<close>

definition verify :: "Manager \<Rightarrow> string \<Rightarrow> time \<Rightarrow> (string \<times> int) option" where
  "verify m value now =
     (case Split CHR ''.'' value of
        [p0, p1, p2, p3] \<Rightarrow>
          (let payload = p0 @ ''.'' @ p1 @ ''.'' @ p2 in
           case b64dec p3 of None \<Rightarrow> None
           | Some gotMAC \<Rightarrow>
               if gotMAC \<noteq> m_mac m payload then None
               else (case b64dec p1 of None \<Rightarrow> None
                     | Some expRaw \<Rightarrow>
                         (case ParseInt expRaw of None \<Rightarrow> None
                          | Some expUnix \<Rightarrow>
                              if expUnix \<le> toUnix now then None
                              else (case b64dec p2 of None \<Rightarrow> None
                                    | Some epochRaw \<Rightarrow>
                                        (case ParseInt epochRaw of None \<Rightarrow> None
                                         | Some epoch \<Rightarrow>
                                             (case b64dec p0 of None \<Rightarrow> None
                                              | Some uidRaw \<Rightarrow> Some (uidRaw, epoch)))))))
      | _ \<Rightarrow> None)"

definition Issue :: "Manager \<Rightarrow> string \<Rightarrow> int \<Rightarrow> time \<Rightarrow> cookie" where
  "Issue m userID epoch now =
     (let expiry = now + m_ttl m
      in \<lparr>ck_Name = m_cookieName m, ck_Value = sign m userID epoch expiry, ck_Path = ''/'',
          ck_Expires = Some expiry, ck_MaxAge = m_ttl m div Second, ck_HttpOnly = True,
          ck_Secure = m_secure m, ck_SameSiteLax = True\<rparr>)"

definition Clear :: "Manager \<Rightarrow> cookie" where
  "Clear m = \<lparr>ck_Name = m_cookieName m, ck_Value = [], ck_Path = ''/'', ck_Expires = None,
     ck_MaxAge = - 1, ck_HttpOnly = True, ck_Secure = m_secure m, ck_SameSiteLax = True\<rparr>"

text \<open>The request's cookies are an association list; \<open>r.Cookie\<close> takes the first of the name.\<close>

definition sessionUserID :: "Manager \<Rightarrow> (string \<times> string) list \<Rightarrow> time \<Rightarrow> (string \<times> int) option" where
  "sessionUserID m cookies now =
     (case map_of cookies (m_cookieName m) of None \<Rightarrow> None | Some v \<Rightarrow> verify m v now)"

section \<open>Base64 round trip\<close>

lemma byte_less [simp]: "byte c < 256" by (rule of_char_mod_256 [THEN subst]) simp

lemma b64val_char: "n < 64 \<Longrightarrow> b64val (b64char n) = Some n"
proof -
  have "list_all (\<lambda>n. b64val (b64char n) = Some n) [0..<64]" by code_simp
  then show "n < 64 \<Longrightarrow> b64val (b64char n) = Some n" by (simp add: list_all_iff)
qed

lemma b64char_plain:
  assumes "n < 64" shows "b64char n \<notin> {CHR 0x0A, CHR 0x0D, CHR ''.''}"
proof -
  have "list_all (\<lambda>n. b64char n \<notin> {CHR 0x0A, CHR 0x0D, CHR ''.''}) [0..<64]" by code_simp
  with assms show ?thesis by (simp add: list_all_iff)
qed

definition digits64 :: "string \<Rightarrow> nat list" where "digits64 s = map (\<lambda>c. the (b64val c)) (b64enc s)"

lemma div4_less: "byte a div 4 < 64" using byte_less [of a] by linarith
lemma mix1_less: "byte a mod 4 * 16 + byte b div 16 < 64" using byte_less [of b] by linarith
lemma mix2_less: "byte b mod 16 * 4 + byte c div 64 < 64" using byte_less [of c] by linarith
lemma mix3_less: "byte a mod 4 * 16 < 64" "byte b mod 16 * 4 < 64" "byte c mod 64 < 64" by linarith+

lemmas sextets = div4_less mix1_less mix2_less mix3_less

lemma b64enc_sextets: "\<forall>c \<in> set (b64enc s). \<exists>n < 64. c = b64char n"
proof -
  have "n < 64 \<Longrightarrow> \<exists>m < 64. b64char n = b64char m" for n by blast
  then show ?thesis by (induction s rule: b64enc.induct) (simp_all add: sextets)
qed

lemma b64enc_dot: "CHR ''.'' \<notin> set (b64enc s)"
  using b64enc_sextets [of s] b64char_plain by fastforce

lemma char_of_byte: "n = byte c \<Longrightarrow> char_of n = c" by simp

lemma b64bytes_digits: "b64bytes (map (\<lambda>c. the (b64val c)) (b64enc s)) = Some s"
proof (induction s rule: b64enc.induct)
  case (2 a)
  show ?case by (simp add: b64val_char sextets)
next
  case (3 a b)
  have "byte b div 16 < 16" using byte_less [of b] by linarith
  then show ?case by (simp add: b64val_char sextets)
next
  case (4 a b c s)
  have "byte b div 16 < 16" "byte c div 64 < 4" using byte_less [of b] byte_less [of c] by linarith+
  with 4 show ?case by (simp add: b64val_char sextets)
qed simp

lemma b64dec_enc [simp]: "b64dec (b64enc s) = Some s"
proof -
  have "filter (\<lambda>c. c \<noteq> CHR 0x0A \<and> c \<noteq> CHR 0x0D) (b64enc s) = b64enc s"
    using b64enc_sextets [of s] b64char_plain by (intro filter_True) fastforce
  moreover have "list_all (\<lambda>v. v \<noteq> None) (map b64val (b64enc s))"
    using b64enc_sextets [of s] b64val_char by (fastforce simp: list_all_iff)
  ultimately show ?thesis using b64bytes_digits [of s] by (simp add: b64dec_def comp_def)
qed

section \<open>What a cookie proves\<close>

definition payload_of :: "string \<Rightarrow> int \<Rightarrow> time \<Rightarrow> string" where
  "payload_of userID epoch expiry =
     b64enc userID @ ''.'' @ b64enc (FormatInt (toUnix expiry)) @ ''.'' @ b64enc (FormatInt epoch)"

lemma sign_payload:
  "sign m uid epoch expiry = payload_of uid epoch expiry @ ''.'' @ b64enc (m_mac m (payload_of uid epoch expiry))"
  by (simp add: sign_def payload_of_def Let_def)

lemma Split_payload:
  "Split CHR ''.'' (payload_of uid epoch expiry)
     = [b64enc uid, b64enc (FormatInt (toUnix expiry)), b64enc (FormatInt epoch)]"
  by (simp add: payload_of_def Split_append Split_word b64enc_dot)

lemma Split_sign:
  "Split CHR ''.'' (sign m uid epoch expiry)
     = [b64enc uid, b64enc (FormatInt (toUnix expiry)), b64enc (FormatInt epoch),
        b64enc (m_mac m (payload_of uid epoch expiry))]"
  by (simp add: sign_payload payload_of_def Split_append Split_word b64enc_dot)

definition int64 :: "int \<Rightarrow> bool" where "int64 n \<longleftrightarrow> - (2 ^ 63) \<le> n \<and> n < 2 ^ 63"

text \<open>
  A signed session verifies to its user and epoch exactly until it expires.
\<close>

theorem verify_sign:
  assumes "int64 epoch" "int64 (toUnix expiry)"
  shows "verify m (sign m uid epoch expiry) now =
     (if toUnix now < toUnix expiry then Some (uid, epoch) else None)"
  using assms by (simp add: verify_def Split_sign Let_def ParseInt_FormatInt int64_def)
    (simp add: payload_of_def)

text \<open>An accepted value carries the MAC of its own payload, and the payload says the rest.\<close>

lemma verify_Some:
  assumes "verify m value now = Some (uid, epoch)"
  obtains p0 p1 p2 p3 n where "Split CHR ''.'' value = [p0, p1, p2, p3]"
    and "b64dec p3 = Some (m_mac m (p0 @ ''.'' @ p1 @ ''.'' @ p2))"
    and "b64dec p0 = Some uid" and "map_option ParseInt (b64dec p1) = Some (Some n)" "toUnix now < n"
    and "map_option ParseInt (b64dec p2) = Some (Some epoch)"
  using assms by (auto simp: verify_def Let_def split: list.splits option.splits if_splits)

text \<open>
  Unforgeability of the cookie from that of the MAC: if the presenter can only produce
  tags of payloads the server signed, an accepted cookie names a signed user, epoch and a
  signed expiry that has not passed.
\<close>

text \<open>
  C31: A cookie value that verifies carries the MAC of its own payload and has not expired, so
  only values the server signed are accepted.
\<close>

theorem verify_only_signed:
  assumes "verify m value now = Some (uid, epoch)"
    and "\<And>p. Join ''.'' (butlast (Split CHR ''.'' value)) = p \<Longrightarrow>
           b64dec (last (Split CHR ''.'' value)) = Some (m_mac m p) \<Longrightarrow>
           \<exists>(u, e, x) \<in> issued. p = payload_of u e x"
    and "\<forall>(u, e, x) \<in> issued. int64 e \<and> int64 (toUnix x)"
  shows "\<exists>x. (uid, epoch, x) \<in> issued \<and> toUnix now < toUnix x"
proof -
  from assms(1) obtain p0 p1 p2 p3 n where sp: "Split CHR ''.'' value = [p0, p1, p2, p3]"
    and mac: "b64dec p3 = Some (m_mac m (p0 @ ''.'' @ p1 @ ''.'' @ p2))"
    and f: "b64dec p0 = Some uid" "map_option ParseInt (b64dec p1) = Some (Some n)" "toUnix now < n"
      "map_option ParseInt (b64dec p2) = Some (Some epoch)"
    by (rule verify_Some)
  have "Join ''.'' (butlast (Split CHR ''.'' value)) = p0 @ ''.'' @ p1 @ ''.'' @ p2" by (simp add: sp)
  from assms(2) [OF this] mac obtain u e x where s: "(u, e, x) \<in> issued"
    and p: "p0 @ ''.'' @ p1 @ ''.'' @ p2 = payload_of u e x" by (auto simp: sp)
  have nodot: "CHR ''.'' \<notin> set w" if "w \<in> set (Split CHR ''.'' value)" for w
    using that Split_no_sep by blast
  have "Split CHR ''.'' (payload_of u e x) = [p0, p1, p2]"
    using nodot unfolding p [symmetric] by (simp add: sp Split_append Split_word)
  then have "p0 = b64enc u" "p1 = b64enc (FormatInt (toUnix x))" "p2 = b64enc (FormatInt e)"
    by (simp_all add: Split_payload)
  with f assms(3) s have "uid = u" "n = toUnix x" "epoch = e"
    by (auto simp: ParseInt_FormatInt int64_def)
  with s f(3) show ?thesis by blast
qed

lemma Issue_lifetime:
  assumes "int64 epoch" "int64 (toUnix (now + m_ttl m))"
  shows "sessionUserID m [(m_cookieName m, ck_Value (Issue m uid epoch now))] t =
    (if toUnix t < toUnix (now + m_ttl m) then Some (uid, epoch) else None)"
  by (simp add: sessionUserID_def Issue_def Let_def verify_sign [OF assms])

lemma verify_sign_witness:
  "verify \<lparr>m_mac = id, m_cookieName = ''s'', m_ttl = Hour, m_secure = False\<rparr>
     (sign \<lparr>m_mac = id, m_cookieName = ''s'', m_ttl = Hour, m_secure = False\<rparr> ''u'' 3 Hour) 0 = Some (''u'', 3)"
  using verify_sign [of 3 Hour] by (simp add: int64_def toUnix_def units)

lemma verify_only_signed_witness:
  "\<exists>x. (''u'', 3 :: int, x) \<in> {(''u'', 3, Hour)} \<and> toUnix 0 < toUnix x"
proof -
  let ?m = "\<lparr>m_mac = id, m_cookieName = ''s'', m_ttl = Hour, m_secure = False\<rparr>"
  have j: "Join ''.'' (butlast (Split CHR ''.'' (sign ?m ''u'' 3 Hour))) = payload_of ''u'' 3 Hour"
    by (simp add: Split_sign) (simp add: payload_of_def)
  show ?thesis
    by (rule verify_only_signed [OF verify_sign_witness, where issued = "{(''u'', 3, Hour)}"])
      (use j in \<open>auto simp: int64_def toUnix_def units\<close>)
qed

end
