(* ===== verification/RateLimit.thy ===== *)
theory RateLimit
  imports Prelude "HOL-Library.Finite_Map"
begin

text \<open>
  \<open>server/ratelimit.go\<close>: the in-memory fixed-window limiter of failed password logins, keyed
  by client IP.  Each method runs under the limiter's mutex, so the methods are state
  functions.  The Go zero time of \<open>lastSweep\<close> is \<open>None\<close>: it is further back than any window.
\<close>

section \<open>State\<close>

definition loginRateLimitMax :: int where "loginRateLimitMax = 5"
definition loginRateLimitWindow :: duration where [units]: "loginRateLimitWindow = Minute"
definition loginLimiterMaxEntries :: nat where "loginLimiterMaxEntries = 10000"

record loginBucket =
  lb_count :: int
  lb_resetAt :: time

record loginLimiter =
  ll_buckets :: "(string, loginBucket) fmap"
  ll_max :: int
  ll_window :: duration
  ll_maxEntries :: nat
  ll_lastSweep :: "time option"

definition newLoginLimiter :: "int \<Rightarrow> duration \<Rightarrow> nat \<Rightarrow> loginLimiter" where
  "newLoginLimiter maxFailures window maxEntries =
     \<lparr>ll_buckets = fmempty, ll_max = maxFailures, ll_window = window, ll_maxEntries = maxEntries,
      ll_lastSweep = None\<rparr>"

section \<open>Methods\<close>

text \<open>\<open>None\<close> when the key is not throttled, otherwise the time left.\<close>

definition blocked :: "string \<Rightarrow> time \<Rightarrow> loginLimiter \<Rightarrow> duration option" where
  "blocked key now l =
     (case fmlookup (ll_buckets l) key of
        None \<Rightarrow> None
      | Some b \<Rightarrow>
          if lb_resetAt b \<le> now then None
          else if lb_count b < ll_max l then None
          else Some (lb_resetAt b - now))"

definition bucket_count :: "loginLimiter \<Rightarrow> nat" where
  "bucket_count l = fcard (fmdom (ll_buckets l))"

definition sweepLocked :: "time \<Rightarrow> loginLimiter \<Rightarrow> loginLimiter" where
  "sweepLocked now l =
     (let over = ll_maxEntries l \<le> bucket_count l in
      if \<not> over \<and> (case ll_lastSweep l of None \<Rightarrow> False | Some s \<Rightarrow> now - s < ll_window l) then l
      else (let l1 = l\<lparr>ll_lastSweep := Some now,
                       ll_buckets := fmfilter (\<lambda>k. case fmlookup (ll_buckets l) k of None \<Rightarrow> False
                                         | Some b \<Rightarrow> now < lb_resetAt b) (ll_buckets l)\<rparr>
            in if ll_maxEntries l1 \<le> bucket_count l1 then l1\<lparr>ll_buckets := fmempty\<rparr> else l1))"

definition failLogin :: "string \<Rightarrow> time \<Rightarrow> loginLimiter \<Rightarrow> loginLimiter" where
  "failLogin key now l0 =
     (let l = sweepLocked now l0 in
      case fmlookup (ll_buckets l) key of
        None \<Rightarrow> l\<lparr>ll_buckets := fmupd key \<lparr>lb_count = 1, lb_resetAt = now + ll_window l\<rparr> (ll_buckets l)\<rparr>
      | Some b \<Rightarrow>
          if lb_resetAt b \<le> now
          then l\<lparr>ll_buckets := fmupd key \<lparr>lb_count = 1, lb_resetAt = now + ll_window l\<rparr> (ll_buckets l)\<rparr>
          else l\<lparr>ll_buckets := fmupd key (b\<lparr>lb_count := lb_count b + 1\<rparr>) (ll_buckets l)\<rparr>)"

definition resetLogin :: "string \<Rightarrow> loginLimiter \<Rightarrow> loginLimiter" where
  "resetLogin key l = l\<lparr>ll_buckets := fmdrop key (ll_buckets l)\<rparr>"

text \<open>\<open>net.SplitHostPort\<close> failing falls back to the whole remote address.\<close>

definition clientIP :: "(string \<Rightarrow> string option) \<Rightarrow> string \<Rightarrow> string" where
  "clientIP splitHost remoteAddr = (case splitHost remoteAddr of None \<Rightarrow> remoteAddr | Some host \<Rightarrow> host)"

section \<open>Memory stays bounded\<close>

lemma sweep_config [simp]:
  "ll_max (sweepLocked now l) = ll_max l" "ll_window (sweepLocked now l) = ll_window l"
  "ll_maxEntries (sweepLocked now l) = ll_maxEntries l"
  by (simp_all add: sweepLocked_def Let_def)

lemma fail_config [simp]:
  "ll_max (failLogin key now l) = ll_max l" "ll_window (failLogin key now l) = ll_window l"
  "ll_maxEntries (failLogin key now l) = ll_maxEntries l"
  by (simp_all add: failLogin_def Let_def split: option.split)

lemma sweep_count: "0 < ll_maxEntries l \<Longrightarrow> bucket_count (sweepLocked now l) < ll_maxEntries l"
  by (auto simp: sweepLocked_def Let_def bucket_count_def fcard_fempty)

lemma fcard_fmupd: "fcard (fmdom (fmupd k v m)) \<le> fcard (fmdom m) + 1"
  by (simp add: fcard_finsert_if)

lemma fail_count:
  assumes "0 < ll_maxEntries l"
  shows "bucket_count (failLogin key now l) \<le> ll_maxEntries l"
  using sweep_count [OF assms, of now] fcard_fmupd [of key _ "ll_buckets (sweepLocked now l)"]
  by (auto simp: failLogin_def Let_def bucket_count_def fcard_finsert_if split: option.split)

section \<open>Runs of the login path\<close>

datatype limiter_op = Fail string time | Reset string

fun limiter_step :: "limiter_op \<Rightarrow> loginLimiter \<Rightarrow> loginLimiter" where
  "limiter_step (Fail k t) l = failLogin k t l"
| "limiter_step (Reset k) l = resetLogin k l"

definition limiter_run :: "limiter_op list \<Rightarrow> loginLimiter \<Rightarrow> loginLimiter" where
  "limiter_run ops l = fold limiter_step ops l"

lemma limiter_run_config: "ll_maxEntries (limiter_run ops l) = ll_maxEntries l"
proof (induction ops arbitrary: l)
  case (Cons op ops)
  then show ?case by (cases op) (simp_all add: limiter_run_def resetLogin_def)
qed (simp add: limiter_run_def)

lemma reset_count: "bucket_count (resetLogin k l) \<le> bucket_count l"
  by (simp add: resetLogin_def bucket_count_def fcard_mono fminus_fsubset)

text \<open>
  The login limiter never tracks more clients than its bound.
\<close>

theorem limiter_bounded:
  assumes "0 < maxEntries"
  shows "bucket_count (limiter_run ops (newLoginLimiter maxFailures window maxEntries)) \<le> maxEntries"
proof -
  have "bucket_count l \<le> ll_maxEntries l \<Longrightarrow> 0 < ll_maxEntries l \<Longrightarrow>
      bucket_count (limiter_run ops l) \<le> ll_maxEntries l" for l
  proof (induction ops arbitrary: l)
    case (Cons op ops)
    have "bucket_count (limiter_step op l) \<le> ll_maxEntries (limiter_step op l)
        \<and> ll_maxEntries (limiter_step op l) = ll_maxEntries l"
      using Cons.prems fail_count [of l] reset_count [of _ l]
      by (cases op) (auto simp: resetLogin_def intro: order.trans)
    with Cons.IH [of "limiter_step op l"] Cons.prems show ?case by (simp add: limiter_run_def)
  qed (simp add: limiter_run_def)
  from this [of "newLoginLimiter maxFailures window maxEntries"] assms show ?thesis
    by (simp add: newLoginLimiter_def bucket_count_def fcard_fempty)
qed

section \<open>Throttling\<close>

text \<open>A bucket inside its window survives a sweep that does not overflow.\<close>

lemma sweep_keeps:
  assumes "fmlookup (ll_buckets l) key = Some b" "now < lb_resetAt b" "bucket_count l < ll_maxEntries l"
  shows "fmlookup (ll_buckets (sweepLocked now l)) key = Some b"
proof -
  have "fcard (fmdom (fmfilter P (ll_buckets l))) \<le> bucket_count l" for P
    by (auto simp: bucket_count_def intro!: fcard_mono)
  then show ?thesis
    using assms by (auto simp: sweepLocked_def Let_def bucket_count_def not_le)
      (meson leD order.strict_trans1)
qed

text \<open>Consecutive failures at instants of one window count up without skipping.\<close>

lemma fail_counts:
  assumes "fmlookup (ll_buckets l) key = Some b" "now < lb_resetAt b" "bucket_count l < ll_maxEntries l"
  shows "fmlookup (ll_buckets (failLogin key now l)) key = Some (b\<lparr>lb_count := lb_count b + 1\<rparr>)"
  using sweep_keeps [OF assms] assms(2) by (simp add: failLogin_def Let_def)

lemma fail_first:
  assumes "fmlookup (ll_buckets l) key = None"
  shows "fmlookup (ll_buckets (failLogin key now l)) key = Some \<lparr>lb_count = 1, lb_resetAt = now + ll_window l\<rparr>"
proof -
  have "fmlookup (ll_buckets (sweepLocked now l)) key = None"
    using assms by (auto simp: sweepLocked_def Let_def)
  then show ?thesis by (simp add: failLogin_def Let_def)
qed

text \<open>The operations of one window: attempts before the instant \<open>R\<close>, no success of the key.\<close>

fun within :: "time \<Rightarrow> string \<Rightarrow> limiter_op \<Rightarrow> bool" where
  "within R key (Fail _ t) = (t < R)"
| "within R key (Reset k) = (k \<noteq> key)"

fun fails_of :: "string \<Rightarrow> limiter_op \<Rightarrow> bool" where
  "fails_of key (Fail k _) = (k = key)"
| "fails_of key (Reset _) = False"

definition failures :: "string \<Rightarrow> limiter_op list \<Rightarrow> int" where
  "failures key ops = int (length (filter (fails_of key) ops))"

lemma fail_other:
  assumes "fmlookup (ll_buckets l) key = Some b" "now < lb_resetAt b" "bucket_count l < ll_maxEntries l" "k \<noteq> key"
  shows "fmlookup (ll_buckets (failLogin k now l)) key = Some b"
  using sweep_keeps [OF assms(1-3)] assms(4) by (simp add: failLogin_def Let_def split: option.split)

lemma sweep_shrinks: "bucket_count (sweepLocked now l) \<le> bucket_count l"
  by (auto simp: sweepLocked_def Let_def bucket_count_def fcard_fempty intro!: fcard_mono)

lemma fail_grows: "bucket_count (failLogin key now l) \<le> bucket_count l + 1"
  using sweep_shrinks [of now l] by (auto simp: failLogin_def Let_def bucket_count_def fcard_finsert_if split: option.split)

lemma step_grows: "bucket_count (limiter_step op l) \<le> bucket_count l + 1"
proof (cases op)
  case (Reset k)
  then show ?thesis using reset_count [of k l] by simp
qed (simp add: fail_grows [simplified])

lemma step_config:
  "ll_max (limiter_step op l) = ll_max l" "ll_maxEntries (limiter_step op l) = ll_maxEntries l"
  "ll_window (limiter_step op l) = ll_window l"
  by (cases op; simp add: resetLogin_def)+

lemma run_counts:
  assumes "fmlookup (ll_buckets l) key = Some b" "list_all (within (lb_resetAt b) key) ops"
    and "bucket_count l + length ops \<le> ll_maxEntries l"
  shows "fmlookup (ll_buckets (limiter_run ops l)) key = Some (b\<lparr>lb_count := lb_count b + failures key ops\<rparr>)
    \<and> ll_max (limiter_run ops l) = ll_max l"
  using assms
proof (induction ops arbitrary: l b)
  case (Cons op ops)
  let ?b = "if fails_of key op then b\<lparr>lb_count := lb_count b + 1\<rparr> else b"
  have "fmlookup (ll_buckets (limiter_step op l)) key = Some ?b"
    using Cons.prems fail_counts [of l key b] fail_other [of l key b]
    by (cases op) (auto simp: resetLogin_def)
  moreover have "bucket_count (limiter_step op l) + length ops \<le> ll_maxEntries (limiter_step op l)"
    using Cons.prems(3) step_grows [of op l] by (simp add: step_config)
  ultimately have "fmlookup (ll_buckets (limiter_run ops (limiter_step op l))) key
      = Some (?b\<lparr>lb_count := lb_count ?b + failures key ops\<rparr>)
      \<and> ll_max (limiter_run ops (limiter_step op l)) = ll_max (limiter_step op l)"
    using Cons.IH [of "limiter_step op l" ?b] Cons.prems(2) by auto
  then show ?case by (auto simp: limiter_run_def failures_def step_config)
qed (simp add: limiter_run_def failures_def)

text \<open>
  A client with as many failures inside the window as the limit is blocked until the window
  has passed.
\<close>

theorem limiter_throttles:
  assumes "fmlookup (ll_buckets l) key = None"
    and "list_all (within (t0 + ll_window l) key) ops"
    and "bucket_count l + 1 + length ops \<le> ll_maxEntries l" "t < t0 + ll_window l"
  shows "blocked key t (limiter_run (Fail key t0 # ops) l) =
    (if ll_max l \<le> 1 + failures key ops then Some (t0 + ll_window l - t) else None)"
proof -
  let ?l = "failLogin key t0 l"
  have f: "fmlookup (ll_buckets ?l) key = Some \<lparr>lb_count = 1, lb_resetAt = t0 + ll_window l\<rparr>"
    by (rule fail_first [OF assms(1)])
  have "bucket_count ?l + length ops \<le> ll_maxEntries ?l" using fail_grows [of key t0 l] assms(3) by simp
  from run_counts [OF f _ this] assms(2)
  have "fmlookup (ll_buckets (limiter_run ops ?l)) key
      = Some \<lparr>lb_count = 1 + failures key ops, lb_resetAt = t0 + ll_window l\<rparr>"
    and "ll_max (limiter_run ops ?l) = ll_max l" by simp_all
  then show ?thesis using assms(4) by (auto simp: blocked_def limiter_run_def)
qed

lemma limiter_bounded_witness:
  "bucket_count (limiter_run [Fail ''a'' 0, Fail ''b'' 0, Fail ''c'' 0] (newLoginLimiter 5 Minute 2)) \<le> 2"
  by (rule limiter_bounded) simp

lemma limiter_throttles_witness:
  "blocked ''a'' 9 (limiter_run [Fail ''a'' 0, Fail ''a'' 1, Fail ''b'' 2] (newLoginLimiter 2 10 100)) = Some 1"
  using limiter_throttles [of "newLoginLimiter 2 10 100" "''a''" 0 "[Fail ''a'' 1, Fail ''b'' 2]" 9]
  by (simp add: newLoginLimiter_def bucket_count_def fcard_fempty failures_def)

end
