(* ===== verification/Http.thy ===== *)
theory Http
  imports Session
begin

text \<open>
  What the handlers see of \<open>net/http\<close>, with \<open>server/form.go\<close>, \<open>server/csrf.go\<close> and
  \<open>server/response.go\<close>: requests, responses, the memoised form parser, the small-form cap
  and the double-submit CSRF check.  \<open>r.ParseForm\<close> reads the body once: the first caller
  decides under which limit.
\<close>

section \<open>Requests and responses\<close>

text \<open>
  \<open>rq_MediaType\<close> is what \<open>mime.ParseMediaType\<close> makes of the Content-Type (\<open>None\<close>: an error);
  the body is given by its size, the fields \<open>url.ParseQuery\<close> finds in it and whether that
  reports an error.  \<open>rq_PostForm\<close> is the parser's memo.
\<close>

record request =
  rq_Method :: string
  rq_RemoteAddr :: string
  rq_PathID :: string
  rq_MediaType :: "string option"
  rq_CsrfHeader :: string
  rq_Query :: "(string \<times> string) list"
  rq_Cookies :: "(string \<times> string) list"
  rq_BodySize :: int
  rq_Fields :: "(string \<times> string) list"
  rq_Malformed :: bool
  rq_PostForm :: "(string \<times> string) list option"

record response =
  rs_Status :: int
  rs_Location :: string
  rs_Message :: string
  rs_Cookies :: "cookie list"
  rs_RetryAfter :: "int option"

definition page :: "int \<Rightarrow> string \<Rightarrow> response" where
  "page status msg = \<lparr>rs_Status = status, rs_Location = [], rs_Message = msg, rs_Cookies = [],
     rs_RetryAfter = None\<rparr>"

definition redirect :: "string \<Rightarrow> response" where
  "redirect path = \<lparr>rs_Status = 303, rs_Location = path, rs_Message = [], rs_Cookies = [],
     rs_RetryAfter = None\<rparr>"

definition withCookie :: "cookie \<Rightarrow> response \<Rightarrow> response" where
  "withCookie c rs = rs\<lparr>rs_Cookies := rs_Cookies rs @ [c]\<rparr>"

definition serverError :: response where "serverError = page 500 ''Something went wrong.''"

section \<open>The form parser\<close>

definition urlencoded :: string where "urlencoded = ''application/x-www-form-urlencoded''"

definition defaultMaxForm :: int where "defaultMaxForm = 10 * 1024 * 1024"
definition maxSmallFormBytes :: int where "maxSmallFormBytes = 64 * 1024"

datatype form_err = FormTooLarge | FormUnreadable

definition hasBody :: "request \<Rightarrow> bool" where
  "hasBody r \<longleftrightarrow> rq_Method r \<in> {''POST'', ''PUT'', ''PATCH''}"

text \<open>\<open>limit\<close> is the size of the \<open>MaxBytesReader\<close> around the body, if there is one.\<close>

definition ParseForm :: "int option \<Rightarrow> request \<Rightarrow> form_err option \<times> request" where
  "ParseForm limit r =
     (case rq_PostForm r of
        Some _ \<Rightarrow> (None, r)
      | None \<Rightarrow>
          if \<not> hasBody r \<or> rq_MediaType r \<noteq> Some urlencoded then (None, r\<lparr>rq_PostForm := Some []\<rparr>)
          else (case limit of
                  Some n \<Rightarrow>
                    if n < rq_BodySize r then (Some FormTooLarge, r\<lparr>rq_PostForm := Some []\<rparr>)
                    else (if rq_Malformed r then Some FormUnreadable else None,
                          r\<lparr>rq_PostForm := Some (rq_Fields r)\<rparr>)
                | None \<Rightarrow>
                    if defaultMaxForm < rq_BodySize r then (Some FormUnreadable, r\<lparr>rq_PostForm := Some []\<rparr>)
                    else (if rq_Malformed r then Some FormUnreadable else None,
                          r\<lparr>rq_PostForm := Some (rq_Fields r)\<rparr>)))"

definition getFirst :: "(string \<times> string) list \<Rightarrow> string \<Rightarrow> string" where
  "getFirst kvs k = (case map_of kvs k of None \<Rightarrow> [] | Some v \<Rightarrow> v)"

definition PostFormValue :: "string \<Rightarrow> request \<Rightarrow> string \<times> request" where
  "PostFormValue k r = (let r1 = snd (ParseForm None r) in (getFirst (the (rq_PostForm r1)) k, r1))"

text \<open>\<open>r.FormValue\<close> after the form was parsed: body fields before query parameters.\<close>

definition FormValue :: "request \<Rightarrow> string \<Rightarrow> string" where
  "FormValue r k = getFirst ((case rq_PostForm r of None \<Rightarrow> [] | Some kvs \<Rightarrow> kvs) @ rq_Query r) k"

definition parseSmallForm :: "request \<Rightarrow> response option \<times> request" where
  "parseSmallForm r =
     (if rq_MediaType r \<noteq> Some urlencoded
      then (Some (page 415 ''This form must be submitted as application/x-www-form-urlencoded.''), r)
      else (case ParseForm (Some maxSmallFormBytes) r of
              (None, r1) \<Rightarrow> (None, r1)
            | (Some FormTooLarge, r1) \<Rightarrow> (Some (page 413 ''The submitted form is too large.''), r1)
            | (Some FormUnreadable, r1) \<Rightarrow> (Some (page 400 ''The form could not be read.''), r1)))"

section \<open>CSRF\<close>

definition csrfCookieName :: string where "csrfCookieName = ''castlet_csrf''"
definition csrfField :: string where "csrfField = ''csrf_token''"
definition csrfTokenBytes :: nat where "csrfTokenBytes = 32"

definition csrfSafeMethod :: "string \<Rightarrow> bool" where
  "csrfSafeMethod m \<longleftrightarrow> m \<in> set [''GET'', ''HEAD'', ''OPTIONS'', ''TRACE'']"

definition validCSRFToken :: "string \<Rightarrow> bool" where
  "validCSRFToken v = (case b64dec v of None \<Rightarrow> False | Some b \<Rightarrow> length b = csrfTokenBytes)"

text \<open>\<open>rnd\<close> is the 32 bytes of \<open>crypto/rand\<close>.\<close>

definition newCSRFToken :: "string \<Rightarrow> string" where "newCSRFToken rnd = b64enc rnd"

definition ensureCSRFCookie :: "bool \<Rightarrow> string \<Rightarrow> request \<Rightarrow> string \<times> cookie list" where
  "ensureCSRFCookie secure rnd r =
     (case map_of (rq_Cookies r) csrfCookieName of
        Some v \<Rightarrow> if validCSRFToken v then (v, []) else
          (newCSRFToken rnd, [\<lparr>ck_Name = csrfCookieName, ck_Value = newCSRFToken rnd, ck_Path = ''/'',
             ck_Expires = None, ck_MaxAge = 0, ck_HttpOnly = True, ck_Secure = secure, ck_SameSiteLax = True\<rparr>])
      | None \<Rightarrow>
          (newCSRFToken rnd, [\<lparr>ck_Name = csrfCookieName, ck_Value = newCSRFToken rnd, ck_Path = ''/'',
             ck_Expires = None, ck_MaxAge = 0, ck_HttpOnly = True, ck_Secure = secure, ck_SameSiteLax = True\<rparr>]))"

definition requestCSRFToken :: "request \<Rightarrow> string \<times> request" where
  "requestCSRFToken r =
     (if rq_CsrfHeader r \<noteq> [] then (rq_CsrfHeader r, r)
      else if getFirst (rq_Query r) csrfField \<noteq> [] then (getFirst (rq_Query r) csrfField, r)
      else if rq_MediaType r = Some urlencoded then PostFormValue csrfField r
      else ([], r))"

definition verifyCSRF :: "request \<Rightarrow> string \<Rightarrow> bool \<times> request" where
  "verifyCSRF r cookieToken =
     (let (got, r1) = requestCSRFToken r
      in (if got = [] \<or> cookieToken = [] then False else got = cookieToken, r1))"

text \<open>
  The middleware: the early response, if the request is rejected, and the request as it is
  handed on.  The cookies are set on the response whatever the outcome.
\<close>

definition csrf :: "bool \<Rightarrow> string \<Rightarrow> request \<Rightarrow> response option \<times> string \<times> cookie list \<times> request" where
  "csrf secure rnd r =
     (let (token, cks) = ensureCSRFCookie secure rnd r in
      if csrfSafeMethod (rq_Method r) then (None, token, cks, r)
      else (let (ok, r1) = verifyCSRF r token in
            if ok then (None, token, cks, r1)
            else (Some (page 403
               ''Invalid or missing security token. Please reload the page and try again.''), token, cks, r1)))"

section \<open>What the guards give\<close>

lemma b64_fresh_valid: "length rnd = csrfTokenBytes \<Longrightarrow> validCSRFToken (newCSRFToken rnd)"
  by (simp add: validCSRFToken_def newCSRFToken_def)

lemma csrf_passed:
  assumes "csrf secure rnd r = (None, token, cks, r1)" "\<not> csrfSafeMethod (rq_Method r)"
  shows "fst (requestCSRFToken r) = token" "token \<noteq> []"
    "map_of (rq_Cookies r) csrfCookieName = Some token \<or> token = newCSRFToken rnd"
  using assms by (auto simp: csrf_def verifyCSRF_def ensureCSRFCookie_def split: prod.splits if_splits option.splits)

lemma parseSmallForm_ok:
  assumes "parseSmallForm r = (None, r1)" "rq_PostForm r = None" "hasBody r"
  shows "rq_MediaType r = Some urlencoded \<and> rq_BodySize r \<le> maxSmallFormBytes \<and> \<not> rq_Malformed r
    \<and> rq_PostForm r1 = Some (rq_Fields r)"
  using assms by (auto simp: parseSmallForm_def ParseForm_def split: if_splits form_err.splits option.splits prod.splits)

text \<open>
  A state-changing request passes the CSRF check only when it repeats the valid token of
  its own cookie.
\<close>

theorem csrf_needs_cookie_token:
  assumes "csrf secure rnd r = (None, token, cks, r1)" "\<not> csrfSafeMethod (rq_Method r)"
    and "fst (requestCSRFToken r) \<noteq> newCSRFToken rnd"
  shows "map_of (rq_Cookies r) csrfCookieName = Some (fst (requestCSRFToken r))
    \<and> validCSRFToken (fst (requestCSRFToken r))"
  using assms by (auto simp: csrf_def verifyCSRF_def ensureCSRFCookie_def
      split: prod.splits if_splits option.splits)

text \<open>The cap holds when the token came in the header or the query string.\<close>

theorem small_form_cap:
  assumes "csrf secure rnd r = (None, token, cks, r1)" "parseSmallForm r1 = (None, r2)"
    and "rq_PostForm r = None" "hasBody r"
    and "rq_CsrfHeader r \<noteq> [] \<or> getFirst (rq_Query r) csrfField \<noteq> []"
  shows "rq_BodySize r \<le> maxSmallFormBytes \<and> \<not> rq_Malformed r \<and> rq_PostForm r2 = Some (rq_Fields r)"
proof -
  have "r1 = r"
    using assms(1,5) by (auto simp: csrf_def verifyCSRF_def requestCSRFToken_def split: prod.splits if_splits)
  with parseSmallForm_ok [of r r2] assms show ?thesis by simp
qed

text \<open>
  When the token is a body field, the CSRF check has already parsed the body under the
  10 MiB default, and the later capped parse is a no-op: larger bodies and bodies that
  \<open>url.ParseQuery\<close> reports as malformed get through.
\<close>

text \<open>
  With the token in the body the CSRF check has parsed the form before the small-form cap
  applies, and an oversized body gets through.
\<close>

theorem small_form_cap_bypassed:
  assumes "hasBody r" "rq_MediaType r = Some urlencoded" "rq_PostForm r = None"
    and "rq_CsrfHeader r = []" "getFirst (rq_Query r) csrfField = []"
    and "map_of (rq_Cookies r) csrfCookieName = Some tok" "validCSRFToken tok" "tok \<noteq> []"
    and "getFirst (rq_Fields r) csrfField = tok" "rq_BodySize r \<le> defaultMaxForm"
  shows "\<exists>r1. csrf secure rnd r = (None, tok, [], r1) \<and> parseSmallForm r1 = (None, r1)
    \<and> rq_PostForm r1 = Some (rq_Fields r)"
proof -
  have pf: "ParseForm None r = (if rq_Malformed r then Some FormUnreadable else None, r\<lparr>rq_PostForm := Some (rq_Fields r)\<rparr>)"
    using assms(1-3,10) by (simp add: ParseForm_def)
  let ?r1 = "r\<lparr>rq_PostForm := Some (rq_Fields r)\<rparr>"
  have c: "csrf secure rnd r = (None, tok, [], ?r1)"
    using assms(2,4-9) pf
    by (simp add: csrf_def verifyCSRF_def requestCSRFToken_def PostFormValue_def ensureCSRFCookie_def Let_def
        split: prod.splits)
      (use assms(1) in \<open>auto simp: csrfSafeMethod_def hasBody_def\<close>)
  moreover have "parseSmallForm ?r1 = (None, ?r1)"
    using assms(2) by (simp add: parseSmallForm_def ParseForm_def)
  ultimately show ?thesis by simp
qed

section \<open>Concrete requests\<close>

definition ex_token :: string where "ex_token = newCSRFToken (replicate 32 CHR ''x'')"

definition ex_request :: "string \<Rightarrow> int \<Rightarrow> request" where
  "ex_request header n = \<lparr>rq_Method = ''POST'', rq_RemoteAddr = ''10.0.0.1:1'', rq_PathID = [],
     rq_MediaType = Some urlencoded, rq_CsrfHeader = header, rq_Query = [],
     rq_Cookies = [(csrfCookieName, ex_token)], rq_BodySize = n, rq_Fields = [(csrfField, ex_token)],
     rq_Malformed = False, rq_PostForm = None\<rparr>"

lemma ex_token_valid: "validCSRFToken ex_token" "ex_token \<noteq> []"
proof -
  show v: "validCSRFToken ex_token" by (simp add: ex_token_def b64_fresh_valid csrfTokenBytes_def)
  show "ex_token \<noteq> []" using v by (auto simp: validCSRFToken_def b64dec_def csrfTokenBytes_def)
qed

lemma ex_csrf_header:
  "csrf True [] (ex_request ex_token n) = (None, ex_token, [], ex_request ex_token n)"
  using ex_token_valid
  by (simp add: csrf_def verifyCSRF_def requestCSRFToken_def ensureCSRFCookie_def ex_request_def csrfSafeMethod_def)

lemma csrf_needs_cookie_token_witness:
  "map_of (rq_Cookies (ex_request ex_token 10)) csrfCookieName = Some ex_token"
proof -
  have t: "fst (requestCSRFToken (ex_request ex_token 10)) = ex_token"
    using ex_token_valid(2) by (simp add: requestCSRFToken_def ex_request_def)
  have "ex_token \<noteq> newCSRFToken []" using ex_token_valid(2) by (simp add: newCSRFToken_def)
  then show ?thesis
    using csrf_needs_cookie_token [OF ex_csrf_header, of 10] t by (simp add: ex_request_def csrfSafeMethod_def)
qed

lemma small_form_cap_witness:
  "rq_BodySize (ex_request ex_token 10) \<le> maxSmallFormBytes"
proof -
  have "parseSmallForm (ex_request ex_token 10) = (None, (ex_request ex_token 10)\<lparr>rq_PostForm := Some [(csrfField, ex_token)]\<rparr>)"
    by (simp add: parseSmallForm_def ParseForm_def ex_request_def hasBody_def maxSmallFormBytes_def)
  from small_form_cap [OF ex_csrf_header this] show ?thesis
    using ex_token_valid(2) by (simp add: ex_request_def hasBody_def)
qed

lemma small_form_cap_bypassed_witness:
  "\<exists>r1. csrf True [] (ex_request [] 1000000) = (None, ex_token, [], r1) \<and> parseSmallForm r1 = (None, r1)
     \<and> maxSmallFormBytes < rq_BodySize (ex_request [] 1000000)"
  using small_form_cap_bypassed [of "ex_request [] 1000000" ex_token True "[]"] ex_token_valid
  by (auto simp: ex_request_def hasBody_def getFirst_def defaultMaxForm_def maxSmallFormBytes_def)

end
