(* ===== verification/Auth.thy ===== *)
theory Auth
  imports Http RateLimit Examples
begin

text \<open>
  \<open>server/handlers_auth.go\<close>, \<open>loadUser\<close> and \<open>requireAuth\<close> of \<open>server/middleware.go\<close> and
  \<open>internal/email/email.go\<close>: password login under the limiter, logout as revocation of every
  session, sign-up, and the check that turns a cookie into a user.  bcrypt and the address
  grammar of \<open>net/mail\<close> are functions of the environment; a store outage is a flag per call, and
  \<open>ae_errText\<close> is the \<open>Error()\<close> text of a store error.
\<close>

section \<open>Environment and state\<close>

datatype bcrypt_result = BMatch | BMismatch | BUnusable

text \<open>The store calls of a single sign-on, in program order; each may fail without effect.\<close>

datatype ocall = OSubject | OEmail | OLink | OReload | OCreate

record authenv =
  ae_sessions :: Manager
  ae_allowSignup :: bool
  ae_bcrypt :: "string \<Rightarrow> string \<Rightarrow> bcrypt_result"
  ae_bcryptHash :: "string \<Rightarrow> string option"
  ae_dummyHash :: string
  ae_parseAddress :: "string \<Rightarrow> string option"
  ae_toLower :: "string \<Rightarrow> string"
  ae_trim :: "string \<Rightarrow> string"
  ae_splitHost :: "string \<Rightarrow> string option"
  ae_newID :: string
  ae_now :: time
  ae_lookupFault :: bool
  ae_writeFault :: bool
  ae_oidcFault :: "ocall \<Rightarrow> bool"
  ae_errText :: "err \<Rightarrow> string"

record server =
  sv_db :: db
  sv_limiter :: loginLimiter

text \<open>\<open>email.Canonical\<close>.\<close>

definition Canonical :: "authenv \<Rightarrow> string \<Rightarrow> string option" where
  "Canonical env raw = (case ae_parseAddress env (ae_trim env raw) of None \<Rightarrow> None
     | Some addr \<Rightarrow> Some (ae_toLower env addr))"

definition minPasswordLen :: nat where "minPasswordLen = 8"

section \<open>Sessions to users\<close>

definition loadUser :: "authenv \<Rightarrow> request \<Rightarrow> db \<Rightarrow> user option" where
  "loadUser env r d =
     (case sessionUserID (ae_sessions env) (rq_Cookies r) (ae_now env) of
        None \<Rightarrow> None
      | Some (uid, epoch) \<Rightarrow>
          if ae_lookupFault env then None
          else (case UserByID uid d of Inl _ \<Rightarrow> None
                | Inr u \<Rightarrow> if u_SessionEpoch u = epoch then Some u else None))"

definition requireAuth :: "user option \<Rightarrow> (user \<Rightarrow> response \<times> 's) \<Rightarrow> 's \<Rightarrow> response \<times> 's" where
  "requireAuth user h s = (case user of None \<Rightarrow> (redirect ''/login'', s) | Some u \<Rightarrow> h u)"

section \<open>Login\<close>

text \<open>The forms; a visitor already signed in is sent on to the admin area.\<close>

definition handleLoginForm :: "user option \<Rightarrow> response" where
  "handleLoginForm usr = (case usr of Some u \<Rightarrow> redirect ''/admin/'' | None \<Rightarrow> page 200 [])"

definition handleSignupForm :: "authenv \<Rightarrow> user option \<Rightarrow> response" where
  "handleSignupForm env usr =
     (if \<not> ae_allowSignup env then page 404 ''Sign-up is disabled.''
      else (case usr of Some u \<Rightarrow> redirect ''/admin/'' | None \<Rightarrow> page 200 []))"

definition retryAfterSeconds :: "duration \<Rightarrow> int" where
  "retryAfterSeconds d = (let secs = (d + Second - 1) div Second in if secs < 1 then 1 else secs)"

text \<open>
  The verdict of a password attempt: the account when it is a genuine local login whose
  password matched.  bcrypt always runs, on the dummy hash when there is no usable one.
\<close>

definition passwordVerdict :: "authenv \<Rightarrow> string \<Rightarrow> string \<Rightarrow> db \<Rightarrow> user option" where
  "passwordVerdict env rawEmail password d =
     (let (lookup, canonOK) = (case Canonical env rawEmail of None \<Rightarrow> (rawEmail, False) | Some c \<Rightarrow> (c, True));
          found = (if ae_lookupFault env then Inl ErrDriver else UserByEmail lookup d);
          (hash, realAccount) = (case found of
             Inr u \<Rightarrow> if canonOK \<and> u_PasswordHash u \<noteq> [] then (u_PasswordHash u, True) else (ae_dummyHash env, False)
           | Inl _ \<Rightarrow> (ae_dummyHash env, False));
          (match, real) = (case ae_bcrypt env hash password of
             BMatch \<Rightarrow> (True, realAccount) | BMismatch \<Rightarrow> (False, realAccount) | BUnusable \<Rightarrow> (False, False))
      in case found of Inr u \<Rightarrow> if real \<and> match then Some u else None | Inl _ \<Rightarrow> None)"

definition handleLogin :: "authenv \<Rightarrow> request \<Rightarrow> server \<Rightarrow> response \<times> server" where
  "handleLogin env r sv =
     (let key = clientIP (ae_splitHost env) (rq_RemoteAddr r) in
      case blocked key (ae_now env) (sv_limiter sv) of
        Some retryAfter \<Rightarrow>
          ((page 429 ''Too many failed login attempts. Please wait and try again.'')
             \<lparr>rs_RetryAfter := Some (retryAfterSeconds retryAfter)\<rparr>, sv)
      | None \<Rightarrow>
          (case parseSmallForm r of
             (Some rs, r1) \<Rightarrow> (rs, sv)
           | (None, r1) \<Rightarrow>
               (case passwordVerdict env (FormValue r1 ''email'') (FormValue r1 ''password'') (sv_db sv) of
                  None \<Rightarrow> (page 401 ''Invalid email or password.'',
                          sv\<lparr>sv_limiter := failLogin key (ae_now env) (sv_limiter sv)\<rparr>)
                | Some u \<Rightarrow>
                    (withCookie (Issue (ae_sessions env) (u_ID u) (u_SessionEpoch u) (ae_now env)) (redirect ''/admin/''),
                     sv\<lparr>sv_limiter := resetLogin key (sv_limiter sv)\<rparr>))))"

section \<open>Logout\<close>

definition handleLogout :: "authenv \<Rightarrow> request \<Rightarrow> server \<Rightarrow> response \<times> server" where
  "handleLogout env r sv =
     (case parseSmallForm r of
        (Some rs, r1) \<Rightarrow> (rs, sv)
      | (None, r1) \<Rightarrow>
          (let done = withCookie (Clear (ae_sessions env)) (redirect ''/'');
               failed = withCookie (Clear (ae_sessions env)) serverError in
           case sessionUserID (ae_sessions env) (rq_Cookies r) (ae_now env) of
             None \<Rightarrow> (done, sv)
           | Some (uid, epoch) \<Rightarrow>
               if ae_lookupFault env then (failed, sv)
               else (case UserByID uid (sv_db sv) of
                       Inl e \<Rightarrow> if e = ErrNotFound then (done, sv) else (failed, sv)
                     | Inr u \<Rightarrow>
                         if u_SessionEpoch u \<noteq> epoch then (done, sv)
                         else if ae_writeFault env then (failed, sv)
                         else (case BumpSessionEpoch (u_ID u) (sv_db sv) of
                                 (Inl e, d) \<Rightarrow> (failed, sv\<lparr>sv_db := d\<rparr>)
                               | (Inr _, d) \<Rightarrow> (done, sv\<lparr>sv_db := d\<rparr>)))))"

section \<open>Sign-up\<close>

definition handleSignup :: "authenv \<Rightarrow> request \<Rightarrow> server \<Rightarrow> response \<times> server" where
  "handleSignup env r sv =
     (if \<not> ae_allowSignup env then (page 404 ''Sign-up is disabled.'', sv)
      else (case parseSmallForm r of
        (Some rs, r1) \<Rightarrow> (rs, sv)
      | (None, r1) \<Rightarrow>
          (let rawEmail = ae_trim env (FormValue r1 ''email'');
               name = ae_trim env (FormValue r1 ''name'');
               password = FormValue r1 ''password'';
               confirm = FormValue r1 ''password_confirm'' in
           case Canonical env rawEmail of
             None \<Rightarrow> (page 400 ''Enter a valid email address.'', sv)
           | Some canonicalEmail \<Rightarrow>
               if length password < minPasswordLen
               then (page 400 ''Password must be at least 8 characters.'', sv)
               else if password \<noteq> confirm then (page 400 ''Passwords do not match.'', sv)
               else (case ae_bcryptHash env password of
                       None \<Rightarrow> (serverError, sv)
                     | Some hash \<Rightarrow>
                         (let u = \<lparr>u_ID = ae_newID env, u_Email = canonicalEmail,
                                   u_DisplayName = (if name = [] then canonicalEmail else name),
                                   u_PasswordHash = hash, u_OIDCIssuer = [], u_OIDCSubject = [],
                                   u_SessionEpoch = 0, u_CreatedAt = ae_now env\<rparr> in
                          if ae_writeFault env then (serverError, sv)
                          else (case CreateUser u (sv_db sv) of
                             (Inl e, d) \<Rightarrow>
                               ((if e = ErrConflict then page 400 ''That email is already registered.''
                                 else serverError), sv\<lparr>sv_db := d\<rparr>)
                           | (Inr _, d) \<Rightarrow>
                               (withCookie (Issue (ae_sessions env) (u_ID u) (u_SessionEpoch u) (ae_now env))
                                  (redirect ''/admin/''), sv\<lparr>sv_db := d\<rparr>)))))))"

section \<open>Login is sound\<close>

lemma rs_simps [simp]:
  "rs_Status (page st msg) = st" "rs_Status (redirect p) = 303" "rs_Cookies (page st msg) = []"
  "rs_Cookies (redirect p) = []" "rs_Status (withCookie c rs) = rs_Status rs"
  "rs_Cookies (withCookie c rs) = rs_Cookies rs @ [c]" "rs_Status serverError = 500"
  "rs_Cookies serverError = []"
  by (simp_all add: page_def redirect_def withCookie_def serverError_def)

lemma passwordVerdict_Some:
  assumes "passwordVerdict env rawEmail password d = Some u"
  shows "\<exists>c. Canonical env rawEmail = Some c \<and> UserByEmail c d = Inr u
    \<and> u_PasswordHash u \<noteq> [] \<and> ae_bcrypt env (u_PasswordHash u) password = BMatch"
  using assms by (auto simp: passwordVerdict_def Let_def split: option.splits sum.splits if_splits bcrypt_result.splits)

lemma parseSmallForm_status: "parseSmallForm r = (Some rs, r1) \<Longrightarrow> rs_Status rs \<in> {400, 413, 415} \<and> rs_Cookies rs = []"
  by (auto simp: parseSmallForm_def split: if_splits prod.splits option.splits form_err.splits)

text \<open>
  C19: A login sets a session cookie only for the account of the canonical address whose stored
  hash matches the password, when the client is not throttled.
\<close>

theorem login_sound:
  assumes "handleLogin env r sv = (rs, sv')" "ck \<in> set (rs_Cookies rs)"
  shows "\<exists>u c r1. parseSmallForm r = (None, r1)
    \<and> blocked (clientIP (ae_splitHost env) (rq_RemoteAddr r)) (ae_now env) (sv_limiter sv) = None
    \<and> Canonical env (FormValue r1 ''email'') = Some c \<and> UserByEmail c (sv_db sv) = Inr u
    \<and> u_PasswordHash u \<noteq> [] \<and> ae_bcrypt env (u_PasswordHash u) (FormValue r1 ''password'') = BMatch
    \<and> ck = Issue (ae_sessions env) (u_ID u) (u_SessionEpoch u) (ae_now env) \<and> sv_db sv' = sv_db sv"
proof -
  have "rs_Cookies ((page st msg)\<lparr>rs_RetryAfter := x\<rparr>) = []" for st msg x by (simp add: page_def)
  with assms show ?thesis
    by (auto simp: handleLogin_def Let_def dest: parseSmallForm_status dest!: passwordVerdict_Some
        split: option.splits prod.splits)
qed

theorem login_failure_uniform:
  assumes "handleLogin env r sv = (rs, sv')" "rs_Status rs = 401"
  shows "rs = page 401 ''Invalid email or password.''
    \<and> sv' = sv\<lparr>sv_limiter := failLogin (clientIP (ae_splitHost env) (rq_RemoteAddr r)) (ae_now env) (sv_limiter sv)\<rparr>"
proof -
  have "rs_Status ((page st msg)\<lparr>rs_RetryAfter := x\<rparr>) = st" for st msg x by (simp add: page_def)
  with assms show ?thesis
    by (auto simp: handleLogin_def Let_def dest: parseSmallForm_status split: option.splits prod.splits)
qed

section \<open>Logout revokes every session\<close>

lemma loadUser_epoch:
  assumes "epoch_of uid d = Some n" "sessionUserID (ae_sessions env) (rq_Cookies r) (ae_now env) = Some (uid, e)" "e \<noteq> n"
  shows "loadUser env r d = None"
  using assms by (auto simp: loadUser_def split: sum.splits dest: epoch_of_UserByID)


section \<open>A concrete installation\<close>

definition ex_manager :: Manager where
  "ex_manager = \<lparr>m_mac = id, m_cookieName = ''s'', m_ttl = Hour, m_secure = False\<rparr>"

definition ex_authenv :: authenv where
  "ex_authenv = \<lparr>ae_sessions = ex_manager, ae_allowSignup = True,
     ae_bcrypt = (\<lambda>h p. if h = ''h'' \<and> p = ''secret'' then BMatch else BMismatch), ae_bcryptHash = Some,
     ae_dummyHash = ''d'', ae_parseAddress = Some, ae_toLower = toLowerAscii, ae_trim = id,
     ae_splitHost = (\<lambda>_. None), ae_newID = ''n'', ae_now = 0, ae_lookupFault = False, ae_writeFault = False,
     ae_oidcFault = (\<lambda>_. False), ae_errText = (\<lambda>_. ''store: error'')\<rparr>"

definition ex_form :: "(string \<times> string) list \<Rightarrow> (string \<times> string) list \<Rightarrow> request" where
  "ex_form fs cs = \<lparr>rq_Method = ''POST'', rq_RemoteAddr = ''ip'', rq_PathID = [],
     rq_MediaType = Some urlencoded, rq_CsrfHeader = [], rq_Query = [],
     rq_Cookies = cs, rq_BodySize = 10, rq_Fields = fs, rq_Malformed = False, rq_PostForm = None\<rparr>"

definition ex_server :: server where
  "ex_server = \<lparr>sv_db = ex_db TranscriptNone JobDone 1 0, sv_limiter = newLoginLimiter 5 Minute 100\<rparr>"

lemma ex_parse: "parseSmallForm (ex_form fs cs) = (None, (ex_form fs cs)\<lparr>rq_PostForm := Some fs\<rparr>)"
  by (simp add: parseSmallForm_def ParseForm_def ex_form_def hasBody_def maxSmallFormBytes_def)

lemma ex_blocked: "blocked k t (sv_limiter ex_server) = None"
  by (simp add: blocked_def ex_server_def newLoginLimiter_def)

lemma ex_UserByEmail: "UserByEmail ''a@b'' (sv_db ex_server) = Inr (scanUser ex_user_row)"
  by (simp add: UserByEmail_def userWhere_def ex_server_def ex)

lemma ex_lower: "toLowerAscii ''A@b'' = ''a@b''"
  by code_simp

lemma ex_verdict:
  "passwordVerdict ex_authenv ''A@b'' p (sv_db ex_server) = (if p = ''secret'' then Some (scanUser ex_user_row) else None)"
proof -
  have "u_PasswordHash (scanUser ex_user_row) = ''h''" by (simp add: scanUser_def ex)
  then show ?thesis
    using ex_UserByEmail by (simp add: passwordVerdict_def ex_authenv_def Canonical_def Let_def ex_lower)
qed

lemma login_sound_witness:
  "\<exists>u. UserByEmail ''a@b'' (sv_db ex_server) = Inr u \<and> ae_bcrypt ex_authenv (u_PasswordHash u) ''secret'' = BMatch"
proof -
  let ?r = "ex_form [(''email'', ''A@b''), (''password'', ''secret'')] []"
  obtain rs sv' where h: "handleLogin ex_authenv ?r ex_server = (rs, sv')" by fastforce
  have f: "FormValue (?r\<lparr>rq_PostForm := Some (rq_Fields ?r)\<rparr>) ''email'' = ''A@b''"
    "FormValue (?r\<lparr>rq_PostForm := Some (rq_Fields ?r)\<rparr>) ''password'' = ''secret''"
    by (simp_all add: FormValue_def getFirst_def ex_form_def)
  have fs: "rq_Fields ?r = [(''email'', ''A@b''), (''password'', ''secret'')]" by (simp add: ex_form_def)
  have "rs_Cookies rs \<noteq> []"
    using h f by (auto simp: handleLogin_def Let_def ex_blocked ex_parse fs ex_verdict)
  then obtain ck where "ck \<in> set (rs_Cookies rs)" by (cases "rs_Cookies rs") auto
  from login_sound [OF h this] show ?thesis
    using f by (auto simp: ex_parse fs Canonical_def ex_authenv_def ex_lower intro!: exI split: if_splits)
qed

lemma login_failure_uniform_witness:
  "fst (handleLogin ex_authenv (ex_form [(''email'', ''A@b''), (''password'', ''wrong'')] []) ex_server)
     = page 401 ''Invalid email or password.''"
proof -
  let ?r = "ex_form [(''email'', ''A@b''), (''password'', ''wrong'')] []"
  obtain rs sv' where h: "handleLogin ex_authenv ?r ex_server = (rs, sv')" by fastforce
  have f: "FormValue (?r\<lparr>rq_PostForm := Some (rq_Fields ?r)\<rparr>) ''email'' = ''A@b''"
    "FormValue (?r\<lparr>rq_PostForm := Some (rq_Fields ?r)\<rparr>) ''password'' = ''wrong''"
    by (simp_all add: FormValue_def getFirst_def ex_form_def)
  have fs: "rq_Fields ?r = [(''email'', ''A@b''), (''password'', ''wrong'')]" by (simp add: ex_form_def)
  have "rs_Status rs = 401"
    using h f by (auto simp: handleLogin_def Let_def ex_blocked ex_parse fs ex_verdict)
  from login_failure_uniform [OF h this] h show ?thesis by simp
qed

definition ex_cookie :: "(string \<times> string) list" where
  "ex_cookie = [(''s'', sign ex_manager ''u'' 0 Hour)]"

lemma ex_session: "sessionUserID (ae_sessions ex_authenv) ex_cookie (ae_now ex_authenv) = Some (''u'', 0)"
proof -
  have "verify ex_manager (sign ex_manager ''u'' 0 Hour) 0 = Some (''u'', 0)"
    by (subst verify_sign) (simp_all add: int64_def toUnix_def units)
  then show ?thesis by (simp add: sessionUserID_def ex_cookie_def ex_authenv_def) (simp add: ex_manager_def)
qed

lemma ex_server_UserByID: "UserByID ''u'' (sv_db ex_server) = Inr (scanUser ex_user_row)"
  by (simp add: UserByID_def userWhere_def ex_server_def ex)


end
