(* ===== verification/Oidc.thy ===== *)
theory Oidc
  imports Auth
begin

text \<open>
  \<open>server/handlers_oidc.go\<close> with the identity of \<open>auth/auth.go\<close>: resolving a verified
  provider identity to a local account (known subject, linking by verified e-mail, or a new
  account), the domain allowlist, and the state check of the callback.  Other requests may
  run between the look-ups and the link, so the link runs on a later database.
\<close>

record Identity =
  id_Issuer :: string
  id_Subject :: string
  id_Email :: string
  id_EmailVerified :: bool
  id_Name :: string

text \<open>\<open>strings.LastIndex(email, "@")\<close> and what follows it.\<close>

definition domainOf :: "string \<Rightarrow> string option" where
  "domainOf email = (if CHR ''@'' \<in> set email then Some (rev (takeWhile (\<lambda>c. c \<noteq> CHR ''@'') (rev email))) else None)"

definition emailDomainAllowed :: "(string \<Rightarrow> string) \<Rightarrow> string list \<Rightarrow> string \<Rightarrow> bool" where
  "emailDomainAllowed toLower allowedDomains email =
     (if allowedDomains = [] then True
      else (case domainOf email of None \<Rightarrow> False | Some dn \<Rightarrow> toLower dn \<in> set allowedDomains))"

section \<open>Resolving an identity\<close>

text \<open>
  \<open>between1\<close> and \<open>between2\<close> are what other requests do to the store between the e-mail
  look-up and the link, and between the link and the reload.
\<close>

definition oidcCall :: "authenv \<Rightarrow> ocall \<Rightarrow> ('d \<Rightarrow> 'a res \<times> 'd) \<Rightarrow> 'd \<Rightarrow> 'a res \<times> 'd" where
  "oidcCall env c op d = (if ae_oidcFault env c then (Inl ErrDriver, d) else op d)"

definition oidcRead :: "authenv \<Rightarrow> ocall \<Rightarrow> 'a res \<Rightarrow> 'a res" where
  "oidcRead env c x = (if ae_oidcFault env c then Inl ErrDriver else x)"

lemma oidc_Inr:
  "oidcRead env c x = Inr v \<longleftrightarrow> \<not> ae_oidcFault env c \<and> x = Inr v"
  "oidcCall env c op d = (Inr v, d') \<longleftrightarrow> \<not> ae_oidcFault env c \<and> op d = (Inr v, d')"
  by (auto simp: oidcRead_def oidcCall_def)

definition resolveOIDCUser ::
    "authenv \<Rightarrow> string list \<Rightarrow> store_op list \<Rightarrow> store_op list \<Rightarrow> Identity \<Rightarrow> db \<Rightarrow> (string + user) \<times> db" where
  "resolveOIDCUser env allowedDomains between1 between2 i d =
     (let canonicalEmail = (if id_Email i \<noteq> [] then (case Canonical env (id_Email i) of None \<Rightarrow> [] | Some c \<Rightarrow> c) else [])
      in if allowedDomains \<noteq> [] \<and> canonicalEmail = []
         then (Inl ''Your identity provider did not share an email address.'', d)
         else if allowedDomains \<noteq> [] \<and> \<not> id_EmailVerified i
         then (Inl ''Your identity provider did not verify your email address.'', d)
         else if allowedDomains \<noteq> [] \<and> \<not> emailDomainAllowed (ae_toLower env) allowedDomains canonicalEmail
         then (Inl ''Your email domain is not permitted to sign in.'', d)
         else (case oidcRead env OSubject (UserByOIDCSubject (id_Issuer i) (id_Subject i) d) of
                 Inr u \<Rightarrow> (Inr u, d)
               | Inl e0 \<Rightarrow>
           if e0 \<noteq> ErrNotFound then (Inl (ae_errText env e0), d)
           else if canonicalEmail = [] then (Inl ''Your identity provider did not share an email address.'', d)
           else (case oidcRead env OEmail (UserByEmail canonicalEmail d) of
              Inr existing \<Rightarrow>
                if \<not> id_EmailVerified i
                then (Inl ''An account with this email exists but the provider did not verify the address.'', d)
                else if u_OIDCSubject existing \<noteq> [] \<and>
                    (u_OIDCIssuer existing \<noteq> id_Issuer i \<or> u_OIDCSubject existing \<noteq> id_Subject i)
                then (Inl ''This account is already linked to a different identity provider identity.'', d)
                else (case oidcCall env OLink (LinkOIDCIdentity (u_ID existing) (id_Issuer i) (id_Subject i)) (exec_all between1 d) of
                        (Inl e, d1) \<Rightarrow>
                          (Inl (if e = ErrConflict
                             then ''This account is already linked to a different identity provider identity.''
                             else ae_errText env e), d1)
                      | (Inr _, d1) \<Rightarrow>
                          (let d2 = exec_all between2 d1 in
                           case oidcRead env OReload (UserByID (u_ID existing) d2) of
                             Inl e \<Rightarrow> (Inl (ae_errText env e), d2) | Inr u \<Rightarrow> (Inr u, d2)))
            | Inl e1 \<Rightarrow>
                if e1 \<noteq> ErrNotFound then (Inl (ae_errText env e1), d)
                else if \<not> id_EmailVerified i
                then (Inl ''Your identity provider did not verify your email address.'', d)
                else (let u = \<lparr>u_ID = ae_newID env, u_Email = canonicalEmail,
                               u_DisplayName = (if id_Name i = [] then canonicalEmail else id_Name i),
                               u_PasswordHash = [], u_OIDCIssuer = id_Issuer i, u_OIDCSubject = id_Subject i,
                               u_SessionEpoch = 0, u_CreatedAt = ae_now env\<rparr> in
                      case oidcCall env OCreate (CreateUser u) (exec_all between1 d) of
                        (Inl e, d1) \<Rightarrow> (Inl (ae_errText env e), d1)
                      | (Inr _, d1) \<Rightarrow> (Inr u, d1)))))"

section \<open>The callback\<close>

definition oidcStateCookie :: string where "oidcStateCookie = ''castlet_oidc_state''"
definition oidcNonceCookie :: string where "oidcNonceCookie = ''castlet_oidc_nonce''"

definition validOIDCState :: "request \<Rightarrow> bool" where
  "validOIDCState r =
     (case map_of (rq_Cookies r) oidcStateCookie of None \<Rightarrow> False
      | Some c \<Rightarrow> getFirst (rq_Query r) ''state'' \<noteq> [] \<and> c = getFirst (rq_Query r) ''state'')"

definition oidcCookie :: "bool \<Rightarrow> string \<Rightarrow> string \<Rightarrow> int \<Rightarrow> cookie" where
  "oidcCookie secure name v maxAge = \<lparr>ck_Name = name, ck_Value = v, ck_Path = ''/auth/oidc'', ck_Expires = None,
     ck_MaxAge = maxAge, ck_HttpOnly = True, ck_Secure = secure, ck_SameSiteLax = True\<rparr>"

definition cookieSecure :: "string \<Rightarrow> bool" where "cookieSecure baseURL = hasPrefix baseURL ''https://''"

text \<open>\<open>exchange\<close> is the provider's code exchange and ID-token check for a code and a nonce.\<close>

definition handleOIDCCallback ::
    "authenv \<Rightarrow> bool \<Rightarrow> string list \<Rightarrow> (string \<Rightarrow> string \<Rightarrow> Identity option) option \<Rightarrow> store_op list \<Rightarrow> store_op list
       \<Rightarrow> request \<Rightarrow> db \<Rightarrow> response \<times> db" where
  "handleOIDCCallback env secure allowedDomains authn between1 between2 r d =
     (case authn of None \<Rightarrow> (page 404 ''Single sign-on is not enabled.'', d)
      | Some exchange \<Rightarrow>
          (let clear = (\<lambda>rs. rs\<lparr>rs_Cookies := [oidcCookie secure oidcStateCookie [] (- 1),
                                              oidcCookie secure oidcNonceCookie [] (- 1)] @ rs_Cookies rs\<rparr>)
           in if getFirst (rq_Query r) ''error'' \<noteq> []
              then (clear (page 401 ''Single sign-on was cancelled or failed.''), d)
              else if \<not> validOIDCState r
              then (clear (page 400 ''Invalid single sign-on state. Please try again.''), d)
              else (case map_of (rq_Cookies r) oidcNonceCookie of
                      None \<Rightarrow> (clear (page 400 ''Single sign-on session expired. Please try again.''), d)
                    | Some nonce \<Rightarrow>
                        if getFirst (rq_Query r) ''code'' = []
                        then (clear (page 400 ''Missing authorization code.''), d)
                        else (case exchange (getFirst (rq_Query r) ''code'') nonce of
                                None \<Rightarrow> (clear (page 401 ''Could not verify your single sign-on identity.''), d)
                              | Some i \<Rightarrow>
                                  (case resolveOIDCUser env allowedDomains between1 between2 i d of
                                     (Inl msg, d1) \<Rightarrow> (clear (page 403 msg), d1)
                                   | (Inr u, d1) \<Rightarrow>
                                       (clear (withCookie (Issue (ae_sessions env) (u_ID u) (u_SessionEpoch u) (ae_now env))
                                          (redirect ''/admin/'')), d1))))))"

definition handleOIDCLogin ::
    "bool \<Rightarrow> (string \<Rightarrow> string \<Rightarrow> string) option \<Rightarrow> string \<Rightarrow> string \<Rightarrow> response" where
  "handleOIDCLogin secure authCodeURL state nonce =
     (case authCodeURL of None \<Rightarrow> page 404 ''Single sign-on is not enabled.''
      | Some url \<Rightarrow> withCookie (oidcCookie secure oidcNonceCookie nonce 600)
          (withCookie (oidcCookie secure oidcStateCookie state 600) (redirect (url state nonce))))"

section \<open>What a resolved identity means\<close>

definition identity_of :: "string \<Rightarrow> db \<Rightarrow> (string \<times> string) option" where
  "identity_of uid d = map_option (\<lambda>r. (ur_oidc_issuer r, ur_oidc_subject r)) (find (\<lambda>r. ur_id r = uid) (users d))"

lemma UserByOIDC_Inr:
  "UserByOIDCSubject iss sub d = Inr u \<Longrightarrow> \<exists>r \<in> set (users d). u = scanUser r \<and> ur_oidc_issuer r = iss
     \<and> ur_oidc_subject r = sub \<and> sub \<noteq> []"
  unfolding UserByOIDCSubject_def by (auto dest!: userWhere_Inr)

text \<open>A link never replaces a different identity.\<close>

lemma LinkOIDCIdentity_keeps:
  assumes "wf_db d" "LinkOIDCIdentity uid iss sub d = (res, d')"
    and "r \<in> set (users d)" "linked r"
  shows "\<exists>r' \<in> set (users d'). ur_id r' = ur_id r \<and> oidc_key r' = oidc_key r"
proof -
  let ?f = "\<lambda>r. r\<lparr>ur_oidc_issuer := iss, ur_oidc_subject := sub\<rparr>" and ?hit = "linkable uid iss sub"
  let ?r = "if ?hit r then ?f r else r"
  have key: "ur_id ?r = ur_id r" "oidc_key ?r = oidc_key r"
    using assms(4) by (auto simp: linkable_def oidc_key_def linked_def)
  have "users d' = users d \<or> users d' = upd_where ?hit ?f (users d)"
    using assms(2) by (auto simp: LinkOIDCIdentity_def Let_def split: if_splits)
  then show ?thesis
  proof
    assume "users d' = upd_where ?hit ?f (users d)"
    then have "?r \<in> set (users d')" using assms(3) by (auto simp: upd_where_def)
    with key show ?thesis by blast
  next
    assume "users d' = users d"
    then have "r \<in> set (users d')" using assms(3) by simp
    then show ?thesis by (intro bexI [of _ r]) simp_all
  qed
qed

text \<open>\<open>LinkOIDCIdentity\<close> binds the account or says so.\<close>

lemma LinkOIDCIdentity_ok:
  assumes "wf_db d" "LinkOIDCIdentity uid iss sub d = (Inr (), d')"
  shows "identity_of uid d' = Some (iss, sub)
    \<and> (\<exists>iss0 sub0. identity_of uid d = Some (iss0, sub0) \<and> (sub0 = [] \<or> (iss0, sub0) = (iss, sub)))"
proof -
  let ?f = "\<lambda>r. r\<lparr>ur_oidc_issuer := iss, ur_oidc_subject := sub\<rparr>" and ?hit = "linkable uid iss sub"
  from assms(2) have d': "users d' = upd_where ?hit ?f (users d)" and n: "count_where ?hit (users d) \<noteq> 0"
    by (auto simp: LinkOIDCIdentity_def Let_def split: if_splits)
  from n obtain r where r: "r \<in> set (users d)" "?hit r" by (auto simp: count_where_0)
  then have id: "ur_id r = uid" by (simp add: linkable_def)
  have f: "find (\<lambda>x. ur_id x = uid) (users d) = Some r"
    using find_key [of ur_id "users d" r] assms(1) r(1) id by (simp add: wf_db_def wf_users_def)
  have "find (\<lambda>x. ur_id x = uid) (users d') = Some (?f r)"
    using find_upd_where_key [of ur_id ?f uid ?hit "users d"] f r(2) by (simp add: d')
  then show ?thesis using f r(2) by (auto simp: identity_of_def linkable_def)
qed

lemma exec_all_keeps: "wf_db d \<Longrightarrow> wf_db (exec_all ops d)" by (rule exec_all_wf)

lemma identity_UserByOIDC:
  assumes "wf_db d" "UserByOIDCSubject iss sub d = Inr u"
  shows "identity_of (u_ID u) d = Some (iss, sub)"
proof -
  from UserByOIDC_Inr [OF assms(2)] obtain r where r: "r \<in> set (users d)" "u = scanUser r"
    "ur_oidc_issuer r = iss" "ur_oidc_subject r = sub" by blast
  have "find (\<lambda>x. ur_id x = ur_id r) (users d) = Some r"
    using find_key [of ur_id "users d" r] assms(1) r(1) by (simp add: wf_db_def wf_users_def)
  then show ?thesis by (simp add: identity_of_def r(2-4) scanUser_def flip: r(3,4))
qed

lemma identity_CreateUser:
  assumes "CreateUser u d = (Inr (), d')"
  shows "identity_of (u_ID u) d' = Some (u_OIDCIssuer u, u_OIDCSubject u)"
proof -
  from assms have d': "users d' = users d @ [user_to_row u]" and new: "u_ID u \<notin> ur_id ` set (users d)"
    by (auto simp: CreateUser_def list_ex_iff split: if_splits)
  have "find (\<lambda>x. ur_id x = u_ID u) (users d') = Some (user_to_row u)"
    unfolding d' by (rule find_key_append_new) (simp_all add: user_to_row_def new)
  then show ?thesis by (simp add: identity_of_def user_to_row_def)
qed

text \<open>
  A successful sign-on ends in an account bound to exactly the presented identity; under an
  allowlist the verified e-mail's domain is on it.  Nothing runs between the link and the
  reload here.
\<close>

lemma oidc_binds_identity:
  assumes "wf_db d" "resolveOIDCUser env domains between1 [] i d = (Inr u, d')"
  shows "identity_of (u_ID u) d' = Some (id_Issuer i, id_Subject i)
    \<and> (domains \<noteq> [] \<longrightarrow> id_EmailVerified i \<and> (\<exists>c. Canonical env (id_Email i) = Some c
         \<and> emailDomainAllowed (ae_toLower env) domains c))"
proof
  show "identity_of (u_ID u) d' = Some (id_Issuer i, id_Subject i)"
  proof (cases "oidcRead env OSubject (UserByOIDCSubject (id_Issuer i) (id_Subject i) d)")
    case (Inr v)
    then have "u = v" "d' = d" using assms(2) by (auto simp: resolveOIDCUser_def Let_def split: if_splits)
    moreover have "UserByOIDCSubject (id_Issuer i) (id_Subject i) d = Inr v" using Inr by (simp add: oidc_Inr)
    ultimately show ?thesis using identity_UserByOIDC [OF assms(1)] by simp
  next
    case (Inl e)
    note nosub = this
    let ?c = "if id_Email i \<noteq> [] then (case Canonical env (id_Email i) of None \<Rightarrow> [] | Some c \<Rightarrow> c) else []"
    have wf1: "wf_db (exec_all between1 d)" by (rule exec_all_wf [OF assms(1)])
    show ?thesis
    proof (cases "oidcRead env OEmail (UserByEmail ?c d)")
      case (Inr ex)
      obtain x d1 where lk: "oidcCall env OLink (LinkOIDCIdentity (u_ID ex) (id_Issuer i) (id_Subject i)) (exec_all between1 d)
          = (x, d1)" by fastforce
      obtain y where rl: "oidcRead env OReload (UserByID (u_ID ex) d1) = y" by blast
      from assms(2) nosub Inr lk rl have "x = Inr ()" "y = Inr u" "d' = d1"
        by (cases x; cases y; auto simp: resolveOIDCUser_def Let_def split: if_splits)+
      with lk rl have l: "LinkOIDCIdentity (u_ID ex) (id_Issuer i) (id_Subject i) (exec_all between1 d) = (Inr (), d1)"
        and u: "UserByID (u_ID ex) d1 = Inr u" "d' = d1"
        by (simp_all add: oidc_Inr)
      have "u_ID u = u_ID ex" using u(1) by (auto simp: UserByID_def scanUser_def dest!: userWhere_Inr)
      then show ?thesis using LinkOIDCIdentity_ok [OF wf1 l] u(2) by simp
    next
      case (Inl e')
      with assms(2) nosub show ?thesis
        by (auto simp: resolveOIDCUser_def Let_def oidc_Inr split: if_splits prod.splits sum.splits dest!: identity_CreateUser)
    qed
  qed
  show "domains \<noteq> [] \<longrightarrow> id_EmailVerified i \<and> (\<exists>c. Canonical env (id_Email i) = Some c
         \<and> emailDomainAllowed (ae_toLower env) domains c)"
    using assms(2) by (auto simp: resolveOIDCUser_def Let_def split: if_splits option.splits)
qed

lemma oidc_callback_facts:
  assumes "wf_db d" "handleOIDCCallback env secure domains (Some exchange) between1 [] r d = (rs, d')"
    and "rs_Status rs = 303"
  shows "\<exists>nonce i (u :: user). getFirst (rq_Query r) ''state'' \<noteq> []
    \<and> map_of (rq_Cookies r) oidcStateCookie = Some (getFirst (rq_Query r) ''state'')
    \<and> map_of (rq_Cookies r) oidcNonceCookie = Some nonce
    \<and> exchange (getFirst (rq_Query r) ''code'') nonce = Some i
    \<and> identity_of (u_ID u) d' = Some (id_Issuer i, id_Subject i)
    \<and> last (rs_Cookies rs) = Issue (ae_sessions env) (u_ID u) (u_SessionEpoch u) (ae_now env)
    \<and> (domains \<noteq> [] \<longrightarrow> id_EmailVerified i \<and> (\<exists>c. Canonical env (id_Email i) = Some c
         \<and> emailDomainAllowed (ae_toLower env) domains c))"
proof -
  have st: "rs_Status (rs\<lparr>rs_Cookies := cs\<rparr>) = rs_Status rs" for rs cs by simp
  have page: "rs_Status (page n m) = n" for n m by (simp add: page_def)
  from assms(2,3) obtain nonce i u where "validOIDCState r" "map_of (rq_Cookies r) oidcNonceCookie = Some nonce"
    and ex: "exchange (getFirst (rq_Query r) ''code'') nonce = Some i"
    and res: "resolveOIDCUser env domains between1 [] i d = (Inr u, d')"
    and rs: "last (rs_Cookies rs) = Issue (ae_sessions env) (u_ID u) (u_SessionEpoch u) (ae_now env)"
    by (auto simp: handleOIDCCallback_def Let_def page withCookie_def
        split: if_splits option.splits sum.splits prod.splits)
  moreover from \<open>validOIDCState r\<close> have "getFirst (rq_Query r) ''state'' \<noteq> []"
    "map_of (rq_Cookies r) oidcStateCookie = Some (getFirst (rq_Query r) ''state'')"
    by (simp_all add: validOIDCState_def split: option.splits)
  ultimately show ?thesis
    using oidc_binds_identity [OF assms(1) res] by blast
qed

text \<open>
  Single sign-on starts a session only after the state parameter matched the browser's cookie
  and the provider vouched for the code under the nonce cookie; the session is for an
  account bound to exactly that issuer and subject, and under an allowlist the verified
  address is in an allowed domain.
\<close>

theorem oidc_callback_sound:
  assumes "wf_db d" "handleOIDCCallback env secure domains (Some exchange) between1 [] r d = (rs, d')"
    and "rs_Status rs = 303"
  shows "\<exists>nonce i (u :: user). getFirst (rq_Query r) ''state'' \<noteq> []
    \<and> map_of (rq_Cookies r) oidcStateCookie = Some (getFirst (rq_Query r) ''state'')
    \<and> map_of (rq_Cookies r) oidcNonceCookie = Some nonce
    \<and> exchange (getFirst (rq_Query r) ''code'') nonce = Some i
    \<and> identity_of (u_ID u) d' = Some (id_Issuer i, id_Subject i)
    \<and> last (rs_Cookies rs) = Issue (ae_sessions env) (u_ID u) (u_SessionEpoch u) (ae_now env)
    \<and> (domains \<noteq> [] \<longrightarrow> id_EmailVerified i \<and> (\<exists>c. Canonical env (id_Email i) = Some c
         \<and> emailDomainAllowed (ae_toLower env) domains c))"
  by (rule oidc_callback_facts [OF assms])

definition ex_identity :: Identity where
  "ex_identity = \<lparr>id_Issuer = ''iss'', id_Subject = ''sub'', id_Email = ''a@b'', id_EmailVerified = True, id_Name = []\<rparr>"

definition ex_callback :: request where
  "ex_callback = (ex_form [] [(oidcStateCookie, ''st''), (oidcNonceCookie, ''no'')])
     \<lparr>rq_Query := [(''state'', ''st''), (''code'', ''co'')]\<rparr>"

lemma ex_callback_redirects:
  assumes "exchange ''co'' ''no'' = Some ex_identity"
  shows "rs_Status (fst (handleOIDCCallback ex_authenv True [''b''] (Some exchange) [] [] ex_callback (sv_db ex_server))) = 303"
proof -
  have ok: "case fst (resolveOIDCUser ex_authenv [''b''] [] [] ex_identity (sv_db ex_server)) of Inl _ \<Rightarrow> False | Inr _ \<Rightarrow> True"
    by code_simp
  obtain v d1 where "resolveOIDCUser ex_authenv [''b''] [] [] ex_identity (sv_db ex_server) = (v, d1)" by fastforce
  with ok obtain u where u: "resolveOIDCUser ex_authenv [''b''] [] [] ex_identity (sv_db ex_server) = (Inr u, d1)"
    by (auto split: sum.splits)
  have q: "rq_Query ex_callback = [(''state'', ''st''), (''code'', ''co'')]"
    "rq_Cookies ex_callback = [(oidcStateCookie, ''st''), (oidcNonceCookie, ''no'')]"
    by (simp_all add: ex_callback_def ex_form_def)
  show ?thesis
    using u assms by (auto simp: handleOIDCCallback_def validOIDCState_def q getFirst_def Let_def withCookie_def
        redirect_def oidcStateCookie_def oidcNonceCookie_def)
qed

lemma ex_server_wf: "wf_db (sv_db ex_server)"
  by (simp add: ex_server_def ex_wf)

lemma oidc_callback_sound_witness:
  "\<exists>u :: user. identity_of (u_ID u) (snd (handleOIDCCallback ex_authenv True [''b''] (Some (\<lambda>c n. Some ex_identity)) [] []
     ex_callback (sv_db ex_server))) = Some (''iss'', ''sub'')"
proof -
  obtain rs d' where h: "handleOIDCCallback ex_authenv True [''b''] (Some (\<lambda>c n. Some ex_identity)) [] [] ex_callback
      (sv_db ex_server) = (rs, d')" by fastforce
  have "rs_Status rs = 303" using ex_callback_redirects [of "\<lambda>c n. Some ex_identity"] h by simp
  from oidc_callback_sound [OF ex_server_wf h this] h show ?thesis by (auto simp: ex_identity_def)
qed

text \<open>
  Linking an identity never takes one away: every account that was linked keeps its identity,
  whatever account and identity the call names; and when it succeeds the named account holds
  exactly the given identity and was unlinked or already linked to it.
\<close>

theorem link_never_replaces:
  assumes "wf_db d" "LinkOIDCIdentity uid iss sub d = (res, d')" "r \<in> set (users d)"
  shows "(ur_oidc_subject r \<noteq> [] \<longrightarrow> (\<exists>r' \<in> set (users d'). ur_id r' = ur_id r
      \<and> ur_oidc_issuer r' = ur_oidc_issuer r \<and> ur_oidc_subject r' = ur_oidc_subject r))
    \<and> (res = Inr () \<longrightarrow> identity_of uid d' = Some (iss, sub)
        \<and> (\<exists>iss0 sub0. identity_of uid d = Some (iss0, sub0) \<and> (sub0 = [] \<or> (iss0, sub0) = (iss, sub))))
    \<and> (res \<noteq> Inr () \<longrightarrow> res = Inl ErrConflict \<and> d' = d)"
proof -
  have "res = Inr () \<or> res = Inl ErrConflict \<and> d' = d"
    using assms(2) by (auto simp: LinkOIDCIdentity_def Let_def split: if_splits)
  then show ?thesis
    using LinkOIDCIdentity_keeps [OF assms] LinkOIDCIdentity_ok [OF assms(1), of uid iss sub d'] assms(2)
    unfolding linked_def oidc_key_def by blast
qed

lemma link_never_replaces_witness:
  "identity_of ''u'' (snd (LinkOIDCIdentity ''u'' ''iss'' ''sub'' (ex_db TranscriptNone JobDone 1 0))) = Some (''iss'', ''sub'')"
proof -
  let ?d = "ex_db TranscriptNone JobDone 1 0"
  obtain res d' where l: "LinkOIDCIdentity ''u'' ''iss'' ''sub'' ?d = (res, d')" by fastforce
  have "fst (LinkOIDCIdentity ''u'' ''iss'' ''sub'' ?d) = Inr ()" by code_simp
  then have "res = Inr ()" using l by simp
  moreover have "ex_user_row \<in> set (users ?d)" by (simp add: ex_db_def)
  ultimately show ?thesis using link_never_replaces [OF ex_wf l] l by simp
qed

end
