(* ===== verification/Media.thy ===== *)
theory Media
  imports Http Examples
begin

text \<open>
  \<open>server/handlers_media.go\<close> and \<open>server/handlers_public.go\<close>: who may see which episode and which bytes, and under what Content-Type.
  The blob store is a partial function from keys to bytes; content sniffing and the media
  type grammar of the standard library are functions of the environment.
\<close>

section \<open>Content types\<close>

definition trimSpace :: "string \<Rightarrow> string" where
  "trimSpace s = (let sp = (\<lambda>c. c \<in> {CHR '' '', CHR 0x09, CHR 0x0A, CHR 0x0B, CHR 0x0C, CHR 0x0D})
     in rev (dropWhile sp (rev (dropWhile sp s))))"

definition safeContentType :: "string \<Rightarrow> string" where
  "safeContentType ct0 =
     (let ct = (if CHR '';'' \<in> set ct0 then trimSpace (takeWhile (\<lambda>c. c \<noteq> CHR '';'') ct0) else ct0)
      in if hasPrefix ct ''audio/'' \<or> hasPrefix ct ''video/'' then ct
         else if ct \<in> set [''image/png'', ''image/jpeg'', ''image/gif'', ''image/webp''] then ct
         else ''application/octet-stream'')"

definition fileExt :: "string \<Rightarrow> string" where
  "fileExt name = (let base = rev (takeWhile (\<lambda>c. c \<noteq> CHR ''/'') (rev name)) in
     if CHR ''.'' \<in> set base then CHR ''.'' # rev (takeWhile (\<lambda>c. c \<noteq> CHR ''.'') (rev base)) else [])"

definition defaultUploadMIME :: string where "defaultUploadMIME = ''audio/mpeg''"

definition detectUploadMIME ::
    "(string \<Rightarrow> string option) \<Rightarrow> (string \<Rightarrow> string) \<Rightarrow> string \<Rightarrow> string \<Rightarrow> string" where
  "detectUploadMIME parseMediaType typeByExt contentType filename =
     (let byExt = (if fileExt filename \<noteq> [] \<and> typeByExt (fileExt filename) \<noteq> []
                   then (case parseMediaType (typeByExt (fileExt filename)) of None \<Rightarrow> defaultUploadMIME | Some mt \<Rightarrow> mt)
                   else defaultUploadMIME)
      in if contentType \<noteq> [] \<and> contentType \<noteq> ''application/octet-stream''
         then (case parseMediaType contentType of Some mt \<Rightarrow> mt | None \<Rightarrow> byExt)
         else byExt)"

section \<open>Media\<close>

text \<open>The calls of these handlers that can fail without effect.\<close>

datatype mcall = MEpisode | MImage | MChannel | MList | MTranscript | MSniff

record mediaenv =
  me_blobs :: "string \<rightharpoonup> string"
  me_getFault :: "string \<Rightarrow> bool"
  me_sniff :: "string \<Rightarrow> string"
  me_direct :: "(string \<Rightarrow> string \<Rightarrow> string \<Rightarrow> string option) option"
  me_fault :: "mcall \<Rightarrow> bool"

definition storeRead :: "mediaenv \<Rightarrow> mcall \<Rightarrow> 'a res \<Rightarrow> 'a res" where
  "storeRead env c x = (if me_fault env c then Inl ErrDriver else x)"

datatype media_response =
  MediaNotFound | MediaError
| MediaRedirect string
| MediaStream (ms_type: string) (ms_attachment: bool) (ms_nosniff: bool) (ms_bytes: string)

text \<open>\<open>Inl True\<close> is \<open>blob.ErrNotFound\<close>, \<open>Inl False\<close> any other failure.\<close>

definition blobGet :: "mediaenv \<Rightarrow> string \<Rightarrow> bool + string" where
  "blobGet env key = (if me_getFault env key then Inl False
     else (case me_blobs env key of None \<Rightarrow> Inl True | Some b \<Rightarrow> Inr b))"

text \<open>The first 512 bytes decide; \<open>None\<close> is a failed read.\<close>

definition sniffContentType :: "mediaenv \<Rightarrow> string \<Rightarrow> string option" where
  "sniffContentType env b = (if me_fault env MSniff then None else Some (me_sniff env (take 512 b)))"

definition effectiveContentType :: "mediaenv \<Rightarrow> string \<Rightarrow> string \<Rightarrow> bool + string" where
  "effectiveContentType env key mime =
     (if mime = []
      then (case blobGet env key of
              Inl nf \<Rightarrow> Inl nf
            | Inr b \<Rightarrow> (case sniffContentType env b of None \<Rightarrow> Inl False | Some ct \<Rightarrow> Inr (safeContentType ct)))
      else Inr (safeContentType mime))"

text \<open>A visible key, redirected to or streamed.\<close>

definition serveBlob :: "mediaenv \<Rightarrow> string \<Rightarrow> string \<Rightarrow> media_response" where
  "serveBlob env key mime =
     (case me_direct env of
        Some url \<Rightarrow>
          (case effectiveContentType env key mime of
             Inl nf \<Rightarrow> if nf then MediaNotFound else MediaError
           | Inr ct \<Rightarrow> (case url key ct ''attachment'' of None \<Rightarrow> MediaError | Some u \<Rightarrow> MediaRedirect u))
      | None \<Rightarrow>
          (case blobGet env key of
             Inl nf \<Rightarrow> if nf then MediaNotFound else MediaError
           | Inr b \<Rightarrow>
               (case (if mime = [] then sniffContentType env b else Some mime) of
                  None \<Rightarrow> MediaError
                | Some ct \<Rightarrow> MediaStream (safeContentType ct) True True b)))"

definition handleMedia :: "mediaenv \<Rightarrow> string \<Rightarrow> db \<Rightarrow> media_response" where
  "handleMedia env key d =
     (case storeRead env MEpisode (PublishedEpisodeByMediaKey key d) of
        Inr ep \<Rightarrow> serveBlob env key (e_MediaMIME ep)
      | Inl e \<Rightarrow>
          if e \<noteq> ErrNotFound then MediaError
          else (case storeRead env MImage (Inr (ChannelImageKeyExists key d)) of
                  Inl _ \<Rightarrow> MediaError
                | Inr cover \<Rightarrow> if cover then serveBlob env key [] else MediaNotFound))"

section \<open>Public pages\<close>

datatype public_page =
  PageNotFound | PageError
| LandingPage "channel list"
| ChannelPage channel "episode list"
| EpisodePage channel episode string "segment list"

definition handleLanding :: "mediaenv \<Rightarrow> db \<Rightarrow> public_page" where
  "handleLanding env d =
     (case storeRead env MList (Inr (ListChannels d)) of Inl _ \<Rightarrow> PageError | Inr chs \<Rightarrow> LandingPage chs)"

definition lookupChannel :: "mediaenv \<Rightarrow> string \<Rightarrow> db \<Rightarrow> public_page + channel" where
  "lookupChannel env cid d =
     (case storeRead env MChannel (ChannelByID cid d) of
        Inl e \<Rightarrow> Inl (if e = ErrNotFound then PageNotFound else PageError) | Inr ch \<Rightarrow> Inr ch)"

definition publishedOf :: "string \<Rightarrow> EpisodeFilter" where
  "publishedOf cid = \<lparr>f_ChannelID = cid, f_PublishedOnly = True, f_Limit = 0\<rparr>"

definition handleChannel :: "mediaenv \<Rightarrow> string \<Rightarrow> db \<Rightarrow> public_page" where
  "handleChannel env cid d =
     (case lookupChannel env cid d of
        Inl pg \<Rightarrow> pg
      | Inr ch \<Rightarrow>
          (case storeRead env MList (Inr (ListEpisodes (publishedOf (c_ID ch)) d)) of
             Inl _ \<Rightarrow> PageError | Inr eps \<Rightarrow> ChannelPage ch eps))"

definition handleEpisode :: "mediaenv \<Rightarrow> string \<Rightarrow> db \<Rightarrow> public_page" where
  "handleEpisode env eid d =
     (case storeRead env MEpisode (EpisodeByID eid d) of
        Inl e \<Rightarrow> if e = ErrNotFound then PageNotFound else PageError
      | Inr ep \<Rightarrow>
          if e_Status ep \<noteq> EpisodePublished then PageNotFound
          else (case storeRead env MChannel (ChannelByID (e_ChannelID ep) d) of
                  Inl _ \<Rightarrow> PageError
                | Inr ch \<Rightarrow> EpisodePage ch ep (''/media/'' @ e_MediaKey ep)
                    (if e_TranscriptStatus ep = TranscriptDone
                     then (case storeRead env MTranscript (TranscriptByEpisode (e_ID ep) d) of
                             Inl _ \<Rightarrow> [] | Inr tr \<Rightarrow> t_Segments tr)
                     else [])))"

section \<open>Visibility\<close>

definition publicly_referenced :: "string \<Rightarrow> db \<Rightarrow> bool" where
  "publicly_referenced key d \<longleftrightarrow>
     (\<exists>r \<in> set (episodes d). er_media_key r = key \<and> er_status r = EpisodePublished)
     \<or> (\<exists>r \<in> set (channels d). cr_image_key r = key \<and> key \<noteq> [])"

definition playable :: "string \<Rightarrow> bool" where
  "playable ct \<longleftrightarrow> hasPrefix ct ''audio/'' \<or> hasPrefix ct ''video/''
     \<or> ct \<in> {''image/png'', ''image/jpeg'', ''image/gif'', ''image/webp'', ''application/octet-stream''}"

lemma safeContentType_playable: "playable (safeContentType ct)"
  by (auto simp: safeContentType_def playable_def Let_def)

lemma published_iff:
  "(\<exists>e. PublishedEpisodeByMediaKey key d = Inr e) \<longleftrightarrow>
     (\<exists>r \<in> set (episodes d). er_media_key r = key \<and> er_status r = EpisodePublished)"
  by (auto simp: PublishedEpisodeByMediaKey_def episodeWhere_def find_NoneD split: option.splits dest: find_SomeD)

lemma PublishedEpisode_Inl: "PublishedEpisodeByMediaKey key d = Inl e \<Longrightarrow> e = ErrNotFound"
  by (auto simp: PublishedEpisodeByMediaKey_def episodeWhere_def split: option.splits)

lemma publicly_iff:
  "publicly_referenced key d \<longleftrightarrow> (\<exists>e. PublishedEpisodeByMediaKey key d = Inr e) \<or> ChannelImageKeyExists key d"
  unfolding published_iff by (auto simp: publicly_referenced_def ChannelImageKeyExists_def count_where_pos list_ex_iff)

lemma handleMedia_visible:
  assumes "publicly_referenced key d" "\<not> me_fault env MEpisode" "\<not> me_fault env MImage"
  shows "\<exists>mime. handleMedia env key d = serveBlob env key mime"
  using assms PublishedEpisode_Inl [of key d] unfolding publicly_iff
  by (cases "PublishedEpisodeByMediaKey key d") (auto simp: handleMedia_def storeRead_def)

text \<open>
  C33: A key that neither a published episode nor a cover image references is answered with
  not-found, and not even that when the store fails: its blob is never looked at.
\<close>

theorem media_only_when_public:
  assumes "\<not> publicly_referenced key d"
  shows "handleMedia env key d = (if me_fault env MEpisode \<or> me_fault env MImage then MediaError else MediaNotFound)"
proof -
  have "PublishedEpisodeByMediaKey key d = Inl ErrNotFound" "\<not> ChannelImageKeyExists key d"
    using assms PublishedEpisode_Inl [of key d] unfolding publicly_iff by (cases "PublishedEpisodeByMediaKey key d"; auto)+
  then show ?thesis by (simp add: handleMedia_def storeRead_def)
qed

text \<open>
  Streamed bytes are those of the key, as an attachment with sniffing off and a content
  type from the safe list.
\<close>

theorem media_stream_hardened:
  assumes "handleMedia env key d = MediaStream ct att nosniff b"
  shows "playable ct \<and> att \<and> nosniff \<and> me_blobs env key = Some b"
proof -
  from assms obtain mime where "serveBlob env key mime = MediaStream ct att nosniff b"
    by (auto simp: handleMedia_def split: sum.splits if_splits)
  then show ?thesis
    using safeContentType_playable by (auto simp: serveBlob_def blobGet_def split: option.splits sum.splits if_splits)
qed

text \<open>
  The public pages never show an unpublished episode.
\<close>

theorem drafts_not_public:
  assumes "handleEpisode env eid d = EpisodePage ch ep url segs"
  shows "e_Status ep = EpisodePublished \<and> EpisodeByID eid d = Inr ep
    \<and> (\<forall>env' cid cs eps. handleChannel env' cid d = ChannelPage cs eps \<longrightarrow> (\<forall>e \<in> set eps. e_Status e = EpisodePublished))"
proof -
  have "e_Status e = EpisodePublished" if "e \<in> set (ListEpisodes (publishedOf c) d)" for e c
    using that by (auto simp: ListEpisodes_def Let_def publishedOf_def filter_match_def scanEpisode_def)
  moreover have "\<exists>c. eps = ListEpisodes (publishedOf c) d" if "handleChannel env' cid d = ChannelPage cs eps" for env' cid cs eps
    using that by (auto simp: handleChannel_def lookupChannel_def storeRead_def split: sum.splits if_splits)
  ultimately show ?thesis
    using assms by (auto simp: handleEpisode_def storeRead_def split: sum.splits if_splits) blast+
qed

section \<open>A concrete store\<close>

definition ex_mediaenv :: mediaenv where
  "ex_mediaenv = \<lparr>me_blobs = [''k'' \<mapsto> ''bytes''], me_getFault = (\<lambda>_. False), me_sniff = (\<lambda>_. ''text/html''),
     me_direct = None, me_fault = (\<lambda>_. False)\<rparr>"

lemma ex_media:
  "handleMedia ex_mediaenv ''k'' (ex_db TranscriptNone JobDone 1 0) = MediaStream ''audio/mpeg'' True True ''bytes''"
  by code_simp

lemma media_only_when_public_witness: "handleMedia ex_mediaenv ''z'' (ex_db TranscriptNone JobDone 1 0) = MediaNotFound"
proof -
  have "\<not> publicly_referenced ''z'' (ex_db TranscriptNone JobDone 1 0)" by (simp add: publicly_referenced_def ex)
  from media_only_when_public [OF this, of ex_mediaenv] show ?thesis by (simp add: ex_mediaenv_def)
qed

lemma media_stream_hardened_witness: "playable ''audio/mpeg'' \<and> me_blobs ex_mediaenv ''k'' = Some ''bytes''"
  using media_stream_hardened [OF ex_media] by simp

lemma drafts_not_public_witness:
  "\<exists>ch ep url segs. handleEpisode ex_mediaenv ''e'' (ex_db TranscriptNone JobDone 1 0) = EpisodePage ch ep url segs
     \<and> e_Status ep = EpisodePublished"
proof -
  have "case handleEpisode ex_mediaenv ''e'' (ex_db TranscriptNone JobDone 1 0) of EpisodePage _ _ _ _ \<Rightarrow> True | _ \<Rightarrow> False"
    by code_simp
  then obtain ch ep url segs where h: "handleEpisode ex_mediaenv ''e'' (ex_db TranscriptNone JobDone 1 0) = EpisodePage ch ep url segs"
    by (auto split: public_page.splits)
  from drafts_not_public [OF h] h show ?thesis by blast
qed

end
