(* ===== verification/LocalFS.thy ===== *)
theory LocalFS
  imports Prelude
begin

text \<open>
  The blob-store interface of \<open>blob/blob.go\<close> and its file-system implementation
  \<open>blob/localfs/localfs.go\<close>.  A directory tree is a partial function from paths to file
  contents; where an operation fails, and which name \<open>os.CreateTemp\<close> picks, are arguments.
  The locale \<open>blob_store\<close> is what the rest of the program relies on: reads return what was
  put, keys do not interfere, a failed call has its whole effect or none.  Inside it the
  content-addressing discipline of the uploads gives immutable objects.
\<close>

section \<open>Keys and paths\<close>

fun containsDotDot :: "string \<Rightarrow> bool" where
  "containsDotDot (a # b # s) = ((a = CHR ''.'' \<and> b = CHR ''.'') \<or> containsDotDot (b # s))"
| "containsDotDot _ = False"

text \<open>
  \<open>filepath.Join\<close> of a cleaned directory other than the file-system root and a key without
  separators: it cleans the result, so the key \<open>"."\<close> is the directory itself.
\<close>

definition joinKey :: "string \<Rightarrow> string \<Rightarrow> string" where
  "joinKey base key = (if key = ''.'' then base else base @ ''/'' @ key)"

definition localfsPath :: "string \<Rightarrow> string \<Rightarrow> string option" where
  "localfsPath base key =
     (if key = [] \<or> CHR ''/'' \<in> set key \<or> CHR 0x5C \<in> set key \<or> containsDotDot key then None
      else Some (joinKey base key))"

section \<open>Operations\<close>

datatype blob_err = BlobNotFound | BlobInvalidKey | BlobIO

datatype put_fault = CreateFails | CopyFails nat | ChmodFails | CloseFails | RenameFails

type_synonym files = "string \<rightharpoonup> string"

text \<open>
  \<open>Put\<close>: the temporary file \<open>tmp\<close> (a name directly under the root), the copy, which may stop
  after some bytes, the rename, and the deferred removal of the temporary name.  Renaming a
  file onto the root directory, or reading or removing it as an object, fails.
\<close>

definition Put ::
    "string \<Rightarrow> string \<Rightarrow> put_fault option \<Rightarrow> string \<Rightarrow> string \<Rightarrow> files \<Rightarrow> (blob_err + int) \<times> files" where
  "Put base tmp fault key body fs =
     (case localfsPath base key of
        None \<Rightarrow> (Inl BlobInvalidKey, fs)
      | Some dst \<Rightarrow>
          (let tmpName = joinKey base tmp; removed = (\<lambda>fs. fs(tmpName := None)) in
           if fault = Some CreateFails then (Inl BlobIO, fs)
           else (case fault of
                   Some (CopyFails n) \<Rightarrow> (Inl BlobIO, removed (fs(tmpName \<mapsto> take n body)))
                 | Some _ \<Rightarrow> (Inl BlobIO, removed (fs(tmpName \<mapsto> body)))
                 | None \<Rightarrow>
                     if dst = base then (Inl BlobIO, removed (fs(tmpName \<mapsto> body)))
                     else (Inr (int (length body)),
                           removed ((fs(tmpName := None))(dst \<mapsto> body))))))"

definition Get :: "string \<Rightarrow> bool \<Rightarrow> string \<Rightarrow> files \<Rightarrow> blob_err + string" where
  "Get base fault key fs =
     (case localfsPath base key of
        None \<Rightarrow> Inl BlobInvalidKey
      | Some name \<Rightarrow>
          if fault \<or> name = base then Inl BlobIO
          else (case fs name of None \<Rightarrow> Inl BlobNotFound | Some b \<Rightarrow> Inr b))"

definition Delete :: "string \<Rightarrow> bool \<Rightarrow> string \<Rightarrow> files \<Rightarrow> (blob_err + unit) \<times> files" where
  "Delete base fault key fs =
     (case localfsPath base key of
        None \<Rightarrow> (Inl BlobInvalidKey, fs)
      | Some name \<Rightarrow>
          if fault \<or> name = base then (Inl BlobIO, fs) else (Inr (), fs(name := None)))"

section \<open>Paths stay under the root\<close>

lemma localfsPath_Some:
  "localfsPath base key = Some p \<Longrightarrow> p = joinKey base key \<and> key \<noteq> [] \<and> CHR ''/'' \<notin> set key \<and> key \<noteq> ''..''"
  by (auto simp: localfsPath_def split: if_splits)

lemma joinKey_inj: "joinKey base k = joinKey base k' \<Longrightarrow> k \<noteq> [] \<Longrightarrow> k' \<noteq> [] \<Longrightarrow> k = k'"
  unfolding joinKey_def by (cases "k = ''.''"; cases "k' = ''.''") simp_all

lemma localfsPath_inj: "localfsPath base k = Some p \<Longrightarrow> localfsPath base k' = Some p \<Longrightarrow> k = k'"
  using localfsPath_Some [of base k p] localfsPath_Some [of base k' p] joinKey_inj [of base k k'] by simp

text \<open>
  Every operation addresses the root directory itself or one entry directly inside it, whatever
  the key, and different keys address different entries.
\<close>

theorem localfs_stays_in_root:
  assumes "localfsPath base key = Some p"
  shows "(p = base \<or> (\<exists>name. p = base @ ''/'' @ name \<and> name \<noteq> [] \<and> name \<noteq> ''.'' \<and> name \<noteq> ''..''
      \<and> CHR ''/'' \<notin> set name)) \<and> (\<forall>key'. key' \<noteq> key \<longrightarrow> localfsPath base key' \<noteq> Some p)"
proof -
  have s: "p = joinKey base key" "key \<noteq> []" "key \<noteq> ''..''" "CHR ''/'' \<notin> set key"
    using localfsPath_Some [OF assms] by simp_all
  then have "p = base \<or> (p = base @ ''/'' @ key \<and> key \<noteq> ''.'')"
    by (cases "key = ''.''") (simp_all add: joinKey_def)
  then show ?thesis using s(2-4) localfsPath_inj [OF assms] by blast
qed

lemma localfs_stays_in_root_witness: "\<exists>name. ''d/abc'' = ''d'' @ ''/'' @ name \<and> name \<noteq> ''..''"
proof -
  have "localfsPath ''d'' ''abc'' = Some ''d/abc''" by code_simp
  from localfs_stays_in_root [OF this] show ?thesis by simp
qed

section \<open>The contract of a blob store\<close>

text \<open>
  \<open>ok key\<close> are the keys the program uses; the first argument of the operations is what the
  environment does to the call.
\<close>

locale blob_store =
  fixes put :: "'e \<Rightarrow> string \<Rightarrow> string \<Rightarrow> 's \<Rightarrow> (blob_err + int) \<times> 's"
    and get :: "string \<Rightarrow> 's \<Rightarrow> blob_err + string"
    and del :: "'f \<Rightarrow> string \<Rightarrow> 's \<Rightarrow> (blob_err + unit) \<times> 's"
    and ok :: "string \<Rightarrow> bool"
  assumes put_ok: "ok key \<Longrightarrow> put e key b s = (Inr n, s') \<Longrightarrow> get key s' = Inr b \<and> n = int (length b)"
    and put_err: "ok key \<Longrightarrow> put e key b s = (Inl x, s') \<Longrightarrow> get key s' = get key s \<or> get key s' = Inr b"
    and put_other: "ok key \<Longrightarrow> ok k \<Longrightarrow> k \<noteq> key \<Longrightarrow> get k (snd (put e key b s)) = get k s"
    and del_ok: "ok key \<Longrightarrow> del f key s = (Inr (), s') \<Longrightarrow> get key s' = Inl BlobNotFound"
    and del_err: "ok key \<Longrightarrow> del f key s = (Inl x, s') \<Longrightarrow> get key s' = get key s \<or> get key s' = Inl BlobNotFound"
    and del_other: "ok key \<Longrightarrow> ok k \<Longrightarrow> k \<noteq> key \<Longrightarrow> get k (snd (del f key s)) = get k s"
begin

text \<open>
  The server only ever puts bytes under the name computed from them.  Then no read, at any
  later time, returns other bytes than those the name stands for.
\<close>

definition addressed :: "(string \<Rightarrow> string) \<Rightarrow> 's \<Rightarrow> bool" where
  "addressed h s \<longleftrightarrow> (\<forall>k b. ok k \<longrightarrow> get k s = Inr b \<longrightarrow> h b = k)"

lemma addressed_put: "addressed h s \<Longrightarrow> ok (h b) \<Longrightarrow> addressed h (snd (put e (h b) b s))"
proof -
  assume a: "addressed h s" and o: "ok (h b)"
  obtain r s' where p: "put e (h b) b s = (r, s')" by fastforce
  have own: "h x = h b" if "get (h b) s' = Inr x" for x
  proof (cases r)
    case (Inl y)
    then have "get (h b) s = Inr x \<or> x = b" using put_err [OF o p [unfolded Inl]] that by auto
    with a o show ?thesis by (auto simp: addressed_def)
  next
    case (Inr n)
    then show ?thesis using put_ok [OF o p [unfolded Inr]] that by simp
  qed
  have "h x = k" if "ok k" "get k s' = Inr x" for k x
  proof (cases "k = h b")
    case False
    then have "get k s = Inr x" using put_other [OF o that(1) False, of e b s] p that(2) by simp
    with a that(1) show ?thesis by (simp add: addressed_def)
  qed (use own that(2) in simp)
  then show ?thesis by (simp add: addressed_def p)
qed

lemma addressed_del: "addressed h s \<Longrightarrow> ok key \<Longrightarrow> addressed h (snd (del f key s))"
proof -
  assume a: "addressed h s" and o: "ok key"
  obtain r s' where p: "del f key s = (r, s')" by fastforce
  have "get key s' = get key s \<or> get key s' = Inl BlobNotFound"
    using del_ok [OF o, of f s s'] del_err [OF o, of f s _ s'] p by (cases r) auto
  moreover have "get k s' = get k s" if "ok k" "k \<noteq> key" for k
    using del_other [OF o that, of f s] p by simp
  ultimately have "h x = k" if "ok k" "get k s' = Inr x" for k x
    using a that unfolding addressed_def by (cases "k = key") auto
  then show ?thesis by (simp add: addressed_def p)
qed

text \<open>A retried put makes the object present again, whatever happened in between.\<close>

lemma put_get: "ok key \<Longrightarrow> fst (put e key b s) = Inr n \<Longrightarrow> get key (snd (put e key b s)) = Inr b"
  using put_ok by (metis prod.collapse)

end

text \<open>Keys the interpretation covers: valid ones other than the root and the temporary name.\<close>

definition usable :: "string \<Rightarrow> string \<Rightarrow> bool" where
  "usable tmp key \<longleftrightarrow> localfsPath [] key \<noteq> None \<and> key \<noteq> ''.'' \<and> key \<noteq> tmp \<and> tmp \<noteq> [] \<and> tmp \<noteq> ''.''"

lemma usable_path:
  "usable tmp key \<Longrightarrow> localfsPath base key = Some (base @ ''/'' @ key) \<and> joinKey base tmp = base @ ''/'' @ tmp
     \<and> key \<noteq> tmp"
  by (auto simp: usable_def localfsPath_def joinKey_def split: if_splits)

interpretation lfs: blob_store "Put base tmp" "Get base False" "Delete base" "usable tmp"
  for base tmp
proof
  fix e key b s n s' assume "usable tmp key" "Put base tmp e key b s = (Inr n, s')"
  then show "Get base False key s' = Inr b \<and> n = int (length b)"
    using usable_path [of tmp key base]
    by (auto simp: Put_def Get_def Let_def split: option.splits if_splits put_fault.splits)
next
  fix e key b s x s' assume "usable tmp key" "Put base tmp e key b s = (Inl x, s')"
  then show "Get base False key s' = Get base False key s \<or> Get base False key s' = Inr b"
    using usable_path [of tmp key base]
    by (auto simp: Put_def Get_def Let_def split: option.splits if_splits put_fault.splits)
next
  fix e key k b s assume "usable tmp key" "usable tmp k" "k \<noteq> key"
  then show "Get base False k (snd (Put base tmp e key b s)) = Get base False k s"
    using usable_path [of tmp key base] usable_path [of tmp k base]
    by (auto simp: Put_def Get_def Let_def split: option.splits if_splits put_fault.splits)
next
  fix f key s s' assume "usable tmp key" "Delete base f key s = (Inr (), s')"
  then show "Get base False key s' = Inl BlobNotFound"
    using usable_path [of tmp key base] by (auto simp: Delete_def Get_def split: if_splits)
next
  fix f key s x s' assume "usable tmp key" "Delete base f key s = (Inl x, s')"
  then show "Get base False key s' = Get base False key s \<or> Get base False key s' = Inl BlobNotFound"
    using usable_path [of tmp key base] by (auto simp: Delete_def split: if_splits)
next
  fix f key k s assume "usable tmp key" "usable tmp k" "k \<noteq> key"
  then show "Get base False k (snd (Delete base f key s)) = Get base False k s"
    using usable_path [of tmp key base] usable_path [of tmp k base] by (auto simp: Delete_def Get_def)
qed

section \<open>Immutable media\<close>

text \<open>The operations the server performs: puts under the hash of the bytes, and deletions.\<close>

datatype blob_op = BlobPut "put_fault option" string | BlobDelete bool string

fun blob_exec :: "string \<Rightarrow> string \<Rightarrow> (string \<Rightarrow> string) \<Rightarrow> blob_op \<Rightarrow> files \<Rightarrow> files" where
  "blob_exec base tmp sha256 (BlobPut e body) fs = snd (Put base tmp e (sha256 body) body fs)"
| "blob_exec base tmp sha256 (BlobDelete f key) fs = snd (Delete base f key fs)"

text \<open>
  C21: Media is immutable: through any sequence of uploads, failed uploads and deletions a key is
  either absent or holds bytes it is the hash of, and a successful upload is readable at once
  with its exact bytes and length.
\<close>

theorem media_is_immutable:
  assumes "\<forall>b. usable tmp (sha256 b)" "\<forall>k. \<not> usable tmp k \<longrightarrow> (\<forall>f. BlobDelete f k \<notin> set ops)"
  shows "let fs = fold (blob_exec base tmp sha256) ops Map.empty in
    (\<forall>key b. usable tmp key \<longrightarrow> Get base False key fs = Inr b \<longrightarrow> sha256 b = key)
    \<and> (\<forall>e b n fs'. Put base tmp e (sha256 b) b fs = (Inr n, fs') \<longrightarrow>
         Get base False (sha256 b) fs' = Inr b \<and> n = int (length b))"
proof -
  have "lfs.addressed base tmp sha256 (fold (blob_exec base tmp sha256) ops fs)"
    if "lfs.addressed base tmp sha256 fs" for fs
    using that assms(2)
  proof (induction ops arbitrary: fs)
    case (Cons op ops)
    have "lfs.addressed base tmp sha256 (blob_exec base tmp sha256 op fs)"
    proof (cases op)
      case (BlobPut e b)
      then show ?thesis using lfs.addressed_put [OF Cons.prems(1)] assms(1) by simp
    next
      case (BlobDelete f k)
      then have "usable tmp k" using Cons.prems(2) by auto
      then show ?thesis using lfs.addressed_del [OF Cons.prems(1)] BlobDelete by simp
    qed
    from Cons.IH [OF this] show ?case using Cons.prems(2) by simp
  qed simp
  moreover have "lfs.addressed base tmp sha256 Map.empty"
    by (auto simp: lfs.addressed_def Get_def split: option.splits if_splits)
  ultimately have a: "lfs.addressed base tmp sha256 (fold (blob_exec base tmp sha256) ops Map.empty)" by blast
  show ?thesis
    using a assms(1) lfs.put_ok unfolding lfs.addressed_def Let_def by blast
qed

lemma media_is_immutable_witness:
  "Get ''d'' False ''hab'' (fold (blob_exec ''d'' ''t'' (\<lambda>b. CHR ''h'' # map (\<lambda>_. CHR ''a'') b))
      [BlobPut None ''x'', BlobDelete False ''hab''] Map.empty) \<noteq> Inr ''y''"
proof -
  let ?h = "\<lambda>b :: string. CHR ''h'' # map (\<lambda>c. CHR ''a'') b"
  have dd: "\<not> containsDotDot (map (\<lambda>c. CHR ''a'') b)" for b :: string by (induction b rule: containsDotDot.induct) auto
  have "\<not> containsDotDot (?h b)" for b
    using dd [of b] by (cases b) auto
  then have "usable ''t'' (?h b)" for b by (auto simp: usable_def localfsPath_def)
  moreover have "usable ''t'' ''hab''" by code_simp
  ultimately show ?thesis
    using media_is_immutable [of "''t''" ?h "[BlobPut None ''x'', BlobDelete False ''hab'']" "''d''"]
    by (fastforce simp: Let_def)
qed

end
