(* ===== verification/Upload.thy ===== *)
theory Upload
  imports Media
begin

text \<open>
  The streaming upload parser of \<open>server/handlers_admin.go\<close>: \<open>stageMultipartUpload\<close> with its
  bounds on parts and fields, its classification of errors and its single staged file, and
  the read deadline derived from the size cap.  A multipart body is what
  \<open>multipart.Reader\<close> delivers: parts with the bytes that arrive and the error that cuts
  them short, if any; \<open>io.EOF\<close> or an error at the end.  The staging directory is a partial
  function from names to contents.
\<close>

section \<open>The read window\<close>

definition minUploadRate :: int where "minUploadRate = 128 * 1024"
definition uploadTimeoutFloor :: duration where "uploadTimeoutFloor = 5 * Minute"

text \<open>Go's integer division truncates; the cap is not negative.\<close>

definition uploadReadTimeout :: "int \<Rightarrow> duration" where
  "uploadReadTimeout maxUploadBytes =
     (let secs = (maxUploadBytes + minUploadRate - 1) div minUploadRate;
          d = secs * Second
      in if d < uploadTimeoutFloor then uploadTimeoutFloor else d)"

section \<open>Parts\<close>

definition maxUploadFieldBytes :: nat where "maxUploadFieldBytes = 64 * 1024"
definition maxUploadFieldsBytes :: nat where "maxUploadFieldsBytes = 256 * 1024"
definition maxUploadParts :: nat where "maxUploadParts = 100"

definition fieldTitle :: string where "fieldTitle = ''title''"
definition fieldDescription :: string where "fieldDescription = ''description''"
definition fieldLanguage :: string where "fieldLanguage = ''language''"
definition fieldMedia :: string where "fieldMedia = ''media''"

definition knownUploadFields :: "string list" where
  "knownUploadFields = [fieldTitle, fieldDescription, fieldLanguage]"

text \<open>\<open>*http.MaxBytesError\<close>, or any other error of reading the body.\<close>

datatype read_err = TooLarge | BodyErr

record part =
  pt_FormName :: string
  pt_FileName :: string
  pt_ContentType :: string
  pt_Body :: string
  pt_Err :: "read_err option"

text \<open>\<open>errUploadFields\<close>, an unwrapped read error, and \<open>errServerStaging\<close> with what it is joined to.\<close>

datatype stage_err = SFields | SRead read_err | SServer "read_err option"

record stagedUpload =
  su_file :: "string option"
  su_mediaKey :: string
  su_mime :: string
  su_fields :: "string \<rightharpoonup> string"

definition staged_field :: "stagedUpload \<Rightarrow> string \<Rightarrow> string" where
  "staged_field up name = (case su_fields up name of None \<Rightarrow> [] | Some v \<Rightarrow> v)"

record stageenv =
  se_tempName :: string
  se_createFails :: bool
  se_diskFails :: bool
  se_seekFails :: bool
  se_sha256 :: "string \<Rightarrow> string"
  se_mime :: "string \<Rightarrow> string \<Rightarrow> string"

type_synonym staging = "string \<rightharpoonup> string"

section \<open>The parser\<close>

text \<open>The bytes read from one field: the per-field cap or what is left of the aggregate budget.\<close>

definition fieldLimit :: "nat \<Rightarrow> nat" where
  "fieldLimit used = min maxUploadFieldBytes (maxUploadFieldsBytes - used)"

text \<open>
  The loop over the parts, with the parts and field bytes seen so far.  \<open>su_file\<close> is the
  name of the staged file once it has been created; its contents are in the directory.
\<close>

fun stageParts ::
    "stageenv \<Rightarrow> nat \<Rightarrow> nat \<Rightarrow> stagedUpload \<Rightarrow> part list \<Rightarrow> read_err option \<Rightarrow> staging
       \<Rightarrow> (stage_err + stagedUpload) \<times> stagedUpload \<times> staging" where
  "stageParts env n used up [] fin dir =
     (case fin of
        Some e \<Rightarrow> (Inl (SRead e), up, dir)
      | None \<Rightarrow> if su_file up \<noteq> None \<and> se_seekFails env then (Inl (SServer None), up, dir) else (Inr up, up, dir))"
| "stageParts env n used up (p # ps) fin dir =
     (if maxUploadParts < n + 1 then (Inl SFields, up, dir)
      else if pt_FileName p \<noteq> [] then
        (if pt_FormName p \<noteq> fieldMedia \<or> su_file up \<noteq> None then (Inl SFields, up, dir)
         else
           (let up1 = up\<lparr>su_mime := se_mime env (pt_ContentType p) (pt_FileName p)\<rparr> in
            if se_createFails env then (Inl (SServer None), up1, dir)
            else
              (let up2 = up1\<lparr>su_file := Some (se_tempName env)\<rparr>; dir2 = dir(se_tempName env \<mapsto> pt_Body p) in
               case pt_Err p of
                 Some e \<Rightarrow> (Inl (SServer (Some e)), up2, dir2)
               | None \<Rightarrow>
                   if se_diskFails env then (Inl (SServer None), up2, dir2)
                   else stageParts env (n + 1) used (up2\<lparr>su_mediaKey := se_sha256 env (pt_Body p)\<rparr>) ps fin dir2)))
      else
        (let limit = fieldLimit used;
             v = take (limit + 1) (pt_Body p)
         in if pt_Err p \<noteq> None \<and> length (pt_Body p) \<le> limit then (Inl (SRead (the (pt_Err p))), up, dir)
            else if limit < length v then (Inl SFields, up, dir)
            else stageParts env (n + 1) (used + length v)
                   (if pt_FormName p \<in> set knownUploadFields
                    then up\<lparr>su_fields := (su_fields up)(pt_FormName p \<mapsto> v)\<rparr> else up) ps fin dir))"

text \<open>
  \<open>stageMultipartUpload\<close>: \<open>opened\<close> is whether \<open>r.MultipartReader\<close> succeeds; on any error the
  deferred function removes the staged file.
\<close>

definition stageMultipartUpload ::
    "stageenv \<Rightarrow> bool \<Rightarrow> part list \<Rightarrow> read_err option \<Rightarrow> staging \<Rightarrow> (stage_err + stagedUpload) \<times> staging" where
  "stageMultipartUpload env opened ps fin dir =
     (if \<not> opened then (Inl (SRead BodyErr), dir)
      else (case stageParts env 0 0 \<lparr>su_file = None, su_mediaKey = [], su_mime = [], su_fields = Map.empty\<rparr> ps fin dir of
              (Inr up, _, dir') \<Rightarrow> (Inr up, dir')
            | (Inl e, up, dir') \<Rightarrow>
                (Inl e, case su_file up of None \<Rightarrow> dir' | Some name \<Rightarrow> dir'(name := None))))"

section \<open>What it guarantees\<close>

text \<open>The directory only ever gains the staged file, with exactly the uploaded bytes.\<close>

lemma stageParts_dir:
  assumes "stageParts env n used up ps fin dir = (res, up', dir')" "se_tempName env \<notin> dom dir0"
    and "su_file up = None \<longrightarrow> dir = dir0"
    and "\<forall>name. su_file up = Some name \<longrightarrow> name = se_tempName env \<and>
      (\<exists>body. dir = dir0(name \<mapsto> body) \<and> (su_mediaKey up = se_sha256 env body))"
  shows "(su_file up' = None \<longrightarrow> dir' = dir0)
    \<and> (\<forall>name. su_file up' = Some name \<longrightarrow> name = se_tempName env \<and>
        (\<exists>body. dir' = dir0(name \<mapsto> body) \<and> (res = Inr up' \<longrightarrow> su_mediaKey up' = se_sha256 env body)))
    \<and> (\<forall>x. res = Inr x \<longrightarrow> x = up')"
  using assms
proof (induction env n used up ps fin dir arbitrary: res up' dir' rule: stageParts.induct)
  case (1 env n used up fin dir)
  then show ?case by (auto split: option.splits if_splits)
next
  case (2 env n used up p ps fin dir)
  show ?case
  proof (cases "pt_FileName p \<noteq> []")
    case True
    show ?thesis
    proof (cases "maxUploadParts < n + 1 \<or> pt_FormName p \<noteq> fieldMedia \<or> su_file up \<noteq> None \<or> se_createFails env")
      case True
      with \<open>pt_FileName p \<noteq> []\<close> 2(3-6) show ?thesis by (auto simp: Let_def split: if_splits)
    next
      case False
      then have none: "su_file up = None" "dir = dir0" using 2(5) by simp_all
      show ?thesis
      proof (cases "pt_Err p = None \<and> \<not> se_diskFails env")
        case True
        then have c: "pt_Err p = None" "\<not> se_diskFails env" by simp_all
        let ?up2 = "up\<lparr>su_mime := se_mime env (pt_ContentType p) (pt_FileName p), su_file := Some (se_tempName env)\<rparr>"
        have call: "stageParts env (n + 1) used (?up2\<lparr>su_mediaKey := se_sha256 env (pt_Body p)\<rparr>) ps fin
            (dir(se_tempName env \<mapsto> pt_Body p)) = (res, up', dir')"
          using False c \<open>pt_FileName p \<noteq> []\<close> 2(3) by (simp add: Let_def)
        have g: "\<not> maxUploadParts < n + 1" "\<not> (pt_FormName p \<noteq> fieldMedia \<or> su_file up \<noteq> None)" "\<not> se_createFails env"
          using False by simp_all
        show ?thesis
          by (rule 2(1) [OF g(1) \<open>pt_FileName p \<noteq> []\<close> g(2) refl g(3) refl refl c call 2(4)]) (use none in auto)
      next
        case err: False
        with False \<open>pt_FileName p \<noteq> []\<close> 2(3) none show ?thesis
          by (auto simp: Let_def fun_upd_def intro!: exI [of _ "pt_Body p"] split: option.splits if_splits)
      qed
    qed
  next
    case False
    let ?limit = "fieldLimit used"
    show ?thesis
    proof (cases "maxUploadParts < n + 1 \<or> (pt_Err p \<noteq> None \<and> length (pt_Body p) \<le> ?limit)
        \<or> ?limit < length (take (?limit + 1) (pt_Body p))")
      case True
      with False 2(3-6) show ?thesis by (auto simp: Let_def split: if_splits)
    next
      case ok: False
      from ok False 2(3) show ?thesis
        by (intro 2(2) [OF _ _ refl refl]) (use 2(4-6) in \<open>auto simp: Let_def\<close>)
    qed
  qed
qed

definition freshUpload :: stagedUpload where
  "freshUpload = \<lparr>su_file = None, su_mediaKey = [], su_mime = [], su_fields = Map.empty\<rparr>"

text \<open>
  Staging leaves nothing behind on an error, and on success at most one file, whose bytes the
  media key is the hash of.
\<close>

lemma staging_clean:
  assumes "se_tempName env \<notin> dom dir" "stageMultipartUpload env opened ps fin dir = (res, dir')"
  shows "case res of
      Inl e \<Rightarrow> dir' = dir
    | Inr up \<Rightarrow> (case su_file up of
          None \<Rightarrow> dir' = dir
        | Some name \<Rightarrow> \<exists>body. dir' = dir(name \<mapsto> body) \<and> su_mediaKey up = se_sha256 env body \<and> name \<notin> dom dir)"
proof (cases opened)
  case True
  obtain r up d1 where s: "stageParts env 0 0 freshUpload ps fin dir = (r, up, d1)" by (metis surj_pair)
  have p: "(su_file up = None \<longrightarrow> d1 = dir)
      \<and> (\<forall>name. su_file up = Some name \<longrightarrow> name = se_tempName env \<and>
          (\<exists>body. d1 = dir(name \<mapsto> body) \<and> (r = Inr up \<longrightarrow> su_mediaKey up = se_sha256 env body)))
      \<and> (\<forall>x. r = Inr x \<longrightarrow> x = up)"
    by (rule stageParts_dir [OF s assms(1)]) (simp_all add: freshUpload_def)
  show ?thesis
  proof (cases r)
    case (Inl e)
    with s True assms(2) have r: "res = Inl e" "dir' = (case su_file up of None \<Rightarrow> d1 | Some name \<Rightarrow> d1(name := None))"
      by (auto simp: stageMultipartUpload_def freshUpload_def)
    have "dir(se_tempName env := None) = dir" using assms(1) by (auto simp: dom_def)
    have "su_file up = None \<longrightarrow> d1 = dir" using p by blast
    moreover have "\<forall>name. su_file up = Some name \<longrightarrow> d1(name := None) = dir"
    proof (intro allI impI)
      fix name assume "su_file up = Some name"
      then obtain body where "d1 = dir(name \<mapsto> body)" "name = se_tempName env" using p by blast
      then show "d1(name := None) = dir" using \<open>dir(se_tempName env := None) = dir\<close> by simp
    qed
    ultimately show ?thesis using r by (simp split: option.splits)
  next
    case (Inr x)
    with s True assms(2) have "res = Inr x" "dir' = d1" by (auto simp: stageMultipartUpload_def freshUpload_def)
    moreover have "x = up" using p Inr by blast
    moreover have "\<exists>body. d1 = dir(name \<mapsto> body) \<and> su_mediaKey up = se_sha256 env body \<and> name \<notin> dom dir"
      if "su_file up = Some name" for name
      using p that Inr \<open>x = up\<close> assms(1) by blast
    ultimately show ?thesis using p by (simp split: option.split)
  qed
qed (use assms(2) in \<open>auto simp: stageMultipartUpload_def\<close>)

theorem staging_is_clean:
  assumes "se_tempName env \<notin> dom dir" "stageMultipartUpload env opened ps fin dir = (res, dir')"
  shows "case res of
      Inl e \<Rightarrow> dir' = dir
    | Inr up \<Rightarrow> (case su_file up of
          None \<Rightarrow> dir' = dir
        | Some name \<Rightarrow> \<exists>body. dir' = dir(name \<mapsto> body) \<and> su_mediaKey up = se_sha256 env body \<and> name \<notin> dom dir)"
  by (rule staging_clean [OF assms])

text \<open>What an accepted body amounts to.\<close>

definition field_bytes :: "part list \<Rightarrow> nat" where
  "field_bytes ps = sum_list (map (\<lambda>p. length (pt_Body p)) (filter (\<lambda>p. pt_FileName p = []) ps))"

lemma stageParts_field:
  assumes "pt_FileName p = []" "stageParts env n used up (p # ps) fin dir = (Inr up', up'', dir')"
  shows "n < maxUploadParts \<and> pt_Err p = None \<and> length (pt_Body p) \<le> fieldLimit used
    \<and> stageParts env (n + 1) (used + length (pt_Body p))
        (if pt_FormName p \<in> set knownUploadFields
         then up\<lparr>su_fields := (su_fields up)(pt_FormName p \<mapsto> pt_Body p)\<rparr> else up) ps fin dir = (Inr up', up'', dir')"
proof -
  let ?limit = "fieldLimit used"
  have n: "\<not> maxUploadParts < n + 1" and l: "\<not> (pt_Err p \<noteq> None \<and> length (pt_Body p) \<le> ?limit)"
    and v: "\<not> ?limit < length (take (?limit + 1) (pt_Body p))"
    using assms by (auto simp: Let_def split: if_splits)
  from v have b: "length (pt_Body p) \<le> ?limit" "take (Suc ?limit) (pt_Body p) = pt_Body p" by auto
  show ?thesis
    using assms n l b(1) by (cases "pt_FormName p \<in> set knownUploadFields") (simp_all add: Let_def b(2))
qed

lemma stageParts_bounds:
  assumes "stageParts env n used up ps fin dir = (Inr up', up'', dir')" "n \<le> maxUploadParts" "used \<le> maxUploadFieldsBytes"
  shows "n + length ps \<le> maxUploadParts \<and> used + field_bytes ps \<le> maxUploadFieldsBytes \<and> fin = None
    \<and> (\<forall>p \<in> set ps. pt_Err p = None \<or> maxUploadFieldBytes < length (pt_Body p))
    \<and> (\<forall>p \<in> set ps. pt_FileName p = [] \<longrightarrow> length (pt_Body p) \<le> maxUploadFieldBytes)
    \<and> length (filter (\<lambda>p. pt_FileName p \<noteq> []) ps) + (if su_file up = None then 0 else 1) \<le> 1"
  using assms
proof (induction env n used up ps fin dir arbitrary: up' up'' dir' rule: stageParts.induct)
  case (1 env n used up fin dir)
  then show ?case by (auto simp: field_bytes_def split: option.splits if_splits)
next
  case (2 env n used up p ps fin dir)
  have n: "\<not> maxUploadParts < n + 1" using 2(3) by (auto split: if_splits)
  show ?case
  proof (cases "pt_FileName p \<noteq> []")
    case True
    with 2(3) n have c: "\<not> (pt_FormName p \<noteq> fieldMedia \<or> su_file up \<noteq> None)" "\<not> se_createFails env"
      "pt_Err p = None" "\<not> se_diskFails env"
      by (auto simp: Let_def split: if_splits option.splits)
    let ?up2 = "up\<lparr>su_mime := se_mime env (pt_ContentType p) (pt_FileName p), su_file := Some (se_tempName env)\<rparr>"
    have call: "stageParts env (n + 1) used (?up2\<lparr>su_mediaKey := se_sha256 env (pt_Body p)\<rparr>) ps fin
        (dir(se_tempName env \<mapsto> pt_Body p)) = (Inr up', up'', dir')"
      using c n True 2(3) by (simp add: Let_def)
    from 2(1) [OF n True c(1) refl c(2) refl refl c(3,4) call] n 2(5)
    show ?thesis using True c by (auto simp: field_bytes_def)
  next
    case False
    then have f: "pt_FileName p = []" by simp
    let ?limit = "fieldLimit used"
    note q = stageParts_field [OF f 2(3)]
    have v: "take (?limit + 1) (pt_Body p) = pt_Body p" using q by simp
    have l: "\<not> (pt_Err p \<noteq> None \<and> length (pt_Body p) \<le> ?limit)" "\<not> ?limit < length (take (?limit + 1) (pt_Body p))"
      using q v by simp_all
    have call: "stageParts env (n + 1) (used + length (take (?limit + 1) (pt_Body p)))
        (if pt_FormName p \<in> set knownUploadFields
         then up\<lparr>su_fields := (su_fields up)(pt_FormName p \<mapsto> take (?limit + 1) (pt_Body p))\<rparr> else up) ps fin dir
        = (Inr up', up'', dir')"
      using q by (simp only: v)
    have u: "used + length (take (?limit + 1) (pt_Body p)) \<le> maxUploadFieldsBytes" unfolding v using q 2(5) unfolding fieldLimit_def by linarith
    have n1: "n + 1 \<le> maxUploadParts" using n by simp
    from 2(2) [OF n False refl refl l call n1 u] show ?thesis
      using q f unfolding v by (auto simp: field_bytes_def fieldLimit_def split: if_splits)
  qed
qed

theorem accepted_upload_is_bounded:
  assumes "stageMultipartUpload env opened ps fin dir = (Inr up, dir')"
  shows "length ps \<le> 100 \<and> field_bytes ps \<le> 256 * 1024 \<and> fin = None
    \<and> (\<forall>p \<in> set ps. pt_FileName p = [] \<longrightarrow> length (pt_Body p) \<le> 64 * 1024)
    \<and> length (filter (\<lambda>p. pt_FileName p \<noteq> []) ps) \<le> 1"
proof -
  from assms obtain up2 d2 where "stageParts env 0 0 freshUpload ps fin dir = (Inr up, up2, d2)"
    by (auto simp: stageMultipartUpload_def freshUpload_def split: if_splits prod.splits sum.splits)
  from stageParts_bounds [OF this] show ?thesis
    by (simp add: maxUploadParts_def maxUploadFieldsBytes_def maxUploadFieldBytes_def freshUpload_def)
qed

text \<open>
  A media part that the client cuts short is reported as a server-side fault: the copy does
  not tell a failed read from a failed write.
\<close>

theorem truncated_media_is_server_fault:
  assumes "pt_FileName p \<noteq> []" "pt_FormName p = fieldMedia" "pt_Err p = Some BodyErr" "\<not> se_createFails env"
  shows "fst (stageMultipartUpload env True (p # ps) fin dir) = Inl (SServer (Some BodyErr))"
  using assms by (simp add: stageMultipartUpload_def maxUploadParts_def Let_def)

text \<open>The read window lets the largest allowed body through at the slowest accepted rate.\<close>

theorem upload_window_suffices:
  assumes "0 \<le> maxUploadBytes"
  shows "uploadTimeoutFloor \<le> uploadReadTimeout maxUploadBytes
    \<and> maxUploadBytes * Second \<le> minUploadRate * uploadReadTimeout maxUploadBytes
    \<and> uploadReadTimeout maxUploadBytes \<le> max uploadTimeoutFloor ((maxUploadBytes div minUploadRate + 1) * Second)"
proof -
  let ?s = "(maxUploadBytes + minUploadRate - 1) div minUploadRate"
  have r: "minUploadRate = 131072" by (simp add: minUploadRate_def)
  have "maxUploadBytes \<le> minUploadRate * ?s" unfolding r by simp
  then have "maxUploadBytes * Second \<le> (minUploadRate * ?s) * Second"
    by (rule mult_right_mono) (simp add: units)
  moreover have "?s * Second \<le> uploadReadTimeout maxUploadBytes" by (simp add: uploadReadTimeout_def Let_def)
  then have "minUploadRate * (?s * Second) \<le> minUploadRate * uploadReadTimeout maxUploadBytes"
    by (rule mult_left_mono) (simp add: r)
  moreover have "?s \<le> maxUploadBytes div minUploadRate + 1" unfolding r by simp
  then have "?s * Second \<le> (maxUploadBytes div minUploadRate + 1) * Second"
    by (rule mult_right_mono) (simp add: units)
  ultimately show ?thesis by (auto simp: uploadReadTimeout_def Let_def mult.assoc)
qed

section \<open>A concrete upload\<close>

definition ex_stageenv :: stageenv where
  "ex_stageenv = \<lparr>se_tempName = ''tmp'', se_createFails = False, se_diskFails = False, se_seekFails = False,
     se_sha256 = (\<lambda>b. ''h'' @ b), se_mime = (\<lambda>_ _. ''audio/mpeg'')\<rparr>"

definition ex_parts :: "part list" where
  "ex_parts = [\<lparr>pt_FormName = ''title'', pt_FileName = [], pt_ContentType = [], pt_Body = ''T'', pt_Err = None\<rparr>,
     \<lparr>pt_FormName = ''media'', pt_FileName = ''a.mp3'', pt_ContentType = [], pt_Body = ''xy'', pt_Err = None\<rparr>]"

lemma ex_staged:
  "stageMultipartUpload ex_stageenv True ex_parts None Map.empty =
     (Inr \<lparr>su_file = Some ''tmp'', su_mediaKey = ''hxy'', su_mime = ''audio/mpeg'', su_fields = [''title'' \<mapsto> ''T'']\<rparr>,
      [''tmp'' \<mapsto> ''xy''])"
  by (simp add: stageMultipartUpload_def ex_stageenv_def ex_parts_def maxUploadParts_def maxUploadFieldBytes_def
      maxUploadFieldsBytes_def fieldLimit_def fieldMedia_def knownUploadFields_def fieldTitle_def Let_def)

lemma staging_is_clean_witness: "\<exists>body. [''tmp'' \<mapsto> ''xy''] = (Map.empty :: staging)(''tmp'' \<mapsto> body)"
proof -
  have "se_tempName ex_stageenv \<notin> dom (Map.empty :: staging)" by simp
  from staging_is_clean [OF this ex_staged] show ?thesis by auto
qed

lemma accepted_upload_is_bounded_witness: "length ex_parts \<le> 100 \<and> field_bytes ex_parts \<le> 256 * 1024"
  using accepted_upload_is_bounded [OF ex_staged] by simp

lemma truncated_media_is_server_fault_witness:
  "fst (stageMultipartUpload ex_stageenv True [\<lparr>pt_FormName = ''media'', pt_FileName = ''a.mp3'',
     pt_ContentType = [], pt_Body = ''x'', pt_Err = Some BodyErr\<rparr>] None Map.empty) = Inl (SServer (Some BodyErr))"
  by (rule truncated_media_is_server_fault) (simp_all add: fieldMedia_def ex_stageenv_def)

lemma upload_window_suffices_witness: "uploadTimeoutFloor \<le> uploadReadTimeout (512 * 1024 * 1024)"
  using upload_window_suffices [of "512 * 1024 * 1024"] by simp

end
