(* ===== verification/Admin.thy ===== *)
theory Admin
  imports Upload Queue Http Examples
begin

text \<open>
  The admin handlers of \<open>server/handlers_admin.go\<close>: ownership checks, channel and episode
  forms, publication, reordering and transcription requests.  The environment says which
  store or blob call fails, what the clock reads at each and what other requests do to the
  database just before it.  The state is the database, the blob store, the staging directory
  and, for the connection of the request, its read deadline (\<open>None\<close>: the server's global
  one) and whether it is to be closed.
\<close>

section \<open>Environment and state\<close>

datatype acall =
  AChannel | AEpisode | AList | AWrite | APut | ACreate | ARelease | AOrphan | APhysical | AUnlease | AEnqueue
| ADeadline | AAbort

record adminenv =
  ad_queue :: "db Queue"
  ad_fault :: "acall \<Rightarrow> bool"
  ad_others :: "acall \<Rightarrow> store_op list"
  ad_now :: "acall \<Rightarrow> time"
  ad_newID :: string
  ad_jobID :: string
  ad_stage :: stageenv
  ad_maxUploadBytes :: int
  ad_noDeadlines :: bool
  ad_elapsed :: duration
  ad_start :: time
  ad_reserveFails :: "nat \<Rightarrow> bool"
  ad_cancelled :: "nat \<Rightarrow> bool"
  ad_delay :: "nat \<Rightarrow> nat"
  ad_between :: "nat \<Rightarrow> store_op list"
  ad_reserveNow :: "nat \<Rightarrow> time"

record site =
  si_db :: db
  si_blobs :: "string \<rightharpoonup> string"
  si_staging :: staging
  si_readDeadline :: "time option"
  si_close :: bool

definition adm :: "adminenv \<Rightarrow> acall \<Rightarrow> (db \<Rightarrow> 'a res \<times> db) \<Rightarrow> db \<Rightarrow> 'a res \<times> db" where
  "adm env c op d = (let d0 = exec_all (ad_others env c) d in if ad_fault env c then (Inl ErrDriver, d0) else op d0)"

text \<open>What a handler answers: a bare response, or a page with its view model.\<close>

datatype adminview =
  Plain response
| ViewDashboard "channel list"
| ViewUpload "channel list"
| ViewChannelForm int channel string string
| ViewEpisodes channel "episode list"
| ViewEpisodeForm int channel string string string string
| ViewEpisodeEdit int episode channel string string string string
| ViewStatus TranscriptStatus

definition orDefault :: "string \<Rightarrow> string \<Rightarrow> string" where
  "orDefault v dflt = (if v = [] then dflt else v)"

section \<open>Ownership\<close>

definition ownedChannel :: "adminenv \<Rightarrow> user \<Rightarrow> string \<Rightarrow> db \<Rightarrow> (response + channel) \<times> db" where
  "ownedChannel env usr cid d =
     (case adm env AChannel (\<lambda>d. (ChannelByID cid d, d)) d of
        (Inl e, d1) \<Rightarrow> (Inl (if e = ErrNotFound then page 404 ''Channel not found.'' else serverError), d1)
      | (Inr ch, d1) \<Rightarrow>
          if c_UserID ch \<noteq> u_ID usr then (Inl (page 404 ''Channel not found.''), d1) else (Inr ch, d1))"

definition ownedEpisode :: "adminenv \<Rightarrow> user \<Rightarrow> string \<Rightarrow> db \<Rightarrow> (response + episode \<times> channel) \<times> db" where
  "ownedEpisode env usr eid d =
     (case adm env AEpisode (\<lambda>d. (EpisodeByID eid d, d)) d of
        (Inl e, d1) \<Rightarrow> (Inl (if e = ErrNotFound then page 404 ''Episode not found.'' else serverError), d1)
      | (Inr ep, d1) \<Rightarrow>
          (case ownedChannel env usr (e_ChannelID ep) d1 of
             (Inl rs, d2) \<Rightarrow> (Inl rs, d2)
           | (Inr ch, d2) \<Rightarrow> (Inr (ep, ch), d2)))"

definition episodesPath :: "channel \<Rightarrow> string" where
  "episodesPath ch = ''/admin/channels/'' @ c_ID ch @ ''/episodes''"

section \<open>Channels\<close>

definition handleAdminDashboard :: "adminenv \<Rightarrow> user \<Rightarrow> db \<Rightarrow> adminview \<times> db" where
  "handleAdminDashboard env usr d =
     (case adm env AList (\<lambda>d. (Inr (ListChannelsByUser (u_ID usr) d), d)) d of
        (Inl e, d1) \<Rightarrow> (Plain serverError, d1) | (Inr chs, d1) \<Rightarrow> (ViewDashboard chs, d1))"

definition handleUpload :: "adminenv \<Rightarrow> user \<Rightarrow> db \<Rightarrow> adminview \<times> db" where
  "handleUpload env usr d =
     (case adm env AList (\<lambda>d. (Inr (ListChannelsByUser (u_ID usr) d), d)) d of
        (Inl e, d1) \<Rightarrow> (Plain serverError, d1)
      | (Inr chs, d1) \<Rightarrow>
          (case chs of
             [ch] \<Rightarrow> (Plain (redirect (''/admin/channels/'' @ c_ID ch @ ''/episodes/new'')), d1)
           | _ \<Rightarrow> (ViewUpload chs, d1)))"

definition emptyChannel :: channel where
  "emptyChannel = \<lparr>c_ID = [], c_UserID = [], c_Title = [], c_Description = [], c_Language = ''en'', c_ImageKey = [],
     c_CreatedAt = 0, c_UpdatedAt = 0\<rparr>"

definition handleChannelNew :: adminview where
  "handleChannelNew = ViewChannelForm 200 emptyChannel ''/admin/channels'' []"

definition validateChannel :: "channel \<Rightarrow> string" where
  "validateChannel ch = (if c_Title ch = [] then ''Title is required.'' else [])"

definition handleChannelCreate :: "adminenv \<Rightarrow> user \<Rightarrow> request \<Rightarrow> db \<Rightarrow> adminview \<times> db" where
  "handleChannelCreate env usr r d =
     (case parseSmallForm r of
        (Some rs, r1) \<Rightarrow> (Plain rs, d)
      | (None, r1) \<Rightarrow>
          (let ch = \<lparr>c_ID = ad_newID env, c_UserID = u_ID usr, c_Title = FormValue r1 fieldTitle,
                     c_Description = FormValue r1 fieldDescription,
                     c_Language = orDefault (FormValue r1 fieldLanguage) ''en'', c_ImageKey = [],
                     c_CreatedAt = ad_now env AWrite, c_UpdatedAt = ad_now env AWrite\<rparr>
           in if validateChannel ch \<noteq> [] then (ViewChannelForm 400 ch ''/admin/channels'' (validateChannel ch), d)
              else (case adm env AWrite (CreateChannel ch) d of
                      (Inl e, d1) \<Rightarrow> (Plain serverError, d1)
                    | (Inr _, d1) \<Rightarrow> (Plain (redirect ''/admin/''), d1))))"

definition handleChannelEdit :: "adminenv \<Rightarrow> user \<Rightarrow> request \<Rightarrow> db \<Rightarrow> adminview \<times> db" where
  "handleChannelEdit env usr r d =
     (case ownedChannel env usr (rq_PathID r) d of
        (Inl rs, d1) \<Rightarrow> (Plain rs, d1)
      | (Inr ch, d1) \<Rightarrow> (ViewChannelForm 200 ch (''/admin/channels/'' @ c_ID ch) [], d1))"

definition handleChannelUpdate :: "adminenv \<Rightarrow> user \<Rightarrow> request \<Rightarrow> db \<Rightarrow> adminview \<times> db" where
  "handleChannelUpdate env usr r d =
     (case parseSmallForm r of
        (Some rs, r1) \<Rightarrow> (Plain rs, d)
      | (None, r1) \<Rightarrow>
          (case ownedChannel env usr (rq_PathID r) d of
             (Inl rs, d1) \<Rightarrow> (Plain rs, d1)
           | (Inr ch0, d1) \<Rightarrow>
               (let ch = ch0\<lparr>c_Title := FormValue r1 fieldTitle, c_Description := FormValue r1 fieldDescription,
                             c_Language := orDefault (FormValue r1 fieldLanguage) ''en'',
                             c_UpdatedAt := ad_now env AWrite\<rparr>
                in if validateChannel ch \<noteq> []
                   then (ViewChannelForm 400 ch (''/admin/channels/'' @ c_ID ch) (validateChannel ch), d1)
                   else (case adm env AWrite (UpdateChannel ch) d1 of
                           (Inl e, d2) \<Rightarrow> (Plain serverError, d2)
                         | (Inr _, d2) \<Rightarrow> (Plain (redirect ''/admin/''), d2)))))"

section \<open>Episodes\<close>

definition allOf :: "string \<Rightarrow> EpisodeFilter" where
  "allOf cid = \<lparr>f_ChannelID = cid, f_PublishedOnly = False, f_Limit = 0\<rparr>"

definition handleEpisodeList :: "adminenv \<Rightarrow> user \<Rightarrow> request \<Rightarrow> db \<Rightarrow> adminview \<times> db" where
  "handleEpisodeList env usr r d =
     (case ownedChannel env usr (rq_PathID r) d of
        (Inl rs, d1) \<Rightarrow> (Plain rs, d1)
      | (Inr ch, d1) \<Rightarrow>
          (case adm env AList (\<lambda>d. (Inr (ListEpisodes (allOf (c_ID ch)) d), d)) d1 of
             (Inl e, d2) \<Rightarrow> (Plain serverError, d2) | (Inr eps, d2) \<Rightarrow> (ViewEpisodes ch eps, d2)))"

definition handleEpisodeNew :: "adminenv \<Rightarrow> user \<Rightarrow> request \<Rightarrow> db \<Rightarrow> adminview \<times> db" where
  "handleEpisodeNew env usr r d =
     (case ownedChannel env usr (rq_PathID r) d of
        (Inl rs, d1) \<Rightarrow> (Plain rs, d1)
      | (Inr ch, d1) \<Rightarrow> (ViewEpisodeForm 200 ch [] [] (c_Language ch) [], d1))"

definition handleEpisodeEdit :: "adminenv \<Rightarrow> user \<Rightarrow> request \<Rightarrow> db \<Rightarrow> adminview \<times> db" where
  "handleEpisodeEdit env usr r d =
     (case ownedEpisode env usr (rq_PathID r) d of
        (Inl rs, d1) \<Rightarrow> (Plain rs, d1)
      | (Inr (ep, ch), d1) \<Rightarrow> (ViewEpisodeEdit 200 ep ch (e_Title ep) (e_Description ep) (e_Language ep) [], d1))"

text \<open>The common frame of the episode forms: parse, check ownership, act, go back to the list.\<close>

definition withOwnedEpisode ::
    "adminenv \<Rightarrow> user \<Rightarrow> request \<Rightarrow> db \<Rightarrow> (request \<Rightarrow> episode \<Rightarrow> channel \<Rightarrow> db \<Rightarrow> adminview \<times> db) \<Rightarrow> adminview \<times> db" where
  "withOwnedEpisode env usr r d act =
     (case parseSmallForm r of
        (Some rs, r1) \<Rightarrow> (Plain rs, d)
      | (None, r1) \<Rightarrow>
          (case ownedEpisode env usr (rq_PathID r) d of
             (Inl rs, d1) \<Rightarrow> (Plain rs, d1)
           | (Inr (ep, ch), d1) \<Rightarrow> act r1 ep ch d1))"

definition handleEpisodeUpdate :: "adminenv \<Rightarrow> user \<Rightarrow> request \<Rightarrow> db \<Rightarrow> adminview \<times> db" where
  "handleEpisodeUpdate env usr r d = withOwnedEpisode env usr r d (\<lambda>r1 ep ch d1.
     let title = FormValue r1 fieldTitle; descr = FormValue r1 fieldDescription; lang = FormValue r1 fieldLanguage
     in if title = [] then (ViewEpisodeEdit 400 ep ch title descr lang ''Title is required.'', d1)
        else (case adm env AWrite (UpdateEpisodeMetadata (e_ID ep) title descr lang (ad_now env AWrite)) d1 of
                (Inl e, d2) \<Rightarrow> (Plain serverError, d2)
              | (Inr _, d2) \<Rightarrow> (Plain (redirect (episodesPath ch)), d2)))"

definition setEpisodePublished :: "bool \<Rightarrow> adminenv \<Rightarrow> user \<Rightarrow> request \<Rightarrow> db \<Rightarrow> adminview \<times> db" where
  "setEpisodePublished publish env usr r d = withOwnedEpisode env usr r d (\<lambda>r1 ep ch d1.
     let st = (if publish then EpisodePublished else EpisodeDraft);
         publishedAt = (if publish \<and> e_PublishedAt ep = None then Some (ad_now env AWrite) else e_PublishedAt ep)
     in (case adm env AWrite (SetEpisodePublication (e_ID ep) st publishedAt (ad_now env AWrite)) d1 of
           (Inl e, d2) \<Rightarrow> (Plain serverError, d2)
         | (Inr _, d2) \<Rightarrow> (Plain (redirect (episodesPath ch)), d2)))"

definition handleEpisodePublish :: "adminenv \<Rightarrow> user \<Rightarrow> request \<Rightarrow> db \<Rightarrow> adminview \<times> db" where
  "handleEpisodePublish = setEpisodePublished True"

definition handleEpisodeUnpublish :: "adminenv \<Rightarrow> user \<Rightarrow> request \<Rightarrow> db \<Rightarrow> adminview \<times> db" where
  "handleEpisodeUnpublish = setEpisodePublished False"

text \<open>\<open>i\<close> is the position of the episode, the length of the list when it is not there.\<close>

definition swapped :: "nat \<Rightarrow> nat \<Rightarrow> 'a list \<Rightarrow> 'a list" where
  "swapped i j xs = xs[i := xs ! j, j := xs ! i]"

definition handleEpisodeMove :: "adminenv \<Rightarrow> user \<Rightarrow> request \<Rightarrow> db \<Rightarrow> adminview \<times> db" where
  "handleEpisodeMove env usr r d = withOwnedEpisode env usr r d (\<lambda>r1 ep ch d1.
     case adm env AList (\<lambda>d. (Inr (ListEpisodes (allOf (c_ID ch)) d), d)) d1 of
       (Inl e, d2) \<Rightarrow> (Plain serverError, d2)
     | (Inr eps, d2) \<Rightarrow>
         (let ids = map e_ID eps; i = index_of ids (e_ID ep);
              j = (if FormValue r1 ''dir'' = ''down'' then int i + 1 else int i - 1)
          in if length ids \<le> i \<or> j < 0 \<or> int (length ids) \<le> j then (Plain (redirect (episodesPath ch)), d2)
             else (case adm env AWrite (ReorderEpisodes (c_ID ch) (swapped i (nat j) ids) (ad_now env AWrite)) d2 of
                     (Inl e, d3) \<Rightarrow>
                       (Plain (if e = ErrInvalidReorder
                          then page 400 ''The episode order is out of date. Please reload and try again.''
                          else serverError), d3)
                   | (Inr _, d3) \<Rightarrow> (Plain (redirect (episodesPath ch)), d3))))"

definition enqueueResponse :: "channel \<Rightarrow> unit res \<Rightarrow> response" where
  "enqueueResponse ch res =
     (case res of
        Inl e \<Rightarrow> if e = ErrConflict then page 409 ''Transcription is already in progress for this episode.'' else serverError
      | Inr _ \<Rightarrow> redirect (episodesPath ch))"

definition handleEpisodeTranscribe :: "adminenv \<Rightarrow> user \<Rightarrow> request \<Rightarrow> db \<Rightarrow> adminview \<times> db" where
  "handleEpisodeTranscribe env usr r d = withOwnedEpisode env usr r d (\<lambda>r1 ep ch d1.
     if in_progress (e_TranscriptStatus ep)
     then (Plain (page 409 ''Transcription is already in progress for this episode.''), d1)
     else (case adm env AEnqueue (EnqueueTranscription (ad_queue env) (e_ID ep) (ad_jobID env) (ad_now env AEnqueue)) d1 of
             (res, d2) \<Rightarrow> (Plain (enqueueResponse ch res), d2)))"

definition handleEpisodeStatus :: "adminenv \<Rightarrow> user \<Rightarrow> request \<Rightarrow> db \<Rightarrow> adminview \<times> db" where
  "handleEpisodeStatus env usr r d =
     (case ownedEpisode env usr (rq_PathID r) d of
        (Inl rs, d1) \<Rightarrow> (Plain rs, d1) | (Inr (ep, ch), d1) \<Rightarrow> (ViewStatus (e_TranscriptStatus ep), d1))"

end
