(* ===== verification/AdminMedia.thy ===== *)
theory AdminMedia
  imports Admin
begin

text \<open>
  The handlers of \<open>server/handlers_admin.go\<close> that write media: the upload, with its checks
  before the body is read, its reservation, put, create and cleanup, and the deletion under
  a lease.
\<close>

section \<open>Deletion\<close>

definition releaseBlob :: "adminenv \<Rightarrow> int \<Rightarrow> db \<Rightarrow> db" where
  "releaseBlob env token d = snd (adm env ARelease (ReleaseBlob token) d)"

text \<open>The lease is released whether or not the physical delete succeeds.\<close>

definition deleteLeasedBlob :: "adminenv \<Rightarrow> string \<Rightarrow> int \<Rightarrow> site \<Rightarrow> site" where
  "deleteLeasedBlob env key deleteToken s =
     (if key = [] then s
      else (let d1 = exec_all (ad_others env APhysical) (si_db s);
                blobs = (if ad_fault env APhysical then si_blobs s else (si_blobs s)(key := None))
            in s\<lparr>si_blobs := blobs, si_db := snd (adm env AUnlease (ReleaseDeleteLease deleteToken) d1)\<rparr>))"

definition deleteOrphanBlob :: "adminenv \<Rightarrow> string \<Rightarrow> site \<Rightarrow> site" where
  "deleteOrphanBlob env key s =
     (if key = [] then s
      else (case adm env AOrphan (BlobOrphaned key (ad_now env AOrphan)) (si_db s) of
              (Inl e, d1) \<Rightarrow> s\<lparr>si_db := d1\<rparr>
            | (Inr (orphaned, deleteToken), d1) \<Rightarrow>
                if orphaned then deleteLeasedBlob env key deleteToken (s\<lparr>si_db := d1\<rparr>) else s\<lparr>si_db := d1\<rparr>))"

definition handleEpisodeDelete :: "adminenv \<Rightarrow> user \<Rightarrow> request \<Rightarrow> site \<Rightarrow> adminview \<times> site" where
  "handleEpisodeDelete env usr r s =
     (case parseSmallForm r of
        (Some rs, r1) \<Rightarrow> (Plain rs, s)
      | (None, r1) \<Rightarrow>
          (case ownedEpisode env usr (rq_PathID r) (si_db s) of
             (Inl rs, d1) \<Rightarrow> (Plain rs, s\<lparr>si_db := d1\<rparr>)
           | (Inr (ep, ch), d1) \<Rightarrow>
               (case adm env AWrite (DeleteEpisode (e_ID ep) (ad_now env AWrite)) d1 of
                  (Inl e, d2) \<Rightarrow> (Plain serverError, s\<lparr>si_db := d2\<rparr>)
                | (Inr (mediaKey, orphaned, deleteToken), d2) \<Rightarrow>
                    (Plain (redirect (episodesPath ch)),
                     if orphaned then deleteLeasedBlob env mediaKey deleteToken (s\<lparr>si_db := d2\<rparr>)
                     else s\<lparr>si_db := d2\<rparr>))))"

section \<open>Reserving the media key\<close>

definition reserveBudget :: duration where "reserveBudget = 500 * Millisecond"
definition reserveStep :: duration where "reserveStep = 20 * Millisecond"

text \<open>
  Attempt \<open>k\<close>, with the clock read at its check as \<open>t\<close>; each attempt takes \<open>ad_delay\<close>
  nanoseconds and the wait between two at least \<open>reserveStep\<close>.
\<close>

function reserveLoop :: "adminenv \<Rightarrow> string \<Rightarrow> time \<Rightarrow> nat \<Rightarrow> time \<Rightarrow> db \<Rightarrow> int res \<times> db" where
  "reserveLoop env key deadline k t d =
     (case (let d0 = exec_all (ad_between env k) d
            in if ad_reserveFails env k then (Inl ErrDriver, d0) else ReserveBlob key (ad_reserveNow env k) d0) of
        (Inr token, d1) \<Rightarrow> (Inr token, d1)
      | (Inl e, d1) \<Rightarrow>
          if e \<noteq> ErrBlobDeleting \<or> \<not> t < deadline then (Inl e, d1)
          else if ad_cancelled env k then (Inl ErrDriver, d1)
          else reserveLoop env key deadline (Suc k) (t + reserveStep + int (ad_delay env (Suc k))) d1)"
  by pat_completeness auto

termination
  by (relation "measure (\<lambda>(env, key, deadline, k, t, d). nat (deadline - t))")
    (auto simp: reserveStep_def units)

declare reserveLoop.simps [simp del]

definition reserveMediaKey :: "adminenv \<Rightarrow> string \<Rightarrow> db \<Rightarrow> int res \<times> db" where
  "reserveMediaKey env key d =
     reserveLoop env key (ad_start env + reserveBudget) 0 (ad_start env + int (ad_delay env 0)) d"

section \<open>The upload\<close>

text \<open>What the handler reads of the request: a multipart body is what \<open>stageMultipartUpload\<close> sees.\<close>

record uploadreq =
  uq_PathID :: string
  uq_MediaType :: "string option"
  uq_Boundary :: string
  uq_ContentLength :: int
  uq_Opened :: bool
  uq_Parts :: "part list"
  uq_End :: "read_err option"

text \<open>The calls under \<open>protectCtx\<close>, whose deadline is \<open>UploadProtectWindow\<close> from the reservation.\<close>

definition admProtected :: "adminenv \<Rightarrow> acall \<Rightarrow> (db \<Rightarrow> 'a res \<times> db) \<Rightarrow> db \<Rightarrow> 'a res \<times> db" where
  "admProtected env c op d =
     (if UploadProtectWindow \<le> ad_elapsed env then (Inl ErrDriver, exec_all (ad_others env c) d)
      else adm env c op d)"

definition newEpisode :: "adminenv \<Rightarrow> channel \<Rightarrow> stagedUpload \<Rightarrow> int \<Rightarrow> episode" where
  "newEpisode env ch up n =
     \<lparr>e_ID = ad_newID env, e_ChannelID = c_ID ch, e_Title = staged_field up fieldTitle,
       e_Description = staged_field up fieldDescription, e_MediaKey = su_mediaKey up, e_MediaMIME = su_mime up,
       e_MediaKind = DetectMediaKind (su_mime up), e_MediaBytes = n, e_DurationSecs = 0,
       e_Language = staged_field up fieldLanguage, e_Position = 0, e_Status = EpisodeDraft,
       e_TranscriptStatus = TranscriptNone, e_PublishedAt = None, e_CreatedAt = ad_now env ACreate,
       e_UpdatedAt = ad_now env ACreate\<rparr>"

text \<open>From the validated form on: reserve, put, create, queue, with the deferred release.\<close>

definition storeUpload :: "adminenv \<Rightarrow> channel \<Rightarrow> stagedUpload \<Rightarrow> string \<Rightarrow> site \<Rightarrow> adminview \<times> site" where
  "storeUpload env ch up bytes s =
     (case reserveMediaKey env (su_mediaKey up) (si_db s) of
        (Inl e, d1) \<Rightarrow>
          (Plain (if e = ErrBlobDeleting
             then page 503 ''The media is briefly being cleaned up. Please retry the upload.'' else serverError),
           s\<lparr>si_db := d1\<rparr>)
      | (Inr token, d1) \<Rightarrow>
          (let d2 = exec_all (ad_others env APut) d1 in
           if ad_fault env APut then (Plain serverError, s\<lparr>si_db := releaseBlob env token d2\<rparr>)
           else
             (let s2 = s\<lparr>si_blobs := (si_blobs s)(su_mediaKey up \<mapsto> bytes), si_db := d2\<rparr>;
                  ep = newEpisode env ch up (int (length bytes)) in
              case admProtected env ACreate (CreateEpisode ep) d2 of
                (Inl e, d3) \<Rightarrow>
                  (Plain serverError, deleteOrphanBlob env (su_mediaKey up) (s2\<lparr>si_db := releaseBlob env token d3\<rparr>))
              | (Inr _, d3) \<Rightarrow>
                  (case adm env AEnqueue (EnqueueTranscription (ad_queue env) (e_ID ep) (ad_jobID env)
                           (ad_now env AEnqueue)) d3 of
                     (res, d4) \<Rightarrow> (Plain (enqueueResponse ch res), s2\<lparr>si_db := releaseBlob env token d4\<rparr>)))))"

definition createStaged :: "adminenv \<Rightarrow> channel \<Rightarrow> stagedUpload \<Rightarrow> site \<Rightarrow> adminview \<times> site" where
  "createStaged env ch up s =
     (let form = ViewEpisodeForm 400 ch (staged_field up fieldTitle) (staged_field up fieldDescription)
                   (staged_field up fieldLanguage) in
      if staged_field up fieldTitle = [] then (form ''Title is required.'', s)
      else (case su_file up of
              None \<Rightarrow> (form ''A media file is required (audio or video).'', s)
            | Some name \<Rightarrow>
                storeUpload env ch up (case si_staging s name of None \<Rightarrow> [] | Some b \<Rightarrow> b) s))"

definition stagingResponse :: "stage_err \<Rightarrow> response" where
  "stagingResponse e =
     (if e = SRead TooLarge \<or> e = SServer (Some TooLarge) then page 413 ''The uploaded file is too large.''
      else (case e of SServer _ \<Rightarrow> serverError | _ \<Rightarrow> page 400 ''The upload could not be read.''))"

definition setReadDeadline :: "adminenv \<Rightarrow> time \<Rightarrow> site \<Rightarrow> site" where
  "setReadDeadline env t s = (if ad_noDeadlines env then s else s\<lparr>si_readDeadline := Some t\<rparr>)"

definition abortUpload :: "adminenv \<Rightarrow> site \<Rightarrow> site" where
  "abortUpload env s = (setReadDeadline env (ad_now env AAbort) s)\<lparr>si_close := True\<rparr>"

definition handleEpisodeCreate :: "adminenv \<Rightarrow> user \<Rightarrow> uploadreq \<Rightarrow> site \<Rightarrow> adminview \<times> site" where
  "handleEpisodeCreate env usr q s =
     (case ownedChannel env usr (uq_PathID q) (si_db s) of
        (Inl rs, d1) \<Rightarrow> (Plain rs, s\<lparr>si_db := d1\<rparr>)
      | (Inr ch, d1) \<Rightarrow>
          (let s1 = s\<lparr>si_db := d1\<rparr> in
           if uq_MediaType q \<noteq> Some ''multipart/form-data''
           then (Plain (page 415 ''The upload must be sent as multipart/form-data.''), s1)
           else if uq_Boundary q = []
           then (Plain (page 400 ''The multipart/form-data upload is missing its boundary.''), s1)
           else if 0 < uq_ContentLength q \<and> ad_maxUploadBytes env < uq_ContentLength q
           then (Plain (page 413 ''The uploaded file is too large.''), s1)
           else if ad_fault env ADeadline then (Plain serverError, s1)
           else
             (let s2 = setReadDeadline env (ad_now env ADeadline + uploadReadTimeout (ad_maxUploadBytes env)) s1 in
              case stageMultipartUpload (ad_stage env) (uq_Opened q) (uq_Parts q) (uq_End q) (si_staging s2) of
                (Inl e, dir) \<Rightarrow> (Plain (stagingResponse e), abortUpload env (s2\<lparr>si_staging := dir\<rparr>))
              | (Inr up, dir) \<Rightarrow>
                  (case createStaged env ch up (s2\<lparr>si_staging := dir\<rparr>) of
                     (v, s3) \<Rightarrow>
                       (v, case su_file up of None \<Rightarrow> s3
                           | Some name \<Rightarrow> s3\<lparr>si_staging := (si_staging s3)(name := None)\<rparr>)))))"

end
