(* ===== verification/AdminExamples.thy ===== *)
theory AdminExamples
  imports AdminMedia
begin

text \<open>
  Admin requests without interference, and a concrete request environment and site for the
  witnesses.
\<close>

text \<open>A request that no other one interleaves with.\<close>

definition alone :: "adminenv \<Rightarrow> bool" where
  "alone env \<longleftrightarrow> ad_others env = (\<lambda>_. []) \<and> ad_between env = (\<lambda>_. []) \<and> q_store (ad_queue env) = sqlite_jobs"

lemma adm_alone: "alone env \<Longrightarrow> adm env c op d = (if ad_fault env c then (Inl ErrDriver, d) else op d)"
  by (simp add: adm_def alone_def)

section \<open>A concrete request\<close>

definition ex_adminenv :: "(acall \<Rightarrow> bool) \<Rightarrow> adminenv" where
  "ex_adminenv faults = \<lparr>ad_queue = NewQueue sqlite_jobs [], ad_fault = faults, ad_others = (\<lambda>_. []), ad_now = (\<lambda>_. 0),
     ad_newID = ''n'', ad_jobID = ''i'', ad_stage = ex_stageenv, ad_maxUploadBytes = 1000, ad_noDeadlines = False,
     ad_elapsed = 0, ad_start = 0, ad_reserveFails = (\<lambda>_. False), ad_cancelled = (\<lambda>_. False), ad_delay = (\<lambda>_. 0),
     ad_between = (\<lambda>_. []), ad_reserveNow = (\<lambda>_. 0)\<rparr>"

definition ex_owner :: user where "ex_owner = scanUser ex_user_row"

definition ex_site :: site where
  "ex_site = \<lparr>si_db = ex_db TranscriptNone JobDone 1 0, si_blobs = [''k'' \<mapsto> ''b''], si_staging = Map.empty,
     si_readDeadline = None, si_close = False\<rparr>"

definition ex_upload :: uploadreq where
  "ex_upload = \<lparr>uq_PathID = ''c'', uq_MediaType = Some ''multipart/form-data'', uq_Boundary = ''x'', uq_ContentLength = 10,
     uq_Opened = True, uq_Parts = ex_parts, uq_End = None\<rparr>"

definition ex_action :: "string \<Rightarrow> (string \<times> string) list \<Rightarrow> request" where
  "ex_action eid fs = \<lparr>rq_Method = ''POST'', rq_RemoteAddr = [], rq_PathID = eid, rq_MediaType = Some urlencoded,
     rq_CsrfHeader = [], rq_Query = [], rq_Cookies = [], rq_BodySize = 10, rq_Fields = fs, rq_Malformed = False,
     rq_PostForm = None\<rparr>"

lemma ex_action_parse:
  "parseSmallForm (ex_action eid fs) = (None, (ex_action eid fs)\<lparr>rq_PostForm := Some fs\<rparr>)" "rq_PathID (ex_action eid fs) = eid"
  by (simp_all add: parseSmallForm_def ParseForm_def ex_action_def hasBody_def maxSmallFormBytes_def)

lemma ex_alone: "alone (ex_adminenv faults)"
  by (simp add: alone_def ex_adminenv_def NewQueue_def)

lemma ex_site_wf: "wf_db (si_db ex_site)"
  by (simp add: ex_site_def ex_wf)

lemma ex_channel: "ChannelByID ''c'' (si_db ex_site) = Inr (scanChannel ex_channel_row)"
  by (simp add: ChannelByID_def channelWhere_def ex_site_def ex)

lemma ex_owns: "c_UserID (scanChannel ex_channel_row) = u_ID ex_owner" "c_ID (scanChannel ex_channel_row) = ''c''"
  by (simp_all add: scanChannel_def ex_owner_def scanUser_def ex)

lemma ex_episode_e: "EpisodeByID ''e'' (si_db ex_site) = Inr (scanEpisode (ex_episode_row ''e'' ''k'' TranscriptNone))"
  by (simp add: ex_site_def ex_EpisodeByID)

lemma ex_episode_fields: "e_ChannelID (scanEpisode (ex_episode_row i k st)) = ''c''"
    "e_MediaKey (scanEpisode (ex_episode_row i k st)) = k" "e_PublishedAt (scanEpisode (ex_episode_row i k st)) = Some 0"
  by (simp_all add: scanEpisode_def ex fromUnixPtr_def fromUnix_def)

end
