(* ===== verification/Tenancy.thy ===== *)
theory Tenancy
  imports AdminExamples
begin

text \<open>
  Tenant isolation of the admin area: a signed-in user changes only rows of own channels.
  \<open>admin\<close> is every writing handler of \<open>server/handlers_admin.go\<close> as one function.
\<close>

section \<open>The writing handlers as one function\<close>

datatype admin_request =
  AdmChannelCreate request | AdmChannelUpdate request
| AdmEpisodeCreate uploadreq | AdmEpisodeUpdate request | AdmEpisodePublish request
| AdmEpisodeUnpublish request | AdmEpisodeMove request | AdmEpisodeTranscribe request
| AdmEpisodeDelete request

definition on_db :: "(db \<Rightarrow> adminview \<times> db) \<Rightarrow> site \<Rightarrow> adminview \<times> site" where
  "on_db h s = (case h (si_db s) of (v, d) \<Rightarrow> (v, s\<lparr>si_db := d\<rparr>))"

lemma si_db_on_db [simp]: "si_db (snd (on_db h s)) = snd (h (si_db s))"
  by (simp add: on_db_def split: prod.split)

fun admin :: "adminenv \<Rightarrow> user \<Rightarrow> admin_request \<Rightarrow> site \<Rightarrow> adminview \<times> site" where
  "admin env usr (AdmChannelCreate r) = on_db (handleChannelCreate env usr r)"
| "admin env usr (AdmChannelUpdate r) = on_db (handleChannelUpdate env usr r)"
| "admin env usr (AdmEpisodeCreate q) = handleEpisodeCreate env usr q"
| "admin env usr (AdmEpisodeUpdate r) = on_db (handleEpisodeUpdate env usr r)"
| "admin env usr (AdmEpisodePublish r) = on_db (handleEpisodePublish env usr r)"
| "admin env usr (AdmEpisodeUnpublish r) = on_db (handleEpisodeUnpublish env usr r)"
| "admin env usr (AdmEpisodeMove r) = on_db (handleEpisodeMove env usr r)"
| "admin env usr (AdmEpisodeTranscribe r) = on_db (handleEpisodeTranscribe env usr r)"
| "admin env usr (AdmEpisodeDelete r) = handleEpisodeDelete env usr r"

section \<open>What belongs to others\<close>

definition own_ids :: "user \<Rightarrow> db \<Rightarrow> string set" where
  "own_ids usr d = cr_id ` {r \<in> set (channels d). cr_user_id r = u_ID usr}"

definition own_episodes :: "user \<Rightarrow> db \<Rightarrow> string set" where
  "own_episodes usr d = er_id ` {r \<in> set (episodes d). er_channel_id r \<in> own_ids usr d}"

lemma own_ids_iff: "x \<in> own_ids usr d \<longleftrightarrow> (\<exists>r \<in> set (channels d). cr_id r = x \<and> cr_user_id r = u_ID usr)"
  by (auto simp: own_ids_def)

lemma own_episodes_iff:
  "x \<in> own_episodes usr d \<longleftrightarrow> (\<exists>r \<in> set (episodes d). er_id r = x \<and> er_channel_id r \<in> own_ids usr d)"
  by (auto simp: own_episodes_def)

lemma own_ids_update [simp]:
  "own_ids usr (d\<lparr>episodes := es\<rparr>) = own_ids usr d" "own_ids usr (d\<lparr>transcripts := ts\<rparr>) = own_ids usr d"
  by (simp_all add: own_ids_def)

lemma bex_upd_where:
  "(\<exists>x \<in> set (upd_where c f rs). P x) \<longleftrightarrow> (\<exists>r \<in> set rs. P (if c r then f r else r))"
  by (auto simp: upd_where_def)

record others =
  ot_users :: "user_row list"
  ot_channels :: "channel_row list"
  ot_episodes :: "episode_row list"
  ot_transcripts :: "transcript_row list"

definition foreign :: "user \<Rightarrow> db \<Rightarrow> others" where
  "foreign usr d =
     \<lparr>ot_users = users d,
      ot_channels = filter (\<lambda>r. cr_user_id r \<noteq> u_ID usr) (channels d),
      ot_episodes = filter (\<lambda>r. er_channel_id r \<notin> own_ids usr d) (episodes d),
      ot_transcripts = filter (\<lambda>t. tr_episode_id t \<notin> own_episodes usr d) (transcripts d)\<rparr>"

lemma filter_upd_where_out:
  "(\<And>r. r \<in> set rs \<Longrightarrow> c r \<Longrightarrow> \<not> P r \<and> \<not> P (f r)) \<Longrightarrow> filter P (upd_where c f rs) = filter P rs"
  by (induction rs) auto

lemma filter_del_where_out:
  "(\<And>r. r \<in> set rs \<Longrightarrow> c r \<Longrightarrow> \<not> P r) \<Longrightarrow> filter P (del_where c rs) = filter P rs"
  by (induction rs) auto

lemma foreign_cong:
  "users d' = users d \<Longrightarrow> channels d' = channels d \<Longrightarrow> episodes d' = episodes d \<Longrightarrow> transcripts d' = transcripts d \<Longrightarrow>
   foreign usr d' = foreign usr d"
  by (simp add: foreign_def own_ids_def own_episodes_def)

text \<open>An update of own episode rows that keeps their ids and channels.\<close>

lemma foreign_upd_episodes:
  assumes "\<And>r. r \<in> set (episodes d) \<Longrightarrow> c r \<Longrightarrow> er_channel_id r \<in> own_ids usr d"
    and "\<And>r. er_id (f r) = er_id r" "\<And>r. er_channel_id (f r) = er_channel_id r"
    and "users d' = users d" "channels d' = channels d" "transcripts d' = transcripts d"
    and "episodes d' = upd_where c f (episodes d)"
  shows "foreign usr d' = foreign usr d"
proof -
  have o: "own_ids usr d' = own_ids usr d" by (simp add: own_ids_def assms)
  have k: "er_id (if c r then f r else r) = er_id r" "er_channel_id (if c r then f r else r) = er_channel_id r" for r
    by (simp_all add: assms(2,3))
  have "own_episodes usr d' = own_episodes usr d"
    by (rule set_eqI) (simp only: own_episodes_iff o assms(7) bex_upd_where k)
  moreover have "filter (\<lambda>r. er_channel_id r \<notin> own_ids usr d) (upd_where c f (episodes d))
      = filter (\<lambda>r. er_channel_id r \<notin> own_ids usr d) (episodes d)"
    by (rule filter_upd_where_out) (simp add: assms(1,3))
  ultimately show ?thesis by (simp add: foreign_def o assms)
qed

text \<open>The channel and the episode a request gets through to are the user's own.\<close>

lemma ownedChannel_Inr:
  assumes "ad_others env = (\<lambda>_. [])" "ownedChannel env usr cid d = (Inr ch, d1)"
  shows "d1 = d \<and> ChannelByID cid d = Inr ch \<and> c_UserID ch = u_ID usr \<and> c_ID ch = cid \<and> cid \<in> own_ids usr d"
proof -
  from assms have c: "d1 = d" "ChannelByID cid d = Inr ch" "c_UserID ch = u_ID usr"
    by (auto simp: ownedChannel_def adm_def split: prod.splits sum.splits if_splits)
  then obtain r where "r \<in> set (channels d)" "cr_id r = cid" "ch = scanChannel r"
    by (auto simp: ChannelByID_def channelWhere_def dest!: find_SomeD split: option.splits)
  with c show ?thesis by (auto simp: own_ids_def scanChannel_def)
qed

lemma ownedChannel_Inl:
  "ad_others env = (\<lambda>_. []) \<Longrightarrow> ownedChannel env usr cid d = (Inl rs, d1) \<Longrightarrow> d1 = d"
  by (auto simp: ownedChannel_def adm_def split: prod.splits sum.splits if_splits)

lemma ownedEpisode_Inr:
  assumes "ad_others env = (\<lambda>_. [])" "ownedEpisode env usr eid d = (Inr (ep, ch), d1)"
  shows "d1 = d \<and> EpisodeByID eid d = Inr ep \<and> e_ID ep = eid \<and> ChannelByID (e_ChannelID ep) d = Inr ch
    \<and> c_ID ch = e_ChannelID ep \<and> c_UserID ch = u_ID usr \<and> e_ChannelID ep \<in> own_ids usr d
    \<and> (\<exists>r \<in> set (episodes d). er_id r = eid \<and> ep = scanEpisode r)"
proof -
  from assms obtain d0 where e: "EpisodeByID eid d = Inr ep" "d0 = d"
    and c: "ownedChannel env usr (e_ChannelID ep) d = (Inr ch, d1)"
    by (auto simp: ownedEpisode_def adm_def split: prod.splits sum.splits if_splits)
  from e obtain r where "r \<in> set (episodes d)" "er_id r = eid" "ep = scanEpisode r"
    by (auto simp: EpisodeByID_def dest!: episodeWhere_Inr)
  with e ownedChannel_Inr [OF assms(1) c] show ?thesis by (auto simp: scanEpisode_def)
qed

lemma ownedEpisode_Inl:
  "ad_others env = (\<lambda>_. []) \<Longrightarrow> ownedEpisode env usr eid d = (Inl rs, d1) \<Longrightarrow> d1 = d"
  by (auto simp: ownedEpisode_def adm_def split: prod.splits sum.splits if_splits
      dest: ownedChannel_Inl ownedChannel_Inr)

text \<open>All rows with the id of an own episode are its row.\<close>

lemma own_row:
  assumes "wf_db d" "r0 \<in> set (episodes d)" "er_channel_id r0 \<in> own_ids usr d"
    and "r \<in> set (episodes d)" "er_id r = er_id r0"
  shows "er_channel_id r \<in> own_ids usr d"
  using assms distinct_map_eqD [of er_id "episodes d" r r0] by (auto simp: wf_db_def wf_episodes_def)

section \<open>The store calls of the handlers\<close>

lemma foreign_update_episode:
  assumes "wf_db d" "r0 \<in> set (episodes d)" "er_channel_id r0 \<in> own_ids usr d" "er_id r0 = eid"
    and "\<And>r. er_id (f r) = er_id r" "\<And>r. er_channel_id (f r) = er_channel_id r"
  shows "foreign usr (snd (update_episode eid f d)) = foreign usr d"
proof (rule foreign_upd_episodes [where c = "\<lambda>r. er_id r = eid" and f = f])
  show "er_channel_id r \<in> own_ids usr d" if "r \<in> set (episodes d)" "er_id r = eid" for r
    using own_row [OF assms(1-3) that(1)] that(2) assms(4) by simp
qed (simp_all add: assms(5,6) update_episode_def Let_def)

lemma foreign_CreateChannel:
  assumes "wf_db d" "c_UserID c = u_ID usr"
  shows "foreign usr (snd (CreateChannel c d)) = foreign usr d"
proof (cases "list_ex (\<lambda>r. cr_id r = c_ID c) (channels d) \<or> \<not> list_ex (\<lambda>r. ur_id r = c_UserID c) (users d)")
  case True
  then show ?thesis by (auto simp: CreateChannel_def)
next
  case False
  let ?d = "d\<lparr>channels := channels d @ [channel_to_row c]\<rparr>"
  have new: "c_ID c \<notin> cr_id ` set (channels d)" using False by (auto simp: list_ex_iff)
  have o: "own_ids usr ?d = insert (c_ID c) (own_ids usr d)"
    using assms(2) by (intro set_eqI) (auto simp: own_ids_iff channel_to_row_def)
  have "er_channel_id r \<noteq> c_ID c" if "r \<in> set (episodes d)" for r
    using assms(1) that new by (metis wf_db_def wf_episodes_def)
  then have same: "er_channel_id r \<in> own_ids usr ?d \<longleftrightarrow> er_channel_id r \<in> own_ids usr d" if "r \<in> set (episodes d)" for r
    using that by (simp add: o)
  then have "filter (\<lambda>r. er_channel_id r \<notin> own_ids usr ?d) (episodes d)
      = filter (\<lambda>r. er_channel_id r \<notin> own_ids usr d) (episodes d)"
    by (intro filter_cong) simp_all
  moreover have "own_episodes usr ?d = own_episodes usr d"
    using same by (intro set_eqI) (auto simp: own_episodes_iff)
  moreover have "snd (CreateChannel c d) = ?d" using False by (simp add: CreateChannel_def)
  ultimately show ?thesis using assms(2) by (simp add: foreign_def) (simp add: channel_to_row_def)
qed

lemma foreign_UpdateChannel:
  assumes "wf_db d" "c_ID c \<in> own_ids usr d"
  shows "foreign usr (snd (UpdateChannel c d)) = foreign usr d"
proof -
  let ?hit = "\<lambda>r. cr_id r = c_ID c"
  let ?d = "d\<lparr>channels := upd_where ?hit (set_channel_cols c) (channels d)\<rparr>"
  have mine: "cr_user_id r = u_ID usr" if "r \<in> set (channels d)" "cr_id r = c_ID c" for r
  proof -
    obtain q where q: "q \<in> set (channels d)" "cr_id q = c_ID c" "cr_user_id q = u_ID usr"
      using assms(2) by (auto simp: own_ids_iff)
    have "distinct (map cr_id (channels d))" using assms(1) by (simp add: wf_db_def wf_channels_def)
    from distinct_map_eqD [OF this that(1) q(1)] that(2) q(2,3) show ?thesis by simp
  qed
  have k: "cr_id (if cr_id r = c_ID c then set_channel_cols c r else r) = cr_id r"
    "cr_user_id (if cr_id r = c_ID c then set_channel_cols c r else r) = cr_user_id r" for r
    by (simp_all add: set_channel_cols_def)
  have o: "own_ids usr ?d = own_ids usr d"
    by (rule set_eqI) (simp add: own_ids_iff bex_upd_where k)
  have "filter (\<lambda>r. cr_user_id r \<noteq> u_ID usr) (upd_where ?hit (set_channel_cols c) (channels d))
      = filter (\<lambda>r. cr_user_id r \<noteq> u_ID usr) (channels d)"
    by (rule filter_upd_where_out) (simp add: mine set_channel_cols_def)
  then show ?thesis by (simp add: UpdateChannel_def Let_def foreign_def o own_episodes_def)
qed

lemma foreign_blob_ops:
  "foreign usr (snd (ReserveBlob key t d)) = foreign usr d"
  "foreign usr (snd (BlobOrphaned key t d)) = foreign usr d"
  "foreign usr (snd (ReleaseBlob tok d)) = foreign usr d"
  "foreign usr (snd (ReleaseDeleteLease tok d)) = foreign usr d"
  by (auto intro!: foreign_cong simp: ReserveBlob_eq BlobOrphaned_eq acquire_eq ReleaseBlob_def ReleaseDeleteLease_def)

lemma foreign_ReorderEpisodes:
  assumes "cid \<in> own_ids usr d"
  shows "foreign usr (snd (ReorderEpisodes cid ids t d)) = foreign usr d"
proof -
  let ?g = "renumbered cid (toUnix t) 0 ids"
  have "map ?g (episodes d) = upd_where (\<lambda>r. er_channel_id r = cid) ?g (episodes d)"
    by (auto simp: upd_where_def renumbered_def)
  then have "foreign usr (d\<lparr>episodes := map ?g (episodes d)\<rparr>) = foreign usr d"
    by (intro foreign_upd_episodes [where c = "\<lambda>r. er_channel_id r = cid" and f = ?g]) (simp_all add: assms)
  then show ?thesis by (simp add: ReorderEpisodes_eq)
qed

lemma foreign_DeleteEpisode:
  assumes "wf_db d" "r0 \<in> set (episodes d)" "er_channel_id r0 \<in> own_ids usr d" "er_id r0 = eid"
  shows "foreign usr (snd (DeleteEpisode eid t d)) = foreign usr d"
proof -
  let ?d = "delete_episode_row eid d"
  have o: "own_ids usr ?d = own_ids usr d" by (simp add: own_ids_def delete_episode_row_def)
  have mine: "er_channel_id r \<in> own_ids usr d" if "r \<in> set (episodes d)" "er_id r = eid" for r
    using own_row [OF assms(1-3) that(1)] that(2) assms(4) by simp
  have oe: "own_episodes usr ?d = own_episodes usr d - {eid}"
    by (rule set_eqI) (auto simp: own_episodes_iff o, auto simp: delete_episode_row_def set_del_where)
  have eid: "eid \<in> own_episodes usr d" using assms(2-4) by (auto simp: own_episodes_iff)
  have "filter (\<lambda>r. er_channel_id r \<notin> own_ids usr d) (del_where (\<lambda>r. er_id r = eid) (episodes d))
      = filter (\<lambda>r. er_channel_id r \<notin> own_ids usr d) (episodes d)"
    by (rule filter_del_where_out) (simp add: mine)
  moreover have "filter (\<lambda>t. tr_episode_id t \<notin> own_episodes usr d - {eid}) (del_where (\<lambda>r. tr_episode_id r = eid) (transcripts d))
      = filter (\<lambda>t. tr_episode_id t \<notin> own_episodes usr d) (transcripts d)"
    using eid by (auto simp: del_where_def intro!: filter_cong)
  ultimately have "foreign usr ?d = foreign usr d"
    by (simp add: foreign_def o oe) (simp add: delete_episode_row_def)
  moreover have "foreign usr (snd (acquireDeleteLeaseTx key t d')) = foreign usr d'" for key d'
    by (auto intro!: foreign_cong simp: acquire_eq)
  ultimately show ?thesis by (auto simp: DeleteEpisode_eq Let_def split: option.splits)
qed

lemma foreign_CreateEpisode:
  assumes "wf_db d" "e_ChannelID ep \<in> own_ids usr d"
  shows "foreign usr (snd (CreateEpisode ep d)) = foreign usr d"
proof (cases "list_ex (\<lambda>r. er_id r = e_ID ep) (episodes d) \<or> \<not> list_ex (\<lambda>r. cr_id r = e_ChannelID ep) (channels d)")
  case True
  then show ?thesis by (auto simp: CreateEpisode_def)
next
  case False
  let ?d = "d\<lparr>episodes := episodes d @ [episode_to_row ep]\<rparr>"
  have row: "er_id (episode_to_row ep) = e_ID ep" "er_channel_id (episode_to_row ep) = e_ChannelID ep"
    by (simp_all add: episode_to_row_def)
  have oe: "own_episodes usr ?d = insert (e_ID ep) (own_episodes usr d)"
    using assms(2) by (intro set_eqI) (auto simp: own_episodes_iff row)
  have "tr_episode_id t \<noteq> e_ID ep" if "t \<in> set (transcripts d)" for t
    using assms(1) that False by (auto simp: wf_db_def wf_transcripts_def list_ex_iff)
  then have "filter (\<lambda>t. tr_episode_id t \<notin> own_episodes usr ?d) (transcripts d)
      = filter (\<lambda>t. tr_episode_id t \<notin> own_episodes usr d) (transcripts d)"
    by (intro filter_cong) (simp_all add: oe)
  moreover have "snd (CreateEpisode ep d) = ?d" using False by (simp add: CreateEpisode_def)
  ultimately show ?thesis using assms(2) by (simp add: foreign_def row)
qed

lemma foreign_Enqueue:
  assumes "wf_db d" "r0 \<in> set (episodes d)" "er_channel_id r0 \<in> own_ids usr d" "er_id r0 = eid"
  shows "foreign usr (snd (EnqueueTranscriptionJob j eid t d)) = foreign usr d"
proof -
  let ?c = "\<lambda>r. er_id r = eid \<and> \<not> in_progress (er_transcript_status r)"
  let ?d = "d\<lparr>episodes := upd_where ?c (set_status_cols TranscriptPending t) (episodes d)\<rparr>"
  have "foreign usr ?d = foreign usr d"
  proof (rule foreign_upd_episodes [where c = ?c and f = "set_status_cols TranscriptPending t"])
    show "er_channel_id r \<in> own_ids usr d" if "r \<in> set (episodes d)" "?c r" for r
      using own_row [OF assms(1-3) that(1)] that(2) assms(4) by simp
  qed (simp_all add: set_status_cols_def)
  moreover have "insertJob j ?d = Inr d2 \<Longrightarrow> foreign usr d2 = foreign usr ?d" for d2
    by (auto simp: insertJob_def split: if_splits intro!: foreign_cong)
  ultimately show ?thesis by (auto simp: EnqueueTranscriptionJob_def with_tx_def Let_def split: sum.splits)
qed

section \<open>A user changes only own rows\<close>

definition keeps :: "user \<Rightarrow> db \<Rightarrow> db \<Rightarrow> bool" where
  "keeps usr d d' \<longleftrightarrow> wf_db d' \<and> foreign usr d' = foreign usr d \<and> own_ids usr d \<subseteq> own_ids usr d'"

lemma keeps_refl [simp]: "keeps usr d d \<longleftrightarrow> wf_db d"
  by (simp add: keeps_def)

lemma keeps_trans: "keeps usr d d1 \<Longrightarrow> keeps usr d1 d2 \<Longrightarrow> keeps usr d d2"
  by (auto simp: keeps_def)

lemma own_ids_cong: "channels d' = channels d \<Longrightarrow> own_ids usr d' = own_ids usr d"
  by (simp add: own_ids_def)

lemma keeps_adm: "alone env \<Longrightarrow> wf_db d \<Longrightarrow> keeps usr d (snd (op d)) \<Longrightarrow> keeps usr d (snd (adm env c op d))"
  by (simp add: adm_alone)

text \<open>The writes, on own rows.\<close>

lemma keeps_blob_ops:
  "wf_db d \<Longrightarrow> keeps usr d (snd (ReserveBlob key t d))" "wf_db d \<Longrightarrow> keeps usr d (snd (BlobOrphaned key t d))"
  "wf_db d \<Longrightarrow> keeps usr d (snd (ReleaseBlob tok d))" "wf_db d \<Longrightarrow> keeps usr d (snd (ReleaseDeleteLease tok d))"
proof -
  have "own_ids usr (snd (ReserveBlob key t d)) = own_ids usr d" "own_ids usr (snd (BlobOrphaned key t d)) = own_ids usr d"
    "own_ids usr (snd (ReleaseBlob tok d)) = own_ids usr d" "own_ids usr (snd (ReleaseDeleteLease tok d)) = own_ids usr d"
    by (auto intro!: own_ids_cong simp: ReserveBlob_eq BlobOrphaned_eq acquire_eq ReleaseBlob_def ReleaseDeleteLease_def)
  then show "wf_db d \<Longrightarrow> keeps usr d (snd (ReserveBlob key t d))" "wf_db d \<Longrightarrow> keeps usr d (snd (BlobOrphaned key t d))"
    "wf_db d \<Longrightarrow> keeps usr d (snd (ReleaseBlob tok d))" "wf_db d \<Longrightarrow> keeps usr d (snd (ReleaseDeleteLease tok d))"
    by (simp_all add: keeps_def foreign_blob_ops ReserveBlob_wf BlobOrphaned_wf ReleaseBlob_wf ReleaseDeleteLease_wf)
qed

lemma keeps_channel_ops:
  "wf_db d \<Longrightarrow> c_UserID c = u_ID usr \<Longrightarrow> keeps usr d (snd (CreateChannel c d))"
  "wf_db d \<Longrightarrow> c_ID c \<in> own_ids usr d \<Longrightarrow> keeps usr d (snd (UpdateChannel c d))"
proof -
  have "own_ids usr d \<subseteq> own_ids usr (snd (CreateChannel c d))"
    by (auto simp: CreateChannel_def own_ids_iff)
  then show "wf_db d \<Longrightarrow> c_UserID c = u_ID usr \<Longrightarrow> keeps usr d (snd (CreateChannel c d))"
    by (simp add: keeps_def foreign_CreateChannel CreateChannel_wf)
  have k: "cr_id (if cr_id r = c_ID c then set_channel_cols c r else r) = cr_id r"
    "cr_user_id (if cr_id r = c_ID c then set_channel_cols c r else r) = cr_user_id r" for r
    by (simp_all add: set_channel_cols_def)
  have "own_ids usr (snd (UpdateChannel c d)) = own_ids usr d"
    by (rule set_eqI) (simp add: own_ids_iff UpdateChannel_def Let_def bex_upd_where k)
  then show "wf_db d \<Longrightarrow> c_ID c \<in> own_ids usr d \<Longrightarrow> keeps usr d (snd (UpdateChannel c d))"
    by (simp add: keeps_def foreign_UpdateChannel UpdateChannel_wf)
qed

text \<open>An own episode: its row is in a channel of the user.\<close>

definition own_row_of :: "user \<Rightarrow> string \<Rightarrow> db \<Rightarrow> bool" where
  "own_row_of usr eid d \<longleftrightarrow> (\<exists>r \<in> set (episodes d). er_id r = eid \<and> er_channel_id r \<in> own_ids usr d)"

lemma keeps_episode_ops:
  assumes "wf_db d" "own_row_of usr eid d"
  shows "keeps usr d (snd (UpdateEpisodeMetadata eid ti de la t d))"
    "keeps usr d (snd (SetEpisodePublication eid st p t d))"
    "keeps usr d (snd (DeleteEpisode eid t d))"
    "keeps usr d (snd (EnqueueTranscriptionJob j eid t d))"
proof -
  obtain r0 where r0: "r0 \<in> set (episodes d)" "er_channel_id r0 \<in> own_ids usr d" "er_id r0 = eid"
    using assms(2) by (auto simp: own_row_of_def)
  have ch: "channels (snd (update_episode eid f d)) = channels d" for f
    by (simp add: update_episode_def Let_def)
  have c: "channels (snd (UpdateEpisodeMetadata eid ti de la t d)) = channels d"
    "channels (snd (SetEpisodePublication eid st p t d)) = channels d"
    by (simp_all add: UpdateEpisodeMetadata_def SetEpisodePublication_def ch)
  have e: "channels (snd (DeleteEpisode eid t d)) = channels d"
    by (auto simp: DeleteEpisode_eq Let_def acquire_eq delete_episode_row_def split: option.splits)
  have q: "channels (snd (EnqueueTranscriptionJob j eid t d)) = channels d"
    by (auto simp: EnqueueTranscriptionJob_def with_tx_def Let_def insertJob_def split: sum.splits if_splits)
  show "keeps usr d (snd (UpdateEpisodeMetadata eid ti de la t d))"
    using foreign_update_episode [OF assms(1) r0]
    by (simp add: keeps_def UpdateEpisodeMetadata_wf assms(1) own_ids_cong [OF c(1)]) (simp add: UpdateEpisodeMetadata_def)
  show "keeps usr d (snd (SetEpisodePublication eid st p t d))"
    using foreign_update_episode [OF assms(1) r0]
    by (simp add: keeps_def SetEpisodePublication_wf assms(1) own_ids_cong [OF c(2)]) (simp add: SetEpisodePublication_def)
  show "keeps usr d (snd (DeleteEpisode eid t d))"
    by (simp add: keeps_def DeleteEpisode_wf assms(1) own_ids_cong [OF e] foreign_DeleteEpisode [OF assms(1) r0])
  show "keeps usr d (snd (EnqueueTranscriptionJob j eid t d))"
    by (simp add: keeps_def EnqueueTranscriptionJob_wf assms(1) own_ids_cong [OF q] foreign_Enqueue [OF assms(1) r0])
qed

lemma keeps_in_channel:
  assumes "wf_db d" "cid \<in> own_ids usr d"
  shows "keeps usr d (snd (ReorderEpisodes cid ids t d))"
    "e_ChannelID ep = cid \<Longrightarrow> keeps usr d (snd (CreateEpisode ep d))"
proof -
  have c: "channels (snd (ReorderEpisodes cid ids t d)) = channels d" by (simp add: ReorderEpisodes_eq)
  then show "keeps usr d (snd (ReorderEpisodes cid ids t d))"
    using foreign_ReorderEpisodes [OF assms(2)] ReorderEpisodes_wf [OF assms(1)]
    by (simp add: keeps_def own_ids_cong [OF c])
  have c: "channels (snd (CreateEpisode ep d)) = channels d" by (simp add: CreateEpisode_def)
  then show "e_ChannelID ep = cid \<Longrightarrow> keeps usr d (snd (CreateEpisode ep d))"
    using assms foreign_CreateEpisode [OF assms(1), of ep usr] CreateEpisode_wf [OF assms(1), of ep]
    by (simp add: keeps_def own_ids_cong [OF c])
qed

text \<open>The frame of the episode forms.\<close>

lemma keeps_withOwnedEpisode:
  assumes "alone env" "wf_db d"
    and "\<And>r1 ep ch. own_row_of usr (e_ID ep) d \<Longrightarrow> c_ID ch \<in> own_ids usr d \<Longrightarrow> keeps usr d (snd (act r1 ep ch d))"
  shows "keeps usr d (snd (withOwnedEpisode env usr r d act))"
proof -
  have a: "ad_others env = (\<lambda>_. [])" using assms(1) by (simp add: alone_def)
  show ?thesis
  proof (cases "fst (parseSmallForm r) = None \<and> (\<exists>x. fst (ownedEpisode env usr (rq_PathID r) d) = Inr x)")
    case False
    then show ?thesis using assms(2)
      by (auto simp: withOwnedEpisode_def split: prod.splits option.splits sum.splits dest: ownedEpisode_Inl [OF a])
  next
    case True
    then obtain r1 ep ch d1 where p: "parseSmallForm r = (None, r1)"
      and o: "ownedEpisode env usr (rq_PathID r) d = (Inr (ep, ch), d1)"
      by (metis prod.collapse)
    note own = ownedEpisode_Inr [OF a o]
    then have "own_row_of usr (e_ID ep) d" by (auto simp: own_row_of_def scanEpisode_def)
    moreover have "c_ID ch \<in> own_ids usr d" using own by simp
    ultimately have "keeps usr d (snd (act r1 ep ch d))" by (rule assms(3))
    then show ?thesis using own by (simp add: withOwnedEpisode_def p o)
  qed
qed

lemma snd_case_res [simp]:
  "snd (case x of (Inl e, d2) \<Rightarrow> (f e, d2) | (Inr y, d2) \<Rightarrow> (g y, d2)) = snd x"
  by (cases x; cases "fst x") auto

lemma snd_case_plain [simp]: "snd (case x of (res, d2) \<Rightarrow> (f res, d2)) = snd x"
  by (cases x) simp

lemma keeps_handlers:
  assumes "alone env" "wf_db d"
  shows "keeps usr d (snd (handleChannelCreate env usr r d))"
    "keeps usr d (snd (handleChannelUpdate env usr r d))"
    "keeps usr d (snd (handleEpisodeUpdate env usr r d))"
    "keeps usr d (snd (setEpisodePublished publish env usr r d))"
    "keeps usr d (snd (handleEpisodeMove env usr r d))"
    "keeps usr d (snd (handleEpisodeTranscribe env usr r d))"
proof -
  have a: "ad_others env = (\<lambda>_. [])" and q: "q_store (ad_queue env) = sqlite_jobs"
    using assms(1) by (simp_all add: alone_def)
  show "keeps usr d (snd (handleChannelCreate env usr r d))"
  proof (cases "parseSmallForm r")
    case (Pair rs r1)
    with assms show ?thesis
      by (cases rs) (auto simp: handleChannelCreate_def Let_def intro!: keeps_adm keeps_channel_ops)
  qed
  show "keeps usr d (snd (handleChannelUpdate env usr r d))"
  proof -
    have "keeps usr d (snd (adm env AWrite (UpdateChannel ch') d1))"
      if "ownedChannel env usr (rq_PathID r) d = (Inr ch, d1)" "c_ID ch' = c_ID ch" for ch ch' d1
    proof -
      note own = ownedChannel_Inr [OF a that(1)]
      have "keeps usr d (snd (adm env AWrite (UpdateChannel ch') d))"
        by (intro keeps_adm keeps_channel_ops assms) (use own that(2) in simp)
      then show ?thesis using own by simp
    qed
    then show ?thesis
      using assms(2)
      by (auto simp: handleChannelUpdate_def Let_def split: prod.split option.split sum.split
          dest: ownedChannel_Inl [OF a] ownedChannel_Inr [OF a])
  qed
  show "keeps usr d (snd (handleEpisodeUpdate env usr r d))"
    unfolding handleEpisodeUpdate_def
    by (rule keeps_withOwnedEpisode [OF assms])
      (use assms in \<open>simp add: Let_def keeps_adm keeps_episode_ops\<close>)
  show "keeps usr d (snd (setEpisodePublished publish env usr r d))"
    unfolding setEpisodePublished_def
    by (rule keeps_withOwnedEpisode [OF assms])
      (use assms in \<open>simp add: Let_def keeps_adm keeps_episode_ops\<close>)
  show "keeps usr d (snd (handleEpisodeTranscribe env usr r d))"
    unfolding handleEpisodeTranscribe_def
    by (rule keeps_withOwnedEpisode [OF assms])
      (use assms in \<open>simp add: adm_alone EnqueueTranscription_def q sqlite_jobs_def keeps_episode_ops\<close>)
  show "keeps usr d (snd (handleEpisodeMove env usr r d))"
    unfolding handleEpisodeMove_def
    by (rule keeps_withOwnedEpisode [OF assms])
      (use assms in \<open>auto simp: adm_alone Let_def keeps_in_channel split: prod.split sum.split\<close>)
qed

lemma keeps_releaseBlob: "alone env \<Longrightarrow> wf_db d \<Longrightarrow> keeps usr d (releaseBlob env tok d)"
  by (simp add: releaseBlob_def keeps_adm keeps_blob_ops)

lemma keeps_deleteLeasedBlob:
  assumes "alone env" "wf_db (si_db s)"
  shows "keeps usr (si_db s) (si_db (deleteLeasedBlob env key tok s))"
proof -
  have "exec_all (ad_others env APhysical) (si_db s) = si_db s" using assms(1) by (simp add: alone_def)
  then show ?thesis using assms by (simp add: deleteLeasedBlob_def Let_def keeps_adm keeps_blob_ops)
qed

lemma keeps_deleteOrphanBlob:
  assumes "alone env" "wf_db (si_db s)"
  shows "keeps usr (si_db s) (si_db (deleteOrphanBlob env key s))"
proof -
  obtain x d1 where b: "adm env AOrphan (BlobOrphaned key (ad_now env AOrphan)) (si_db s) = (x, d1)" by fastforce
  then have k: "keeps usr (si_db s) d1"
    using keeps_adm [OF assms, of usr "BlobOrphaned key (ad_now env AOrphan)" AOrphan] keeps_blob_ops(2) [OF assms(2)]
    by (metis snd_conv)
  then have "wf_db d1" by (simp add: keeps_def)
  then have "keeps usr d1 (si_db (deleteLeasedBlob env key tok (s\<lparr>si_db := d1\<rparr>)))" for tok
    using keeps_deleteLeasedBlob [OF assms(1), of "s\<lparr>si_db := d1\<rparr>"] by simp
  with k b assms(2) show ?thesis
    by (auto simp: deleteOrphanBlob_def split: sum.split prod.split intro: keeps_trans)
qed

lemma keeps_handleEpisodeDelete:
  assumes "alone env" "wf_db (si_db s)"
  shows "keeps usr (si_db s) (si_db (snd (handleEpisodeDelete env usr r s)))"
proof -
  have a: "ad_others env = (\<lambda>_. [])" using assms(1) by (simp add: alone_def)
  have k: "keeps usr (si_db s) d2"
    if "ownedEpisode env usr (rq_PathID r) (si_db s) = (Inr (ep, ch), d1)"
      "adm env AWrite (DeleteEpisode (e_ID ep) t) d1 = (res, d2)" for ep ch d1 t res d2
  proof -
    note own = ownedEpisode_Inr [OF a that(1)]
    then have "own_row_of usr (e_ID ep) (si_db s)" by (auto simp: own_row_of_def scanEpisode_def)
    then have "keeps usr (si_db s) (snd (adm env AWrite (DeleteEpisode (e_ID ep) t) (si_db s)))"
      by (intro keeps_adm assms keeps_episode_ops)
    then show ?thesis using own that(2) by simp
  qed
  have l: "keeps usr (si_db s) (si_db (deleteLeasedBlob env key tok (s\<lparr>si_db := d2\<rparr>)))"
    if "keeps usr (si_db s) d2" for d2 key tok
    using keeps_deleteLeasedBlob [OF assms(1), of "s\<lparr>si_db := d2\<rparr>" usr key tok] that
    by (auto intro: keeps_trans simp: keeps_def)
  show ?thesis
    using assms(2) k l
    by (auto simp: handleEpisodeDelete_def split: prod.split option.split sum.split
        dest: ownedEpisode_Inl [OF a] ownedEpisode_Inr [OF a])
qed

lemma keeps_reserveLoop:
  assumes "alone env" "wf_db d"
  shows "keeps usr d (snd (reserveLoop env key deadline k t d))"
  using assms
proof (induction env key deadline k t d rule: reserveLoop.induct)
  case (1 env key deadline k t d)
  have q: "ad_between env k = []" using 1(2) by (simp add: alone_def)
  have r: "keeps usr d (snd (ReserveBlob key (ad_reserveNow env k) d))" by (rule keeps_blob_ops(1) [OF 1(3)])
  show ?case
  proof (cases "\<exists>d1. (if ad_reserveFails env k then (Inl ErrDriver, d) else ReserveBlob key (ad_reserveNow env k) d)
      = (Inl ErrBlobDeleting, d1) \<and> t < deadline \<and> \<not> ad_cancelled env k")
    case False
    then show ?thesis using r 1(3) by (subst reserveLoop.simps) (auto simp: q split: prod.split sum.split if_splits)
  next
    case True
    then have nf: "\<not> ad_reserveFails env k" and t: "t < deadline" "\<not> ad_cancelled env k" by (auto split: if_splits)
    then obtain d1 where d1: "ReserveBlob key (ad_reserveNow env k) d = (Inl ErrBlobDeleting, d1)" using True by auto
    then have "d1 = d" by (auto simp: ReserveBlob_eq split: if_splits)
    then have "keeps usr d (snd (reserveLoop env key deadline (Suc k) (t + reserveStep + int (ad_delay env (Suc k))) d))"
      by (intro 1(1) [of "Inl ErrBlobDeleting" d ErrBlobDeleting]) (use nf t d1 1(2,3) in \<open>simp_all add: q\<close>)
    then show ?thesis using nf t d1 \<open>d1 = d\<close> by (subst reserveLoop.simps) (simp add: q)
  qed
qed

lemma keeps_after_create:
  assumes "alone env" "wf_db d" "c_ID ch \<in> own_ids usr d"
    and "admProtected env ACreate (CreateEpisode (newEpisode env ch up n)) d = (Inr y, d3)"
  shows "keeps usr d (snd (adm env AEnqueue (EnqueueTranscription (ad_queue env) (e_ID (newEpisode env ch up n)) jid t) d3))"
proof -
  let ?ep = "newEpisode env ch up n"
  have q: "q_store (ad_queue env) = sqlite_jobs" using assms(1) by (simp add: alone_def)
  have c: "CreateEpisode ?ep d = (Inr y, d3)"
    using assms(1,4) by (auto simp: admProtected_def adm_alone split: if_splits)
  have "keeps usr d (snd (CreateEpisode ?ep d))"
    by (rule keeps_in_channel(2) [OF assms(2,3)]) (simp add: newEpisode_def)
  then have k: "keeps usr d d3" by (simp add: c)
  have "channels d3 = channels d" "episode_to_row ?ep \<in> set (episodes d3)"
    using c by (auto simp: CreateEpisode_def split: if_splits)
  moreover have "er_id (episode_to_row ?ep) = e_ID ?ep" "er_channel_id (episode_to_row ?ep) = c_ID ch"
    by (simp_all add: episode_to_row_def newEpisode_def)
  ultimately have "own_row_of usr (e_ID ?ep) d3"
    using assms(3) own_ids_cong [of d3 d usr] unfolding own_row_of_def by metis
  then have "keeps usr d3 (snd (adm env AEnqueue (EnqueueTranscription (ad_queue env) (e_ID ?ep) jid t) d3))"
    using k by (intro keeps_adm assms) (auto simp: EnqueueTranscription_def q sqlite_jobs_def keeps_def [of usr d]
        intro: keeps_episode_ops)
  then show ?thesis by (rule keeps_trans [OF k])
qed

lemma keeps_storeUpload:
  assumes "alone env" "wf_db (si_db s)" "c_ID ch \<in> own_ids usr (si_db s)"
  shows "keeps usr (si_db s) (si_db (snd (storeUpload env ch up bytes s)))"
proof -
  have o: "exec_all (ad_others env c) d = d" for c d using assms(1) by (simp add: alone_def)
  obtain x d1 where r: "reserveMediaKey env (su_mediaKey up) (si_db s) = (x, d1)" by fastforce
  then have k1: "keeps usr (si_db s) d1"
    using keeps_reserveLoop [OF assms(1,2)] by (metis reserveMediaKey_def snd_conv)
  then have wf: "wf_db d1" and own: "c_ID ch \<in> own_ids usr d1" using assms(3) by (auto simp: keeps_def)
  let ?n = "int (length bytes)"
  obtain y d3 where c: "admProtected env ACreate (CreateEpisode (newEpisode env ch up ?n)) d1 = (y, d3)" by fastforce
  have "keeps usr d1 (snd (CreateEpisode (newEpisode env ch up ?n) d1))"
    by (rule keeps_in_channel(2) [OF wf own]) (simp add: newEpisode_def)
  then have "keeps usr d1 (snd (admProtected env ACreate (CreateEpisode (newEpisode env ch up ?n)) d1))"
    using wf assms(1) by (simp add: admProtected_def o keeps_adm)
  then have k3: "keeps usr d1 d3" by (simp add: c)
  have rel: "keeps usr d1 (releaseBlob env tok d)" if "keeps usr d1 d" for tok d
    using that keeps_releaseBlob [OF assms(1), of d] by (auto simp: keeps_def intro: keeps_trans)
  have orphan: "keeps usr d1 (si_db (deleteOrphanBlob env key (s'\<lparr>si_db := d\<rparr>)))" if "keeps usr d1 d" for key s' d
    using that keeps_deleteOrphanBlob [OF assms(1), of "s'\<lparr>si_db := d\<rparr>"] by (auto simp: keeps_def intro: keeps_trans)
  have enq: "keeps usr d1 d4"
    if "y = Inr z" "adm env AEnqueue (EnqueueTranscription (ad_queue env) (e_ID (newEpisode env ch up ?n)) jid t) d3 = (res, d4)"
    for z jid t res d4
    using keeps_after_create [OF assms(1) wf own, of up ?n z d3] c that by (metis snd_conv)
  have "keeps usr d1 (si_db (snd (storeUpload env ch up bytes s)))"
    using r c k3 wf rel orphan enq
    by (auto simp: storeUpload_def Let_def o split: sum.split prod.split)
  then show ?thesis by (rule keeps_trans [OF k1])
qed

lemma keeps_handleEpisodeCreate:
  assumes "alone env" "wf_db (si_db s)"
  shows "keeps usr (si_db s) (si_db (snd (handleEpisodeCreate env usr q s)))"
proof (cases "ownedChannel env usr (uq_PathID q) (si_db s)")
  case (Pair x d1)
  have a: "ad_others env = (\<lambda>_. [])" using assms(1) by (simp add: alone_def)
  show ?thesis
  proof (cases x)
    case (Inl rs)
    then show ?thesis using Pair assms(2) by (auto simp: handleEpisodeCreate_def dest: ownedChannel_Inl [OF a])
  next
    case (Inr ch)
    with Pair ownedChannel_Inr [OF a] have d1: "d1 = si_db s" "c_ID ch \<in> own_ids usr (si_db s)" by auto
    have k: "keeps usr (si_db s) (si_db s3)"
      if "createStaged env ch up s' = (v, s3)" "si_db s' = si_db s" for up s' v s3
    proof -
      have "keeps usr (si_db s) (si_db (snd (createStaged env ch up s')))"
        using keeps_storeUpload [OF assms(1), of s' ch usr up] that(2) assms(2) d1(2)
        by (simp add: createStaged_def Let_def split: option.split)
      then show ?thesis using that(1) by simp
    qed
    have c: "si_db (setReadDeadline env t s') = si_db s'" "si_db (abortUpload env s') = si_db s'" for t s'
      by (simp_all add: setReadDeadline_def abortUpload_def)
    show ?thesis
      using Pair Inr d1(1) assms(2)
      by (auto simp: handleEpisodeCreate_def Let_def c split: sum.split prod.split option.split intro: k)
  qed
qed

lemma keeps_admin:
  assumes "alone env" "wf_db (si_db s)"
  shows "keeps usr (si_db s) (si_db (snd (admin env usr rq s)))"
  using keeps_handlers [OF assms] keeps_handleEpisodeDelete [OF assms] keeps_handleEpisodeCreate [OF assms]
  by (cases rq) (simp_all add: handleEpisodePublish_def handleEpisodeUnpublish_def)

text \<open>
  C7: No request of a user to the admin area, whatever its form values or upload, changes
  anything that belongs to other accounts: their channels, episodes and transcripts, and the
  accounts themselves.
\<close>

theorem tenants_are_isolated:
  assumes "alone env" "wf_db (si_db s)"
  shows "foreign usr (si_db (snd (admin env usr rq s))) = foreign usr (si_db s)"
  using keeps_admin [OF assms] by (simp add: keeps_def)

lemma tenants_are_isolated_witness:
  "foreign ex_owner (si_db (snd (admin (ex_adminenv (\<lambda>_. False)) ex_owner (AdmEpisodeDelete (ex_action ''e'' [])) ex_site)))
     = foreign ex_owner (si_db ex_site)"
  by (rule tenants_are_isolated [OF ex_alone ex_site_wf])

end
