(* ===== verification/AdminGuarantees.thy ===== *)
theory AdminGuarantees
  imports Tenancy
begin

text \<open>
  What the media handlers promise: an upload leaves no staged file and no reservation behind,
  an upload without faults creates a queued episode whose media is in the blob store, the long
  read deadline is granted only to a validated upload, and deletion, publication and moving do
  exactly what they say.
\<close>

section \<open>The reservation loop\<close>

text \<open>Two environments that agree on the first attempts.\<close>

definition same_attempts :: "nat \<Rightarrow> adminenv \<Rightarrow> adminenv \<Rightarrow> bool" where
  "same_attempts n env env' \<longleftrightarrow> ad_start env = ad_start env' \<and> (\<forall>k < n. ad_between env k = ad_between env' k
     \<and> ad_reserveFails env k = ad_reserveFails env' k \<and> ad_cancelled env k = ad_cancelled env' k
     \<and> ad_delay env k = ad_delay env' k \<and> ad_reserveNow env k = ad_reserveNow env' k)"

lemma reserveLoop_same:
  assumes "same_attempts 26 env env'" "deadline = start + reserveBudget" "start + int k * reserveStep \<le> t" "k < 26"
  shows "reserveLoop env key deadline k t d = reserveLoop env' key deadline k t d"
  using assms(2-)
proof (induction "25 - k" arbitrary: k t d rule: less_induct)
  case less
  have s: "ad_between env k = ad_between env' k" "ad_reserveFails env k = ad_reserveFails env' k"
    "ad_cancelled env k = ad_cancelled env' k" "ad_reserveNow env k = ad_reserveNow env' k"
    using assms(1) less.prems(3) by (simp_all add: same_attempts_def)
  have "reserveLoop env key deadline (Suc k) (t + reserveStep + int (ad_delay env (Suc k))) d1
      = reserveLoop env' key deadline (Suc k) (t + reserveStep + int (ad_delay env' (Suc k))) d1"
    if "t < deadline" for d1
  proof -
    have "int k < 25" using that less.prems(1,2) by (simp add: reserveBudget_def reserveStep_def units)
    then have k: "Suc k < 26" "25 - Suc k < 25 - k" by simp_all
    then have "ad_delay env (Suc k) = ad_delay env' (Suc k)" using assms(1) by (simp add: same_attempts_def)
    moreover have "start + int (Suc k) * reserveStep \<le> t + reserveStep + int (ad_delay env' (Suc k))"
      using less.prems(2) by (simp add: algebra_simps)
    ultimately show ?thesis using less.hyps [OF k(2) less.prems(1) _ k(1)] by simp
  qed
  then show ?case
    by (subst (1 2) reserveLoop.simps) (auto simp: s Let_def split: prod.split sum.split)
qed

text \<open>
  Reserving a media key while its blob is being deleted ends within 26 attempts, whatever
  the store and the clock do after them.
\<close>

theorem reservation_gives_up:
  assumes "same_attempts 26 env env'"
  shows "reserveMediaKey env key d = reserveMediaKey env' key d"
proof -
  have "ad_start env = ad_start env'" "ad_delay env 0 = ad_delay env' 0" using assms by (simp_all add: same_attempts_def)
  then show ?thesis
    using reserveLoop_same [OF assms refl, of "ad_start env" 0 "ad_start env + int (ad_delay env 0)" key d]
    by (simp add: reserveMediaKey_def)
qed

section \<open>The connection and the staging directory\<close>

lemma releases_keep [simp]:
  "si_staging (deleteLeasedBlob env key tok s) = si_staging s" "si_staging (deleteOrphanBlob env key s) = si_staging s"
  "si_readDeadline (deleteLeasedBlob env key tok s) = si_readDeadline s"
  "si_readDeadline (deleteOrphanBlob env key s) = si_readDeadline s"
  "si_close (deleteLeasedBlob env key tok s) = si_close s" "si_close (deleteOrphanBlob env key s) = si_close s"
  by (simp_all add: deleteLeasedBlob_def deleteOrphanBlob_def Let_def split: prod.split sum.split)

lemma createStaged_keeps [simp]:
  "si_staging (snd (createStaged env ch up s)) = si_staging s"
  "si_readDeadline (snd (createStaged env ch up s)) = si_readDeadline s"
  "si_close (snd (createStaged env ch up s)) = si_close s"
  by (simp_all add: createStaged_def storeUpload_def Let_def split: prod.split sum.split option.split)

text \<open>What the handler checks before the body is read.\<close>

definition upload_admitted :: "adminenv \<Rightarrow> user \<Rightarrow> uploadreq \<Rightarrow> site \<Rightarrow> bool" where
  "upload_admitted env usr q s \<longleftrightarrow> (\<exists>ch d1. ownedChannel env usr (uq_PathID q) (si_db s) = (Inr ch, d1))
     \<and> uq_MediaType q = Some ''multipart/form-data'' \<and> uq_Boundary q \<noteq> []
     \<and> (uq_ContentLength q \<le> 0 \<or> uq_ContentLength q \<le> ad_maxUploadBytes env) \<and> \<not> ad_fault env ADeadline"

definition staged_ok :: "adminenv \<Rightarrow> uploadreq \<Rightarrow> site \<Rightarrow> bool" where
  "staged_ok env q s \<longleftrightarrow> (\<exists>up dir. stageMultipartUpload (ad_stage env) (uq_Opened q) (uq_Parts q) (uq_End q) (si_staging s) = (Inr up, dir))"

theorem upload_deadline_discipline:
  assumes "handleEpisodeCreate env usr q s = (v, s')" "\<not> ad_noDeadlines env"
  shows "si_readDeadline s' =
      (if \<not> upload_admitted env usr q s then si_readDeadline s
       else if staged_ok env q s then Some (ad_now env ADeadline + uploadReadTimeout (ad_maxUploadBytes env))
       else Some (ad_now env AAbort))
    \<and> si_close s' = (si_close s \<or> upload_admitted env usr q s \<and> \<not> staged_ok env q s)"
proof (cases "ownedChannel env usr (uq_PathID q) (si_db s)")
  case (Pair x d1)
  show ?thesis
  proof (cases "upload_admitted env usr q s")
    case False
    then show ?thesis
      using assms(1) Pair by (cases x) (auto simp: handleEpisodeCreate_def upload_admitted_def Let_def split: if_splits)
  next
    case True
    then obtain ch where x: "x = Inr ch" using Pair by (auto simp: upload_admitted_def)
    obtain y dir where st: "stageMultipartUpload (ad_stage env) (uq_Opened q) (uq_Parts q) (uq_End q) (si_staging s) = (y, dir)"
      by fastforce
    have c: "si_readDeadline s3 = si_readDeadline s2 \<and> si_close s3 = si_close s2"
      if "createStaged env ch up s2 = (w, s3)" for up s2 w s3
      using createStaged_keeps(2,3) [of env ch up s2] by (simp add: that)
    show ?thesis
      using True assms Pair x st
      by (cases y) (auto simp: handleEpisodeCreate_def upload_admitted_def Let_def setReadDeadline_def abortUpload_def
          staged_ok_def dest!: c split: option.splits prod.splits)
  qed
qed

theorem upload_leaves_no_staged_file:
  assumes "se_tempName (ad_stage env) \<notin> dom (si_staging s)" "handleEpisodeCreate env usr q s = (v, s')"
  shows "si_staging s' = si_staging s"
proof -
  obtain x d1 where o: "ownedChannel env usr (uq_PathID q) (si_db s) = (x, d1)" by fastforce
  let ?st = "stageMultipartUpload (ad_stage env) (uq_Opened q) (uq_Parts q) (uq_End q) (si_staging s)"
  obtain y dir where st: "?st = (y, dir)" by fastforce
  note clean = staging_clean [OF assms(1) st]
  have r: "si_staging (setReadDeadline env t s2) = si_staging s2" "si_staging (abortUpload env s2) = si_staging s2" for t s2
    by (simp_all add: setReadDeadline_def abortUpload_def)
  have c: "si_staging s3 = si_staging s2" if "createStaged env ch up s2 = (w, s3)" for ch up s2 w s3
    using createStaged_keeps(1) [of env ch up s2] that by simp
  have undo: "(si_staging s)(name \<mapsto> body, name := None) = si_staging s" if "name \<notin> dom (si_staging s)" for name body
    using that by auto
  show ?thesis
  proof (cases y)
    case (Inl e)
    then show ?thesis using assms(2) o st clean
      by (cases x) (auto simp: handleEpisodeCreate_def Let_def r split: if_splits)
  next
    case (Inr up)
    then show ?thesis using assms(2) o st clean undo
      by (cases x) (auto simp: handleEpisodeCreate_def Let_def r dest!: c split: if_splits prod.splits option.splits)
  qed
qed

section \<open>An upload that goes well\<close>

lemma ReleaseBlob_reserved:
  assumes "ReserveBlob key t d = (Inr tok, d1)" "wf_db d" "reservations d2 = reservations d1"
  shows "reservations (snd (ReleaseBlob tok d2)) = reservations d"
proof -
  have "br_id r \<noteq> reservation_seq d + 1" if "r \<in> set (reservations d)" for r
    using assms(2) that by (auto simp: wf_db_def wf_seq_def)
  then have "del_where (\<lambda>r. br_id r = reservation_seq d + 1) (reservations d) = reservations d"
    by (simp add: del_where_def)
  then show ?thesis
    using assms(1,3) by (auto simp: ReserveBlob_eq ReleaseBlob_def del_where_def split: if_splits)
qed

lemma key_absent: "i \<notin> k ` set rs \<Longrightarrow> \<not> list_ex (\<lambda>r. k r = i) rs"
  by (auto simp: list_ex_iff intro: rev_image_eqI)

lemma enqueue_new_episode:
  assumes "er_id row \<notin> er_id ` set (episodes d)" "er_transcript_status row = TranscriptNone"
    and "j_ID j \<notin> jr_id ` set (jobs d)"
  shows "EnqueueTranscriptionJob j (er_id row) t (d\<lparr>episodes := episodes d @ [row]\<rparr>)
    = (Inr (), d\<lparr>episodes := episodes d @ [set_status_cols TranscriptPending t row], jobs := jobs d @ [job_to_row j]\<rparr>)"
proof -
  let ?hit = "\<lambda>r. er_id r = er_id row \<and> \<not> in_progress (er_transcript_status r)"
  have "\<forall>r \<in> set (episodes d). \<not> ?hit r" using assms(1) by (metis image_eqI)
  then have u: "upd_where ?hit f (episodes d) = episodes d" "count_where ?hit (episodes d) = 0" for f
    by (simp_all add: upd_where_none count_where_0)
  have a: "upd_where c f (xs @ ys) = upd_where c f xs @ upd_where c f ys" for c and f :: "episode_row \<Rightarrow> episode_row" and xs ys
    by (simp add: upd_where_def)
  have "\<not> in_progress (er_transcript_status row)" using assms(2) by (simp add: in_progress_def)
  moreover have "\<not> list_ex (\<lambda>r. jr_id r = j_ID j) (jobs d)" using assms(3) by (rule key_absent)
  ultimately show ?thesis
    by (simp add: EnqueueTranscriptionJob_def with_tx_def Let_def u a insertJob_def)
qed

text \<open>The exact state after a put, a create and an enqueue that all succeed.\<close>

lemma storeUpload_ok:
  assumes "alone env" "ad_fault env = (\<lambda>_. False)" "ad_elapsed env < UploadProtectWindow"
    and "c_ID ch \<in> own_ids usr d" "\<not> ad_reserveFails env 0"
    and r: "ReserveBlob (su_mediaKey up) (ad_reserveNow env 0) d = (Inr tok, d1)"
    and "ad_newID env \<notin> er_id ` set (episodes d)" "ad_jobID env \<notin> jr_id ` set (jobs d)" "si_db s = d"
  shows "storeUpload env ch up bytes s = (Plain (redirect (episodesPath ch)),
     s\<lparr>si_blobs := (si_blobs s)(su_mediaKey up \<mapsto> bytes),
       si_db := snd (ReleaseBlob tok (d1\<lparr>
         episodes := episodes d1 @ [set_status_cols TranscriptPending (ad_now env AEnqueue)
             (episode_to_row (newEpisode env ch up (int (length bytes))))],
         jobs := jobs d1 @ [job_to_row (new_job JobTranscribe (TranscribePayload (ad_newID env)) (ad_jobID env)
             (ad_now env AEnqueue))]\<rparr>))\<rparr>)"
proof -
  have o: "exec_all (ad_others env c) d = d" "exec_all (ad_between env k) d = d" for c k d
    using assms(1) by (simp_all add: alone_def)
  have store: "q_store (ad_queue env) = sqlite_jobs" using assms(1) by (simp add: alone_def)
  let ?ep = "newEpisode env ch up (int (length bytes))"
  have rm: "reserveMediaKey env (su_mediaKey up) d = (Inr tok, d1)"
    unfolding reserveMediaKey_def by (subst reserveLoop.simps) (simp add: o assms(5) r)
  have d1: "episodes d1 = episodes d" "channels d1 = channels d" "jobs d1 = jobs d"
    using r by (auto simp: ReserveBlob_eq split: if_splits)
  let ?row = "episode_to_row ?ep" and ?j = "new_job JobTranscribe (TranscribePayload (e_ID ?ep)) (ad_jobID env) (ad_now env AEnqueue)"
  let ?d3 = "d1\<lparr>episodes := episodes d1 @ [?row]\<rparr>"
  have id: "e_ID ?ep = ad_newID env" "e_ChannelID ?ep = c_ID ch" "er_id ?row = ad_newID env"
    "er_transcript_status ?row = TranscriptNone"
    by (simp_all add: newEpisode_def episode_to_row_def)
  have "list_ex (\<lambda>r. cr_id r = c_ID ch) (channels d1)" using assms(4) by (auto simp: own_ids_iff d1 list_ex_iff)
  moreover have "\<not> list_ex (\<lambda>r. er_id r = ad_newID env) (episodes d1)" unfolding d1 using assms(7) by (rule key_absent)
  ultimately have create: "CreateEpisode ?ep d1 = (Inr (), ?d3)" by (simp add: CreateEpisode_def id)
  have "j_ID ?j = ad_jobID env" by (simp add: new_job_def)
  then have enq: "EnqueueTranscription (ad_queue env) (ad_newID env) (ad_jobID env) (ad_now env AEnqueue) ?d3
      = (Inr (), d1\<lparr>episodes := episodes d1 @ [set_status_cols TranscriptPending (ad_now env AEnqueue) ?row],
                    jobs := jobs d1 @ [job_to_row ?j]\<rparr>)"
    using enqueue_new_episode [of ?row d1 ?j "ad_now env AEnqueue"] assms(7,8)
    by (simp add: EnqueueTranscription_def store sqlite_jobs_def id d1)
  show ?thesis
    using assms(2,3)
    by (simp add: storeUpload_def Let_def assms(9) rm o admProtected_def adm_alone [OF assms(1)] create id(1) enq
        enqueueResponse_def releaseBlob_def)
qed

text \<open>A request that reaches the store: admitted, parsed, with a title and a media file.\<close>

definition staged_upload :: "adminenv \<Rightarrow> user \<Rightarrow> uploadreq \<Rightarrow> site \<Rightarrow> channel \<Rightarrow> stagedUpload \<Rightarrow> string \<Rightarrow> bool" where
  "staged_upload env usr q s ch up bytes \<longleftrightarrow> upload_admitted env usr q s
     \<and> ChannelByID (uq_PathID q) (si_db s) = Inr ch \<and> staged_field up fieldTitle \<noteq> []
     \<and> (case stageMultipartUpload (ad_stage env) (uq_Opened q) (uq_Parts q) (uq_End q) (si_staging s) of
          (Inr up', dir) \<Rightarrow> up' = up \<and> (case su_file up of None \<Rightarrow> False | Some name \<Rightarrow> dir name = Some bytes)
        | _ \<Rightarrow> False)"

lemma staged_upload_stores:
  assumes "alone env" "staged_upload env usr q s ch up bytes" "handleEpisodeCreate env usr q s = (v, s')"
  shows "c_ID ch \<in> own_ids usr (si_db s) \<and> (\<exists>s2 s3. si_db s2 = si_db s \<and> si_blobs s2 = si_blobs s
    \<and> storeUpload env ch up bytes s2 = (v, s3) \<and> si_db s' = si_db s3 \<and> si_blobs s' = si_blobs s3)"
proof -
  let ?d = "si_db s"
  have a: "ad_others env = (\<lambda>_. [])" using assms(1) by (simp add: alone_def)
  obtain ch' d0 where c0: "ownedChannel env usr (uq_PathID q) ?d = (Inr ch', d0)"
    using assms(2) by (auto simp: staged_upload_def upload_admitted_def)
  note own = ownedChannel_Inr [OF a c0]
  have c: "ownedChannel env usr (uq_PathID q) ?d = (Inr ch, ?d)" "c_ID ch \<in> own_ids usr ?d"
    using own c0 assms(2) by (auto simp: staged_upload_def)
  obtain dir name where up: "stageMultipartUpload (ad_stage env) (uq_Opened q) (uq_Parts q) (uq_End q) (si_staging s) = (Inr up, dir)"
      "su_file up = Some name" "dir name = Some bytes" and title: "staged_field up fieldTitle \<noteq> []"
    using assms(2) by (auto simp: staged_upload_def split: prod.splits sum.splits option.splits)
  let ?s2 = "(setReadDeadline env (ad_now env ADeadline + uploadReadTimeout (ad_maxUploadBytes env)) s)\<lparr>si_staging := dir\<rparr>"
  have db: "si_db ?s2 = ?d" "si_blobs ?s2 = si_blobs s" by (simp_all add: setReadDeadline_def)
  obtain w s3 where st: "storeUpload env ch up bytes ?s2 = (w, s3)" by fastforce
  have cs: "createStaged env ch up ?s2 = (w, s3)"
    using title up(2,3) st by (simp add: createStaged_def Let_def)
  have s: "s\<lparr>si_db := ?d\<rparr> = s" by simp
  have n: "\<not> (0 < uq_ContentLength q \<and> ad_maxUploadBytes env < uq_ContentLength q)"
    "uq_MediaType q = Some ''multipart/form-data''" "uq_Boundary q \<noteq> []" "\<not> ad_fault env ADeadline"
    using assms(2) by (auto simp: staged_upload_def upload_admitted_def)
  have stg: "stageMultipartUpload (ad_stage env) (uq_Opened q) (uq_Parts q) (uq_End q)
      (si_staging (setReadDeadline env t s)) = (Inr up, dir)" for t
    using up(1) by (simp add: setReadDeadline_def)
  have "(v, s') = handleEpisodeCreate env usr q s" using assms(3) by simp
  also have "\<dots> = (w, s3\<lparr>si_staging := (si_staging s3)(name := None)\<rparr>)"
    using n(2-) by (simp only: handleEpisodeCreate_def c(1) Let_def s if_not_P [OF n(1)] prod.case sum.case stg
        simp_thms if_False option.case up(2) not_not cs)
  finally have "v = w" "si_db s' = si_db s3" "si_blobs s' = si_blobs s3" by simp_all
  then show ?thesis using c(2) db st by blast
qed

lemma staged_upload_channel:
  assumes "alone env" "staged_upload env usr q s ch up bytes"
  shows "ChannelByID (c_ID ch) (si_db s) = Inr ch \<and> c_UserID ch = u_ID usr"
proof -
  have a: "ad_others env = (\<lambda>_. [])" using assms(1) by (simp add: alone_def)
  obtain ch' d0 where "ownedChannel env usr (uq_PathID q) (si_db s) = (Inr ch', d0)"
    using assms(2) by (auto simp: staged_upload_def upload_admitted_def)
  from ownedChannel_Inr [OF a this] assms(2) show ?thesis by (auto simp: staged_upload_def)
qed

lemma upload_effect:
  assumes "alone env" "wf_db (si_db s)" "ad_fault env = (\<lambda>_. False)" "ad_elapsed env < UploadProtectWindow"
    and "staged_upload env usr q s ch up bytes"
    and "\<not> ad_reserveFails env 0" "\<not> leased (su_mediaKey up) (ad_reserveNow env 0) (si_db s)"
    and "ad_newID env \<notin> er_id ` set (episodes (si_db s))" "ad_jobID env \<notin> jr_id ` set (jobs (si_db s))"
    and "handleEpisodeCreate env usr q s = (v, s')"
  shows "v = Plain (redirect (episodesPath ch)) \<and> si_blobs s' = (si_blobs s)(su_mediaKey up \<mapsto> bytes)
    \<and> reservations (si_db s') = reservations (si_db s)
    \<and> (\<exists>ep. EpisodeByID (ad_newID env) (si_db s') = Inr ep \<and> e_ChannelID ep = c_ID ch
         \<and> e_Title ep = staged_field up fieldTitle \<and> e_MediaKey ep = su_mediaKey up
         \<and> e_MediaBytes ep = int (length bytes) \<and> e_Status ep = EpisodeDraft \<and> e_TranscriptStatus ep = TranscriptPending)
    \<and> job_state (ad_jobID env) (si_db s') = Some (JobPending, 0)
    \<and> ChannelByID (c_ID ch) (si_db s') = Inr ch \<and> c_UserID ch = u_ID usr
    \<and> jobs (si_db s') = jobs (si_db s)
      @ [job_to_row (new_job JobTranscribe (TranscribePayload (ad_newID env)) (ad_jobID env) (ad_now env AEnqueue))]"
proof -
  let ?d = "si_db s" and ?ep = "newEpisode env ch up (int (length bytes))"
  obtain s2 s3 where c: "c_ID ch \<in> own_ids usr ?d" and s2: "si_db s2 = ?d" "si_blobs s2 = si_blobs s"
      and st: "storeUpload env ch up bytes s2 = (v, s3)" and s': "si_db s' = si_db s3" "si_blobs s' = si_blobs s3"
    using staged_upload_stores [OF assms(1,5,10)] by blast
  obtain tok d1 where r: "ReserveBlob (su_mediaKey up) (ad_reserveNow env 0) ?d = (Inr tok, d1)"
    using assms(7) by (simp add: ReserveBlob_eq)
  then have d1: "episodes d1 = episodes ?d" "jobs d1 = jobs ?d"
    by (auto simp: ReserveBlob_eq split: if_splits)
  let ?row = "set_status_cols TranscriptPending (ad_now env AEnqueue) (episode_to_row ?ep)"
  let ?j = "job_to_row (new_job JobTranscribe (TranscribePayload (ad_newID env)) (ad_jobID env) (ad_now env AEnqueue))"
  let ?d4 = "d1\<lparr>episodes := episodes d1 @ [?row], jobs := jobs d1 @ [?j]\<rparr>"
  have h: "v = Plain (redirect (episodesPath ch))" "si_blobs s' = (si_blobs s)(su_mediaKey up \<mapsto> bytes)"
    "si_db s' = snd (ReleaseBlob tok ?d4)"
    using st s' storeUpload_ok [OF assms(1,3,4) c assms(6) r assms(8,9) s2(1), of bytes] by (auto simp: s2(2))
  have "reservations (si_db s') = reservations ?d"
    using ReleaseBlob_reserved [OF r assms(2), of ?d4] by (simp add: h(3))
  moreover have "er_id ?row = ad_newID env" "jr_id ?j = ad_jobID env"
    by (simp_all add: set_status_cols_def episode_to_row_def newEpisode_def new_job_def job_to_row_def)
  then have "find (\<lambda>r. er_id r = ad_newID env) (episodes (si_db s')) = Some ?row"
    "find (\<lambda>r. jr_id r = ad_jobID env) (jobs (si_db s')) = Some ?j"
    using assms(8,9) by (simp_all add: h(3) ReleaseBlob_def d1 find_key_append_new)
  then have "EpisodeByID (ad_newID env) (si_db s') = Inr (scanEpisode ?row)"
    "job_state (ad_jobID env) (si_db s') = Some (JobPending, 0)"
    by (simp_all add: EpisodeByID_def episodeWhere_def job_state_def job_to_row_def new_job_def)
  moreover have "channels d1 = channels ?d" using r by (auto simp: ReserveBlob_eq split: if_splits)
  then have "ChannelByID (c_ID ch) (si_db s') = Inr ch" "c_UserID ch = u_ID usr"
    using staged_upload_channel [OF assms(1,5)] by (simp_all add: h(3) ReleaseBlob_def ChannelByID_def channelWhere_def)
  ultimately show ?thesis
    using h(1,2) by (simp add: h(3) ReleaseBlob_def d1 scanEpisode_def set_status_cols_def episode_to_row_def newEpisode_def)
qed



section \<open>Deletion, publication and order\<close>

lemma owned_request:
  assumes "alone env" "\<not> ad_fault env AChannel" "\<not> ad_fault env AEpisode"
    and "EpisodeByID eid d = Inr ep" "ChannelByID (e_ChannelID ep) d = Inr ch" "c_UserID ch = u_ID usr"
  shows "ownedEpisode env usr eid d = (Inr (ep, ch), d)"
  using assms by (simp add: ownedEpisode_def ownedChannel_def adm_alone)

theorem delete_removes_media:
  assumes "alone env" "wf_db (si_db s)" "\<forall>c. c \<noteq> APhysical \<longrightarrow> \<not> ad_fault env c"
    and "parseSmallForm r = (None, r1)" "EpisodeByID (rq_PathID r) (si_db s) = Inr ep"
    and "ChannelByID (e_ChannelID ep) (si_db s) = Inr ch" "c_UserID ch = u_ID usr"
    and "handleEpisodeDelete env usr r s = (v, s')"
  shows "v = Plain (redirect (episodesPath ch)) \<and> EpisodeByID (rq_PathID r) (si_db s') = Inl ErrNotFound
    \<and> (let key = e_MediaKey ep; now = ad_now env AWrite;
           orphaned = (key \<noteq> [] \<and> \<not> referenced_elsewhere (rq_PathID r) key (si_db s)
             \<and> \<not> reserved key now (si_db s) \<and> \<not> leased key now (si_db s))
       in si_blobs s' = (if orphaned \<and> \<not> ad_fault env APhysical then (si_blobs s)(key := None) else si_blobs s)
          \<and> (orphaned \<longrightarrow> \<not> leased key now (si_db s')))"
proof -
  let ?d = "si_db s" and ?eid = "rq_PathID r" and ?t = "ad_now env AWrite"
  have o: "exec_all (ad_others env c) d = d" for c d using assms(1) by (simp add: alone_def)
  have nf: "\<not> ad_fault env c" if "c \<noteq> APhysical" for c using assms(3) that by simp
  have own: "ownedEpisode env usr ?eid ?d = (Inr (ep, ch), ?d)"
    by (rule owned_request [OF assms(1) nf nf assms(5-7)]) simp_all
  obtain row where row: "find (\<lambda>x. er_id x = ?eid) (episodes ?d) = Some row" "ep = scanEpisode row"
    using assms(5) by (auto simp: EpisodeByID_def episodeWhere_def split: option.splits)
  then have k: "er_media_key row = e_MediaKey ep" "e_ID ep = ?eid" by (auto simp: scanEpisode_def dest: find_SomeD)
  let ?k = "e_MediaKey ep" and ?d1 = "delete_episode_row ?eid ?d"
  let ?d2 = "snd (acquireDeleteLeaseTx ?k ?t ?d1)" and ?tok = "lease_seq ?d + 1"
  let ?orphaned = "?k \<noteq> [] \<and> \<not> referenced_elsewhere ?eid ?k ?d \<and> \<not> reserved ?k ?t ?d \<and> \<not> leased ?k ?t ?d"
  have s: "s\<lparr>si_db := ?d\<rparr> = s" by simp
  have gone: "find (\<lambda>x. er_id x = ?eid) (del_where (\<lambda>x. er_id x = ?eid) (episodes ?d)) = None"
    by (rule find_del_where_key)
  show ?thesis
  proof (cases ?orphaned)
    case False
    then have "DeleteEpisode ?eid ?t ?d = (Inr (?k, False, 0), ?d1)" by (auto simp: DeleteEpisode_eq row(1) k(1) Let_def)
    then have "handleEpisodeDelete env usr r s = (Plain (redirect (episodesPath ch)), s\<lparr>si_db := ?d1\<rparr>)"
      using nf by (simp add: handleEpisodeDelete_def assms(4) own k adm_alone [OF assms(1)])
    then show ?thesis using assms(8) False gone
      by (auto simp: EpisodeByID_def episodeWhere_def delete_episode_row_def)
  next
    case True
    then have "DeleteEpisode ?eid ?t ?d = (Inr (?k, True, ?tok), ?d2)"
      by (simp add: DeleteEpisode_eq row(1) k(1) Let_def)
    then have h: "handleEpisodeDelete env usr r s = (Plain (redirect (episodesPath ch)),
        deleteLeasedBlob env ?k ?tok (s\<lparr>si_db := ?d2\<rparr>))"
      using nf by (simp add: handleEpisodeDelete_def assms(4) own k adm_alone [OF assms(1)])
    have new: "br_id x \<noteq> ?tok" if "x \<in> set (leases ?d)" for x
      using assms(2) that by (auto simp: wf_db_def wf_seq_def)
    have "leases (snd (ReleaseDeleteLease ?tok ?d2)) = del_where (\<lambda>x. br_media_key x = ?k) (leases ?d)"
      using True new by (auto simp: acquire_eq ReleaseDeleteLease_def del_where_def delete_episode_row_def
          leased_def intro!: filter_cong)
    then have "\<not> leased ?k ?t (snd (ReleaseDeleteLease ?tok ?d2))" by (simp add: leased_def set_del_where)
    moreover have "episodes (snd (ReleaseDeleteLease ?tok ?d2)) = del_where (\<lambda>x. er_id x = ?eid) (episodes ?d)"
      by (simp add: acquire_eq ReleaseDeleteLease_def delete_episode_row_def)
    ultimately show ?thesis
      using h assms(8) True gone nf
      by (auto simp: deleteLeasedBlob_def o Let_def adm_alone [OF assms(1)] EpisodeByID_def episodeWhere_def)
  qed
qed

theorem publication_toggle:
  assumes "alone env" "ad_fault env = (\<lambda>_. False)" "parseSmallForm r = (None, r1)"
    and "EpisodeByID (rq_PathID r) d = Inr ep" "ChannelByID (e_ChannelID ep) d = Inr ch" "c_UserID ch = u_ID usr"
    and "setEpisodePublished publish env usr r d = (v, d')"
  shows "v = Plain (redirect (episodesPath ch))
    \<and> EpisodeByID (rq_PathID r) d' = Inr (ep\<lparr>
        e_Status := (if publish then EpisodePublished else EpisodeDraft),
        e_PublishedAt := (if publish \<and> e_PublishedAt ep = None then Some (fromUnix (toUnix (ad_now env AWrite))) else e_PublishedAt ep),
        e_UpdatedAt := fromUnix (toUnix (ad_now env AWrite))\<rparr>)"
proof -
  have own: "ownedEpisode env usr (rq_PathID r) d = (Inr (ep, ch), d)"
    by (rule owned_request [OF assms(1) _ _ assms(4-6)]) (simp_all add: assms(2))
  obtain row where row: "ep = scanEpisode row" "er_id row = rq_PathID r"
    using assms(4) by (auto simp: EpisodeByID_def dest!: episodeWhere_Inr)
  then have id: "e_ID ep = rq_PathID r" and p: "fromUnixPtr (toUnixPtr (e_PublishedAt ep)) = e_PublishedAt ep"
    by (auto simp: scanEpisode_def fromUnixPtr_def toUnixPtr_def option.map_comp comp_def)
  let ?p = "if publish \<and> e_PublishedAt ep = None then Some (ad_now env AWrite) else e_PublishedAt ep"
  let ?st = "if publish then EpisodePublished else EpisodeDraft"
  have ok: "fst (SetEpisodePublication (rq_PathID r) ?st ?p (ad_now env AWrite) d) = Inr ()"
    by (simp add: SetEpisodePublication_def update_episode_fst assms(4))
  have "setEpisodePublished publish env usr r d = (Plain (redirect (episodesPath ch)),
      snd (SetEpisodePublication (rq_PathID r) ?st ?p (ad_now env AWrite) d))"
    using ok unfolding setEpisodePublished_def withOwnedEpisode_def assms(3) own id Let_def
    by (auto simp: adm_alone [OF assms(1)] assms(2) id split: prod.split sum.split)
  then have "v = Plain (redirect (episodesPath ch))"
    "d' = snd (SetEpisodePublication (rq_PathID r) ?st ?p (ad_now env AWrite) d)"
    using assms(7) by simp_all
  moreover have "fromUnixPtr (toUnixPtr ?p) = (if publish \<and> e_PublishedAt ep = None
      then Some (fromUnix (toUnix (ad_now env AWrite))) else e_PublishedAt ep)"
    using p by (cases "publish \<and> e_PublishedAt ep = None") (simp_all only: if_True if_False, simp add: fromUnixPtr_def toUnixPtr_def)
  ultimately show ?thesis by (simp only: EpisodeByID_publication assms(4)) simp
qed

lemma listed_ids:
  assumes "wf_db d" "cid \<noteq> []"
  shows "distinct (map e_ID (ListEpisodes (allOf cid) d)) \<and> set (map e_ID (ListEpisodes (allOf cid) d)) = set (channelEpisodeIDs cid d)"
proof -
  have m: "filter_match (allOf cid) = (\<lambda>r. er_channel_id r = cid)" "f_Limit (allOf cid) = 0"
    using assms(2) by (auto simp: filter_match_def allOf_def)
  have l: "map e_ID (ListEpisodes (allOf cid) d) = map er_id (sort_key episode_order (filter (\<lambda>r. er_channel_id r = cid) (episodes d)))"
    by (simp add: ListEpisodes_def Let_def scanEpisode_def comp_def m)
  have "distinct (map er_id (filter (\<lambda>r. er_channel_id r = cid) (episodes d)))"
    using assms(1) by (intro distinct_map_filter) (simp add: wf_db_def wf_episodes_def)
  then have "distinct (map er_id (sort_key episode_order (filter (\<lambda>r. er_channel_id r = cid) (episodes d))))"
    by (simp add: distinct_map)
  then show ?thesis unfolding l by (simp add: set_channelEpisodeIDs)
qed

lemma swapped_perm: "i < length xs \<Longrightarrow> j < length xs \<Longrightarrow> distinct xs \<Longrightarrow> distinct (swapped i j xs) \<and> set (swapped i j xs) = set xs"
  by (simp add: swapped_def distinct_swap)

theorem move_swaps_neighbours:
  assumes "alone env" "wf_db d" "ad_fault env = (\<lambda>_. False)" "parseSmallForm r = (None, r1)"
    and "EpisodeByID (rq_PathID r) d = Inr ep" "ChannelByID (e_ChannelID ep) d = Inr ch" "c_UserID ch = u_ID usr" "c_ID ch \<noteq> []"
    and "handleEpisodeMove env usr r d = (v, d')"
    and "ids = map e_ID (ListEpisodes (allOf (c_ID ch)) d)" "i < length ids" "ids ! i = rq_PathID r"
    and "j = (if FormValue r1 ''dir'' = ''down'' then int i + 1 else int i - 1)"
  shows "v = Plain (redirect (episodesPath ch))
    \<and> (if 0 \<le> j \<and> j < int (length ids)
       then map e_ID (ListEpisodes (allOf (c_ID ch)) d') = ids[i := ids ! nat j, nat j := ids ! i] else d' = d)"
proof -
  have own: "ownedEpisode env usr (rq_PathID r) d = (Inr (ep, ch), d)"
    by (rule owned_request [OF assms(1) _ _ assms(5-7)]) (simp_all add: assms(3))
  have id: "e_ID ep = rq_PathID r"
    using assms(5) by (auto simp: EpisodeByID_def scanEpisode_def dest!: episodeWhere_Inr)
  have d: "distinct ids" "set ids = set (channelEpisodeIDs (c_ID ch) d)"
    using listed_ids [OF assms(2,8)] assms(10) by simp_all
  have ix: "index_of ids (rq_PathID r) = i"
    using index_of_nth [of "rq_PathID r" ids] assms(11,12) d(1) nth_eq_iff_index_eq [OF d(1)] nth_mem by metis
  show ?thesis
  proof (cases "0 \<le> j \<and> j < int (length ids)")
    case False
    then have "handleEpisodeMove env usr r d = (Plain (redirect (episodesPath ch)), d)"
      unfolding handleEpisodeMove_def withOwnedEpisode_def assms(4) own
      using assms(10,11,13) ix by (auto simp: adm_alone [OF assms(1)] assms(3) Let_def id)
    then show ?thesis using assms(9) False by auto
  next
    case True
    then have j: "nat j < length ids" by linarith
    have sw: "distinct (swapped i (nat j) ids)" "set (swapped i (nat j) ids) = set (channelEpisodeIDs (c_ID ch) d)"
      using swapped_perm [OF assms(11) j d(1)] d(2) by auto
    obtain d2 where ro: "ReorderEpisodes (c_ID ch) (swapped i (nat j) ids) (ad_now env AWrite) d = (Inr (), d2)"
      using sw by (simp add: ReorderEpisodes_eq)
    have "handleEpisodeMove env usr r d = (Plain (redirect (episodesPath ch)), d2)"
      unfolding handleEpisodeMove_def withOwnedEpisode_def assms(4) own
      using assms(10,11,13) ix True ro by (auto simp: adm_alone [OF assms(1)] assms(3) Let_def id)
    moreover have "map e_ID (ListEpisodes (allOf (c_ID ch)) d2) = swapped i (nat j) ids"
      unfolding allOf_def by (rule ListEpisodes_reordered [OF assms(2,8) ro])
    ultimately show ?thesis using assms(9) True by (auto simp: swapped_def)
  qed
qed

text \<open>
  A missing episode and one of another user are both answered with 404, but with different
  messages.
\<close>

theorem foreign_episode_distinguishable:
  assumes "alone env" "\<not> ad_fault env AChannel" "\<not> ad_fault env AEpisode"
  shows "(EpisodeByID eid d = Inl ErrNotFound \<longrightarrow> fst (ownedEpisode env usr eid d) = Inl (page 404 ''Episode not found.''))
    \<and> (\<forall>ep ch. EpisodeByID eid d = Inr ep \<and> ChannelByID (e_ChannelID ep) d = Inr ch \<and> c_UserID ch \<noteq> u_ID usr \<longrightarrow>
         fst (ownedEpisode env usr eid d) = Inl (page 404 ''Channel not found.''))"
  using assms by (auto simp: ownedEpisode_def ownedChannel_def adm_alone)

section \<open>Concrete requests\<close>

abbreviation ex_staged :: stagedUpload where
  "ex_staged \<equiv> \<lparr>su_file = Some ''tmp'', su_mediaKey = ''hxy'', su_mime = ''audio/mpeg'', su_fields = [''title'' \<mapsto> ''T'']\<rparr>"

lemma ex_admitted: "\<not> faults AChannel \<Longrightarrow> \<not> faults ADeadline \<Longrightarrow> upload_admitted (ex_adminenv faults) ex_owner ex_upload ex_site"
  using ex_channel ex_owns
  by (simp add: upload_admitted_def ownedChannel_def adm_alone [OF ex_alone]) (simp add: ex_upload_def ex_adminenv_def)

lemma ex_upload_staged: "\<not> faults AChannel \<Longrightarrow> \<not> faults ADeadline \<Longrightarrow>
   staged_upload (ex_adminenv faults) ex_owner ex_upload ex_site (scanChannel ex_channel_row) ex_staged ''xy''"
  using ex_admitted [of faults] ex_channel Upload.ex_staged
  by (simp add: staged_upload_def) (simp add: ex_upload_def ex_adminenv_def ex_site_def staged_field_def fieldTitle_def)

lemma reservation_gives_up_witness:
  "reserveMediaKey (ex_adminenv (\<lambda>_. False)) ''k'' (si_db ex_site)
     = reserveMediaKey ((ex_adminenv (\<lambda>_. False))\<lparr>ad_delay := (\<lambda>k. if k < 26 then 0 else 7)\<rparr>) ''k'' (si_db ex_site)"
  by (rule reservation_gives_up) (simp add: same_attempts_def ex_adminenv_def)

lemma upload_deadline_discipline_witness:
  "si_readDeadline (snd (handleEpisodeCreate (ex_adminenv (\<lambda>_. False)) ex_owner ex_upload ex_site)) = Some (5 * Minute)"
proof -
  let ?e = "ex_adminenv (\<lambda>_. False)"
  obtain v s' where h: "handleEpisodeCreate ?e ex_owner ex_upload ex_site = (v, s')" by fastforce
  have "staged_ok ?e ex_upload ex_site"
    using Upload.ex_staged by (simp add: staged_ok_def ex_adminenv_def ex_upload_def ex_site_def)
  then show ?thesis
    using upload_deadline_discipline [OF h] ex_admitted [of "\<lambda>_. False"] h
    by (simp add: ex_adminenv_def) (simp add: uploadReadTimeout_def minUploadRate_def uploadTimeoutFloor_def units)
qed

lemma upload_leaves_no_staged_file_witness:
  "si_staging (snd (handleEpisodeCreate (ex_adminenv (\<lambda>_. False)) ex_owner ex_upload ex_site)) = Map.empty"
proof -
  obtain v s' where h: "handleEpisodeCreate (ex_adminenv (\<lambda>_. False)) ex_owner ex_upload ex_site = (v, s')" by fastforce
  from upload_leaves_no_staged_file [OF _ h] h show ?thesis by (simp add: ex_site_def)
qed

lemma ex_fresh: "''n'' \<notin> er_id ` set (episodes (si_db ex_site))" "''i'' \<notin> jr_id ` set (jobs (si_db ex_site))"
  "\<not> leased k t (si_db ex_site)" "\<not> reserved k t (si_db ex_site)"
  by (simp_all add: ex_site_def ex leased_def reserved_def)



lemma delete_removes_media_witness:
  "si_blobs (snd (handleEpisodeDelete (ex_adminenv (\<lambda>_. False)) ex_owner (ex_action ''e'' []) ex_site)) ''k'' = None"
proof -
  let ?e = "ex_adminenv (\<lambda>_. False)"
  obtain v s' where h: "handleEpisodeDelete ?e ex_owner (ex_action ''e'' []) ex_site = (v, s')" by fastforce
  have f: "\<forall>c. c \<noteq> APhysical \<longrightarrow> \<not> ad_fault ?e c" "\<not> ad_fault ?e APhysical" by (simp_all add: ex_adminenv_def)
  have "\<not> referenced_elsewhere ''e'' ''k'' (si_db ex_site)" by (simp add: referenced_elsewhere_def ex_site_def ex)
  then show ?thesis
    using delete_removes_media [OF ex_alone ex_site_wf f(1) ex_action_parse(1) _ _ ex_owns(1) h] ex_action_parse(2)
      ex_episode_e ex_channel ex_episode_fields ex_fresh(3,4) f(2) h
    by (simp add: Let_def)
qed

lemma publication_toggle_witness:
  "\<exists>ep. EpisodeByID ''e'' (snd (setEpisodePublished False (ex_adminenv (\<lambda>_. False)) ex_owner (ex_action ''e'' []) (si_db ex_site))) = Inr ep
     \<and> e_Status ep = EpisodeDraft \<and> e_PublishedAt ep = Some 0"
proof -
  let ?e = "ex_adminenv (\<lambda>_. False)"
  obtain v d' where h: "setEpisodePublished False ?e ex_owner (ex_action ''e'' []) (si_db ex_site) = (v, d')" by fastforce
  have f: "ad_fault ?e = (\<lambda>_. False)" by (simp add: ex_adminenv_def)
  show ?thesis
    using publication_toggle [OF ex_alone f ex_action_parse(1) _ _ ex_owns(1) h] ex_action_parse(2)
      ex_episode_e ex_channel ex_episode_fields h
    by simp
qed

lemma move_swaps_neighbours_witness:
  "map e_ID (ListEpisodes (allOf ''c'') (snd (handleEpisodeMove (ex_adminenv (\<lambda>_. False)) ex_owner (ex_action ''e'' [(''dir'', ''down'')]) (si_db ex_site))))
     = [''f'', ''e'']"
proof -
  let ?e = "ex_adminenv (\<lambda>_. False)" and ?r = "ex_action ''e'' [(''dir'', ''down'')]"
  obtain v d' where h: "handleEpisodeMove ?e ex_owner ?r (si_db ex_site) = (v, d')" by fastforce
  have f: "ad_fault ?e = (\<lambda>_. False)" by (simp add: ex_adminenv_def)
  have l: "map e_ID (ListEpisodes (allOf ''c'') (si_db ex_site)) = [''e'', ''f'']"
    by code_simp
  have d: "FormValue (?r\<lparr>rq_PostForm := Some [(''dir'', ''down'')]\<rparr>) ''dir'' = ''down''"
    by (simp add: FormValue_def getFirst_def)
  show ?thesis
    using move_swaps_neighbours [OF ex_alone ex_site_wf f ex_action_parse(1) _ _ ex_owns(1) _ h refl, of _ 0 1]
      ex_action_parse(2) ex_episode_e ex_channel ex_episode_fields ex_owns l h d
    by (simp add: nat_eq_iff)
qed

lemma foreign_episode_distinguishable_witness:
  "fst (ownedEpisode (ex_adminenv (\<lambda>_. False)) (ex_owner\<lparr>u_ID := ''v''\<rparr>) ''zz'' (si_db ex_site)) = Inl (page 404 ''Episode not found.'')
   \<and> fst (ownedEpisode (ex_adminenv (\<lambda>_. False)) (ex_owner\<lparr>u_ID := ''v''\<rparr>) ''e'' (si_db ex_site)) = Inl (page 404 ''Channel not found.'')"
proof -
  let ?e = "ex_adminenv (\<lambda>_. False)"
  have f: "\<not> ad_fault ?e AChannel" "\<not> ad_fault ?e AEpisode" by (simp_all add: ex_adminenv_def)
  have "EpisodeByID ''zz'' (si_db ex_site) = Inl ErrNotFound" by (simp add: EpisodeByID_def episodeWhere_def ex_site_def ex)
  moreover have "c_UserID (scanChannel ex_channel_row) \<noteq> ''v''" by (simp add: scanChannel_def ex)
  ultimately show ?thesis
    using foreign_episode_distinguishable [OF ex_alone f, of "''zz''" "si_db ex_site" "ex_owner\<lparr>u_ID := ''v''\<rparr>"]
      foreign_episode_distinguishable [OF ex_alone f, of "''e''" "si_db ex_site" "ex_owner\<lparr>u_ID := ''v''\<rparr>"]
      ex_episode_e ex_channel ex_episode_fields by simp
qed

end
