(* ===== verification/Feed.thy ===== *)
theory Feed
  imports Media Strconv "HOL-Library.Signed_Division"
begin

text \<open>
  \<open>feed/feed.go\<close> and \<open>handleFeed\<close>: the document a channel's feed is, its duration format, and
  how its links and enclosures relate to the public pages and the media endpoint.  The XML
  encoder and the date format of \<open>time\<close> are parameters.
\<close>

section \<open>The document\<close>

record iimage =
  im_URL :: string
  im_Title :: string
  im_Link :: string

record guid =
  gu_Value :: string
  gu_IsPermaLink :: bool

record enclosure =
  en_URL :: string
  en_Length :: int
  en_Type :: string

record item =
  it_Title :: string
  it_Link :: string
  it_GUID :: guid
  it_Description :: string
  it_PubDate :: string
  it_Enclosure :: enclosure
  it_Duration :: string

record rss =
  rs_Version :: string
  rs_ITunesNS :: string
  rs_Title :: string
  rs_Link :: string
  rs_Description :: string
  rs_Language :: string
  rs_Image :: "iimage option"
  rs_ITunesImage :: "string option"
  rs_Items :: "item list"

definition itunesNS :: string where "itunesNS = ''http://www.itunes.com/dtds/podcast-1.0.dtd''"

text \<open>\<open>%02d\<close>: a zero in front of a single digit.\<close>

definition pad2 :: "int \<Rightarrow> string" where
  "pad2 n = (let s = FormatInt n in if length s < 2 then CHR ''0'' # s else s)"

text \<open>Go's division truncates.\<close>

definition formatDuration :: "int \<Rightarrow> string" where
  "formatDuration secs =
     (let h = secs sdiv 3600; m = (secs smod 3600) sdiv 60; s = secs smod 60
      in if 0 < h then FormatInt h @ '':'' @ pad2 m @ '':'' @ pad2 s else FormatInt m @ '':'' @ pad2 s)"

definition buildItem :: "(time \<Rightarrow> string) \<Rightarrow> string \<Rightarrow> episode \<Rightarrow> item" where
  "buildItem fmtDate base ep =
     \<lparr>it_Title = e_Title ep, it_Link = base @ ''/e/'' @ e_ID ep @ ''/'',
      it_GUID = \<lparr>gu_Value = ''urn:castlet:episode:'' @ e_ID ep, gu_IsPermaLink = False\<rparr>,
      it_Description = e_Description ep,
      it_PubDate = (case e_PublishedAt ep of None \<Rightarrow> [] | Some t \<Rightarrow> fmtDate t),
      it_Enclosure = \<lparr>en_URL = base @ ''/media/'' @ e_MediaKey ep, en_Length = e_MediaBytes ep, en_Type = e_MediaMIME ep\<rparr>,
      it_Duration = (if 0 < e_DurationSecs ep then formatDuration (e_DurationSecs ep) else [])\<rparr>"

definition Build :: "(time \<Rightarrow> string) \<Rightarrow> string \<Rightarrow> channel \<Rightarrow> episode list \<Rightarrow> rss" where
  "Build fmtDate baseURL ch eps =
     (let base = trimRightSlash baseURL;
          channelLink = base @ ''/c/'' @ c_ID ch @ ''/'';
          imgURL = base @ ''/media/'' @ c_ImageKey ch
      in \<lparr>rs_Version = ''2.0'', rs_ITunesNS = itunesNS, rs_Title = c_Title ch, rs_Link = channelLink,
          rs_Description = c_Description ch, rs_Language = c_Language ch,
          rs_Image = (if c_ImageKey ch \<noteq> [] then Some \<lparr>im_URL = imgURL, im_Title = c_Title ch, im_Link = channelLink\<rparr> else None),
          rs_ITunesImage = (if c_ImageKey ch \<noteq> [] then Some imgURL else None),
          rs_Items = map (buildItem fmtDate base) eps\<rparr>)"

section \<open>The handler\<close>

datatype feed_response = FeedNotFound | FeedError | FeedXML string

text \<open>\<open>marshal\<close> is \<open>xml.MarshalIndent\<close> with its header.\<close>

definition handleFeed ::
    "mediaenv \<Rightarrow> (time \<Rightarrow> string) \<Rightarrow> (rss \<Rightarrow> string option) \<Rightarrow> string \<Rightarrow> string \<Rightarrow> db \<Rightarrow> feed_response" where
  "handleFeed env fmtDate marshal baseURL cid d =
     (case lookupChannel env cid d of
        Inl pg \<Rightarrow> if pg = PageNotFound then FeedNotFound else FeedError
      | Inr ch \<Rightarrow>
          (case storeRead env MList (Inr (ListEpisodes (publishedOf (c_ID ch)) d)) of
             Inl _ \<Rightarrow> FeedError
           | Inr eps \<Rightarrow> (case marshal (Build fmtDate baseURL ch eps) of None \<Rightarrow> FeedError | Some xml \<Rightarrow> FeedXML xml)))"

section \<open>Durations read back\<close>

definition readDuration :: "string \<Rightarrow> nat" where
  "readDuration s = foldl (\<lambda>n w. 60 * n + digitsVal w) 0 (Split CHR '':'' s)"

lemma isDigit_not_colon: "list_all isDigit w \<Longrightarrow> CHR '':'' \<notin> set w"
  by (auto simp: list_all_iff isDigit_def)

lemma FormatInt_nat: "0 \<le> n \<Longrightarrow> FormatInt n = natDigits (nat n)"
  by (simp add: FormatInt_def)

lemma digitsVal_zero: "digitsVal (CHR ''0'' # s) = digitsVal s"
  by (simp add: digitsVal_def)

lemma pad2_digits: "0 \<le> n \<Longrightarrow> list_all isDigit (pad2 n) \<and> digitsVal (pad2 n) = nat n"
  using natDigits_isDigit [of "nat n"]
  by (simp add: pad2_def Let_def FormatInt_nat digitsVal_zero) (simp add: isDigit_def)

lemma signed_nonneg:
  "0 \<le> a \<Longrightarrow> 0 < b \<Longrightarrow> a sdiv b = a div b" "0 \<le> a \<Longrightarrow> 0 < b \<Longrightarrow> a smod b = a mod b" for a b :: int
  by (cases "a = 0"; simp add: signed_divide_int_eq_divide_int signed_modulo_int_eq_modulo_int)+

lemma hms: "60 * m + s = r \<Longrightarrow> 3600 * h + r = n \<Longrightarrow> 60 * (60 * h + m) + s = n" for h m s r n :: int
  by simp

lemma readDuration_fields:
  assumes "0 \<le> h" "0 \<le> m" "0 \<le> s"
  shows "readDuration (FormatInt h @ '':'' @ pad2 m @ '':'' @ pad2 s) = 60 * (60 * nat h + nat m) + nat s"
    and "readDuration (FormatInt m @ '':'' @ pad2 s) = 60 * nat m + nat s"
proof -
  note dig = pad2_digits [OF assms(2)] pad2_digits [OF assms(3)]
  have nc: "CHR '':'' \<notin> set (natDigits k)" for k by (rule isDigit_not_colon [OF natDigits_isDigit])
  have np: "CHR '':'' \<notin> set (pad2 m)" "CHR '':'' \<notin> set (pad2 s)" using dig isDigit_not_colon by blast+
  show "readDuration (FormatInt h @ '':'' @ pad2 m @ '':'' @ pad2 s) = 60 * (60 * nat h + nat m) + nat s"
    "readDuration (FormatInt m @ '':'' @ pad2 s) = 60 * nat m + nat s"
    using assms dig by (simp_all add: FormatInt_nat readDuration_def Split_append Split_word nc np)
qed

theorem duration_roundtrip:
  assumes "0 \<le> secs"
  shows "readDuration (formatDuration secs) = nat secs"
proof -
  define h where "h = secs div 3600"
  define m where "m = secs mod 3600 div 60"
  define t where "t = secs mod 60"
  have nn: "0 \<le> h" "0 \<le> m" "0 \<le> t" using assms by (simp_all add: h_def m_def t_def)
  have "t = (secs mod 3600) mod 60" by (simp add: t_def mod_mod_cancel)
  then have "60 * m + t = secs mod 3600" by (simp add: m_def mult_div_mod_eq)
  moreover have "3600 * h + secs mod 3600 = secs" unfolding h_def by (rule mult_div_mod_eq)
  ultimately have "60 * (60 * h + m) + t = secs" by (intro hms)
  then have "int (60 * (60 * nat h + nat m) + nat t) = secs" using nn by simp
  then have v: "60 * (60 * nat h + nat m) + nat t = nat secs" by (metis nat_int)
  have f: "formatDuration secs = (if 0 < h then FormatInt h @ '':'' @ pad2 m @ '':'' @ pad2 t else FormatInt m @ '':'' @ pad2 t)"
    using assms by (simp add: formatDuration_def signed_nonneg Let_def h_def m_def t_def)
  show ?thesis
  proof (cases "0 < h")
    case True
    then show ?thesis using readDuration_fields(1) [OF nn] v by (simp only: f if_True)
  next
    case False
    then have "nat h = 0" by simp
    then show ?thesis using readDuration_fields(2) [OF nn] v False by (simp only: f if_False mult_0_right add_0)
  qed
qed

section \<open>What the feed offers\<close>

theorem feed_offers_published:
  assumes "ChannelByID cid d = Inr ch" "f = Build fmtDate baseURL ch (ListEpisodes (publishedOf (c_ID ch)) d)"
    and "c_ID ch \<noteq> []" "wf_db d"
  shows "(\<forall>x \<in> set (rs_Items f). \<exists>ep. EpisodeByID (e_ID ep) d = Inr ep \<and> e_Status ep = EpisodePublished
       \<and> e_ChannelID ep = c_ID ch \<and> x = buildItem fmtDate (trimRightSlash baseURL) ep
       \<and> publicly_referenced (e_MediaKey ep) d)
    \<and> length (rs_Items f) = length (filter (\<lambda>r. er_channel_id r = c_ID ch \<and> er_status r = EpisodePublished) (episodes d))
    \<and> distinct (map (\<lambda>x. gu_Value (it_GUID x)) (rs_Items f))"
proof -
  let ?p = "\<lambda>r. er_channel_id r = c_ID ch \<and> er_status r = EpisodePublished"
  let ?rs = "sort_key episode_order (filter ?p (episodes d))"
  have m: "filter_match (publishedOf (c_ID ch)) = ?p" "f_Limit (publishedOf (c_ID ch)) = 0"
    using assms(3) by (auto simp: filter_match_def publishedOf_def)
  have l: "ListEpisodes (publishedOf (c_ID ch)) d = map scanEpisode ?rs"
    by (simp add: ListEpisodes_def Let_def m)
  have items: "rs_Items f = map (buildItem fmtDate (trimRightSlash baseURL)) (map scanEpisode ?rs)"
    by (simp add: assms(2) Build_def Let_def l)
  have "\<exists>ep. EpisodeByID (e_ID ep) d = Inr ep \<and> e_Status ep = EpisodePublished
       \<and> e_ChannelID ep = c_ID ch \<and> x = buildItem fmtDate (trimRightSlash baseURL) ep
       \<and> publicly_referenced (e_MediaKey ep) d" if "x \<in> set (rs_Items f)" for x
  proof -
    note x = that
    obtain r where r: "r \<in> set (episodes d)" "?p r" "x = buildItem fmtDate (trimRightSlash baseURL) (scanEpisode r)"
      using x unfolding items by auto
    have "find (\<lambda>q. er_id q = er_id r) (episodes d) = Some r"
      using assms(4) r(1) by (intro find_key) (simp_all add: wf_db_def wf_episodes_def)
    then have "EpisodeByID (e_ID (scanEpisode r)) d = Inr (scanEpisode r)"
      by (simp add: EpisodeByID_def episodeWhere_def) (simp add: scanEpisode_def)
    moreover have "publicly_referenced (e_MediaKey (scanEpisode r)) d"
      using r(1,2) by (auto simp: publicly_referenced_def scanEpisode_def)
    moreover have "e_Status (scanEpisode r) = EpisodePublished" "e_ChannelID (scanEpisode r) = c_ID ch"
      using r(2) by (simp_all add: scanEpisode_def)
    ultimately show ?thesis using r(3) by blast
  qed
  moreover have "distinct (map (\<lambda>x. gu_Value (it_GUID x)) (rs_Items f))"
  proof -
    have "distinct (map er_id (filter ?p (episodes d)))"
      using assms(4) by (intro distinct_map_filter) (simp add: wf_db_def wf_episodes_def)
    then have "distinct (map er_id ?rs)" by (simp add: distinct_map)
    then have "distinct (map (\<lambda>i. ''urn:castlet:episode:'' @ i) (map er_id ?rs))"
      by (subst distinct_map) (simp add: inj_on_def)
    then show ?thesis by (simp add: items buildItem_def scanEpisode_def comp_def)
  qed
  ultimately show ?thesis by (simp add: items)
qed

text \<open>The media endpoint serves every enclosure whose bytes the blob store can return.\<close>

theorem enclosures_resolve:
  assumes "ep \<in> set (ListEpisodes (publishedOf cid) d)" "me_direct env = None" "me_fault env = (\<lambda>_. False)"
    and "\<not> me_getFault env (e_MediaKey ep)" "me_blobs env (e_MediaKey ep) = Some b"
  shows "\<exists>ct. handleMedia env (e_MediaKey ep) d = MediaStream ct True True b"
proof -
  obtain r where "r \<in> set (episodes d)" "er_status r = EpisodePublished" "er_media_key r = e_MediaKey ep"
    using assms(1) by (auto simp: ListEpisodes_def Let_def publishedOf_def filter_match_def scanEpisode_def)
  then have "publicly_referenced (e_MediaKey ep) d" by (auto simp: publicly_referenced_def)
  from handleMedia_visible [OF this, of env] obtain mime where "handleMedia env (e_MediaKey ep) d = serveBlob env (e_MediaKey ep) mime"
    using assms(3) by auto
  then show ?thesis using assms(2-5) by (simp add: serveBlob_def blobGet_def sniffContentType_def)
qed

section \<open>Concrete feeds\<close>

lemma duration_roundtrip_witness: "readDuration (formatDuration 3725) = 3725"
  using duration_roundtrip [of 3725] by simp

lemma feed_offers_published_witness:
  "length (rs_Items (Build (\<lambda>_. []) ''http://h/'' (scanChannel ex_channel_row)
     (ListEpisodes (publishedOf ''c'') (ex_db TranscriptNone JobDone 1 0)))) = 2"
proof -
  have c: "ChannelByID ''c'' (ex_db TranscriptNone JobDone 1 0) = Inr (scanChannel ex_channel_row)"
    by (simp add: ChannelByID_def channelWhere_def ex)
  have id: "c_ID (scanChannel ex_channel_row) = ''c''" by (simp add: scanChannel_def ex)
  show ?thesis using feed_offers_published [OF c refl, of "\<lambda>_. []" "''http://h/''"] unfolding id by (simp add: ex_wf) (simp add: ex)
qed

lemma enclosures_resolve_witness:
  "\<exists>ct. handleMedia ex_mediaenv ''k'' (ex_db TranscriptNone JobDone 1 0) = MediaStream ct True True ''bytes''"
proof -
  let ?d = "ex_db TranscriptNone JobDone 1 0" and ?ep = "scanEpisode (ex_episode_row ''e'' ''k'' TranscriptNone)"
  have k: "e_MediaKey ?ep = ''k''" by (simp add: scanEpisode_def ex)
  have "ex_episode_row ''e'' ''k'' TranscriptNone \<in> set (filter (filter_match (publishedOf ''c'')) (episodes ?d))"
    by (simp add: ex filter_match_def publishedOf_def)
  then have "?ep \<in> set (ListEpisodes (publishedOf ''c'') ?d)"
    by (simp add: ListEpisodes_def Let_def publishedOf_def)
  from enclosures_resolve [OF this, of ex_mediaenv] k show ?thesis by (simp add: ex_mediaenv_def)
qed

end
