(* ===== verification/WorkerProgress.thy ===== *)
theory WorkerProgress
  imports Worker
begin

text \<open>
  Progress of the worker and the life of a job.  The store's job table refines an array of
  small automata, one per job, of which a store operation moves at most one; and the drain loop
  ends: every pass that took a job spends one of the attempts the queue has left.
\<close>

section \<open>The automaton of a job\<close>

inductive job_step :: "(JobStatus \<times> int) option \<Rightarrow> JobStatus \<times> int \<Rightarrow> bool" where
  born: "job_step None p"
| claimed: "st \<in> {JobPending, JobProcessing} \<Longrightarrow> job_step (Some (st, n)) (JobProcessing, n + 1)"
| completed: "job_step (Some (JobProcessing, n)) (JobDone, n)"
| retried: "job_step (Some (JobProcessing, n)) (JobPending, n)"
| dead: "job_step (Some (JobProcessing, n)) (JobFailed, n)"

inductive_cases job_step_Some: "job_step (Some p) q"

definition job_array :: "db \<Rightarrow> string \<Rightarrow> (JobStatus \<times> int) option" where
  "job_array d = (\<lambda>i. job_state i d)"

definition array_step :: "(string \<Rightarrow> (JobStatus \<times> int) option) \<Rightarrow> (string \<Rightarrow> (JobStatus \<times> int) option) \<Rightarrow> bool" where
  "array_step A A' \<longleftrightarrow> A' = A \<or> (\<exists>i p. job_step (A i) p \<and> A' = A(i := Some p))"

lemma array_step_same: "jobs d' = jobs d \<Longrightarrow> array_step (job_array d) (job_array d')"
  by (simp add: array_step_def job_array_def job_state_def)

lemma array_step_set:
  "(\<And>k. job_state k d' = (if k = i then Some p else job_state k d)) \<Longrightarrow> job_step (job_state i d) p \<Longrightarrow>
     array_step (job_array d) (job_array d')"
  unfolding array_step_def job_array_def by (intro disjI2 exI [of _ i] exI [of _ p]) auto

lemma insertJob_step: "insertJob j d = Inr d' \<Longrightarrow> array_step (job_array d) (job_array d')"
proof -
  assume "insertJob j d = Inr d'"
  then have d': "jobs d' = jobs d @ [job_to_row j]" and new: "j_ID j \<notin> jr_id ` set (jobs d)"
    by (auto simp: insertJob_def list_ex_iff split: if_splits)
  have id: "jr_id (job_to_row j) = j_ID j" by (simp add: job_to_row_def)
  have "job_state (j_ID j) d = None" using new by (force simp: job_state_def find_None_iff)
  moreover have "job_state k d' = (if k = j_ID j then Some (jr_status (job_to_row j), jr_attempts (job_to_row j)) else job_state k d)" for k
    using calculation id by (auto simp: job_state_def d' find_append split: option.splits)
  ultimately show ?thesis by (intro array_step_set [where i = "j_ID j"]) (auto intro: job_step.born)
qed

lemma setJobStatus_step:
  assumes "wf_jobs d" "st \<in> {JobDone, JobPending, JobFailed}"
  shows "array_step (job_array d) (job_array (snd (setJobStatus jid tok st c ra now d)))"
proof (cases "claimed jid tok d")
  case True
  then obtain d' where "setJobStatus jid tok st c ra now d = (Inr (), d')"
      "\<forall>k. job_state k d' = (if k = jid then Some (st, tok) else job_state k d)"
    using job_state_setJobStatus [OF assms(1)] by blast
  moreover have "job_step (job_state jid d) (st, tok)"
    using True assms(2) by (auto simp: claimed_def intro: job_step.intros)
  ultimately show ?thesis by (auto intro: array_step_set)
qed (simp add: setJobStatus_eq [OF assms(1)] array_step_same)

lemma ClaimJob_step:
  assumes "wf_jobs d" shows "array_step (job_array d) (job_array (snd (ClaimJob ks now l d)))"
proof (cases "select_runnable ks now d")
  case (Some r)
  note r = select_runnable_Some(1,2) [OF Some]
  have "job_step (job_state (jr_id r) d) (JobProcessing, jr_attempts r + 1)"
    using r(2) by (auto simp: job_state_row [OF assms r(1)] runnable_def intro: job_step.claimed)
  then show ?thesis
    using Some by (simp add: ClaimJob_eq [OF assms] array_step_set [OF job_state_leased [OF assms r(1)]])
qed (simp add: ClaimJob_eq [OF assms] array_step_same)

lemma SettleAndComplete_step:
  assumes "wf_jobs d"
  shows "array_step (job_array d) (job_array (snd (SettleEpisodeTranscriptAndCompleteJob jid tok eid tr st t d)))"
  using SettleAndComplete_cases [OF assms, of jid tok eid tr st t]
proof (elim disjE exE conjE)
  fix d' ts
  let ?js = "upd_where (claim_hit jid tok) (settled_row JobDone [] None t) (jobs d)"
  assume c: "claimed jid tok d" and r: "SettleEpisodeTranscriptAndCompleteJob jid tok eid tr st t d = (Inr (), d')"
    and d': "d' = d\<lparr>jobs := ?js, transcripts := ts,
             episodes := upd_where (\<lambda>r. er_id r = eid) (set_status_cols st t) (episodes d)\<rparr>"
  have "job_state k d' = (if k = jid then Some (JobDone, tok) else job_state k d)" for k
  proof -
    have "job_state k d' = job_state k (d\<lparr>jobs := ?js\<rparr>)" by (rule job_state_cong) (simp add: d')
    then show ?thesis by (simp add: job_state_settled [OF c])
  qed
  moreover have "job_step (job_state jid d) (JobDone, tok)" using c by (auto simp: claimed_def intro: job_step.intros)
  ultimately show ?thesis by (auto simp: r intro: array_step_set)
qed (simp add: array_step_same)

lemma EnqueueTranscription_step:
  "array_step (job_array d) (job_array (snd (EnqueueTranscriptionJob j eid t d)))"
proof -
  have "array_step (job_array d) (job_array d')" if "insertJob j (d\<lparr>episodes := es\<rparr>) = Inr d'" for d' es
    using insertJob_step [OF that] by (simp add: job_array_def job_state_def)
  then show ?thesis
    by (auto simp: EnqueueTranscriptionJob_def with_tx_def Let_def array_step_same split: sum.splits)
qed

text \<open>
  C13: The job table refines an array of small automata, one per job (born, claimed with the next
  token, completed, retried, dead): a store operation moves at most one of them, along one of
  its transitions.
\<close>

theorem job_table_refines_automata:
  assumes "wf_db d"
  shows "array_step (job_array d) (job_array (snd (exec op d)))"
proof -
  note w = wf_jobsI [OF assms]
  show ?thesis
  proof (cases op)
    case (OpEnqueueJob j)
    then show ?thesis by (auto simp: EnqueueJob_def array_step_same insertJob_step split: sum.splits)
  qed (simp_all add: array_step_same ClaimJob_step [OF w] SettleAndComplete_step [OF w] EnqueueTranscription_step
      setJobStatus_step [OF w] CompleteJob_def RescheduleJob_def FailJob_def)
qed

lemma job_table_refines_automata_witness:
  "array_step (job_array (ex_db TranscriptPending JobPending 0 0))
     (job_array (snd (exec (OpClaimJob [] 0 Minute) (ex_db TranscriptPending JobPending 0 0))))"
  by (rule job_table_refines_automata [OF ex_wf])

section \<open>What a pass leaves of the attempts\<close>

text \<open>
  An active job weighs the attempts it has left and one more for the pass that dead-letters
  it; the potential of a table is the weight of all its jobs.
\<close>

fun weight :: "int \<Rightarrow> (JobStatus \<times> int) option \<Rightarrow> nat" where
  "weight m (Some (st, a)) = (if st \<in> {JobPending, JobProcessing} then nat (m + 1 - a) + 1 else 0)"
| "weight m None = 0"

definition job_ids :: "db \<Rightarrow> string set" where "job_ids d = set (map jr_id (jobs d))"

definition potential :: "int \<Rightarrow> db \<Rightarrow> nat" where
  "potential m d = (\<Sum>i\<in>job_ids d. weight m (job_state i d))"

text \<open>A later table with the same jobs.\<close>

definition same_jobs :: "db \<Rightarrow> db \<Rightarrow> bool" where "same_jobs d d' \<longleftrightarrow> job_ids d' = job_ids d"

lemma same_jobs_refl [simp]: "same_jobs d d" by (simp add: same_jobs_def)

lemma same_jobs_trans: "same_jobs d d' \<Longrightarrow> same_jobs d' d'' \<Longrightarrow> same_jobs d d''" by (simp add: same_jobs_def)

lemma forward_weight: "forward p q \<Longrightarrow> weight m (Some q) \<le> weight m (Some p)"
  by (cases p; cases q) (auto simp: forward_def)

lemma job_ids_state: "i \<in> job_ids d \<longleftrightarrow> job_state i d \<noteq> None"
  by (force simp: job_ids_def job_state_def find_None_iff)

lemma weight_le:
  assumes "jobs_forward d d'" "i \<in> job_ids d"
  shows "weight m (job_state i d') \<le> weight m (job_state i d)"
proof -
  obtain p where p: "job_state i d = Some p" using assms(2) by (auto simp: job_ids_state)
  then obtain q where "job_state i d' = Some q" "forward p q" using assms(1) unfolding jobs_forward_def by blast
  then show ?thesis using p by (simp add: forward_weight)
qed

lemma potential_less:
  assumes "jobs_forward d d'" "same_jobs d d'" "weight m (job_state j d') < weight m (job_state j d)"
  shows "potential m d' < potential m d"
proof -
  have "job_state j d \<noteq> None" using assms(3) by (cases "job_state j d") auto
  then have j: "j \<in> job_ids d" by (simp add: job_ids_state)
  have "finite (job_ids d)" by (simp add: job_ids_def)
  then show ?thesis
    using assms(2,3) j weight_le [OF assms(1)] unfolding potential_def same_jobs_def
    by (auto intro!: sum_strict_mono_ex1)
qed

section \<open>A pass adds no job\<close>

lemma same_jobs_upd: "(\<And>r. jr_id (f r) = jr_id r) \<Longrightarrow> same_jobs d (d\<lparr>jobs := upd_where c f (jobs d)\<rparr>)"
  unfolding same_jobs_def job_ids_def by (simp add: map_upd_where)

lemma same_jobs_jobs: "jobs d' = jobs d \<Longrightarrow> same_jobs d d'"
  by (simp add: same_jobs_def job_ids_def)

lemma settled_row_id [simp]: "jr_id (settled_row st c ra now r) = jr_id r"
  by (simp add: settled_row_def split: option.split)

lemma setJobStatus_same: "wf_jobs d \<Longrightarrow> same_jobs d (snd (setJobStatus jid tok st c ra now d))"
  by (simp add: setJobStatus_eq same_jobs_upd)

lemma ClaimJob_same: "wf_jobs d \<Longrightarrow> same_jobs d (snd (ClaimJob ks now l d))"
  by (simp add: ClaimJob_eq leased_row_def same_jobs_upd split: option.split)

lemma SettleAndComplete_same:
  assumes "wf_jobs d"
  shows "same_jobs d (snd (SettleEpisodeTranscriptAndCompleteJob jid tok eid tr st t d))"
proof -
  consider e where "SettleEpisodeTranscriptAndCompleteJob jid tok eid tr st t d = (Inl e, d)"
    | d' where "SettleEpisodeTranscriptAndCompleteJob jid tok eid tr st t d = (Inr (), d')"
        "jobs d' = upd_where (claim_hit jid tok) (settled_row JobDone [] None t) (jobs d)"
    using SettleAndComplete_cases [OF assms, of jid tok eid tr st t] by auto
  then show ?thesis by cases (simp_all add: same_jobs_def job_ids_def map_upd_where)
qed

lemma sqlite_same:
  "wf_jobs d \<Longrightarrow> same_jobs d (snd (sClaimJob sqlite_jobs ks now l d))"
  "wf_jobs d \<Longrightarrow> same_jobs d (snd (sCompleteJob sqlite_jobs jid tok now d))"
  "wf_jobs d \<Longrightarrow> same_jobs d (snd (sRescheduleJob sqlite_jobs jid tok ra c now d))"
  "wf_jobs d \<Longrightarrow> same_jobs d (snd (sFailJob sqlite_jobs jid tok c now d))"
  by (simp_all add: sqlite_jobs_def CompleteJob_def RescheduleJob_def FailJob_def setJobStatus_same ClaimJob_same)

lemma Ack_same:
  assumes "q_store q = sqlite_jobs" "wf_jobs d" shows "same_jobs d (snd (Ack q j now d))"
  using assms(1) sqlite_same(2) [OF assms(2), of "j_ID j" "j_Attempts j" now]
  by (auto simp: Ack_def split: prod.splits sum.splits)

lemma Nack_same:
  assumes "q_store q = sqlite_jobs" "wf_jobs d" shows "same_jobs d (snd (Nack q j cause now now' d))"
proof -
  have "same_jobs d d'" if "sFailJob sqlite_jobs a b c t d = (x, d')" for a b c t x d'
    using sqlite_same(4) [OF assms(2), of a b c t] that by simp
  moreover have "same_jobs d d'" if "sRescheduleJob sqlite_jobs a b r c t d = (x, d')" for a b r c t x d'
    using sqlite_same(3) [OF assms(2), of a b r c t] that by simp
  ultimately show ?thesis
    using assms(1) by (auto simp: Nack_def Let_def split: prod.splits sum.splits option.splits)
qed

text \<open>No other process writes during the pass.\<close>

definition quiet :: "env \<Rightarrow> bool" where "quiet ev \<longleftrightarrow> (\<forall>c. ev_others ev c = [])"

lemma call_same: "quiet ev \<Longrightarrow> same_jobs d (snd (op d)) \<Longrightarrow> same_jobs d (snd (call_store ev c op d))"
  by (simp add: call_store_def Let_def quiet_def)

lemma settle_call_same:
  "quiet ev \<Longrightarrow> same_jobs d (snd (call_store ev c (SettleEpisodeTranscript a b e tr st t) d))"
  by (rule call_same) (simp_all add: same_jobs_jobs)

lemma handle_same:
  assumes "quiet ev" "handle w ev j d = (h, d')"
  shows "same_jobs d d'"
proof -
  have l: "same_jobs d d1" if "call_store ev CLoad (\<lambda>d. (EpisodeByID eid d, d)) d = (x, d1)" for eid x d1
    using call_same [OF assms(1), of d "\<lambda>d. (EpisodeByID eid d, d)" CLoad] that by simp
  have p: "same_jobs d (snd (call_store ev CProgress (SettleEpisodeTranscript a b c None s t) d1))"
    if "same_jobs d d1" for a b c s t d1
    by (rule same_jobs_trans [OF that settle_call_same [OF assms(1)]])
  show ?thesis
    using assms(2) l p by (auto simp: transcribe_def Let_def split: JobKind.splits payload.splits prod.splits sum.splits
        if_splits TranscribeResult.splits)
qed

lemma mark_same: "quiet ev \<Longrightarrow> same_jobs d d1 \<Longrightarrow> same_jobs d (markTranscript ev j st d1)"
  by (auto simp: markTranscript_def split: payload.splits intro: same_jobs_trans [OF _ settle_call_same])

lemma fail_same:
  assumes "sqlite_worker w" "quiet ev" "wf_jobs (fst s)" "fail w ev j cause s = (e, s')"
  shows "same_jobs (fst s) (fst s')"
proof -
  have "same_jobs (fst s) d1" if "call_store ev CNack (Nack (w_queue w) j c t t') (fst s) = (x, d1)" for c t t' x d1
    using call_same [OF assms(2), of "fst s" "Nack (w_queue w) j c t t'" CNack] that assms(1,3)
    by (simp add: Nack_same sqlite_worker_def)
  with assms(2,4) show ?thesis
    by (auto simp: fail_def Let_def mark_same split: prod.splits sum.splits)
qed

lemma conclude_same:
  assumes "sqlite_worker w" "quiet ev" "wf_db (fst s)" "conclude w ev j h s = (e, s')"
  shows "same_jobs (fst s) (fst s')"
proof -
  note w = wf_jobsI [OF assms(3)]
  have st: "same_jobs (fst s) d1" if "settleAndComplete ev j x (fst s) = (y, d1)" for x y d1
  proof -
    have c: "same_jobs (fst s) (snd (call_store ev CSettle (SettleEpisodeTranscriptAndCompleteJob (j_ID j) (j_Attempts j)
        (e_ID (st_ep x)) (st_transcript x) (st_status x) (ev_now ev CSettle)) (fst s)))"
      by (rule call_same [OF assms(2)]) (rule SettleAndComplete_same [OF w])
    show ?thesis
      using that c by (auto simp: settleAndComplete_def split: prod.splits sum.splits if_splits)
  qed
  have ak: "same_jobs (fst s) d1" if "ack w ev j (fst s) = (y, d1)" for y d1
    using that call_same [OF assms(2), of "fst s" "Ack (w_queue w) j (ev_now ev CAck)" CAck] assms(1) w
    by (auto simp: ack_def sqlite_worker_def Ack_same split: prod.splits sum.splits)
  show ?thesis
  proof (cases h)
    case (Inl herr)
    then show ?thesis using assms(4) fail_same [OF assms(1,2) w] by (simp add: conclude_def)
  next
    case (Inr so)
    show ?thesis
    proof (cases so)
      case None
      then show ?thesis using Inr assms(4) ak by (auto simp: conclude_def split: prod.splits)
    next
      case (Some x)
      obtain y d1 where y: "settleAndComplete ev j x (fst s) = (y, d1)" by fastforce
      show ?thesis
      proof (cases y)
        case (Inl serr)
        have "wf_jobs d1" using opRuns_wf [OF any.settleAndComplete_runs [OF y] assms(3)] by (rule wf_jobsI)
        then have "same_jobs d1 (fst s')"
          using fail_same [OF assms(1,2), of "(d1, snd s)"] assms(4) Inr Some y Inl by (simp add: conclude_def)
        then show ?thesis using same_jobs_trans st [OF y] by blast
      qed (use Inr Some y assms(4) st in \<open>auto simp: conclude_def\<close>)
    qed
  qed
qed

section \<open>The drain loop ends\<close>

text \<open>A delivered job was active before, and its attempt is one more than the table had.\<close>

context job_store
begin

lemma Dequeue_took:
  assumes "inv d" "q_store q = st" "Dequeue q ks now now' d = (Inr (Some (j, dead)), d')"
  shows "\<exists>s. state (j_ID j) d = Some (s, j_Attempts j - 1) \<and> s \<in> {JobPending, JobProcessing}"
proof -
  obtain r d1 where c: "sClaimJob st ks now (q_lease q) d = (r, d1)" by fastforce
  with assms(2,3) have "r = Inr j" by (auto simp: Dequeue_def split: sum.splits if_splits prod.splits)
  with claim_Inr [OF assms(1), of ks now "q_lease q" j d1] c show ?thesis by auto
qed

end

lemma Dequeue_same:
  assumes "q_store q = sqlite_jobs" "wf_jobs d" "Dequeue q ks now now' d = (r, d')"
  shows "same_jobs d d'"
proof -
  obtain x d1 where c: "sClaimJob sqlite_jobs ks now (q_lease q) d = (x, d1)" by fastforce
  have s1: "same_jobs d d1" using sqlite_same(1) [OF assms(2), of ks now "q_lease q"] c by simp
  have "wf_jobs d1"
    using sq.claim_Inl [OF assms(2)] sq.claim_Inr [OF assms(2)] c assms(2) by (cases x) blast+
  then have "same_jobs d1 (snd (sFailJob sqlite_jobs a b m t d1))" for a b m t by (rule sqlite_same(4))
  then have "same_jobs d (snd (sFailJob sqlite_jobs a b m t d1))" for a b m t by (rule same_jobs_trans [OF s1])
  then show ?thesis
    using assms(1,3) c s1 by (auto simp: Dequeue_def split: sum.splits if_splits prod.splits) (metis snd_conv)+
qed

lemma Dequeue_weight:
  assumes "sqlite_worker w" "wf_db d" "Dequeue (w_queue w) ks now now' d = (Inr (Some (j, dead)), d')"
  shows "weight (q_maxAttempts (w_queue w)) (job_state (j_ID j) d')
    < weight (q_maxAttempts (w_queue w)) (job_state (j_ID j) d)"
proof -
  note sqw = assms(1) [unfolded sqlite_worker_def] and wf = wf_jobsI [OF assms(2)]
  obtain s where s: "job_state (j_ID j) d = Some (s, j_Attempts j - 1)" "s \<in> {JobPending, JobProcessing}"
    using sq.Dequeue_took [OF wf sqw assms(3)] by blast
  show ?thesis
    using s sq.Dequeue_run [OF wf sqw, of ks now now' j d'] sq.Dequeue_dead [OF wf sqw, of ks now now' j d'] assms(3)
    by (cases dead) auto
qed

text \<open>The state of the table after the dequeue and after the rest of the pass.\<close>

lemma pass_parts:
  assumes "sqlite_worker w" "quiet ev" "wf_db (fst st)" "processOne w ev st = ((True, e), st')"
  shows "\<exists>j dead d1. Dequeue (w_queue w) [JobTranscribe] (ev_now ev CDequeue) (ev_now' ev CDequeue) (fst st)
      = (Inr (Some (j, dead)), d1) \<and> runs d1 (fst st') \<and> same_jobs d1 (fst st')"
proof -
  obtain x d1 where c: "call_store ev CDequeue (Dequeue (w_queue w) [JobTranscribe] (ev_now ev CDequeue)
      (ev_now' ev CDequeue)) (fst st) = (x, d1)" by fastforce
  with assms(4) obtain j dead where x: "x = Inr (Some (j, dead))"
    by (auto simp: processOne_def split: sum.splits option.splits)
  have dq: "Dequeue (w_queue w) [JobTranscribe] (ev_now ev CDequeue) (ev_now' ev CDequeue) (fst st)
      = (Inr (Some (j, dead)), d1)"
    using c x assms(2) by (simp add: call_store_def Let_def quiet_def split: if_splits)
  have wf1: "wf_db d1"
    using opRuns_wf [OF any.Dequeue_runs [OF assms(1) [unfolded sqlite_worker_def]] assms(3)] dq by (metis snd_conv)
  have "runs d1 (fst st') \<and> same_jobs d1 (fst st')"
  proof (cases dead)
    case True
    then show ?thesis using assms(4) c x by (auto simp: processOne_def any.markTranscript_runs mark_same [OF assms(2)])
  next
    case False
    obtain h d2 where h: "handle w ev j d1 = (h, d2)" by fastforce
    obtain e' s1 where co: "conclude w ev j h (d2, snd st) = (e', s1)" by (metis surj_pair)
    have s': "st' = s1" using assms(4) False c x h co by (simp add: processOne_def del: handle.simps)
    have wf2: "wf_db d2" by (rule opRuns_wf [OF any.handle_runs [OF h] wf1])
    have "runs d2 (fst s1)" using any.conclude_runs [OF assms(1) co] by simp
    moreover have "same_jobs d2 (fst s1)" using conclude_same [OF assms(1,2) _ co] wf2 by simp
    ultimately show ?thesis
      unfolding s' using opRuns_trans [OF any.handle_runs [OF h]] same_jobs_trans [OF handle_same [OF assms(2) h]] by blast
  qed
  with dq show ?thesis by blast
qed

lemma pass_lowers_potential:
  assumes "sqlite_worker w" "quiet ev" "wf_db (fst st)" "processOne w ev st = ((True, e), st')"
  shows "potential (q_maxAttempts (w_queue w)) (fst st') < potential (q_maxAttempts (w_queue w)) (fst st)"
proof -
  let ?m = "q_maxAttempts (w_queue w)"
  obtain j dead d1 where dq: "Dequeue (w_queue w) [JobTranscribe] (ev_now ev CDequeue) (ev_now' ev CDequeue) (fst st)
      = (Inr (Some (j, dead)), d1)" and r: "runs d1 (fst st')" and sm: "same_jobs d1 (fst st')"
    using pass_parts [OF assms] by blast
  note sqw = assms(1) [unfolded sqlite_worker_def]
  have r1: "runs (fst st) d1" using any.Dequeue_runs [OF sqw] dq by (metis snd_conv)
  have s1: "same_jobs (fst st) d1" by (rule Dequeue_same [OF sqw wf_jobsI [OF assms(3)] dq])
  have wf1: "wf_db d1" by (rule opRuns_wf [OF r1 assms(3)])
  have lt: "weight ?m (job_state (j_ID j) d1) < weight ?m (job_state (j_ID j) (fst st))"
    by (rule Dequeue_weight [OF assms(1,3) dq])
  have "weight ?m (job_state (j_ID j) (fst st')) \<le> weight ?m (job_state (j_ID j) d1)"
  proof (cases "job_state (j_ID j) d1")
    case None
    then have "job_state (j_ID j) (fst st') = None" using sm job_ids_state by (metis same_jobs_def)
    then show ?thesis by simp
  next
    case (Some p)
    then have "j_ID j \<in> job_ids d1" by (simp add: job_ids_state)
    with weight_le [OF runs_forward [OF r wf1]] show ?thesis by blast
  qed
  with lt have "weight ?m (job_state (j_ID j) (fst st')) < weight ?m (job_state (j_ID j) (fst st))" by simp
  with runs_forward [OF opRuns_trans [OF r1 r] assms(3)] same_jobs_trans [OF s1 sm]
  show ?thesis by (rule potential_less)
qed

text \<open>A pass that took nothing found nothing to take.\<close>

lemma idle_dequeue:
  assumes "q_store q = sqlite_jobs" "wf_jobs d" "Dequeue q ks now now' d = (x, d')" "\<forall>j dead. x \<noteq> Inr (Some (j, dead))"
  shows "select_runnable ks now d = None \<and> d' = d"
proof (cases "select_runnable ks now d")
  case None
  then show ?thesis using assms(1,3) by (auto simp: Dequeue_def sqlite_jobs_def ClaimJob_eq [OF assms(2)] split: if_splits)
next
  case (Some r)
  then obtain j d1 where c: "sClaimJob sqlite_jobs ks now (q_lease q) d = (Inr j, d1)"
    by (simp add: sqlite_jobs_def ClaimJob_eq [OF assms(2)])
  from sq.claim_Inr [OF assms(2) c] have wf1: "wf_jobs d1" and l: "job_state (j_ID j) d1 = Some (JobProcessing, j_Attempts j)"
    by auto
  obtain d2 where "sFailJob sqlite_jobs (j_ID j) (j_Attempts j) ''dbqueue: exceeded max attempts'' now' d1 = (Inr (), d2)"
    using sq.fail_live [OF wf1 l] by blast
  with c assms(1,3,4) show ?thesis by (auto simp: Dequeue_def split: if_splits)
qed

lemma idle_pass:
  assumes "sqlite_worker w" "wf_db (fst st)" "quiet ev" "\<not> ev_fault ev CDequeue" "processOne w ev st = ((False, e), st')"
  shows "select_runnable [JobTranscribe] (ev_now ev CDequeue) (fst st) = None \<and> st' = st"
proof -
  obtain x d1 where dq: "Dequeue (w_queue w) [JobTranscribe] (ev_now ev CDequeue) (ev_now' ev CDequeue) (fst st) = (x, d1)"
    by fastforce
  have c: "call_store ev CDequeue (Dequeue (w_queue w) [JobTranscribe] (ev_now ev CDequeue) (ev_now' ev CDequeue)) (fst st)
      = (x, d1)"
    using dq assms(3,4) by (simp add: call_store_ok quiet_def)
  have n: "x \<noteq> Inr (Some (j, dead))" for j dead
    using c assms(5) by (cases dead) (auto simp: processOne_def split: prod.splits)
  with idle_dequeue [OF assms(1) [unfolded sqlite_worker_def] wf_jobsI [OF assms(2)] dq]
  have "select_runnable [JobTranscribe] (ev_now ev CDequeue) (fst st) = None" "d1 = fst st" by auto
  then show ?thesis
    using c n assms(5) by (cases st) (auto simp: processOne_def split: sum.splits option.splits)
qed



section \<open>The polling loop\<close>

text \<open>
  \<open>loop\<close>: a drain, then a wait for the ticker or the end of the context.  A round is the
  passes of its drain and whether the wait ended with the context; the result is
  \<open>ErrWorkerClosed\<close> when the loop has returned, and \<open>None\<close> while it is waiting.
\<close>

datatype worker_end = ErrWorkerClosed

fun workerLoop :: "Worker \<Rightarrow> (env option list \<times> bool) list \<Rightarrow> 'w wstate \<Rightarrow> worker_end option \<times> 'w wstate" where
  "workerLoop w [] st = (None, st)"
| "workerLoop w ((evs, cancelled) # rounds) st =
     (let (drained, st') = drain w evs st
      in if \<not> drained \<or> cancelled then (Some ErrWorkerClosed, st') else workerLoop w rounds st')"

lemma drain_runs: "sqlite_worker w \<Longrightarrow> runs (fst st) (fst (snd (drain w evs st)))"
proof (induction evs arbitrary: st)
  case (Cons x evs)
  show ?case
  proof (cases x)
    case (Some ev)
    obtain pr e st' where p: "processOne w ev st = ((pr, e), st')" by (metis surj_pair)
    show ?thesis
      using Some p any.processOne_runs [OF Cons.prems p] Cons.IH [OF Cons.prems, of st'] by (auto intro: opRuns_trans)
  qed simp
qed simp

text \<open>
  However it is ticked and whenever it is cancelled, the loop only runs store operations, so the
  schema holds throughout and no job that was settled becomes active again.
\<close>

theorem worker_loop_safe:
  assumes "sqlite_worker w" "wf_db (fst st)"
  shows "wf_db (fst (snd (workerLoop w rounds st))) \<and> jobs_forward (fst st) (fst (snd (workerLoop w rounds st)))"
proof -
  have "runs (fst st) (fst (snd (workerLoop w rounds st)))"
    using assms(1)
  proof (induction rounds arbitrary: st)
    case (Cons x rounds)
    obtain evs cancelled where x: "x = (evs, cancelled)" by fastforce
    obtain b st' where d: "drain w evs st = (b, st')" by (metis surj_pair)
    show ?case
      using x d drain_runs [OF Cons.prems, of st evs] Cons.IH [OF Cons.prems, of st'] by (auto intro: opRuns_trans)
  qed simp
  then show ?thesis using opRuns_wf runs_forward assms(2) by blast
qed

lemma worker_loop_safe_witness:
  "wf_db (fst (snd (workerLoop ex_worker [([Some (ex_env Unsupported)], True)]
     (ex_db TranscriptPending JobPending 0 0, emptyRegistry :: unit Registry))))"
  using worker_loop_safe [OF ex_sqlite_worker, of "(ex_db TranscriptPending JobPending 0 0, emptyRegistry :: unit Registry)"]
  by (simp only: ex_wf fst_conv)

end
