(* ===== verification/WorkerSuccess.thy ===== *)
theory WorkerSuccess
  imports WorkerProgress
begin

text \<open>
  The other direction of \<open>success_sound\<close>: a pass of the worker over a due job whose media opens
  and whose transcription succeeds does complete it, when no store call fails and nothing else
  writes meanwhile.
\<close>

section \<open>The steps of a pass that succeeds\<close>

lemma quiet_call: "quiet ev \<Longrightarrow> \<not> ev_fault ev c \<Longrightarrow> call_store ev c op d = op d"
  by (simp add: call_store_ok quiet_def)

lemma Dequeue_takes:
  assumes "q_store q = sqlite_jobs" "wf_db d" "select_runnable ks now d = Some r" "jr_attempts r < q_maxAttempts q"
  shows "\<exists>d'. Dequeue q ks now now' d = (Inr (Some (leased_job now (q_lease q) (scanJob r), False)), d') \<and> wf_db d'
    \<and> claimed (jr_id r) (jr_attempts r + 1) d' \<and> episodes d' = episodes d"
proof -
  note w = wf_jobsI [OF assms(2)]
  let ?d = "d\<lparr>jobs := upd_where (\<lambda>x. jr_id x = jr_id r) (leased_row now (q_lease q)) (jobs d)\<rparr>"
  have c: "ClaimJob ks now (q_lease q) d = (Inr (leased_job now (q_lease q) (scanJob r)), ?d)"
    by (simp add: ClaimJob_eq [OF w] assms(3))
  have "Dequeue q ks now now' d = (Inr (Some (leased_job now (q_lease q) (scanJob r), False)), ?d)"
    using assms(1,4) c by (simp add: Dequeue_def sqlite_jobs_def leased_job_def scanJob_def)
  moreover have "wf_db ?d" using ClaimJob_wf [OF assms(2), of ks now "q_lease q"] c by simp
  moreover have "claimed (jr_id r) (jr_attempts r + 1) ?d"
    using job_state_leased [OF w select_runnable_Some(1) [OF assms(3)]] by (simp add: claimed_def)
  ultimately show ?thesis by auto
qed

text \<open>A progress mark keeps the claim and the set of episodes.\<close>

lemma progress_mark_keeps:
  assumes "wf_db d"
  shows "jobs (snd (SettleEpisodeTranscript a n e None st t d)) = jobs d"
    and "er_id ` set (episodes (snd (SettleEpisodeTranscript a n e None st t d))) = er_id ` set (episodes d)"
    and "wf_db (snd (SettleEpisodeTranscript a n e None st t d))"
  using SettleEpisodeTranscript_wf [OF assms]
  by (auto simp: SettleEpisodeTranscript_def with_tx_def save_and_mark_def setEpisodeStatusTx_def
      image_upd_where set_status_cols_def)

definition marshals :: "segment list \<Rightarrow> bool" where "marshals segs \<longleftrightarrow> marshalSegments segs \<noteq> None"

lemma upsert_transcript_succeeds:
  assumes "t_EpisodeID tr \<in> er_id ` set (episodes d)" "marshals (t_Segments tr)"
  shows "\<exists>d'. upsert_transcript tr d = Inr d'"
proof -
  have "list_ex (\<lambda>r. er_id r = t_EpisodeID tr) (episodes d)" using assms(1) by (auto simp: list_ex_iff)
  then show ?thesis using assms(2) by (auto simp: upsert_transcript_def marshals_def Let_def)
qed

lemma SettleAndComplete_succeeds:
  assumes "wf_db d" "claimed jid n d" "t_EpisodeID tr \<in> er_id ` set (episodes d)" "marshals (t_Segments tr)"
  shows "\<exists>d'. SettleEpisodeTranscriptAndCompleteJob jid n eid (Some tr) st t d = (Inr (), d')"
proof -
  let ?d = "d\<lparr>jobs := upd_where (claim_hit jid n) (\<lambda>r. r\<lparr>jr_status := JobDone, jr_last_error := [], jr_updated_at := toUnix t\<rparr>) (jobs d)\<rparr>"
  have "\<not> count_where (claim_hit jid n) (jobs d) = 0" using claimed_count [OF wf_jobsI [OF assms(1)]] assms(2) by blast
  moreover obtain d1 where "upsert_transcript tr ?d = Inr d1"
    using upsert_transcript_succeeds [of tr ?d] assms(3,4) by auto
  ultimately show ?thesis
    by (simp add: SettleEpisodeTranscriptAndCompleteJob_def with_tx_def Let_def save_and_mark_def)
qed

lemma EpisodeByID_SomeD: "EpisodeByID eid d = Inr ep \<Longrightarrow> e_ID ep = eid \<and> eid \<in> er_id ` set (episodes d)"
  by (auto simp: EpisodeByID_def episodeWhere_def scanEpisode_def split: option.splits dest!: find_SomeD)

lemma EpisodeByID_cong: "episodes d' = episodes d \<Longrightarrow> EpisodeByID eid d' = EpisodeByID eid d"
  by (simp add: EpisodeByID_def episodeWhere_def)

section \<open>The pass\<close>

text \<open>The transcriber, given the media of the episode within its deadline, returns a transcript.\<close>

definition transcribes :: "Worker \<Rightarrow> env \<Rightarrow> episode \<Rightarrow> string \<Rightarrow> segment list \<Rightarrow> bool" where
  "transcribes w ev ep lang segs \<longleftrightarrow> ev_get ev (e_MediaKey ep) \<and> marshals segs
     \<and> ev_transcriber ev \<lparr>ti_Audio = e_MediaKey ep, ti_MIME = e_MediaMIME ep, ti_Filename = e_ID ep,
         ti_Language = e_Language ep\<rparr> (jobTimeout (ev_conv ev) (w_jobTimeout w) (e_DurationSecs ep)) = Transcribed lang segs"

lemma handle_settlement:
  assumes "quiet ev" "\<not> ev_fault ev CLoad" "wf_db d" "claimed (j_ID j) (j_Attempts j) d"
    and "j_Kind j = JobTranscribe" "j_Payload j = TranscribePayload eid" "EpisodeByID eid d = Inr ep"
    and "transcribes w ev ep lang segs"
  shows "\<exists>d'. handle w ev j d = (Inr (Some \<lparr>st_ep = ep, st_transcript = Some \<lparr>t_EpisodeID = eid, t_Language = lang,
        t_Segments = segs, t_CreatedAt = ev_now' ev CProgress\<rparr>, st_status = TranscriptDone\<rparr>), d')
    \<and> wf_db d' \<and> claimed (j_ID j) (j_Attempts j) d' \<and> eid \<in> er_id ` set (episodes d')"
proof -
  let ?d = "snd (call_store ev CProgress (SettleEpisodeTranscript (j_ID j) (j_Attempts j) (e_ID ep) None
      TranscriptProcessing (ev_now ev CProgress)) d)"
  note e = EpisodeByID_SomeD [OF assms(7)]
  have "jobs ?d = jobs d \<and> er_id ` set (episodes ?d) = er_id ` set (episodes d) \<and> wf_db ?d"
    using progress_mark_keeps [OF assms(3)] assms(1,3) by (simp add: call_store_def Let_def quiet_def)
  then have "wf_db ?d \<and> claimed (j_ID j) (j_Attempts j) ?d \<and> eid \<in> er_id ` set (episodes ?d)"
    using assms(4) e by (simp add: claimed_def job_state_def)
  moreover have "handle w ev j d = (Inr (Some \<lparr>st_ep = ep, st_transcript = Some \<lparr>t_EpisodeID = eid, t_Language = lang,
        t_Segments = segs, t_CreatedAt = ev_now' ev CProgress\<rparr>, st_status = TranscriptDone\<rparr>), ?d)"
    using assms(5-8) e by (simp add: transcribe_def quiet_call [OF assms(1,2)] transcribes_def Let_def)
  ultimately show ?thesis by blast
qed

lemma due_job_completes:
  assumes "sqlite_worker w" "quiet ev" "wf_db (fst s)" "\<forall>c \<in> {CDequeue, CLoad, CSettle}. \<not> ev_fault ev c"
    and "select_runnable [JobTranscribe] (ev_now ev CDequeue) (fst s) = Some r"
    and "jr_attempts r < q_maxAttempts (w_queue w)" "jr_payload r = TranscribePayload eid"
    and "EpisodeByID eid (fst s) = Inr ep" "transcribes w ev ep lang segs"
  shows "\<exists>s'. processOne w ev s = ((True, None), s')
    \<and> job_state (jr_id r) (fst s') = Some (JobDone, jr_attempts r + 1)
    \<and> TranscriptByEpisode eid (fst s') = Inr \<lparr>t_EpisodeID = eid, t_Language = lang, t_Segments = segs,
        t_CreatedAt = fromUnix (toUnix (ev_now' ev CProgress))\<rparr>
    \<and> (\<exists>ep'. EpisodeByID eid (fst s') = Inr ep' \<and> e_TranscriptStatus ep' = TranscriptDone)
    \<and> successes (snd s') = successes (snd s) + 1"
proof -
  let ?t = "ev_now ev CDequeue" and ?e = "ev_now' ev CDequeue"
  let ?j = "leased_job ?t (q_lease (w_queue w)) (scanJob r)"
  let ?tr = "\<lparr>t_EpisodeID = eid, t_Language = lang, t_Segments = segs, t_CreatedAt = ev_now' ev CProgress\<rparr>"
  let ?st = "\<lparr>st_ep = ep, st_transcript = Some ?tr, st_status = TranscriptDone\<rparr>"
  have j: "j_ID ?j = jr_id r" "j_Attempts ?j = jr_attempts r + 1" "j_Payload ?j = TranscribePayload eid" "j_Kind ?j = JobTranscribe"
    using select_runnable_Some(3) [OF assms(5)] assms(7) by (simp_all add: leased_job_def scanJob_def kind_match_def)
  obtain d1 where dq: "Dequeue (w_queue w) [JobTranscribe] ?t ?e (fst s) = (Inr (Some (?j, False)), d1)"
    and d1: "wf_db d1" "claimed (j_ID ?j) (j_Attempts ?j) d1" "episodes d1 = episodes (fst s)"
    using Dequeue_takes [OF assms(1) [unfolded sqlite_worker_def] assms(3,5,6), of ?e] unfolding j by blast
  have ep: "EpisodeByID eid d1 = Inr ep" using EpisodeByID_cong [OF d1(3)] assms(8) by simp
  obtain d2 where h: "handle w ev ?j d1 = (Inr (Some ?st), d2)"
    and d2: "wf_db d2" "claimed (jr_id r) (jr_attempts r + 1) d2" "eid \<in> er_id ` set (episodes d2)"
    using handle_settlement [OF assms(2) _ d1(1,2) j(4,3) ep assms(9)] assms(4) unfolding j by blast
  have "t_EpisodeID ?tr \<in> er_id ` set (episodes d2)" "marshals (t_Segments ?tr)"
    using d2(3) assms(9) by (simp_all add: transcribes_def)
  then obtain d3 where sc: "SettleEpisodeTranscriptAndCompleteJob (jr_id r) (jr_attempts r + 1) eid (Some ?tr) TranscriptDone
      (ev_now ev CSettle) d2 = (Inr (), d3)"
    using SettleAndComplete_succeeds [OF d2(1,2)] by blast
  have "settleAndComplete ev ?j ?st d2 = (Inr True, d3)"
    using sc j assms(4) EpisodeByID_SomeD [OF assms(8)] by (simp add: settleAndComplete_def quiet_call [OF assms(2)])
  then have "processOne w ev s = ((True, None), d3, countOutcome ev ?st (snd s))"
    using dq h assms(4) by (simp add: processOne_def quiet_call [OF assms(2)] conclude_def del: handle.simps)
  moreover have "successes (countOutcome ev ?st (snd s)) = successes (snd s) + 1"
    by (simp add: countOutcome_def successes_Inc)
  ultimately show ?thesis using settled_episode [OF sc d2(1)] by simp
qed



end
