(* ===== verification/Publication.thy ===== *)
theory Publication
  imports AdminGuarantees Feed WorkerSuccess
begin

text \<open>
  Across the components: what an owner uploads and publishes is what the feed offers, the media
  endpoint streams, and with what the worker made of it the public page shows.
\<close>

lemma published_listed:
  assumes "EpisodeByID eid d = Inr ep" "e_Status ep = EpisodePublished" "e_ChannelID ep = cid"
  shows "ep \<in> set (ListEpisodes (publishedOf cid) d)"
proof -
  obtain r where "r \<in> set (episodes d)" "ep = scanEpisode r"
    using assms(1) by (auto simp: EpisodeByID_def dest!: episodeWhere_Inr)
  then show ?thesis
    using assms(2,3) by (auto simp: ListEpisodes_def Let_def publishedOf_def filter_match_def scanEpisode_def)
qed

section \<open>What a worker leaves of an episode\<close>

text \<open>A row but for what the worker writes into it.\<close>

definition bare :: "episode_row \<Rightarrow> episode_row" where
  "bare = set_status_cols TranscriptNone 0"

lemma bare_upd: "map bare (upd_where c (set_status_cols st t) rs) = map bare rs"
  by (simp add: upd_where_def bare_def set_status_cols_def)

lemma worker_keeps:
  assumes "worker_op op"
  shows "map bare (episodes (snd (exec op d))) = map bare (episodes d) \<and> channels (snd (exec op d)) = channels d"
proof -
  have "map bare (episodes d') = map bare (episodes d) \<and> channels d' = channels d"
    if "save_and_mark tr eid st t d = Inr d'" for tr eid st t d d'
    using that by (auto simp: save_and_mark_def setEpisodeStatusTx_def upsert_transcript_def bare_upd Let_def
        split: option.splits if_splits)
  then show ?thesis
    using assms
    by (cases op) (auto simp: ClaimJob_def CompleteJob_def RescheduleJob_def FailJob_def setJobStatus_def
        SettleEpisodeTranscript_def SettleEpisodeTranscriptAndCompleteJob_def with_tx_def Let_def
        split: option.splits sum.splits if_splits)
qed

lemma pass_keeps:
  assumes "sqlite_worker w" "quiet ev" "processOne w ev st = (x, st')"
  shows "map bare (episodes (fst st')) = map bare (episodes (fst st)) \<and> channels (fst st') = channels (fst st)"
proof -
  have p: "pass_of worker_op ev" using assms(2) by unfold_locales (simp_all add: quiet_def)
  have "list_all worker_op ops \<Longrightarrow> map bare (episodes (exec_all ops d)) = map bare (episodes d) \<and> channels (exec_all ops d) = channels d" for ops d
    by (induction ops arbitrary: d) (simp_all add: worker_keeps)
  then show ?thesis using pass_of.processOne_runs [OF p assms(1,3)] by (auto simp: opRuns_def)
qed

lemma bare_fields:
  "bare r' = bare r \<Longrightarrow> er_id r' = er_id r \<and> er_channel_id r' = er_channel_id r \<and> er_title r' = er_title r
     \<and> er_media_key r' = er_media_key r \<and> er_media_bytes r' = er_media_bytes r \<and> er_status r' = er_status r"
  by (cases r; cases r') (simp add: bare_def set_status_cols_def)

lemma find_bare:
  "map bare rs' = map bare rs \<Longrightarrow> find (\<lambda>r. er_id r = eid) rs = Some r
     \<Longrightarrow> \<exists>r'. find (\<lambda>r. er_id r = eid) rs' = Some r' \<and> bare r' = bare r"
proof (induction rs arbitrary: rs')
  case (Cons a rs)
  then obtain b bs where "rs' = b # bs" "bare b = bare a" "map bare bs = map bare rs" by (cases rs') auto
  with Cons bare_fields [of b a] show ?case by (auto split: if_splits)
qed simp

lemma EpisodeByID_bare:
  assumes "map bare (episodes d') = map bare (episodes d)" "EpisodeByID eid d = Inr ep" "EpisodeByID eid d' = Inr ep'"
  shows "e_ChannelID ep' = e_ChannelID ep \<and> e_Title ep' = e_Title ep \<and> e_MediaKey ep' = e_MediaKey ep
    \<and> e_MediaBytes ep' = e_MediaBytes ep"
proof -
  obtain r where r: "find (\<lambda>r. er_id r = eid) (episodes d) = Some r" "ep = scanEpisode r"
    using assms(2) by (auto simp: EpisodeByID_def episodeWhere_def split: option.splits)
  obtain r' where "find (\<lambda>r. er_id r = eid) (episodes d') = Some r'" "bare r' = bare r"
    using find_bare [OF assms(1) r(1)] by blast
  then show ?thesis using assms(3) r(2) bare_fields [of r' r] by (auto simp: EpisodeByID_def episodeWhere_def scanEpisode_def)
qed

section \<open>What publishing gives\<close>

lemma publish_keeps:
  assumes "alone env" "setEpisodePublished publish env usr r d = (v, d')"
  shows "channels d' = channels d \<and> transcripts d' = transcripts d"
proof -
  have "snd (ownedEpisode env usr eid d) = d" for eid d
    by (auto simp: ownedEpisode_def ownedChannel_def adm_alone [OF assms(1)] split: sum.split prod.split)
  then have o: "ownedEpisode env usr eid d = (y, d1) \<Longrightarrow> d1 = d" for eid d y d1 by (metis snd_conv)
  show ?thesis
    using assms(2) by (auto simp: setEpisodePublished_def withOwnedEpisode_def adm_alone [OF assms(1)] SetEpisodePublication_def
        update_episode_def Let_def split: prod.splits sum.splits option.splits if_splits dest!: o)
qed

text \<open>An episode with its channel, media and transcript in place, once its owner publishes it.\<close>

lemma published_reaches:
  assumes "alone env" "ad_fault env = (\<lambda>_. False)" "parseSmallForm r = (None, r1)" "rq_PathID r = eid"
    and "handleEpisodePublish env usr r d = (v, d2)"
    and "EpisodeByID eid d = Inr ep" "ChannelByID (e_ChannelID ep) d = Inr ch" "c_UserID ch = u_ID usr" "e_ChannelID ep = c_ID ch"
    and "me_blobs menv (e_MediaKey ep) = Some bytes" "me_direct menv = None" "me_fault menv = (\<lambda>_. False)"
      "\<not> me_getFault menv (e_MediaKey ep)"
  shows "(\<exists>x \<in> set (rs_Items (Build fmtDate baseURL ch (ListEpisodes (publishedOf (c_ID ch)) d2))).
        en_URL (it_Enclosure x) = trimRightSlash baseURL @ ''/media/'' @ e_MediaKey ep
      \<and> en_Length (it_Enclosure x) = e_MediaBytes ep \<and> it_Title x = e_Title ep)"
    and "\<exists>ct. handleMedia menv (e_MediaKey ep) d2 = MediaStream ct True True bytes"
    and "e_TranscriptStatus ep = TranscriptDone \<Longrightarrow> TranscriptByEpisode eid d = Inr tr \<Longrightarrow>
      \<exists>ep2. handleEpisode menv eid d2 = EpisodePage ch ep2 (''/media/'' @ e_MediaKey ep) (t_Segments tr)"
proof -
  have pub: "setEpisodePublished True env usr r d = (v, d2)" using assms(5) by (simp add: handleEpisodePublish_def)
  from publication_toggle [OF assms(1-3) _ assms(7,8) pub] assms(4,6)
  obtain ep2 where ep2: "EpisodeByID eid d2 = Inr ep2" "e_Status ep2 = EpisodePublished" "e_ChannelID ep2 = c_ID ch"
      "e_Title ep2 = e_Title ep" "e_MediaKey ep2 = e_MediaKey ep" "e_MediaBytes ep2 = e_MediaBytes ep"
      "e_TranscriptStatus ep2 = e_TranscriptStatus ep"
    using assms(9) by auto
  have l: "ep2 \<in> set (ListEpisodes (publishedOf (c_ID ch)) d2)" by (rule published_listed [OF ep2(1-3)])
  then have "buildItem fmtDate (trimRightSlash baseURL) ep2
      \<in> set (rs_Items (Build fmtDate baseURL ch (ListEpisodes (publishedOf (c_ID ch)) d2)))"
    by (simp add: Build_def Let_def)
  then show "\<exists>x \<in> set (rs_Items (Build fmtDate baseURL ch (ListEpisodes (publishedOf (c_ID ch)) d2))).
        en_URL (it_Enclosure x) = trimRightSlash baseURL @ ''/media/'' @ e_MediaKey ep
      \<and> en_Length (it_Enclosure x) = e_MediaBytes ep \<and> it_Title x = e_Title ep"
    by (rule rev_bexI) (simp add: buildItem_def ep2)
  have "\<exists>ct. handleMedia menv (e_MediaKey ep2) d2 = MediaStream ct True True bytes"
    by (rule enclosures_resolve [OF l]) (use assms(10-13) ep2(5) in simp_all)
  then show "\<exists>ct. handleMedia menv (e_MediaKey ep) d2 = MediaStream ct True True bytes" by (simp add: ep2(5))
  have k: "channels d2 = channels d" "transcripts d2 = transcripts d" using publish_keeps [OF assms(1) pub] by simp_all
  have ch2: "ChannelByID (c_ID ch) d2 = Inr ch" using assms(7,9) by (simp add: ChannelByID_def channelWhere_def k(1))
  have tr2: "TranscriptByEpisode eid d2 = TranscriptByEpisode eid d" by (simp add: TranscriptByEpisode_def k(2))
  have id: "e_ID ep2 = eid" using EpisodeByID_SomeD [OF ep2(1)] by simp
  show "e_TranscriptStatus ep = TranscriptDone \<Longrightarrow> TranscriptByEpisode eid d = Inr tr \<Longrightarrow>
      \<exists>ep2. handleEpisode menv eid d2 = EpisodePage ch ep2 (''/media/'' @ e_MediaKey ep) (t_Segments tr)"
    by (simp add: handleEpisode_def storeRead_def assms(12) ep2 ch2 tr2 id)
qed

text \<open>
  An accepted upload that its owner then publishes reaches the listeners: the feed of the
  channel has an item whose enclosure names the media with its size, and the media endpoint
  streams exactly the uploaded bytes under that name.
\<close>

theorem upload_reaches_listeners:
  assumes "alone env" "wf_db (si_db s)" "ad_fault env = (\<lambda>_. False)" "ad_elapsed env < UploadProtectWindow"
    and "staged_upload env usr q s ch up bytes"
    and "\<not> ad_reserveFails env 0" "\<not> leased (su_mediaKey up) (ad_reserveNow env 0) (si_db s)"
    and "ad_newID env \<notin> er_id ` set (episodes (si_db s))" "ad_jobID env \<notin> jr_id ` set (jobs (si_db s))"
    and "handleEpisodeCreate env usr q s = (v, s1)"
    and "alone env'" "ad_fault env' = (\<lambda>_. False)" "parseSmallForm r = (None, r1)" "rq_PathID r = ad_newID env"
    and "handleEpisodePublish env' usr r (si_db s1) = (v', d2)"
    and "me_blobs menv = si_blobs s1" "me_direct menv = None" "me_fault menv = (\<lambda>_. False)" "\<not> me_getFault menv (su_mediaKey up)"
  shows "(\<exists>x \<in> set (rs_Items (Build fmtDate baseURL ch (ListEpisodes (publishedOf (c_ID ch)) d2))).
        en_URL (it_Enclosure x) = trimRightSlash baseURL @ ''/media/'' @ su_mediaKey up
      \<and> en_Length (it_Enclosure x) = int (length bytes) \<and> it_Title x = staged_field up fieldTitle)
    \<and> (\<exists>ct. handleMedia menv (su_mediaKey up) d2 = MediaStream ct True True bytes)"
proof -
  from upload_effect [OF assms(1-10)] obtain ep where up: "EpisodeByID (ad_newID env) (si_db s1) = Inr ep"
      "e_ChannelID ep = c_ID ch" "e_Title ep = staged_field up fieldTitle" "e_MediaKey ep = su_mediaKey up"
      "e_MediaBytes ep = int (length bytes)"
    and ch: "ChannelByID (e_ChannelID ep) (si_db s1) = Inr ch" "c_UserID ch = u_ID usr"
    and blob: "si_blobs s1 (su_mediaKey up) = Some bytes"
    by auto
  note p = published_reaches [OF assms(11-15) up(1) ch up(2), of menv bytes]
  show ?thesis using p(1,2) blob assms(16-19) by (simp add: up)
qed

lemma upload_reaches_listeners_witness:
  "\<exists>d2 ct. d2 = snd (handleEpisodePublish (ex_adminenv (\<lambda>_. False)) ex_owner (ex_action ''n'' [])
       (si_db (snd (handleEpisodeCreate (ex_adminenv (\<lambda>_. False)) ex_owner ex_upload ex_site))))
     \<and> (\<exists>bytes. handleMedia \<lparr>me_blobs = si_blobs (snd (handleEpisodeCreate (ex_adminenv (\<lambda>_. False)) ex_owner ex_upload ex_site)),
          me_getFault = (\<lambda>_. False), me_sniff = (\<lambda>_. []), me_direct = None, me_fault = (\<lambda>_. False)\<rparr> ''hxy'' d2 = MediaStream ct True True bytes)"
proof -
  let ?e = "ex_adminenv (\<lambda>_. False)" and ?r = "ex_action ''n'' []"
  obtain v s1 where h: "handleEpisodeCreate ?e ex_owner ex_upload ex_site = (v, s1)" by fastforce
  obtain v' d2 where p: "handleEpisodePublish ?e ex_owner ?r (si_db s1) = (v', d2)" by fastforce
  let ?m = "\<lparr>me_blobs = si_blobs s1, me_getFault = (\<lambda>_. False), me_sniff = (\<lambda>_. []), me_direct = None, me_fault = (\<lambda>_. False)\<rparr> :: mediaenv"
  have f: "ad_fault ?e = (\<lambda>_. False)" "ad_elapsed ?e < UploadProtectWindow" "\<not> ad_reserveFails ?e 0"
    "ad_newID ?e = ''n''" "ad_jobID ?e = ''i''"
    by (simp_all add: ex_adminenv_def units)
  from upload_reaches_listeners [OF ex_alone ex_site_wf f(1,2) ex_upload_staged f(3) ex_fresh(3) _ _ h ex_alone f(1)
      ex_action_parse(1) _ p, of ?m "\<lambda>_. []" "[]"] ex_fresh f ex_action_parse(2) h p
  show ?thesis by auto
qed

text \<open>
  C8: From the upload to the audience: an accepted upload whose job the worker then takes and
  whose owner then publishes it reaches the listeners and the readers.  The feed of the channel has
  an item whose enclosure names the media with its size, the media endpoint streams exactly the
  uploaded bytes under that name, and the public page of the episode shows the transcript that the
  transcriber returned.
\<close>

theorem upload_reaches_audience:
  assumes "alone env" "wf_db (si_db s)" "ad_fault env = (\<lambda>_. False)" "ad_elapsed env < UploadProtectWindow"
    and "staged_upload env usr q s ch up bytes"
    and "\<not> ad_reserveFails env 0" "\<not> leased (su_mediaKey up) (ad_reserveNow env 0) (si_db s)"
    and "ad_newID env \<notin> er_id ` set (episodes (si_db s))" "ad_jobID env \<notin> jr_id ` set (jobs (si_db s))"
    and "handleEpisodeCreate env usr q s = (v, s1)"
    and "sqlite_worker w" "quiet ev" "\<forall>c \<in> {CDequeue, CLoad, CSettle}. \<not> ev_fault ev c" "0 < q_maxAttempts (w_queue w)"
    and "select_runnable [JobTranscribe] (ev_now ev CDequeue) (si_db s1) = Some jr" "jr_id jr = ad_jobID env"
    and "\<forall>ep. e_MediaKey ep = su_mediaKey up \<longrightarrow> transcribes w ev ep lang segs"
    and "processOne w ev (si_db s1, reg) = (x, d1, reg1)"
    and "alone env'" "ad_fault env' = (\<lambda>_. False)" "parseSmallForm r = (None, r1)" "rq_PathID r = ad_newID env"
    and "handleEpisodePublish env' usr r d1 = (v', d2)"
    and "me_blobs menv = si_blobs s1" "me_direct menv = None" "me_fault menv = (\<lambda>_. False)" "\<not> me_getFault menv (su_mediaKey up)"
  shows "(\<exists>x \<in> set (rs_Items (Build fmtDate baseURL ch (ListEpisodes (publishedOf (c_ID ch)) d2))).
        en_URL (it_Enclosure x) = trimRightSlash baseURL @ ''/media/'' @ su_mediaKey up
      \<and> en_Length (it_Enclosure x) = int (length bytes) \<and> it_Title x = staged_field up fieldTitle)
    \<and> (\<exists>ct. handleMedia menv (su_mediaKey up) d2 = MediaStream ct True True bytes)
    \<and> (\<exists>ep. handleEpisode menv (ad_newID env) d2 = EpisodePage ch ep (''/media/'' @ su_mediaKey up) segs)"
proof -
  from upload_effect [OF assms(1-10)] obtain ep where ep: "EpisodeByID (ad_newID env) (si_db s1) = Inr ep"
      "e_ChannelID ep = c_ID ch" "e_Title ep = staged_field up fieldTitle" "e_MediaKey ep = su_mediaKey up"
      "e_MediaBytes ep = int (length bytes)"
    and ch: "ChannelByID (c_ID ch) (si_db s1) = Inr ch" "c_UserID ch = u_ID usr"
    and blob: "si_blobs s1 (su_mediaKey up) = Some bytes"
    and job: "jobs (si_db s1) = jobs (si_db s)
      @ [job_to_row (new_job JobTranscribe (TranscribePayload (ad_newID env)) (ad_jobID env) (ad_now env AEnqueue))]"
    by auto
  have wf: "wf_db (si_db s1)"
    using keeps_handleEpisodeCreate [OF assms(1,2), of usr q] assms(10) by (simp add: keeps_def)
  have "jr \<in> set (jobs (si_db s1))" using select_runnable_Some(1) [OF assms(15)] .
  then have jr: "jr_payload jr = TranscribePayload (ad_newID env)" "jr_attempts jr = 0"
    using assms(9,16) by (auto simp: job job_to_row_def new_job_def image_iff)
  have "transcribes w ev ep lang segs" using assms(17) ep(4) by blast
  from due_job_completes [OF assms(11,12), of "(si_db s1, reg)" jr "ad_newID env" ep lang segs] this wf assms(13-15) jr ep(1)
  obtain ep1 where tr: "TranscriptByEpisode (ad_newID env) d1 = Inr \<lparr>t_EpisodeID = ad_newID env, t_Language = lang,
        t_Segments = segs, t_CreatedAt = fromUnix (toUnix (ev_now' ev CProgress))\<rparr>"
      and ep1: "EpisodeByID (ad_newID env) d1 = Inr ep1" "e_TranscriptStatus ep1 = TranscriptDone"
    using assms(18) by auto
  have k: "map bare (episodes d1) = map bare (episodes (si_db s1))" "channels d1 = channels (si_db s1)"
    using pass_keeps [OF assms(11,12,18)] by simp_all
  have same: "e_ChannelID ep1 = c_ID ch" "e_Title ep1 = staged_field up fieldTitle" "e_MediaKey ep1 = su_mediaKey up"
    "e_MediaBytes ep1 = int (length bytes)"
    using EpisodeByID_bare [OF k(1) ep(1) ep1(1)] ep by simp_all
  have "ChannelByID (e_ChannelID ep1) d1 = Inr ch" using ch(1) by (simp add: same ChannelByID_def channelWhere_def k(2))
  note p = published_reaches [OF assms(19-23) ep1(1) this ch(2) same(1), of menv bytes]
  show ?thesis using p(1,2) p(3) [OF _ _ _ _ ep1(2) tr] blob assms(24-27) by (simp add: same)
qed

text \<open>The upload of the concrete installation, transcribed at once and then published.\<close>

lemma upload_reaches_audience_witness:
  "\<exists>s1 d1 d2 menv ep. s1 = snd (handleEpisodeCreate (ex_adminenv (\<lambda>_. False)) ex_owner ex_upload ex_site)
     \<and> d1 = fst (snd (processOne ex_worker (ex_env (Transcribed ''en'' [])) (si_db s1, emptyRegistry :: unit Registry)))
     \<and> d2 = snd (handleEpisodePublish (ex_adminenv (\<lambda>_. False)) ex_owner (ex_action ''n'' []) d1)
     \<and> handleEpisode menv ''n'' d2 = EpisodePage (scanChannel ex_channel_row) ep (''/media/hxy'') []"
proof -
  let ?e = "ex_adminenv (\<lambda>_. False)" and ?r = "ex_action ''n'' []" and ?ev = "ex_env (Transcribed ''en'' [])"
  obtain v s1 where h: "handleEpisodeCreate ?e ex_owner ex_upload ex_site = (v, s1)" by fastforce
  obtain x d1 reg1 where w: "processOne ex_worker ?ev (si_db s1, emptyRegistry :: unit Registry) = (x, d1, reg1)" by (metis surj_pair)
  obtain v' d2 where p: "handleEpisodePublish ?e ex_owner ?r d1 = (v', d2)" by fastforce
  let ?m = "\<lparr>me_blobs = si_blobs s1, me_getFault = (\<lambda>_. False), me_sniff = (\<lambda>_. []), me_direct = None, me_fault = (\<lambda>_. False)\<rparr> :: mediaenv"
  have f: "ad_fault ?e = (\<lambda>_. False)" "ad_elapsed ?e < UploadProtectWindow" "\<not> ad_reserveFails ?e 0"
    "ad_newID ?e = ''n''" "ad_jobID ?e = ''i''" "ad_now ?e c = 0" for c
    by (simp_all add: ex_adminenv_def units)
  note up = upload_effect [OF ex_alone ex_site_wf f(1,2) ex_upload_staged f(3) ex_fresh(3) _ _ h]
  let ?j = "job_to_row (new_job JobTranscribe (TranscribePayload ''n'') ''i'' 0)"
  have "jobs (si_db s1) = jobs (si_db ex_site) @ [?j]" using up ex_fresh f by simp
  then have sel: "select_runnable [JobTranscribe] (ev_now ?ev CDequeue) (si_db s1) = Some ?j"
    by (simp add: select_runnable_def ex_site_def ex runnable_def kind_match_def job_to_row_def new_job_def ex_env_def toUnix_def)
  have ev: "quiet ?ev" "\<forall>c \<in> {CDequeue, CLoad, CSettle}. \<not> ev_fault ?ev c" "0 < q_maxAttempts (w_queue ex_worker)"
    by (simp_all add: quiet_def ex_env_def ex_worker_def ex_queue_def NewQueue_def)
  have tr: "\<forall>ep. e_MediaKey ep = su_mediaKey up \<longrightarrow> transcribes ex_worker ?ev ep ''en'' []" for up
    by (simp add: transcribes_def ex_env_def marshals_def marshalSegments_def)
  have "\<exists>ep. handleEpisode ?m ''n'' d2 = EpisodePage (scanChannel ex_channel_row) ep (''/media/'' @ su_mediaKey ex_staged) []"
    using upload_reaches_audience [OF ex_alone ex_site_wf f(1,2) ex_upload_staged f(3) ex_fresh(3) _ _ h ex_sqlite_worker ev sel _ tr w
      ex_alone f(1) ex_action_parse(1) _ p, of ?m "\<lambda>_. []" "[]"] ex_fresh f ex_action_parse(2)
    by (simp add: job_to_row_def new_job_def)
  moreover have "su_mediaKey ex_staged = ''hxy''" by simp
  ultimately show ?thesis using h w p by fastforce
qed

end
