(* ===== verification/Router.thy ===== *)
theory Router
  imports Tenancy Auth Metrics
begin

text \<open>
  \<open>server/router.go\<close>, the middleware chain of \<open>server/middleware.go\<close>, and the probes: which
  handler a request reaches and after which checks.  Matching follows the documented patterns
  of \<open>http.ServeMux\<close>; no two patterns of the table match the same request, so precedence
  between patterns plays no role.  A path is clean, as the mux redirects any other.
\<close>

section \<open>Patterns\<close>

datatype seg = Lit string | Wild | Rest | End

text \<open>The segments of a path; a trailing slash is the segment \<open>/\<close>.\<close>

fun splitSegs :: "string \<Rightarrow> string \<Rightarrow> string list" where
  "splitSegs acc [] = (if acc = [] then [] else [rev acc])"
| "splitSegs acc (c # cs) =
     (if c = CHR ''/'' then (if acc = [] then [] else [rev acc]) @ (if cs = [] then [''/''] else splitSegs [] cs)
      else splitSegs (c # acc) cs)"

fun matchSegs :: "seg list \<Rightarrow> string list \<Rightarrow> string list option" where
  "matchSegs [] [] = Some []"
| "matchSegs (Lit l # ps) (s # ss) = (if s = l then matchSegs ps ss else None)"
| "matchSegs (Wild # ps) (s # ss) = (if s = ''/'' then None else map_option ((#) s) (matchSegs ps ss))"
| "matchSegs [Rest] (s # ss) = Some [concat (s # map (\<lambda>x. CHR ''/'' # x) ss)]"
| "matchSegs [End] [s] = (if s = ''/'' then Some [] else None)"
| "matchSegs _ _ = None"

text \<open>A pattern for \<open>GET\<close> also serves \<open>HEAD\<close>.\<close>

definition methodMatches :: "string \<Rightarrow> string \<Rightarrow> bool" where
  "methodMatches p m \<longleftrightarrow> p = m \<or> (p = ''GET'' \<and> m = ''HEAD'')"

section \<open>The table\<close>

datatype AdminRoute =
  AtDashboard | AtUpload | AtChannelNew | AtChannelCreate | AtChannelEdit | AtChannelUpdate | AtEpisodeList
| AtEpisodeNew | AtEpisodeCreate | AtEpisodeEdit | AtEpisodeUpdate | AtEpisodePublish | AtEpisodeUnpublish
| AtEpisodeMove | AtEpisodeTranscribe | AtEpisodeStatus | AtEpisodeDelete

datatype Route =
  AtStatic | AtMedia | AtLoginForm | AtLogin | AtLogout | AtSignupForm | AtSignup | AtOIDCLogin | AtOIDCCallback
| AtAdmin AdminRoute | AtLanding | AtChannel | AtFeed | AtEpisode

type_synonym 'r entry = "string \<times> seg list \<times> 'r"

definition appRoutes :: "Route entry list" where
  "appRoutes =
    [(''GET'', [Lit ''static'', Rest], AtStatic),
     (''GET'', [Lit ''media'', Wild], AtMedia),
     (''GET'', [Lit ''login''], AtLoginForm),
     (''POST'', [Lit ''login''], AtLogin),
     (''POST'', [Lit ''logout''], AtLogout),
     (''GET'', [Lit ''signup''], AtSignupForm),
     (''POST'', [Lit ''signup''], AtSignup),
     (''GET'', [Lit ''auth'', Lit ''oidc'', Lit ''login''], AtOIDCLogin),
     (''GET'', [Lit ''auth'', Lit ''oidc'', Lit ''callback''], AtOIDCCallback),
     (''GET'', [Lit ''admin'', End], AtAdmin AtDashboard),
     (''GET'', [Lit ''admin'', Lit ''upload''], AtAdmin AtUpload),
     (''GET'', [Lit ''admin'', Lit ''channels'', Lit ''new''], AtAdmin AtChannelNew),
     (''POST'', [Lit ''admin'', Lit ''channels''], AtAdmin AtChannelCreate),
     (''GET'', [Lit ''admin'', Lit ''channels'', Wild, Lit ''edit''], AtAdmin AtChannelEdit),
     (''POST'', [Lit ''admin'', Lit ''channels'', Wild], AtAdmin AtChannelUpdate),
     (''GET'', [Lit ''admin'', Lit ''channels'', Wild, Lit ''episodes''], AtAdmin AtEpisodeList),
     (''GET'', [Lit ''admin'', Lit ''channels'', Wild, Lit ''episodes'', Lit ''new''], AtAdmin AtEpisodeNew),
     (''POST'', [Lit ''admin'', Lit ''channels'', Wild, Lit ''episodes''], AtAdmin AtEpisodeCreate),
     (''GET'', [Lit ''admin'', Lit ''episodes'', Wild, Lit ''edit''], AtAdmin AtEpisodeEdit),
     (''POST'', [Lit ''admin'', Lit ''episodes'', Wild], AtAdmin AtEpisodeUpdate),
     (''POST'', [Lit ''admin'', Lit ''episodes'', Wild, Lit ''publish''], AtAdmin AtEpisodePublish),
     (''POST'', [Lit ''admin'', Lit ''episodes'', Wild, Lit ''unpublish''], AtAdmin AtEpisodeUnpublish),
     (''POST'', [Lit ''admin'', Lit ''episodes'', Wild, Lit ''move''], AtAdmin AtEpisodeMove),
     (''POST'', [Lit ''admin'', Lit ''episodes'', Wild, Lit ''transcribe''], AtAdmin AtEpisodeTranscribe),
     (''GET'', [Lit ''admin'', Lit ''episodes'', Wild, Lit ''status''], AtAdmin AtEpisodeStatus),
     (''POST'', [Lit ''admin'', Lit ''episodes'', Wild, Lit ''delete''], AtAdmin AtEpisodeDelete),
     (''GET'', [End], AtLanding),
     (''GET'', [Lit ''c'', Wild, End], AtChannel),
     (''GET'', [Lit ''c'', Wild, Lit ''feed.xml''], AtFeed),
     (''GET'', [Lit ''e'', Wild, End], AtEpisode)]"

datatype Probe = Healthz | Readyz | MetricsProbe

definition rootRoutes :: "Probe entry list" where
  "rootRoutes = [(''GET'', [Lit ''healthz''], Healthz), (''GET'', [Lit ''readyz''], Readyz),
     (''GET'', [Lit ''metrics''], MetricsProbe)]"

definition entryMatch :: "string \<Rightarrow> string list \<Rightarrow> 'r entry \<Rightarrow> bool" where
  "entryMatch m path e = (case e of (p, segs, _) \<Rightarrow> methodMatches p m \<and> matchSegs segs path \<noteq> None)"

definition lookupRoute :: "'r entry list \<Rightarrow> string \<Rightarrow> string list \<Rightarrow> ('r \<times> string list) option" where
  "lookupRoute table m path =
     (case find (entryMatch m path) table of None \<Rightarrow> None
      | Some (_, segs, rt) \<Rightarrow> Some (rt, the (matchSegs segs path)))"

section \<open>The chain\<close>

text \<open>
  \<open>loadUser\<close> and then \<open>csrf\<close> wrap every application route; \<open>requireAuth\<close> wraps the admin ones.
  The probes bypass all three.
\<close>

datatype reached =
  ReachProbe Probe
| ReachReject response
| ReachUnmatched
| ReachRun Route "string list" "user option" request

definition dispatch :: "authenv \<Rightarrow> bool \<Rightarrow> string \<Rightarrow> request \<Rightarrow> string \<Rightarrow> db \<Rightarrow> reached" where
  "dispatch env secure rnd r path d =
     (case lookupRoute rootRoutes (rq_Method r) (splitSegs [] path) of
        Some (p, _) \<Rightarrow> ReachProbe p
      | None \<Rightarrow>
          (let usr = loadUser env r d in
           case csrf secure rnd r of
             (Some rs, _, _, _) \<Rightarrow> ReachReject rs
           | (None, token, cks, r1) \<Rightarrow>
               (case lookupRoute appRoutes (rq_Method r) (splitSegs [] path) of
                  None \<Rightarrow> ReachUnmatched
                | Some (rt, ids) \<Rightarrow>
                    (case rt of
                       AtAdmin a \<Rightarrow>
                         (case usr of None \<Rightarrow> ReachReject (redirect ''/login'')
                          | Some u \<Rightarrow> ReachRun rt ids usr r1)
                     | _ \<Rightarrow> ReachRun rt ids usr r1))))"

text \<open>The admin handlers by route; \<open>q\<close> is the same request as the upload handler reads it.\<close>

fun adminHandler :: "adminenv \<Rightarrow> AdminRoute \<Rightarrow> user \<Rightarrow> request \<Rightarrow> uploadreq \<Rightarrow> site \<Rightarrow> adminview \<times> site" where
  "adminHandler env AtDashboard u r q = on_db (handleAdminDashboard env u)"
| "adminHandler env AtUpload u r q = on_db (handleUpload env u)"
| "adminHandler env AtChannelNew u r q = Pair handleChannelNew"
| "adminHandler env AtChannelCreate u r q = admin env u (AdmChannelCreate r)"
| "adminHandler env AtChannelEdit u r q = on_db (handleChannelEdit env u r)"
| "adminHandler env AtChannelUpdate u r q = admin env u (AdmChannelUpdate r)"
| "adminHandler env AtEpisodeList u r q = on_db (handleEpisodeList env u r)"
| "adminHandler env AtEpisodeNew u r q = on_db (handleEpisodeNew env u r)"
| "adminHandler env AtEpisodeCreate u r q = admin env u (AdmEpisodeCreate q)"
| "adminHandler env AtEpisodeEdit u r q = on_db (handleEpisodeEdit env u r)"
| "adminHandler env AtEpisodeUpdate u r q = admin env u (AdmEpisodeUpdate r)"
| "adminHandler env AtEpisodePublish u r q = admin env u (AdmEpisodePublish r)"
| "adminHandler env AtEpisodeUnpublish u r q = admin env u (AdmEpisodeUnpublish r)"
| "adminHandler env AtEpisodeMove u r q = admin env u (AdmEpisodeMove r)"
| "adminHandler env AtEpisodeTranscribe u r q = admin env u (AdmEpisodeTranscribe r)"
| "adminHandler env AtEpisodeStatus u r q = on_db (handleEpisodeStatus env u r)"
| "adminHandler env AtEpisodeDelete u r q = admin env u (AdmEpisodeDelete r)"

text \<open>A request to the admin area: the view and the state after it, \<open>None\<close> for other routes.\<close>

definition serveAdmin ::
    "authenv \<Rightarrow> adminenv \<Rightarrow> bool \<Rightarrow> string \<Rightarrow> request \<Rightarrow> uploadreq \<Rightarrow> string \<Rightarrow> site \<Rightarrow> (adminview \<times> site) option" where
  "serveAdmin aenv env secure rnd r q path s =
     (case dispatch aenv secure rnd r path (si_db s) of
        ReachReject rs \<Rightarrow> Some (Plain rs, s)
      | ReachRun (AtAdmin a) ids (Some u) r1 \<Rightarrow>
          (let i = (case ids of [] \<Rightarrow> [] | x # _ \<Rightarrow> x)
           in Some (adminHandler env a u (r1\<lparr>rq_PathID := i\<rparr>) (q\<lparr>uq_PathID := i\<rparr>) s))
      | _ \<Rightarrow> None)"

section \<open>Metric labels\<close>

text \<open>\<open>routePattern\<close> labels a request by the entry that matches it, or by \<open>other\<close>.\<close>

definition routePattern :: "string \<Rightarrow> string \<Rightarrow> (string \<times> seg list) option" where
  "routePattern m path = map_option (\<lambda>(p, segs, _). (p, segs)) (find (entryMatch m (splitSegs [] path)) appRoutes)"

section \<open>Panics\<close>

datatype panic_value = AbortHandler | OtherPanic

datatype write_event = WriteHeader int | WriteBody string

record statusWriter =
  sw_status :: int
  sw_wroteHeader :: bool
  sw_wrote :: bool
  sw_sent :: "write_event list"

definition newStatusWriter :: statusWriter where
  "newStatusWriter = \<lparr>sw_status = 200, sw_wroteHeader = False, sw_wrote = False, sw_sent = []\<rparr>"

fun sw_write :: "statusWriter \<Rightarrow> write_event \<Rightarrow> statusWriter" where
  "sw_write w (WriteHeader code) =
     (let w1 = w\<lparr>sw_wrote := True\<rparr>;
          w2 = (if sw_wroteHeader w1 then w1 else w1\<lparr>sw_status := code, sw_wroteHeader := True\<rparr>)
      in w2\<lparr>sw_sent := sw_sent w2 @ [WriteHeader code]\<rparr>)"
| "sw_write w (WriteBody b) = w\<lparr>sw_wrote := True, sw_sent := sw_sent w @ [WriteBody b]\<rparr>"

definition sw_run :: "write_event list \<Rightarrow> statusWriter \<Rightarrow> statusWriter" where
  "sw_run evs w = foldl sw_write w evs"

text \<open>
  A handler is what it writes and the panic it ends with, if any; \<open>recoverPanic\<close> gives the
  writer after it and the panic that goes on to net/http.  \<open>errorPage\<close> is what \<open>renderError\<close>
  writes for a status.
\<close>

definition recoverPanic ::
    "(int \<Rightarrow> write_event list) \<Rightarrow> write_event list \<times> panic_value option \<Rightarrow> statusWriter \<Rightarrow> statusWriter \<times> panic_value option" where
  "recoverPanic errorPage h w =
     (let w1 = sw_run (fst h) w in
      case snd h of
        None \<Rightarrow> (w1, None)
      | Some AbortHandler \<Rightarrow> (w1, Some AbortHandler)
      | Some OtherPanic \<Rightarrow> if sw_wrote w1 then (w1, Some AbortHandler) else (sw_run (errorPage 500) w1, None))"

text \<open>
  The writers a request sees: net/http's own and the status writers around it.  The body limit
  of an upload is put on \<open>underlying\<close>, as only net/http's own closes the connection over it.
\<close>

datatype responseWriter = NetResponse | Wrapped responseWriter

fun Unwrap :: "responseWriter \<Rightarrow> responseWriter option" where
  "Unwrap NetResponse = None"
| "Unwrap (Wrapped w) = Some w"

fun underlying :: "responseWriter \<Rightarrow> responseWriter" where
  "underlying NetResponse = NetResponse"
| "underlying (Wrapped w) = underlying w"

lemma underlying_fixpoint: "Unwrap (underlying w) = None"
  by (induction w) simp_all

text \<open>The baseline headers, set before the handler runs.\<close>

definition securityHeaders :: "(string \<rightharpoonup> string) \<Rightarrow> (string \<rightharpoonup> string)" where
  "securityHeaders h = h(''X-Content-Type-Options'' \<mapsto> ''nosniff'', ''X-Frame-Options'' \<mapsto> ''DENY'',
     ''Referrer-Policy'' \<mapsto> ''no-referrer'')"

section \<open>Probes\<close>

definition writeProbe :: "int \<Rightarrow> string \<Rightarrow> write_event list" where
  "writeProbe status body = [WriteHeader status, WriteBody (body @ [CHR 0x0A])]"

definition handleHealthz :: "write_event list" where "handleHealthz = writeProbe 200 ''ok''"

definition handleReadyz :: "bool \<Rightarrow> write_event list" where
  "handleReadyz pingFails = (if pingFails then writeProbe 503 ''store unavailable'' else writeProbe 200 ''ok'')"

section \<open>The table is unambiguous\<close>

text \<open>Two patterns that can match the same path.\<close>

fun overlap :: "seg list \<Rightarrow> seg list \<Rightarrow> bool" where
  "overlap [] [] = True"
| "overlap (Lit l # ps) (Lit k # qs) = (l = k \<and> overlap ps qs)"
| "overlap (Lit l # ps) (Wild # qs) = (l \<noteq> ''/'' \<and> overlap ps qs)"
| "overlap (Wild # ps) (Lit k # qs) = (k \<noteq> ''/'' \<and> overlap ps qs)"
| "overlap (Wild # ps) (Wild # qs) = overlap ps qs"
| "overlap [End] [End] = True"
| "overlap [End] (Lit k # qs) = (k = ''/'')"
| "overlap (Lit l # ps) [End] = (l = ''/'')"
| "overlap [Rest] (q # qs) = True"
| "overlap (p # ps) [Rest] = True"
| "overlap _ _ = False"

lemma overlap_sound: "matchSegs ps ss \<noteq> None \<Longrightarrow> matchSegs qs ss \<noteq> None \<Longrightarrow> overlap ps qs"
proof (induction ps qs arbitrary: ss rule: overlap.induct)
qed (auto split: if_splits elim!: matchSegs.elims, (metis map_option_eq_Some)+)

definition methodsOverlap :: "string \<Rightarrow> string \<Rightarrow> bool" where "methodsOverlap p q \<longleftrightarrow> p = q"

lemma methods_overlap: "methodMatches p m \<Longrightarrow> methodMatches q m \<Longrightarrow> p = q \<or> {p, q} = {''GET'', ''HEAD''}"
  by (auto simp: methodMatches_def)

definition unambiguous :: "'r entry list \<Rightarrow> bool" where
  "unambiguous table \<longleftrightarrow> list_all (\<lambda>(i, p, ps, _). list_all (\<lambda>(j, q, qs, _). i = j \<or> p \<noteq> q \<or> \<not> overlap ps qs)
      (enumerate 0 table)) (enumerate 0 table) \<and> list_all (\<lambda>(p, _). p \<noteq> ''HEAD'') table"

lemma appRoutes_unambiguous: "unambiguous appRoutes"
  by code_simp

lemma unambiguousD:
  assumes "unambiguous table" "i < length table" "j < length table"
    and "entryMatch m path (table ! i)" "entryMatch m path (table ! j)"
  shows "i = j"
proof -
  obtain p ps rp where i: "table ! i = (p, ps, rp)" by (metis surj_pair)
  obtain q qs rq where j: "table ! j = (q, qs, rq)" by (metis surj_pair)
  have mem: "(i, p, ps, rp) \<in> set (enumerate 0 table)" "(j, q, qs, rq) \<in> set (enumerate 0 table)"
    using assms(2,3) i j by (simp_all add: in_set_enumerate_eq)
  have "p \<noteq> ''HEAD''" "q \<noteq> ''HEAD''"
    using assms(1-3) i j by (auto simp: unambiguous_def list_all_length)
  then have "p = q" using assms(4,5) i j methods_overlap [of p m q] by (auto simp: entryMatch_def doubleton_eq_iff)
  moreover have "overlap ps qs" using assms(4,5) i j by (intro overlap_sound [of ps path]) (simp_all add: entryMatch_def)
  moreover have "case (i, p, ps, rp) of (i, p, ps, _) \<Rightarrow> list_all (\<lambda>(j, q, qs, _). i = j \<or> p \<noteq> q \<or> \<not> overlap ps qs) (enumerate 0 table)"
    using assms(1) mem(1) unfolding unambiguous_def list_all_iff by (metis (no_types, lifting))
  then have "i = j \<or> p \<noteq> q \<or> \<not> overlap ps qs"
    using mem(2) unfolding list_all_iff prod.case by blast
  ultimately show ?thesis by simp
qed

text \<open>At most one entry matches a request, so the order of registration is irrelevant.\<close>

theorem routes_unambiguous:
  assumes "rt \<in> set appRoutes" "entryMatch m path rt"
  shows "find (entryMatch m path) appRoutes = Some rt"
proof (cases "find (entryMatch m path) appRoutes")
  case None
  with assms show ?thesis by (auto simp: find_NoneD)
next
  case (Some rt')
  then have "rt' \<in> set appRoutes" "entryMatch m path rt'" by (auto dest: find_SomeD)
  with assms have "rt' = rt" by (metis appRoutes_unambiguous in_set_conv_nth unambiguousD)
  with Some show ?thesis by simp
qed

section \<open>The admin area is guarded\<close>

lemma lookup_method:
  assumes "lookupRoute appRoutes m path = Some (rt, ids)"
  shows "\<exists>p segs. (p, segs, rt) \<in> set appRoutes \<and> methodMatches p m"
  using assms by (auto simp: lookupRoute_def entryMatch_def split: option.splits dest!: find_SomeD)

definition writingRoutes :: "AdminRoute list" where
  "writingRoutes = [AtChannelCreate, AtChannelUpdate, AtEpisodeCreate, AtEpisodeUpdate, AtEpisodePublish,
     AtEpisodeUnpublish, AtEpisodeMove, AtEpisodeTranscribe, AtEpisodeDelete]"

lemma writing_routes_post:
  "list_all (\<lambda>(p, _, rt). case rt of AtAdmin a \<Rightarrow> a \<in> set writingRoutes \<longleftrightarrow> p = ''POST'' | _ \<Rightarrow> True) appRoutes"
  by code_simp

lemma admin_reads:
  assumes "alone env" "a \<notin> set writingRoutes"
  shows "si_db (snd (adminHandler env a u r q s)) = si_db s"
proof -
  have o: "snd (ownedChannel env u cid d) = d" "snd (ownedEpisode env u eid d) = d" for cid eid d
    by (auto simp: ownedChannel_def ownedEpisode_def adm_alone [OF assms(1)] split: sum.split prod.split)
  have oc: "ownedChannel env u cid d = (x, d1) \<Longrightarrow> d1 = d" "ownedEpisode env u eid d = (y, d1) \<Longrightarrow> d1 = d" for cid eid d x y d1
    using o(1) [of cid d] o(2) [of eid d] by simp_all
  have "snd (handleAdminDashboard env u d) = d" "snd (handleUpload env u d) = d" for d
    by (auto simp: handleAdminDashboard_def handleUpload_def adm_alone [OF assms(1)] split: sum.split prod.split list.split if_splits)
  moreover have "snd (handleChannelEdit env u r d) = d" "snd (handleEpisodeNew env u r d) = d" for d
    using o(1) by (auto simp: handleChannelEdit_def handleEpisodeNew_def split: sum.split prod.split dest: oc)
  moreover have "snd (handleEpisodeList env u r d) = d" for d
    by (auto simp: handleEpisodeList_def adm_alone [OF assms(1)] split: sum.split prod.split if_splits
        dest: oc)
  moreover have "snd (handleEpisodeEdit env u r d) = d" "snd (handleEpisodeStatus env u r d) = d" for d
    by (auto simp: handleEpisodeEdit_def handleEpisodeStatus_def split: sum.split prod.split
        dest: oc)
  ultimately show ?thesis using assms(2) by (cases a) (simp_all add: writingRoutes_def)
qed

lemma admin_writes: "a \<in> set writingRoutes \<Longrightarrow> \<exists>rq. adminHandler env a u r q s = admin env u rq s"
  by (auto simp: writingRoutes_def simp del: admin.simps intro: exI)

text \<open>
  A request that changes the database through the admin routes is a POST of an
  authenticated user carrying the CSRF token of its own cookie, and changes only what is that
  user's.
\<close>

theorem admin_area_guarded:
  assumes "alone env" "wf_db (si_db s)" "serveAdmin aenv env secure rnd r q path s = Some (v, s')"
    and "si_db s' \<noteq> si_db s"
  shows "\<exists>u. loadUser aenv r (si_db s) = Some u \<and> rq_Method r = ''POST''
    \<and> (let token = fst (requestCSRFToken r) in
         token \<noteq> [] \<and> (map_of (rq_Cookies r) csrfCookieName = Some token \<or> token = newCSRFToken rnd))
    \<and> foreign u (si_db s') = foreign u (si_db s)"
proof -
  from assms(3,4) obtain a ids u r1 where d: "dispatch aenv secure rnd r path (si_db s) = ReachRun (AtAdmin a) ids (Some u) r1"
      and h: "(v, s') = adminHandler env a u (r1\<lparr>rq_PathID := (case ids of [] \<Rightarrow> [] | x # _ \<Rightarrow> x)\<rparr>)
        (q\<lparr>uq_PathID := (case ids of [] \<Rightarrow> [] | x # _ \<Rightarrow> x)\<rparr>) s"
    by (auto simp: serveAdmin_def Let_def split: reached.splits Route.splits option.splits)
  from d obtain token cks where u: "loadUser aenv r (si_db s) = Some u" and c: "csrf secure rnd r = (None, token, cks, r1)"
      and l: "lookupRoute appRoutes (rq_Method r) (splitSegs [] path) = Some (AtAdmin a, ids)"
    by (auto simp: dispatch_def Let_def split: option.splits prod.splits Route.splits)
  have w: "a \<in> set writingRoutes" using admin_reads [OF assms(1)] h assms(4) by (metis snd_conv)
  obtain p segs where "(p, segs, AtAdmin a) \<in> set appRoutes" "methodMatches p (rq_Method r)"
    using lookup_method [OF l] by blast
  with w have post: "rq_Method r = ''POST''"
    using writing_routes_post by (auto simp: list_all_iff methodMatches_def)
  then have "\<not> csrfSafeMethod (rq_Method r)" by (simp add: csrfSafeMethod_def)
  note tok = csrf_passed [OF c this]
  have "foreign u (si_db s') = foreign u (si_db s)"
    using admin_writes [OF w] h keeps_admin [OF assms(1,2), of u] unfolding keeps_def by (metis snd_conv)
  with u post tok show ?thesis by (auto simp: Let_def)
qed

section \<open>Labels and panics\<close>

theorem metric_labels_bounded:
  "finite (range (case_prod routePattern)) \<and> card (range (case_prod routePattern)) \<le> length appRoutes + 1"
proof -
  have "routePattern m path \<in> insert None ((\<lambda>(p, segs, _). Some (p, segs)) ` set appRoutes)" for m path
  proof (cases "find (entryMatch m (splitSegs [] path)) appRoutes")
    case (Some e)
    then have "e \<in> set appRoutes" by (auto dest: find_SomeD)
    then have "(case e of (p, segs, _) \<Rightarrow> Some (p, segs)) \<in> (\<lambda>(p, segs, _). Some (p, segs)) ` set appRoutes"
      by (rule imageI)
    then show ?thesis using Some by (simp add: routePattern_def split: prod.splits)
  qed (simp add: routePattern_def)
  then have "range (case_prod routePattern) \<subseteq> insert None ((\<lambda>(p, segs, _). Some (p, segs)) ` set appRoutes)"
    by (auto simp del: insert_iff image_iff)
  moreover have "card (insert None ((\<lambda>(p, segs, _). Some (p, segs)) ` set appRoutes)) \<le> length appRoutes + 1"
    by (metis (no_types) List.finite_set Suc_eq_plus1 card_image_le card_insert_le_m1 card_length diff_Suc_1 finite_imageI le_trans zero_less_Suc)
  ultimately show ?thesis by (meson List.finite_set card_mono finite.insertI finite_imageI finite_subset le_trans)
qed

lemma sw_run_sent: "sw_sent (sw_run evs w) = sw_sent w @ evs"
proof (induction evs arbitrary: w)
  case (Cons e evs)
  then show ?case by (cases e) (simp_all add: sw_run_def Let_def)
qed (simp add: sw_run_def)

lemma sw_run_wrote: "sw_wrote (sw_run evs w) \<longleftrightarrow> sw_wrote w \<or> evs \<noteq> []"
proof (induction evs arbitrary: w)
  case (Cons e evs)
  then show ?case by (cases e) (simp_all add: sw_run_def Let_def)
qed (simp add: sw_run_def)

text \<open>
  A panic never passes the middleware as itself: before the first byte it becomes the error
  page, after it the connection is aborted with nothing appended.
\<close>

theorem panics_contained:
  assumes "recoverPanic errorPage (evs, panic) newStatusWriter = (w, out)"
  shows "out \<noteq> Some OtherPanic
    \<and> (panic = None \<longrightarrow> out = None \<and> sw_sent w = evs)
    \<and> (panic = Some OtherPanic \<longrightarrow> (if evs = [] then sw_sent w = errorPage 500 \<and> out = None
         else sw_sent w = evs \<and> out = Some AbortHandler))"
proof -
  have w: "sw_sent (sw_run evs newStatusWriter) = evs" "sw_wrote (sw_run evs newStatusWriter) \<longleftrightarrow> evs \<noteq> []"
    by (simp_all add: sw_run_sent sw_run_wrote newStatusWriter_def)
  show ?thesis
  proof (cases panic)
    case None
    then show ?thesis using assms w by (auto simp: recoverPanic_def)
  next
    case (Some p)
    then show ?thesis using assms w by (cases p) (auto simp: recoverPanic_def sw_run_sent split: if_splits)
  qed
qed

section \<open>Concrete requests\<close>

lemma routes_unambiguous_witness:
  "lookupRoute appRoutes ''HEAD'' (splitSegs [] ''/c/x/feed.xml'') = Some (AtFeed, [''x''])"
proof -
  have m: "entryMatch ''HEAD'' (splitSegs [] ''/c/x/feed.xml'') (''GET'', [Lit ''c'', Wild, Lit ''feed.xml''], AtFeed)"
    by code_simp
  have "(''GET'', [Lit ''c'', Wild, Lit ''feed.xml''], AtFeed) \<in> set appRoutes" by (simp add: appRoutes_def)
  from routes_unambiguous [OF this m] have f: "find (entryMatch ''HEAD'' (splitSegs [] ''/c/x/feed.xml'')) appRoutes
      = Some (''GET'', [Lit ''c'', Wild, Lit ''feed.xml''], AtFeed)" .
  have "matchSegs [Lit ''c'', Wild, Lit ''feed.xml''] (splitSegs [] ''/c/x/feed.xml'') = Some [''x'']" by code_simp
  with f show ?thesis by (simp add: lookupRoute_def)
qed

lemma panics_contained_witness:
  "sw_sent (fst (recoverPanic (\<lambda>st. [WriteHeader st]) ([], Some OtherPanic) newStatusWriter)) = [WriteHeader 500]"
proof -
  obtain w out where h: "recoverPanic (\<lambda>st. [WriteHeader st]) ([], Some OtherPanic) newStatusWriter = (w, out)" by fastforce
  from panics_contained [OF h] h show ?thesis by simp
qed

definition ex_post :: request where
  "ex_post = (ex_action [] [])\<lparr>rq_CsrfHeader := ex_token, rq_Cookies := ex_cookie @ [(csrfCookieName, ex_token)]\<rparr>"

lemma ex_post_user: "loadUser ex_authenv ex_post (si_db ex_site) = Some ex_owner"
proof -
  have "sessionUserID (ae_sessions ex_authenv) (rq_Cookies ex_post) (ae_now ex_authenv) = Some (''u'', 0)"
    using ex_session by (simp add: ex_post_def sessionUserID_def ex_cookie_def ex_authenv_def ex_manager_def)
  moreover have "UserByID ''u'' (si_db ex_site) = Inr ex_owner"
    by (simp add: UserByID_def userWhere_def ex_site_def ex_owner_def ex)
  moreover have "u_SessionEpoch ex_owner = 0" by (simp add: ex_owner_def scanUser_def ex)
  ultimately show ?thesis by (simp add: loadUser_def) (simp add: ex_authenv_def)
qed

lemma ex_post_csrf: "csrf True [] ex_post = (None, ex_token, [], ex_post)"
proof -
  have "map_of (rq_Cookies ex_post) csrfCookieName = Some ex_token"
    by (simp add: ex_post_def ex_cookie_def csrfCookieName_def)
  moreover have "rq_CsrfHeader ex_post = ex_token" "rq_Method ex_post = ''POST''" by (simp_all add: ex_post_def ex_action_def)
  ultimately show ?thesis using ex_token_valid
    by (simp add: csrf_def verifyCSRF_def requestCSRFToken_def ensureCSRFCookie_def csrfSafeMethod_def)
qed

lemma ex_post_route:
  "dispatch ex_authenv True [] ex_post ''/admin/episodes/e/unpublish'' (si_db ex_site)
     = ReachRun (AtAdmin AtEpisodeUnpublish) [''e''] (Some ex_owner) ex_post"
proof -
  have m: "rq_Method ex_post = ''POST''" by (simp add: ex_post_def ex_action_def)
  have "lookupRoute rootRoutes ''POST'' (splitSegs [] ''/admin/episodes/e/unpublish'') = None"
    "lookupRoute appRoutes ''POST'' (splitSegs [] ''/admin/episodes/e/unpublish'') = Some (AtAdmin AtEpisodeUnpublish, [''e''])"
    by code_simp+
  then show ?thesis by (simp add: dispatch_def m ex_post_user ex_post_csrf)
qed

lemma ex_unpublish_db:
  "snd (handleEpisodeUnpublish (ex_adminenv (\<lambda>_. False)) ex_owner (ex_post\<lparr>rq_PathID := ''e''\<rparr>) (si_db ex_site))
     = snd (SetEpisodePublication ''e'' EpisodeDraft (Some 0) 0 (si_db ex_site))"
proof -
  let ?e = "ex_adminenv (\<lambda>_. False)" and ?r = "ex_post\<lparr>rq_PathID := ''e''\<rparr>" and ?d = "si_db ex_site"
  have p: "parseSmallForm ?r = (None, ?r\<lparr>rq_PostForm := Some []\<rparr>)"
    by (simp add: parseSmallForm_def ParseForm_def ex_post_def ex_action_def hasBody_def maxSmallFormBytes_def)
  have f: "\<not> ad_fault ?e c" for c by (simp add: ex_adminenv_def)
  let ?ep = "scanEpisode (ex_episode_row ''e'' ''k'' TranscriptNone)"
  have "ChannelByID (e_ChannelID ?ep) ?d = Inr (scanChannel ex_channel_row)" using ex_channel by (simp add: ex_episode_fields)
  then have o: "ownedEpisode ?e ex_owner ''e'' ?d = (Inr (?ep, scanChannel ex_channel_row), ?d)"
    using ex_episode_e ex_owns by (simp add: ownedEpisode_def ownedChannel_def adm_alone [OF ex_alone] f)
  have id: "e_ID ?ep = ''e''" by (simp add: scanEpisode_def ex)
  show ?thesis
    by (simp add: handleEpisodeUnpublish_def setEpisodePublished_def withOwnedEpisode_def p o id adm_alone [OF ex_alone] f
        ex_episode_fields) (simp add: ex_adminenv_def)
qed

lemma ex_unpublished:
  "EpisodeByID ''e'' (snd (handleEpisodeUnpublish (ex_adminenv (\<lambda>_. False)) ex_owner (ex_post\<lparr>rq_PathID := ''e''\<rparr>) (si_db ex_site)))
     \<noteq> EpisodeByID ''e'' (si_db ex_site)"
proof -
  have "e_Status (scanEpisode (ex_episode_row ''e'' ''k'' TranscriptNone)) = EpisodePublished" by (simp add: scanEpisode_def ex)
  then show ?thesis
    by (simp add: ex_unpublish_db EpisodeByID_publication ex_episode_e) (auto dest!: arg_cong [of _ _ e_Status])
qed

lemma admin_area_guarded_witness:
  "case serveAdmin ex_authenv (ex_adminenv (\<lambda>_. False)) True [] ex_post ex_upload ''/admin/episodes/e/unpublish'' ex_site of
     None \<Rightarrow> False | Some (v, s') \<Rightarrow> foreign ex_owner (si_db s') = foreign ex_owner (si_db ex_site)"
proof -
  let ?e = "ex_adminenv (\<lambda>_. False)"
  let ?out = "on_db (handleEpisodeUnpublish ?e ex_owner (ex_post\<lparr>rq_PathID := ''e''\<rparr>)) ex_site"
  obtain v s' where out: "?out = (v, s')" by fastforce
  then have h: "serveAdmin ex_authenv ?e True [] ex_post ex_upload ''/admin/episodes/e/unpublish'' ex_site = Some (v, s')"
    by (simp add: serveAdmin_def ex_post_route)
  have "si_db s' \<noteq> si_db ex_site" using ex_unpublished out by (metis si_db_on_db snd_conv)
  from admin_area_guarded [OF ex_alone ex_site_wf h this] h ex_post_user show ?thesis by auto
qed

end
