(* ===== verification/Server.thy ===== *)
theory Server
  imports Oidc Router
begin

text \<open>
  \<open>server/server.go\<close>, \<open>server/render.go\<close>, \<open>server/response.go\<close> and the instrumentation of
  \<open>server/metrics.go\<close>: the options of a server and its defaults, the rendering of a page into
  a buffer, and the HTTP metrics.  The templates are a parameter.
\<close>

section \<open>Construction\<close>

record Server =
  sv_addr :: string
  sv_baseURL :: string
  sv_siteName :: string
  sv_allowSignup :: bool
  sv_authn :: "(string \<Rightarrow> string \<Rightarrow> Identity option) option"
  sv_allowedDomains :: "string list"
  sv_maxUploadBytes :: int
  sv_shutdownTimeout :: duration
  sv_uploadTempDir :: string
  sv_mediaWriteIdle :: duration
  sv_direct :: bool
  sv_loginLimiter :: loginLimiter

datatype ServerOption =
  WithAddr string | WithBaseURL string | WithSiteName string | WithMaxUploadBytes int | WithAllowSignup bool
| WithAuthenticator "string \<Rightarrow> string \<Rightarrow> Identity option" | WithAllowedDomains "string list"
| WithShutdownTimeout duration | WithUploadTempDir string

fun apply_server_option :: "ServerOption \<Rightarrow> Server \<Rightarrow> Server" where
  "apply_server_option (WithAddr a) s = s\<lparr>sv_addr := a\<rparr>"
| "apply_server_option (WithBaseURL u) s = s\<lparr>sv_baseURL := u\<rparr>"
| "apply_server_option (WithSiteName n) s = s\<lparr>sv_siteName := n\<rparr>"
| "apply_server_option (WithMaxUploadBytes n) s = s\<lparr>sv_maxUploadBytes := n\<rparr>"
| "apply_server_option (WithAllowSignup b) s = s\<lparr>sv_allowSignup := b\<rparr>"
| "apply_server_option (WithAuthenticator a) s = s\<lparr>sv_authn := Some a\<rparr>"
| "apply_server_option (WithAllowedDomains ds) s = s\<lparr>sv_allowedDomains := ds\<rparr>"
| "apply_server_option (WithShutdownTimeout d) s = s\<lparr>sv_shutdownTimeout := d\<rparr>"
| "apply_server_option (WithUploadTempDir d) s = s\<lparr>sv_uploadTempDir := d\<rparr>"

definition mediaWriteIdle :: duration where [units]: "mediaWriteIdle = 60 * Second"

definition metricHTTPRequests :: string where "metricHTTPRequests = ''http_requests_total''"
definition metricHTTPDurationSum :: string where "metricHTTPDurationSum = ''http_request_duration_seconds_sum''"
definition metricHTTPDurationCnt :: string where "metricHTTPDurationCnt = ''http_request_duration_seconds_count''"
definition metricQueuePending :: string where "metricQueuePending = ''queue_pending_jobs''"

text \<open>What a scrape sees: the clock, the database, and whether the count query fails.\<close>

record world =
  wd_now :: time
  wd_db :: db
  wd_countFails :: bool

definition registerMetrics :: "world Registry \<Rightarrow> world Registry" where
  "registerMetrics r =
     GaugeFunc metricQueuePending
       ''Runnable job backlog: pending jobs plus reclaimable (lease-expired) processing jobs.''
       (\<lambda>w. if wd_countFails w then 0 else of_nat (CountPendingJobs (wd_now w) (wd_db w)))
       (Register metricHTTPDurationCnt Counter
          ''Count of HTTP requests observed for the duration sum, by route pattern.''
          (Register metricHTTPDurationSum Counter
             ''Sum of HTTP request durations in seconds by route pattern.''
             (Register metricHTTPRequests Counter ''Total HTTP requests by route pattern and status.'' r)))"

definition handleMetrics :: "(rat \<Rightarrow> string) \<Rightarrow> world \<Rightarrow> world Registry \<Rightarrow> write_event list" where
  "handleMetrics fmtG w r = [WriteBody (WriteTo fmtG w r)]"

text \<open>\<open>direct\<close> tells whether the blob store serves URLs, \<open>parses\<close> whether the templates parse.\<close>

definition NewServer :: "bool \<Rightarrow> bool \<Rightarrow> ServerOption list \<Rightarrow> world Registry option \<Rightarrow> string + Server \<times> world Registry" where
  "NewServer direct parses options shared =
     (let s = fold apply_server_option options
            \<lparr>sv_addr = '':8080'', sv_baseURL = ''http://localhost:8080'', sv_siteName = ''Castlet'',
             sv_allowSignup = False, sv_authn = None, sv_allowedDomains = [], sv_maxUploadBytes = 512 * 1048576,
             sv_shutdownTimeout = 10 * Second, sv_uploadTempDir = [], sv_mediaWriteIdle = mediaWriteIdle,
             sv_direct = direct,
             sv_loginLimiter = newLoginLimiter loginRateLimitMax loginRateLimitWindow loginLimiterMaxEntries\<rparr>;
          r = registerMetrics (case shared of None \<Rightarrow> emptyRegistry | Some r \<Rightarrow> r)
      in if parses then Inr (s, r) else Inl ''server: parse template'')"

section \<open>Rendering\<close>

record 'v ViewData =
  vd_Site :: string
  vd_User :: "user option"
  vd_Title :: string
  vd_AllowSignup :: bool
  vd_OIDCEnabled :: bool
  vd_CSRFToken :: string
  vd_Data :: 'v

definition pageNames :: "string list" where
  "pageNames = [''landing'', ''channel'', ''episode'', ''login'', ''signup'', ''admin_dashboard'', ''admin_upload'',
     ''admin_channel_form'', ''admin_episodes'', ''admin_episode_form'', ''admin_episode_edit'', ''error'']"

text \<open>\<open>tmpl\<close> executes a parsed template: the bytes it wrote, and whether it stopped with an error.\<close>

definition RenderPage :: "(string \<Rightarrow> 'v ViewData \<Rightarrow> string \<times> bool) \<Rightarrow> string \<Rightarrow> 'v ViewData \<Rightarrow> string \<times> bool" where
  "RenderPage tmpl name vd = (if name \<in> set pageNames then tmpl name vd else ([], True))"

definition renderView ::
    "(string \<Rightarrow> 'v ViewData \<Rightarrow> string \<times> bool) \<Rightarrow> Server \<Rightarrow> user option \<Rightarrow> string \<Rightarrow> int \<Rightarrow> string \<Rightarrow> string \<Rightarrow> 'v \<Rightarrow> write_event list" where
  "renderView renderer s usr token status name title data =
     (let vd = \<lparr>vd_Site = sv_siteName s, vd_User = usr, vd_Title = title, vd_AllowSignup = sv_allowSignup s,
                vd_OIDCEnabled = (sv_authn s \<noteq> None), vd_CSRFToken = token, vd_Data = data\<rparr>;
          (buf, failed) = renderer name vd
      in if failed then [WriteHeader 500, WriteBody (''internal server error'' @ newline)]
         else [WriteHeader status, WriteBody buf])"

definition transcriptMessage :: "TranscriptStatus \<Rightarrow> string" where
  "transcriptMessage st = (case st of
     TranscriptPending \<Rightarrow> ''Transcript is queued and will appear once processing finishes.''
   | TranscriptProcessing \<Rightarrow> ''Transcript is being generated'' @ [CHR 0xE2, CHR 0x80, CHR 0xA6]
   | TranscriptFailed \<Rightarrow> ''Transcription failed for this episode.''
   | _ \<Rightarrow> ''No transcript is available for this episode.'')"

section \<open>Instrumentation\<close>

text \<open>
  \<open>instrumentHTTP\<close> around a handler that returned: the status its writer recorded and the
  route label, \<open>other\<close> when no pattern matched.  A handler that panics through it skips this.
\<close>

definition routeLabels :: "string \<Rightarrow> string list" where "routeLabels route = [''route'', route]"

definition statusLabels :: "string \<Rightarrow> int \<Rightarrow> string list" where
  "statusLabels route status = [''route'', route, ''status'', FormatInt status]"

definition instrumentHTTP :: "string \<times> int \<times> rat \<Rightarrow> 'w Registry \<Rightarrow> 'w Registry" where
  "instrumentHTTP req r =
     (case req of (route, status, elapsed) \<Rightarrow>
        Inc metricHTTPDurationCnt (routeLabels route)
          (Add metricHTTPDurationSum elapsed (routeLabels route)
             (Inc metricHTTPRequests (statusLabels route status) r)))"

lemma metric_names: "metricHTTPRequests \<noteq> metricHTTPDurationCnt" "metricHTTPRequests \<noteq> metricHTTPDurationSum"
  "metricHTTPDurationSum \<noteq> metricHTTPDurationCnt"
  by (simp_all add: metricHTTPRequests_def metricHTTPDurationCnt_def metricHTTPDurationSum_def)

lemma esc_quote_cancel:
  "escapeLabelValue s @ CHR 0x22 # x = escapeLabelValue t @ CHR 0x22 # y \<Longrightarrow> s = t \<and> x = y"
  unfolding concat_esc
proof (induction s arbitrary: t)
  case Nil
  then show ?case by (cases t) (auto simp: escChar_def split: if_splits)
next
  case (Cons c s)
  show ?case
  proof (cases t)
    case Nil
    then show ?thesis using Cons.prems by (auto simp: escChar_def split: if_splits)
  next
    case (Cons c' t')
    then have "c = c' \<and> concat (map (escChar True) s) @ CHR 0x22 # x = concat (map (escChar True) t') @ CHR 0x22 # y"
      using Cons.prems by (intro escChar_cancel) simp
    then show ?thesis using Cons.IH Cons by blast
  qed
qed

lemma routeLabels_inj: "renderLabels (routeLabels p) = renderLabels (routeLabels q) \<longleftrightarrow> p = q"
  by (auto simp: renderLabels_def routeLabels_def renderPairs_def renderPair_def dest: escapeLabelValue_inj)

lemma sort_status: "sort_key fst [(''route'', p), (''status'', q)] = [(''route'', p), (''status'', q)]"
proof -
  have "''route'' \<le> (''status'' :: string)" by code_simp
  then show ?thesis by (simp add: sort_key_def)
qed

lemma statusLabels_inj:
  "renderLabels (statusLabels p a) = renderLabels (statusLabels q b) \<longleftrightarrow> p = q \<and> a = b"
proof
  assume "renderLabels (statusLabels p a) = renderLabels (statusLabels q b)"
  then have "escapeLabelValue p @ CHR 0x22 # (CHR '','' # renderPair (''status'', FormatInt a) @ ''}'')
      = escapeLabelValue q @ CHR 0x22 # (CHR '','' # renderPair (''status'', FormatInt b) @ ''}'')"
    by (simp add: renderLabels_def statusLabels_def renderPairs_def sort_status) (simp add: renderPair_def)
  from esc_quote_cancel [OF this] have "p = q"
    and "escapeLabelValue (FormatInt a) @ [CHR 0x22, CHR ''}''] = escapeLabelValue (FormatInt b) @ [CHR 0x22, CHR ''}'']"
    by (simp_all add: renderPair_def)
  with esc_quote_cancel [of "FormatInt a" "''}''" "FormatInt b"] show "p = q \<and> a = b"
    by (simp add: FormatInt_inj)
qed simp

text \<open>The counters after any run are the numbers of requests, per route and per route and status.\<close>

theorem http_metrics_consistent:
  "seriesValue metricHTTPRequests (renderLabels (statusLabels p st)) (fold instrumentHTTP reqs r)
     = seriesValue metricHTTPRequests (renderLabels (statusLabels p st)) r
       + of_nat (length (filter (\<lambda>(q, b, _). q = p \<and> b = st) reqs))
   \<and> seriesValue metricHTTPDurationCnt (renderLabels (routeLabels p)) (fold instrumentHTTP reqs r)
     = seriesValue metricHTTPDurationCnt (renderLabels (routeLabels p)) r + of_nat (length (filter (\<lambda>(q, _). q = p) reqs))
   \<and> seriesValue metricHTTPDurationSum (renderLabels (routeLabels p)) (fold instrumentHTTP reqs r)
     = seriesValue metricHTTPDurationSum (renderLabels (routeLabels p)) r
       + (\<Sum>(q, _, el)\<leftarrow>filter (\<lambda>(q, _). q = p) reqs. el)"
proof (induction reqs arbitrary: r)
  case (Cons req reqs)
  obtain q b el where req: "req = (q, b, el)" by (metis surj_pair)
  show ?case
    using Cons.IH [of "instrumentHTTP req r"] metric_names
    by (auto simp: req instrumentHTTP_def Inc_value Add_def storeSample_value routeLabels_inj statusLabels_inj)
qed simp

end
