(* ===== verification/Render.thy ===== *)
theory Render
  imports Server Feed
begin

text \<open>
  The rest of \<open>server/render.go\<close>: the templates parsed at startup, one set per page, and the
  functions the templates call.  Parsing and execution of a template are \<open>html/template\<close>:
  \<open>parse\<close> gives the parsed set of a list of files, \<open>run\<close> the bytes it writes and whether it
  stopped with an error.
\<close>

section \<open>The parsed pages\<close>

type_synonym 't templateRenderer = "string \<rightharpoonup> 't"

definition pageFiles :: "string \<Rightarrow> string list" where
  "pageFiles name = [''templates/base.html'', ''templates/'' @ name @ ''.html'']"

fun parsePages :: "(string list \<Rightarrow> 't option) \<Rightarrow> string list \<Rightarrow> 't templateRenderer \<Rightarrow> string + 't templateRenderer" where
  "parsePages parse [] tr = Inr tr"
| "parsePages parse (name # names) tr =
     (case parse (pageFiles name) of
        None \<Rightarrow> Inl (''parse template '' @ name)
      | Some t \<Rightarrow> parsePages parse names (tr(name \<mapsto> t)))"

definition newTemplateRenderer :: "(string list \<Rightarrow> 't option) \<Rightarrow> string + 't templateRenderer" where
  "newTemplateRenderer parse = parsePages parse pageNames Map.empty"

definition RenderTemplate ::
    "('t \<Rightarrow> 'v ViewData \<Rightarrow> string \<times> bool) \<Rightarrow> 't templateRenderer \<Rightarrow> string \<Rightarrow> 'v ViewData \<Rightarrow> string \<times> bool" where
  "RenderTemplate run tr name vd = (case tr name of None \<Rightarrow> ([], True) | Some t \<Rightarrow> run t vd)"

section \<open>The functions of the templates\<close>

definition pageDuration :: "int \<Rightarrow> string" where
  "pageDuration secs =
     (let h = secs sdiv 3600; m = (secs smod 3600) sdiv 60; s = secs smod 60
      in if 0 < h then FormatInt h @ '':'' @ pad2 m @ '':'' @ pad2 s else FormatInt m @ '':'' @ pad2 s)"

text \<open>
  \<open>int(secs)\<close>: the fraction is dropped; what it gives for a value that does not fit (\<open>other\<close>)
  is left to the machine.
\<close>

definition fits_int :: "float64 \<Rightarrow> bool" where
  "fits_int x = (case x of Finite q \<Rightarrow> - (2 ^ 63) - 1 < q \<and> q < 2 ^ 63 | _ \<Rightarrow> False)"

definition float_to_int :: "(float64 \<Rightarrow> int) \<Rightarrow> float64 \<Rightarrow> int" where
  "float_to_int other x =
     (case x of
        Finite q \<Rightarrow> if fits_int x then (if 0 \<le> q then floor q else ceiling q) else other x
      | _ \<Rightarrow> other x)"

definition formatTimecode :: "(float64 \<Rightarrow> int) \<Rightarrow> float64 \<Rightarrow> string" where
  "formatTimecode other secs = pageDuration (float_to_int other secs)"

text \<open>The language choices of a channel, as code and name (UTF-8 bytes).\<close>

definition utf8 :: "nat list \<Rightarrow> string" where "utf8 = map char_of"

definition feedLanguages :: "(string \<times> string) list" where
  "feedLanguages =
     [(''en'', ''English''),
      (''ja'', ''Japanese ('' @ utf8 [0xE6, 0x97, 0xA5, 0xE6, 0x9C, 0xAC, 0xE8, 0xAA, 0x9E] @ '')''),
      (''zh'', ''Chinese ('' @ utf8 [0xE4, 0xB8, 0xAD, 0xE6, 0x96, 0x87] @ '')''),
      (''ko'', ''Korean ('' @ utf8 [0xED, 0x95, 0x9C, 0xEA, 0xB5, 0xAD, 0xEC, 0x96, 0xB4] @ '')''),
      (''es'', ''Spanish (Espa'' @ utf8 [0xC3, 0xB1] @ ''ol)''),
      (''pt'', ''Portuguese (Portugu'' @ utf8 [0xC3, 0xAA] @ ''s)''),
      (''fr'', ''French (Fran'' @ utf8 [0xC3, 0xA7] @ ''ais)''),
      (''de'', ''German (Deutsch)''),
      (''it'', ''Italian (Italiano)''),
      (''nl'', ''Dutch (Nederlands)''),
      (''ru'', ''Russian ('' @ utf8 [0xD0, 0xA0, 0xD1, 0x83, 0xD1, 0x81, 0xD1, 0x81, 0xD0, 0xBA, 0xD0, 0xB8, 0xD0, 0xB9] @ '')''),
      (''ar'', ''Arabic ('' @ utf8 [0xD8, 0xA7, 0xD9, 0x84, 0xD8, 0xB9, 0xD8, 0xB1, 0xD8, 0xA8, 0xD9, 0x8A, 0xD8, 0xA9] @ '')''),
      (''hi'', ''Hindi ('' @ utf8 [0xE0, 0xA4, 0xB9, 0xE0, 0xA4, 0xBF, 0xE0, 0xA4, 0xA8, 0xE0, 0xA5, 0x8D, 0xE0, 0xA4, 0xA6, 0xE0, 0xA5, 0x80] @ '')''),
      (''id'', ''Indonesian (Bahasa Indonesia)''),
      (''tr'', ''Turkish (T'' @ utf8 [0xC3, 0xBC] @ ''rk'' @ utf8 [0xC3, 0xA7] @ ''e)''),
      (''pl'', ''Polish (Polski)''),
      (''sv'', ''Swedish (Svenska)''),
      (''uk'', ''Ukrainian ('' @ utf8 [0xD0, 0xA3, 0xD0, 0xBA, 0xD1, 0x80, 0xD0, 0xB0, 0xD1, 0x97, 0xD0, 0xBD, 0xD1, 0x81, 0xD1, 0x8C, 0xD0, 0xBA, 0xD0, 0xB0] @ '')''),
      (''vi'', ''Vietnamese (Ti'' @ utf8 [0xE1, 0xBA, 0xBF] @ ''ng Vi'' @ utf8 [0xE1, 0xBB, 0x87] @ ''t)''),
      (''th'', ''Thai ('' @ utf8 [0xE0, 0xB9, 0x84, 0xE0, 0xB8, 0x97, 0xE0, 0xB8, 0xA2] @ '')'')]"

section \<open>What the pages rely on\<close>

lemma parsePages_Inr:
  "parsePages parse names tr = Inr tr' \<longleftrightarrow> (\<forall>n \<in> set names. parse (pageFiles n) \<noteq> None)
     \<and> tr' = (\<lambda>n. if n \<in> set names then parse (pageFiles n) else tr n)"
  by (induction names arbitrary: tr) (auto split: option.splits simp: fun_eq_iff)

text \<open>
  The renderer exists exactly when every page parses, and it then knows exactly the pages of
  \<open>pageNames\<close>: rendering is \<open>RenderPage\<close> over the parsed sets.
\<close>

lemma renderer_complete:
  "(\<exists>tr. newTemplateRenderer parse = Inr tr) \<longleftrightarrow> (\<forall>n \<in> set pageNames. parse (pageFiles n) \<noteq> None)"
  by (simp add: newTemplateRenderer_def parsePages_Inr)

lemma renderer_renders:
  assumes "newTemplateRenderer parse = Inr tr"
  shows "RenderTemplate run tr = RenderPage (\<lambda>name. run (the (parse (pageFiles name))))"
proof (intro ext)
  fix name vd
  from assms have "tr = (\<lambda>n. if n \<in> set pageNames then parse (pageFiles n) else None)"
    and "\<forall>n \<in> set pageNames. parse (pageFiles n) \<noteq> None"
    by (simp_all add: newTemplateRenderer_def parsePages_Inr)
  then show "RenderTemplate run tr name vd = RenderPage (\<lambda>name. run (the (parse (pageFiles name)))) name vd"
    by (auto simp: RenderTemplate_def RenderPage_def split: option.splits)
qed

text \<open>The page and the feed show the same duration, and a time code reads back as whole seconds.\<close>

lemma pageDuration_feed: "pageDuration = formatDuration"
  by (simp add: pageDuration_def formatDuration_def fun_eq_iff)

theorem timecode_roundtrip:
  assumes "0 \<le> q" "q < 2 ^ 63"
  shows "readDuration (formatTimecode other (Finite q)) = nat (floor q)"
proof -
  have "float_to_int other (Finite q) = floor q" using assms by (simp add: float_to_int_def fits_int_def)
  then show ?thesis using assms duration_roundtrip [of "floor q"] by (simp add: formatTimecode_def pageDuration_feed)
qed

lemma timecode_roundtrip_witness: "readDuration (formatTimecode (\<lambda>_. 0) (Finite (7451 / 2))) = 3725"
proof -
  have "floor (7451 / 2 :: rat) = 3725" by (simp add: floor_eq_iff)
  then show ?thesis using timecode_roundtrip [of "7451 / 2" "\<lambda>_. 0"] by simp
qed

text \<open>Each language code is two lower-case letters and occurs once.\<close>

lemma languages_distinct: "distinct (map fst feedLanguages)"
  by (simp add: feedLanguages_def)

lemma languages_codes: "list_all (\<lambda>l. length (fst l) = 2 \<and> list_all (\<lambda>c. c \<in> set ''abcdefghijklmnopqrstuvwxyz'') (fst l)) feedLanguages"
  by (simp add: feedLanguages_def)

end
