(* ===== verification/Config.thy ===== *)
theory Config
  imports Media Strconv
begin

text \<open>
  \<open>config/config.go\<close>: the configuration of \<open>castlet serve\<close> from flags with environment
  fallbacks, after the parsing of the \<open>flag\<close> package.  \<open>time.ParseDuration\<close>, the float parser
  and the base-guessing integer parser of flags are parameters; a float is a rational.
  \<open>strings.Fields\<close> and \<open>strings.ToLower\<close> are those on ASCII text.
\<close>

section \<open>The record\<close>

record Config =
  cf_Addr :: string
  cf_BaseURL :: string
  cf_DataDir :: string
  cf_SiteName :: string
  cf_Transcriber :: string
  cf_TranscribeCommand :: string
  cf_TranscribeTimeout :: duration
  cf_TranscribeTimeoutFactor :: rat
  cf_TranscribeTimeoutMin :: duration
  cf_ShutdownTimeout :: duration
  cf_WorkerPollInterval :: duration
  cf_JobLease :: duration
  cf_JobMaxAttempts :: int
  cf_MaxUploadBytes :: int
  cf_LogLevel :: string
  cf_AllowSignup :: bool
  cf_BlobStoreConfig :: string
  cf_OIDCIssuer :: string
  cf_OIDCClientID :: string
  cf_OIDCClientSecret :: string
  cf_OIDCRedirectURL :: string
  cf_TranscribeArgs :: "string list"
  cf_OIDCScopes :: "string list"
  cf_OIDCAllowedDomains :: "string list"
  cf_SessionKey :: string
  cf_GeneratedKey :: bool

record rawflags =
  rf_cfg :: Config
  rf_args0 :: string
  rf_scopes :: string
  rf_domains :: string

record parsers =
  pa_duration :: "string \<Rightarrow> duration option"
  pa_float :: "string \<Rightarrow> rat option"
  pa_int :: "string \<Rightarrow> int option"

definition minSessionKeyLen :: nat where "minSessionKeyLen = 32"

section \<open>Environment\<close>

text \<open>An unset variable reads as the empty string.\<close>

type_synonym environment = "string \<Rightarrow> string"

definition envStr :: "environment \<Rightarrow> string \<Rightarrow> string \<Rightarrow> string" where
  "envStr env key dflt = (if env key \<noteq> [] then env key else dflt)"

definition envParsed :: "(string \<Rightarrow> 'a option) \<Rightarrow> environment \<Rightarrow> string \<Rightarrow> 'a \<Rightarrow> 'a" where
  "envParsed parse env key dflt =
     (if env key = [] then dflt else (case parse (env key) of None \<Rightarrow> dflt | Some v \<Rightarrow> v))"

definition ParseBool :: "string \<Rightarrow> bool option" where
  "ParseBool s =
     (if s \<in> {''1'', ''t'', ''T'', ''true'', ''TRUE'', ''True''} then Some True
      else if s \<in> {''0'', ''f'', ''F'', ''false'', ''FALSE'', ''False''} then Some False else None)"

text \<open>The defaults of the flags.\<close>

definition flagDefaults :: "parsers \<Rightarrow> environment \<Rightarrow> rawflags" where
  "flagDefaults ps env =
    \<lparr>rf_cfg =
      \<lparr>cf_Addr = envStr env ''CASTLET_ADDR'' '':8080'',
       cf_BaseURL = envStr env ''CASTLET_BASE_URL'' ''http://localhost:8080'',
       cf_DataDir = envStr env ''CASTLET_DATA_DIR'' ''./data'',
       cf_SiteName = envStr env ''CASTLET_SITE_NAME'' ''Castlet'',
       cf_Transcriber = envStr env ''CASTLET_TRANSCRIBER'' ''null'',
       cf_TranscribeCommand = envStr env ''CASTLET_TRANSCRIBE_COMMAND'' [],
       cf_TranscribeTimeout = envParsed (pa_duration ps) env ''CASTLET_TRANSCRIBE_TIMEOUT'' (2 * Hour),
       cf_TranscribeTimeoutFactor = envParsed (pa_float ps) env ''CASTLET_TRANSCRIBE_TIMEOUT_FACTOR'' (3 / 2),
       cf_TranscribeTimeoutMin = envParsed (pa_duration ps) env ''CASTLET_TRANSCRIBE_TIMEOUT_MIN'' (5 * Minute),
       cf_ShutdownTimeout = envParsed (pa_duration ps) env ''CASTLET_SHUTDOWN_TIMEOUT'' (10 * Second),
       cf_WorkerPollInterval = envParsed (pa_duration ps) env ''CASTLET_WORKER_POLL_INTERVAL'' (5 * Second),
       cf_JobLease = envParsed (pa_duration ps) env ''CASTLET_JOB_LEASE'' (10 * Minute),
       cf_JobMaxAttempts = envParsed ParseInt env ''CASTLET_JOB_MAX_ATTEMPTS'' (5),
       cf_MaxUploadBytes = envParsed ParseInt env ''CASTLET_MAX_UPLOAD_BYTES'' (512 * 1048576),
       cf_LogLevel = envStr env ''CASTLET_LOG_LEVEL'' ''info'',
       cf_AllowSignup = envParsed ParseBool env ''CASTLET_ALLOW_SIGNUP'' (False),
       cf_BlobStoreConfig = envStr env ''CASTLET_BLOB_STORE_CONFIG'' [],
       cf_OIDCIssuer = envStr env ''CASTLET_OIDC_ISSUER'' [],
       cf_OIDCClientID = envStr env ''CASTLET_OIDC_CLIENT_ID'' [],
       cf_OIDCClientSecret = envStr env ''CASTLET_OIDC_CLIENT_SECRET'' [],
       cf_OIDCRedirectURL = envStr env ''CASTLET_OIDC_REDIRECT_URL'' [],
       cf_TranscribeArgs = [], cf_OIDCScopes = [], cf_OIDCAllowedDomains = [], cf_SessionKey = [], cf_GeneratedKey = False\<rparr>,
     rf_args0 = envStr env ''CASTLET_TRANSCRIBE_ARGS'' ''{{audio}}'',
     rf_scopes = envStr env ''CASTLET_OIDC_SCOPES'' ''openid profile email'',
     rf_domains = envStr env ''CASTLET_OIDC_ALLOWED_DOMAINS'' []\<rparr>"

section \<open>Flags\<close>

type_synonym 'c flagentry = "string \<times> bool \<times> (string \<Rightarrow> 'c \<Rightarrow> 'c option)"

definition strVar :: "(string \<Rightarrow> 'c \<Rightarrow> 'c) \<Rightarrow> string \<Rightarrow> 'c \<Rightarrow> 'c option" where
  "strVar upd v c = Some (upd v c)"

definition parsedVar :: "(string \<Rightarrow> 'a option) \<Rightarrow> ('a \<Rightarrow> 'c \<Rightarrow> 'c) \<Rightarrow> string \<Rightarrow> 'c \<Rightarrow> 'c option" where
  "parsedVar parse upd s c = (case parse s of None \<Rightarrow> None | Some v \<Rightarrow> Some (upd v c))"

definition serveFlags :: "parsers \<Rightarrow> rawflags flagentry list" where
  "serveFlags ps =
    [(''addr'', False, strVar (\<lambda>v c. c\<lparr>rf_cfg := (rf_cfg c)\<lparr>cf_Addr := v\<rparr>\<rparr>)),
     (''base-url'', False, strVar (\<lambda>v c. c\<lparr>rf_cfg := (rf_cfg c)\<lparr>cf_BaseURL := v\<rparr>\<rparr>)),
     (''data-dir'', False, strVar (\<lambda>v c. c\<lparr>rf_cfg := (rf_cfg c)\<lparr>cf_DataDir := v\<rparr>\<rparr>)),
     (''site-name'', False, strVar (\<lambda>v c. c\<lparr>rf_cfg := (rf_cfg c)\<lparr>cf_SiteName := v\<rparr>\<rparr>)),
     (''transcriber'', False, strVar (\<lambda>v c. c\<lparr>rf_cfg := (rf_cfg c)\<lparr>cf_Transcriber := v\<rparr>\<rparr>)),
     (''transcribe-command'', False, strVar (\<lambda>v c. c\<lparr>rf_cfg := (rf_cfg c)\<lparr>cf_TranscribeCommand := v\<rparr>\<rparr>)),
     (''transcribe-timeout'', False, parsedVar (pa_duration ps) (\<lambda>v c. c\<lparr>rf_cfg := (rf_cfg c)\<lparr>cf_TranscribeTimeout := v\<rparr>\<rparr>)),
     (''transcribe-timeout-factor'', False, parsedVar (pa_float ps) (\<lambda>v c. c\<lparr>rf_cfg := (rf_cfg c)\<lparr>cf_TranscribeTimeoutFactor := v\<rparr>\<rparr>)),
     (''transcribe-timeout-min'', False, parsedVar (pa_duration ps) (\<lambda>v c. c\<lparr>rf_cfg := (rf_cfg c)\<lparr>cf_TranscribeTimeoutMin := v\<rparr>\<rparr>)),
     (''shutdown-timeout'', False, parsedVar (pa_duration ps) (\<lambda>v c. c\<lparr>rf_cfg := (rf_cfg c)\<lparr>cf_ShutdownTimeout := v\<rparr>\<rparr>)),
     (''worker-poll-interval'', False, parsedVar (pa_duration ps) (\<lambda>v c. c\<lparr>rf_cfg := (rf_cfg c)\<lparr>cf_WorkerPollInterval := v\<rparr>\<rparr>)),
     (''job-lease'', False, parsedVar (pa_duration ps) (\<lambda>v c. c\<lparr>rf_cfg := (rf_cfg c)\<lparr>cf_JobLease := v\<rparr>\<rparr>)),
     (''job-max-attempts'', False, parsedVar (pa_int ps) (\<lambda>v c. c\<lparr>rf_cfg := (rf_cfg c)\<lparr>cf_JobMaxAttempts := v\<rparr>\<rparr>)),
     (''max-upload-bytes'', False, parsedVar (pa_int ps) (\<lambda>v c. c\<lparr>rf_cfg := (rf_cfg c)\<lparr>cf_MaxUploadBytes := v\<rparr>\<rparr>)),
     (''log-level'', False, strVar (\<lambda>v c. c\<lparr>rf_cfg := (rf_cfg c)\<lparr>cf_LogLevel := v\<rparr>\<rparr>)),
     (''allow-signup'', True, parsedVar ParseBool (\<lambda>v c. c\<lparr>rf_cfg := (rf_cfg c)\<lparr>cf_AllowSignup := v\<rparr>\<rparr>)),
     (''blob-store-config'', False, strVar (\<lambda>v c. c\<lparr>rf_cfg := (rf_cfg c)\<lparr>cf_BlobStoreConfig := v\<rparr>\<rparr>)),
     (''oidc-issuer'', False, strVar (\<lambda>v c. c\<lparr>rf_cfg := (rf_cfg c)\<lparr>cf_OIDCIssuer := v\<rparr>\<rparr>)),
     (''oidc-client-id'', False, strVar (\<lambda>v c. c\<lparr>rf_cfg := (rf_cfg c)\<lparr>cf_OIDCClientID := v\<rparr>\<rparr>)),
     (''oidc-client-secret'', False, strVar (\<lambda>v c. c\<lparr>rf_cfg := (rf_cfg c)\<lparr>cf_OIDCClientSecret := v\<rparr>\<rparr>)),
     (''oidc-redirect-url'', False, strVar (\<lambda>v c. c\<lparr>rf_cfg := (rf_cfg c)\<lparr>cf_OIDCRedirectURL := v\<rparr>\<rparr>)),
     (''transcribe-args'', False, strVar (\<lambda>v c. c\<lparr>rf_args0 := v\<rparr>)),
     (''oidc-scopes'', False, strVar (\<lambda>v c. c\<lparr>rf_scopes := v\<rparr>)),
     (''oidc-allowed-domains'', False, strVar (\<lambda>v c. c\<lparr>rf_domains := v\<rparr>))]"

datatype flag_error = ErrHelp | BadSyntax string | NotDefined string | NeedsArgument string | InvalidValue string

text \<open>\<open>name=value\<close>, split at the first equals sign after the first byte.\<close>

definition splitFlag :: "string \<Rightarrow> string \<times> string option" where
  "splitFlag s = (let n = takeWhile (\<lambda>c. c \<noteq> CHR ''='') (tl s); r = drop (length n) (tl s) in
     (hd s # n, case r of [] \<Rightarrow> None | _ # v \<Rightarrow> Some v))"

definition setFlag :: "'c flagentry \<Rightarrow> string \<Rightarrow> 'c \<Rightarrow> flag_error + 'c" where
  "setFlag e v c = (case snd (snd e) v c of None \<Rightarrow> Inl (InvalidValue (fst e)) | Some c' \<Rightarrow> Inr c')"

text \<open>\<open>FlagSet.Parse\<close> over the variables \<open>'c\<close>: it stops at the first argument that is no flag, or after \<open>--\<close>.\<close>

fun parseFlags :: "'c flagentry list \<Rightarrow> string list \<Rightarrow> 'c \<Rightarrow> flag_error + 'c" where
  "parseFlags tab [] c = Inr c"
| "parseFlags tab (a # as) c =
     (if length a < 2 \<or> hd a \<noteq> CHR ''-'' \<or> a = ''--'' then Inr c
      else (let s = (if a ! 1 = CHR ''-'' then drop 2 a else drop 1 a) in
        if hd s = CHR ''-'' \<or> hd s = CHR ''='' then Inl (BadSyntax a)
        else (let (name, val) = splitFlag s in
          case find (\<lambda>e. fst e = name) tab of
            None \<Rightarrow> Inl (if name = ''help'' \<or> name = ''h'' then ErrHelp else NotDefined name)
          | Some e \<Rightarrow>
              if fst (snd e) then
                (case setFlag e (case val of None \<Rightarrow> ''true'' | Some v \<Rightarrow> v) c of
                   Inl x \<Rightarrow> Inl x | Inr c' \<Rightarrow> parseFlags tab as c')
              else (case val of
                Some v \<Rightarrow> (case setFlag e v c of Inl x \<Rightarrow> Inl x | Inr c' \<Rightarrow> parseFlags tab as c')
              | None \<Rightarrow>
                  (case as of
                     [] \<Rightarrow> Inl (NeedsArgument name)
                   | v # rest \<Rightarrow> (case setFlag e v c of Inl x \<Rightarrow> Inl x | Inr c' \<Rightarrow> parseFlags tab rest c'))))))"

section \<open>Load\<close>

definition isSpace :: "char \<Rightarrow> bool" where
  "isSpace c \<longleftrightarrow> c \<in> {CHR '' '', CHR 0x09, CHR 0x0A, CHR 0x0B, CHR 0x0C, CHR 0x0D}"

fun FieldsOf :: "string \<Rightarrow> string \<Rightarrow> string list" where
  "FieldsOf acc [] = (if acc = [] then [] else [rev acc])"
| "FieldsOf acc (c # s) =
     (if isSpace c then (if acc = [] then FieldsOf [] s else rev acc # FieldsOf [] s) else FieldsOf (c # acc) s)"

definition parseDomains :: "string \<Rightarrow> string list" where
  "parseDomains s = filter (\<lambda>d. d \<noteq> []) (map (\<lambda>d. toLowerAscii (trimSpace d)) (Split CHR '','' s))"

datatype load_error = FlagError flag_error | MustBePositive string | AttemptsTooFew | SessionKeyTooShort

definition knobs :: "Config \<Rightarrow> (string \<times> bool) list" where
  "knobs cfg =
     [(''transcribe-timeout-min'', 0 < cf_TranscribeTimeoutMin cfg),
      (''shutdown-timeout'', 0 < cf_ShutdownTimeout cfg),
      (''worker-poll-interval'', 0 < cf_WorkerPollInterval cfg),
      (''job-lease'', 0 < cf_JobLease cfg),
      (''max-upload-bytes'', 0 < cf_MaxUploadBytes cfg)]"

text \<open>\<open>rnd\<close> are the 32 bytes of \<open>randomKey\<close>.\<close>

definition Load :: "parsers \<Rightarrow> environment \<Rightarrow> string \<Rightarrow> string list \<Rightarrow> load_error + Config" where
  "Load ps env rnd args =
     (case parseFlags (serveFlags ps) args (flagDefaults ps env) of
        Inl e \<Rightarrow> Inl (FlagError e)
      | Inr raw \<Rightarrow>
          (let cfg0 = (rf_cfg raw)\<lparr>cf_TranscribeArgs := FieldsOf [] (rf_args0 raw),
                 cf_OIDCScopes := FieldsOf [] (rf_scopes raw), cf_OIDCAllowedDomains := parseDomains (rf_domains raw)\<rparr>;
               cfg = (if cf_OIDCRedirectURL cfg0 = []
                      then cfg0\<lparr>cf_OIDCRedirectURL := trimRightSlash (cf_BaseURL cfg0) @ ''/auth/oidc/callback''\<rparr> else cfg0)
           in case find (\<lambda>(_, ok). \<not> ok) (knobs cfg) of
                Some (name, _) \<Rightarrow> Inl (MustBePositive name)
              | None \<Rightarrow>
                  if cf_JobMaxAttempts cfg < 1 then Inl AttemptsTooFew
                  else (let key = env ''CASTLET_SESSION_KEY'' in
                    if key \<noteq> [] then
                      (if length key < minSessionKeyLen then Inl SessionKeyTooShort
                       else Inr (cfg\<lparr>cf_SessionKey := key\<rparr>))
                    else Inr (cfg\<lparr>cf_SessionKey := rnd, cf_GeneratedKey := True\<rparr>))))"

section \<open>What a loaded configuration satisfies\<close>

lemma parseDomains_normal:
  "dn \<in> set (parseDomains s) \<Longrightarrow> dn \<noteq> [] \<and> toLowerAscii dn = dn"
  by (auto simp: parseDomains_def)

lemma knobs_ok: "find (\<lambda>(_, ok). \<not> ok) (knobs cfg) = None \<longleftrightarrow>
   0 < cf_TranscribeTimeoutMin cfg \<and> 0 < cf_ShutdownTimeout cfg \<and> 0 < cf_WorkerPollInterval cfg
   \<and> 0 < cf_JobLease cfg \<and> 0 < cf_MaxUploadBytes cfg"
  by (simp add: knobs_def)

lemma setters_keep:
  "e \<in> set (serveFlags ps) \<Longrightarrow> snd (snd e) v c = Some c' \<Longrightarrow> cf_GeneratedKey (rf_cfg c') = cf_GeneratedKey (rf_cfg c)"
  unfolding serveFlags_def by (auto simp: strVar_def parsedVar_def split: option.splits)

lemma setFlag_Inr: "setFlag e v c = Inr c' \<longleftrightarrow> snd (snd e) v c = Some c'"
  by (simp add: setFlag_def split: option.splits)

lemma parseFlags_step:
  assumes "parseFlags tab (a # as) c = Inr c'"
  shows "c' = c \<or> (\<exists>e v c1 rest. e \<in> set tab \<and> snd (snd e) v c = Some c1 \<and> length rest \<le> length as \<and> parseFlags tab rest c1 = Inr c')"
proof (cases "length a < 2 \<or> hd a \<noteq> CHR ''-'' \<or> a = ''--''")
  case False
  define s where "s = (if a ! 1 = CHR ''-'' then drop 2 a else drop 1 a)"
  obtain name val where nv: "splitFlag s = (name, val)" by fastforce
  have p: "parseFlags tab (a # as) c =
      (if hd s = CHR ''-'' \<or> hd s = CHR ''='' then Inl (BadSyntax a)
       else (case find (\<lambda>e. fst e = name) tab of
            None \<Rightarrow> Inl (if name = ''help'' \<or> name = ''h'' then ErrHelp else NotDefined name)
          | Some e \<Rightarrow>
              if fst (snd e) then
                (case setFlag e (case val of None \<Rightarrow> ''true'' | Some v \<Rightarrow> v) c of
                   Inl x \<Rightarrow> Inl x | Inr c' \<Rightarrow> parseFlags tab as c')
              else (case val of
                Some v \<Rightarrow> (case setFlag e v c of Inl x \<Rightarrow> Inl x | Inr c' \<Rightarrow> parseFlags tab as c')
              | None \<Rightarrow>
                  (case as of
                     [] \<Rightarrow> Inl (NeedsArgument name)
                   | v # rest \<Rightarrow> (case setFlag e v c of Inl x \<Rightarrow> Inl x | Inr c' \<Rightarrow> parseFlags tab rest c')))))"
    using False by (simp only: parseFlags.simps if_False Let_def s_def [symmetric] nv prod.case)
  then obtain e where e: "find (\<lambda>e. fst e = name) tab = Some e"
    using assms by (cases "find (\<lambda>e. fst e = name) tab") (simp_all split: if_splits)
  then have "e \<in> set tab" by (auto dest: find_SomeD)
  moreover have "\<exists>v c1 rest. setFlag e v c = Inr c1 \<and> length rest \<le> length as \<and> parseFlags tab rest c1 = Inr c'"
  proof (cases "\<not> fst (snd e) \<and> val = None")
    case True
    with p e assms show ?thesis
      by (cases as) (auto split: if_splits sum.splits simp del: parseFlags.simps intro: le_SucI)
  next
    case False
    with p e assms obtain v where "(case setFlag e v c of Inl x \<Rightarrow> Inl x | Inr c' \<Rightarrow> parseFlags tab as c') = Inr c'"
      by (auto split: if_splits option.splits simp del: parseFlags.simps)
    then have "\<exists>c1. setFlag e v c = Inr c1 \<and> parseFlags tab as c1 = Inr c'" by (cases "setFlag e v c") simp_all
    then show ?thesis by blast
  qed
  ultimately show ?thesis unfolding setFlag_Inr by blast
qed (use assms in auto)

lemma parseFlags_keep:
  assumes "\<forall>e v c c'. e \<in> set tab \<longrightarrow> snd (snd e) v c = Some c' \<longrightarrow> g c' = g c"
  shows "parseFlags tab as c = Inr c' \<Longrightarrow> g c' = g c"
proof (induction "length as" arbitrary: as c rule: less_induct)
  case less
  show ?case
  proof (cases as)
    case (Cons a as')
    with less.prems have "parseFlags tab (a # as') c = Inr c'" by simp
    from parseFlags_step [OF this] show ?thesis
    proof (elim disjE exE conjE)
      fix e v c1 rest
      assume "e \<in> set tab" "snd (snd e) v c = Some c1" "length rest \<le> length as'" "parseFlags tab rest c1 = Inr c'"
      then show ?thesis using less.hyps [of rest c1] assms Cons by (metis le_imp_less_Suc length_Cons)
    qed simp
  qed (use less.prems in simp)
qed

theorem load_validates:
  assumes "Load ps env rnd args = Inr cfg" "length rnd = 32"
  shows "0 < cf_TranscribeTimeoutMin cfg \<and> 0 < cf_ShutdownTimeout cfg \<and> 0 < cf_WorkerPollInterval cfg
    \<and> 0 < cf_JobLease cfg \<and> 0 < cf_MaxUploadBytes cfg \<and> 1 \<le> cf_JobMaxAttempts cfg
    \<and> minSessionKeyLen \<le> length (cf_SessionKey cfg)
    \<and> cf_SessionKey cfg = (if cf_GeneratedKey cfg then rnd else env ''CASTLET_SESSION_KEY'')
    \<and> cf_OIDCRedirectURL cfg \<noteq> []
    \<and> (\<forall>dn \<in> set (cf_OIDCAllowedDomains cfg). dn \<noteq> [] \<and> toLowerAscii dn = dn)"
proof -
  obtain raw where raw: "parseFlags (serveFlags ps) args (flagDefaults ps env) = Inr raw"
    using assms(1) by (cases "parseFlags (serveFlags ps) args (flagDefaults ps env)") (auto simp: Load_def)
  define cfg0 where "cfg0 = (rf_cfg raw)\<lparr>cf_TranscribeArgs := FieldsOf [] (rf_args0 raw),
      cf_OIDCScopes := FieldsOf [] (rf_scopes raw), cf_OIDCAllowedDomains := parseDomains (rf_domains raw)\<rparr>"
  define cfg1 where "cfg1 = (if cf_OIDCRedirectURL cfg0 = []
      then cfg0\<lparr>cf_OIDCRedirectURL := trimRightSlash (cf_BaseURL cfg0) @ ''/auth/oidc/callback''\<rparr> else cfg0)"
  have r: "cf_OIDCRedirectURL cfg1 \<noteq> []" "cf_OIDCAllowedDomains cfg1 = parseDomains (rf_domains raw)"
    by (simp_all add: cfg1_def cfg0_def)
  have "cf_GeneratedKey (rf_cfg raw) = cf_GeneratedKey (rf_cfg (flagDefaults ps env))"
    by (rule parseFlags_keep [OF _ raw]) (use setters_keep in blast)
  then have g: "\<not> cf_GeneratedKey cfg1" by (simp add: cfg1_def cfg0_def flagDefaults_def)
  have k: "find (\<lambda>(_, ok). \<not> ok) (knobs cfg1) = None" "\<not> cf_JobMaxAttempts cfg1 < 1"
    and key: "(let key = env ''CASTLET_SESSION_KEY'' in
        if key \<noteq> [] then (if length key < minSessionKeyLen then Inl SessionKeyTooShort else Inr (cfg1\<lparr>cf_SessionKey := key\<rparr>))
        else Inr (cfg1\<lparr>cf_SessionKey := rnd, cf_GeneratedKey := True\<rparr>)) = (Inr cfg :: load_error + Config)"
    using assms(1) unfolding Load_def raw sum.case Let_def cfg0_def [symmetric] cfg1_def [symmetric]
    by (auto split: option.splits if_splits)
  show ?thesis using k key r g assms(2) by (auto simp: Let_def knobs_ok minSessionKeyLen_def split: if_splits dest: parseDomains_normal)
qed

section \<open>Flag syntax\<close>

definition plainName :: "string \<Rightarrow> bool" where
  "plainName n \<longleftrightarrow> n \<noteq> [] \<and> CHR ''='' \<notin> set n \<and> hd n \<noteq> CHR ''-''"

lemma serveFlags_names: "list_all (\<lambda>e. plainName (fst e)) (serveFlags ps)" "distinct (map fst (serveFlags ps))"
  by (simp_all add: serveFlags_def plainName_def)

lemma takeWhile_to: "x \<notin> set l \<Longrightarrow> takeWhile (\<lambda>c. c \<noteq> x) (l @ x # v) = l" "x \<notin> set l \<Longrightarrow> takeWhile (\<lambda>c. c \<noteq> x) l = l"
  by (induction l) auto

lemma splitFlag_plain: "plainName n \<Longrightarrow> splitFlag (n @ CHR ''='' # v) = (n, Some v) \<and> splitFlag n = (n, None)"
  by (cases n) (simp_all add: plainName_def splitFlag_def Let_def takeWhile_to)

text \<open>
  The four ways to write a value flag (one or two dashes, with an equals sign or a separate
  argument) have the same effect on the configuration and the same errors.
\<close>

theorem flag_forms_equivalent:
  assumes "e \<in> set (serveFlags ps)" "\<not> fst (snd e)"
  shows "parseFlags (serveFlags ps) ((''--'' @ fst e @ ''='' @ v) # rest) c
       = (case snd (snd e) v c of None \<Rightarrow> Inl (InvalidValue (fst e)) | Some c' \<Rightarrow> parseFlags (serveFlags ps) rest c')
   \<and> parseFlags (serveFlags ps) ((''-'' @ fst e @ ''='' @ v) # rest) c = parseFlags (serveFlags ps) ((''--'' @ fst e @ ''='' @ v) # rest) c
   \<and> parseFlags (serveFlags ps) ((''--'' @ fst e) # v # rest) c = parseFlags (serveFlags ps) ((''--'' @ fst e @ ''='' @ v) # rest) c
   \<and> parseFlags (serveFlags ps) ((''-'' @ fst e) # v # rest) c = parseFlags (serveFlags ps) ((''--'' @ fst e @ ''='' @ v) # rest) c"
proof -
  have n: "plainName (fst e)" using serveFlags_names(1) assms(1) by (simp add: list_all_iff)
  then obtain a m where am: "fst e = a # m" "a \<noteq> CHR ''-''" "a \<noteq> CHR ''=''"
    by (cases "fst e") (auto simp: plainName_def)
  have f: "find (\<lambda>e'. fst e' = fst e) (serveFlags ps) = Some e"
    by (rule find_key [OF serveFlags_names(2) assms(1)])
  show ?thesis
    using splitFlag_plain [OF n, of v] f assms(2) unfolding am
    by (auto simp: setFlag_def am split: option.splits)
qed

section \<open>A concrete configuration\<close>

definition ex_parsers :: parsers where
  "ex_parsers = \<lparr>pa_duration = (\<lambda>_. None), pa_float = (\<lambda>_. None), pa_int = ParseInt\<rparr>"

definition ex_environment :: environment where
  "ex_environment = (\<lambda>k. if k = ''CASTLET_DATA_DIR'' then ''/srv'' else if k = ''CASTLET_JOB_LEASE'' then ''soon'' else [])"

definition ex_key :: string where "ex_key = replicate 32 CHR ''k''"

lemma ex_load:
  "\<exists>cfg. Load ex_parsers ex_environment ex_key [''--addr'', '':9''] = Inr cfg \<and> cf_Addr cfg = '':9'' \<and> cf_DataDir cfg = ''/srv''
     \<and> cf_JobLease cfg = 10 * Minute \<and> cf_GeneratedKey cfg \<and> cf_Transcriber cfg = ''null''"
proof -
  let ?e = "(''addr'', False, strVar (\<lambda>v c. c\<lparr>rf_cfg := (rf_cfg c)\<lparr>cf_Addr := v\<rparr>\<rparr>))"
  have "find (\<lambda>e. fst e = ''addr'') (serveFlags ex_parsers) = Some ?e" by (simp add: serveFlags_def)
  then have "parseFlags (serveFlags ex_parsers) [''--addr'', '':9''] c = Inr (c\<lparr>rf_cfg := (rf_cfg c)\<lparr>cf_Addr := '':9''\<rparr>\<rparr>)" for c
    by (simp add: splitFlag_def setFlag_def strVar_def)
  then show ?thesis
    by (simp add: Load_def flagDefaults_def envStr_def envParsed_def ex_parsers_def ex_environment_def knobs_def units)
qed

lemma load_validates_witness:
  "\<exists>cfg. Load ex_parsers ex_environment ex_key [''--addr'', '':9''] = Inr cfg \<and> 0 < cf_WorkerPollInterval cfg
     \<and> minSessionKeyLen \<le> length (cf_SessionKey cfg)"
proof -
  obtain cfg where l: "Load ex_parsers ex_environment ex_key [''--addr'', '':9''] = Inr cfg" using ex_load by blast
  have "length ex_key = 32" by (simp add: ex_key_def)
  from load_validates [OF l this] l show ?thesis by blast
qed

lemma flag_forms_equivalent_witness:
  "parseFlags (serveFlags ex_parsers) [''-addr'', '':9''] (flagDefaults ex_parsers ex_environment)
     = parseFlags (serveFlags ex_parsers) [''--addr=:9''] (flagDefaults ex_parsers ex_environment)"
proof -
  let ?e = "(''addr'', False, strVar (\<lambda>v c. c\<lparr>rf_cfg := (rf_cfg c)\<lparr>cf_Addr := v\<rparr>\<rparr>))"
  have "?e \<in> set (serveFlags ex_parsers)" by (simp add: serveFlags_def)
  from flag_forms_equivalent [OF this, of "'':9''" "[]" "flagDefaults ex_parsers ex_environment"] show ?thesis by simp
qed

end
