(* ===== verification/OidcClient.thy ===== *)
theory OidcClient
  imports Oidc
begin

text \<open>
  \<open>auth/oidc/oidc.go\<close>: the OpenID Connect client.  The OAuth2 exchange, the verification of an
  ID token and the parsing of its claims (go-oidc) are parameters, as is discovery.
\<close>

section \<open>Construction\<close>

record oidcConfig =
  oc_Issuer :: string
  oc_ClientID :: string
  oc_ClientSecret :: string
  oc_RedirectURL :: string
  oc_Scopes :: "string list"

definition ScopeOpenID :: string where "ScopeOpenID = ''openid''"

definition withOpenID :: "string list \<Rightarrow> string list" where
  "withOpenID scopes =
     (if scopes = [] then [ScopeOpenID, ''profile'', ''email'']
      else if ScopeOpenID \<in> set scopes then scopes else ScopeOpenID # scopes)"

record idToken =
  tk_Issuer :: string
  tk_Subject :: string
  tk_Nonce :: string
  tk_Claims :: "(string \<times> bool \<times> string) option"

text \<open>
  A discovered provider: its code exchange for a client, whose response may lack an ID token,
  and the check of a raw ID token for a client.
\<close>

record provider =
  pv_exchange :: "oidcConfig \<Rightarrow> string \<Rightarrow> string option option"
  pv_verify :: "string \<Rightarrow> string \<Rightarrow> idToken option"
  pv_authURL :: "oidcConfig \<Rightarrow> string \<Rightarrow> string \<Rightarrow> string"

record Authenticator =
  au_provider :: provider
  au_oauth2 :: oidcConfig

definition NewAuthenticator :: "(string \<Rightarrow> provider option) \<Rightarrow> oidcConfig \<Rightarrow> string + Authenticator" where
  "NewAuthenticator discover cfg =
     (if oc_ClientID cfg = [] \<or> oc_ClientSecret cfg = [] then Inl ''oidc: client id and secret are required''
      else (case discover (oc_Issuer cfg) of
              None \<Rightarrow> Inl ''oidc: discovery''
            | Some p \<Rightarrow> Inr \<lparr>au_provider = p, au_oauth2 = cfg\<lparr>oc_Scopes := withOpenID (oc_Scopes cfg)\<rparr>\<rparr>))"

definition AuthCodeURL :: "Authenticator \<Rightarrow> string \<Rightarrow> string \<Rightarrow> string" where
  "AuthCodeURL a state nonce = pv_authURL (au_provider a) (au_oauth2 a) state nonce"

definition Exchange :: "Authenticator \<Rightarrow> string \<Rightarrow> string \<Rightarrow> string + Identity" where
  "Exchange a code nonce =
     (case pv_exchange (au_provider a) (au_oauth2 a) code of
        None \<Rightarrow> Inl ''oidc: token exchange''
      | Some None \<Rightarrow> Inl ''oidc: response has no id_token''
      | Some (Some rawID) \<Rightarrow>
          (case pv_verify (au_provider a) (oc_ClientID (au_oauth2 a)) rawID of
             None \<Rightarrow> Inl ''oidc: verify id token''
           | Some tok \<Rightarrow>
               if tk_Nonce tok \<noteq> nonce then Inl ''oidc: id token nonce mismatch''
               else (case tk_Claims tok of
                       None \<Rightarrow> Inl ''oidc: parse claims''
                     | Some (email, verified, name) \<Rightarrow>
                         Inr \<lparr>id_Issuer = tk_Issuer tok, id_Subject = tk_Subject tok, id_Email = email,
                              id_EmailVerified = verified, id_Name = name\<rparr>)))"

text \<open>The authenticator as the handlers see it.\<close>

definition exchangeOf :: "Authenticator \<Rightarrow> string \<Rightarrow> string \<Rightarrow> Identity option" where
  "exchangeOf a code nonce = (case Exchange a code nonce of Inl _ \<Rightarrow> None | Inr i \<Rightarrow> Some i)"

lemma withOpenID_has: "ScopeOpenID \<in> set (withOpenID scopes) \<and> set scopes \<subseteq> set (withOpenID scopes)"
  by (simp add: withOpenID_def) blast

lemma exchangeOf_Some:
  "exchangeOf a code nonce = Some i \<Longrightarrow> \<exists>rawID tok. pv_exchange (au_provider a) (au_oauth2 a) code = Some (Some rawID)
     \<and> pv_verify (au_provider a) (oc_ClientID (au_oauth2 a)) rawID = Some tok \<and> tk_Nonce tok = nonce
     \<and> id_Issuer i = tk_Issuer tok \<and> id_Subject i = tk_Subject tok
     \<and> tk_Claims tok = Some (id_Email i, id_EmailVerified i, id_Name i)"
  by (auto simp: exchangeOf_def Exchange_def split: option.splits if_splits prod.splits)

section \<open>The interface of an authenticator\<close>

text \<open>
  What \<open>auth/auth.go\<close> promises the callback: an exchange returns an identity only when the
  provider vouched for it under the supplied nonce.
\<close>

locale authenticator =
  fixes exchange :: "string \<Rightarrow> string \<Rightarrow> Identity option"
    and vouched :: "string \<Rightarrow> Identity \<Rightarrow> bool"
  assumes exchange_vouched: "exchange code nonce = Some i \<Longrightarrow> vouched nonce i"
begin

lemma callback_vouched:
  assumes "wf_db d" "handleOIDCCallback env secure domains (Some exchange) between1 [] r d = (rs, d')" "rs_Status rs = 303"
  shows "\<exists>nonce i (u :: user). map_of (rq_Cookies r) oidcStateCookie = Some (getFirst (rq_Query r) ''state'')
    \<and> map_of (rq_Cookies r) oidcNonceCookie = Some nonce \<and> vouched nonce i
    \<and> identity_of (u_ID u) d' = Some (id_Issuer i, id_Subject i)
    \<and> last (rs_Cookies rs) = Issue (ae_sessions env) (u_ID u) (u_SessionEpoch u) (ae_now env)"
  using oidc_callback_facts [OF assms] exchange_vouched by blast

end

definition vouchedBy :: "Authenticator \<Rightarrow> string \<Rightarrow> Identity \<Rightarrow> bool" where
  "vouchedBy a nonce i \<longleftrightarrow> (\<exists>rawID tok. pv_verify (au_provider a) (oc_ClientID (au_oauth2 a)) rawID = Some tok
     \<and> tk_Nonce tok = nonce \<and> id_Issuer i = tk_Issuer tok \<and> id_Subject i = tk_Subject tok)"

interpretation oa: authenticator "exchangeOf a" "vouchedBy a" for a
  by unfold_locales (use exchangeOf_Some in \<open>fastforce simp: vouchedBy_def\<close>)

section \<open>Single sign-on end to end\<close>

text \<open>
  C17: A single sign-on that starts a session rests on an ID token the discovered provider
  verified for this client, with the nonce and state of the browser that began it, and the
  session belongs to the account bound to exactly the identity of the token.
\<close>

theorem sso_end_to_end:
  assumes "wf_db d" "NewAuthenticator discover cfg = Inr a"
    and "handleOIDCCallback env secure domains (Some (exchangeOf a)) between1 [] r d = (rs, d')" "rs_Status rs = 303"
  shows "\<exists>p rawID tok (u :: user). discover (oc_Issuer cfg) = Some p \<and> pv_verify p (oc_ClientID cfg) rawID = Some tok
    \<and> map_of (rq_Cookies r) oidcNonceCookie = Some (tk_Nonce tok)
    \<and> map_of (rq_Cookies r) oidcStateCookie = Some (getFirst (rq_Query r) ''state'')
    \<and> identity_of (u_ID u) d' = Some (tk_Issuer tok, tk_Subject tok)
    \<and> last (rs_Cookies rs) = Issue (ae_sessions env) (u_ID u) (u_SessionEpoch u) (ae_now env)
    \<and> ScopeOpenID \<in> set (oc_Scopes (au_oauth2 a))"
proof -
  from assms(2) obtain p where p: "discover (oc_Issuer cfg) = Some p"
      "a = \<lparr>au_provider = p, au_oauth2 = cfg\<lparr>oc_Scopes := withOpenID (oc_Scopes cfg)\<rparr>\<rparr>"
    by (auto simp: NewAuthenticator_def split: if_splits option.splits)
  obtain nonce i and u :: user where f: "map_of (rq_Cookies r) oidcStateCookie = Some (getFirst (rq_Query r) ''state'')"
      "map_of (rq_Cookies r) oidcNonceCookie = Some nonce" "vouchedBy a nonce i"
      "identity_of (u_ID u) d' = Some (id_Issuer i, id_Subject i)"
      "last (rs_Cookies rs) = Issue (ae_sessions env) (u_ID u) (u_SessionEpoch u) (ae_now env)"
    using oa.callback_vouched [OF assms(1,3,4)] by blast
  from f(3) obtain rawID tok where "pv_verify p (oc_ClientID cfg) rawID = Some tok" "tk_Nonce tok = nonce"
      "id_Issuer i = tk_Issuer tok" "id_Subject i = tk_Subject tok"
    by (auto simp: p(2) vouchedBy_def)
  then show ?thesis using p f withOpenID_has by auto
qed

section \<open>A concrete provider\<close>

definition ex_provider :: provider where
  "ex_provider = \<lparr>pv_exchange = (\<lambda>cfg code. if code = ''co'' then Some (Some ''jwt'') else None),
     pv_verify = (\<lambda>client raw. Some \<lparr>tk_Issuer = id_Issuer ex_identity, tk_Subject = id_Subject ex_identity, tk_Nonce = ''no'',
        tk_Claims = Some (id_Email ex_identity, id_EmailVerified ex_identity, id_Name ex_identity)\<rparr>),
     pv_authURL = (\<lambda>cfg s n. s @ n)\<rparr>"

definition ex_oidc :: oidcConfig where
  "ex_oidc = \<lparr>oc_Issuer = ''iss'', oc_ClientID = ''c'', oc_ClientSecret = ''s'', oc_RedirectURL = [], oc_Scopes = []\<rparr>"

lemma sso_end_to_end_witness:
  "\<exists>u :: user. identity_of (u_ID u) (snd (handleOIDCCallback ex_authenv True [''b'']
     (Some (exchangeOf \<lparr>au_provider = ex_provider, au_oauth2 = ex_oidc\<lparr>oc_Scopes := withOpenID []\<rparr>\<rparr>)) [] [] ex_callback
     (sv_db ex_server))) = Some (''iss'', ''sub'')"
proof -
  let ?a = "\<lparr>au_provider = ex_provider, au_oauth2 = ex_oidc\<lparr>oc_Scopes := withOpenID []\<rparr>\<rparr>"
  have n: "NewAuthenticator (\<lambda>_. Some ex_provider) ex_oidc = Inr ?a" by (simp add: NewAuthenticator_def ex_oidc_def)
  have x: "exchangeOf ?a ''co'' ''no'' = Some ex_identity"
    by (simp add: exchangeOf_def Exchange_def ex_provider_def)
  obtain rs d' where h: "handleOIDCCallback ex_authenv True [''b''] (Some (exchangeOf ?a)) [] [] ex_callback (sv_db ex_server)
      = (rs, d')" by fastforce
  have "rs_Status rs = 303" using ex_callback_redirects [of "exchangeOf ?a"] x h by simp
  from sso_end_to_end [OF ex_server_wf n h this] h show ?thesis
    by (auto simp: ex_provider_def ex_identity_def)
qed

end
