(* ===== verification/Lifecycle.thy ===== *)
theory Lifecycle
  imports Prelude
begin

text \<open>
  The life of a serving process: \<open>App.Serve\<close> of \<open>app/app.go\<close> with the goroutines it starts,
  \<open>Server.Run\<close> of \<open>server/server.go\<close> and \<open>Worker.Run\<close> of \<open>worker/worker.go\<close>, as one step
  relation.  Time passes while every goroutine waits: a timer fires at its deadline, and a
  goroutine whose channel is ready runs at once.  Binding the address, the start of the
  worker, a failure of the accept loop and the connections of clients are choices of the
  environment.
\<close>

section \<open>State\<close>

datatype serve_end = ErrServerClosed | HttpErrServerClosed | ServeFailed string

text \<open>
  The server goroutine: serving; in \<open>Shutdown\<close> with the deadline of its context; after it,
  waiting for the accept loop with the deadline of the grace timer; exited.  \<open>lc_busy\<close> counts
  the connections \<open>net/http\<close> does not hold for idle, \<open>lc_forced\<close> tells that \<open>Shutdown\<close> gave up
  on them and \<open>Close\<close> was called, which does not wait for their handlers.
\<close>

datatype srv_phase = SrvNone | SrvServing | SrvDraining time | SrvUnwinding time | SrvDone
datatype wk_phase = WkNone | WkRunning | WkDone

datatype serve_pc = Binding | Starting | ServerOnly | WaitingServer | WaitingWorker | Returned

record lifecycle =
  lc_now :: time
  lc_cancelAt :: "time option"
  lc_boundAt :: "time option"
  lc_srv :: srv_phase
  lc_srvErr :: "serve_end option"
  lc_busy :: nat
  lc_forced :: bool
  lc_wk :: wk_phase
  lc_wkErr :: "string option"
  lc_pc :: serve_pc
  lc_errors :: "string list"

definition shutdownDrainGrace :: duration where [units]: "shutdownDrainGrace = 2 * Second"

text \<open>\<open>Controller.Err\<close> of the server; that of the worker has only its own closed error to hide.\<close>

definition controllerErr :: "serve_end option \<Rightarrow> string list" where
  "controllerErr e = (case e of Some (ServeFailed m) \<Rightarrow> [m] | _ \<Rightarrow> [])"

definition workerErr :: "string option \<Rightarrow> string list" where
  "workerErr e = (case e of None \<Rightarrow> [] | Some m \<Rightarrow> [m])"

definition cancelCtx :: "lifecycle \<Rightarrow> lifecycle" where
  "cancelCtx s = (if lc_cancelAt s = None then s\<lparr>lc_cancelAt := Some (lc_now s)\<rparr> else s)"

definition startServe :: "time \<Rightarrow> lifecycle" where
  "startServe t = \<lparr>lc_now = t, lc_cancelAt = None, lc_boundAt = None, lc_srv = SrvNone, lc_srvErr = None,
     lc_busy = 0, lc_forced = False, lc_wk = WkNone, lc_wkErr = None, lc_pc = Binding, lc_errors = []\<rparr>"

section \<open>Steps\<close>

text \<open>
  \<open>act T\<close>: a step of a goroutine or of the environment, with \<open>shutdownTimeout\<close> \<open>T\<close>.  A
  return runs the deferred \<open>cancel\<close>.
\<close>

inductive act :: "duration \<Rightarrow> lifecycle \<Rightarrow> lifecycle \<Rightarrow> bool" for T where
  setup_fails: "lc_pc s = Binding \<Longrightarrow> act T s (cancelCtx (s\<lparr>lc_pc := Returned, lc_errors := [e]\<rparr>))"
| bind_ok: "lc_pc s = Binding \<Longrightarrow> act T s (s\<lparr>lc_pc := Starting, lc_srv := SrvServing, lc_boundAt := Some (lc_now s)\<rparr>)"
| worker_fails: "lc_pc s = Starting \<Longrightarrow> act T s (cancelCtx (s\<lparr>lc_pc := ServerOnly, lc_errors := [''app: start worker: '' @ e]\<rparr>))"
| worker_starts: "lc_pc s = Starting \<Longrightarrow> act T s (s\<lparr>lc_pc := WaitingServer, lc_wk := WkRunning\<rparr>)"
| server_only_done: "lc_pc s = ServerOnly \<Longrightarrow> lc_srv s = SrvDone \<Longrightarrow>
    act T s (s\<lparr>lc_pc := Returned, lc_errors := lc_errors s @ controllerErr (lc_srvErr s)\<rparr>)"
| server_done: "lc_pc s = WaitingServer \<Longrightarrow> lc_srv s = SrvDone \<Longrightarrow> act T s (cancelCtx (s\<lparr>lc_pc := WaitingWorker\<rparr>))"
| worker_done: "lc_pc s = WaitingWorker \<Longrightarrow> lc_wk s = WkDone \<Longrightarrow>
    act T s (s\<lparr>lc_pc := Returned, lc_errors := controllerErr (lc_srvErr s) @ workerErr (lc_wkErr s)\<rparr>)"
| signal: "lc_cancelAt s = None \<Longrightarrow> act T s (cancelCtx s)"
| accept_fails: "lc_srv s = SrvServing \<Longrightarrow> e \<noteq> ErrServerClosed \<Longrightarrow> act T s (s\<lparr>lc_srv := SrvDone, lc_srvErr := Some e\<rparr>)"
| shutdown: "lc_srv s = SrvServing \<Longrightarrow> lc_cancelAt s \<noteq> None \<Longrightarrow> act T s (s\<lparr>lc_srv := SrvDraining (lc_now s + T)\<rparr>)"
| drained: "lc_srv s = SrvDraining dl \<Longrightarrow> lc_busy s = 0 \<Longrightarrow> act T s (s\<lparr>lc_srv := SrvUnwinding (lc_now s + shutdownDrainGrace)\<rparr>)"
| forced: "lc_srv s = SrvDraining dl \<Longrightarrow> dl \<le> lc_now s \<Longrightarrow>
    act T s (s\<lparr>lc_srv := SrvUnwinding (lc_now s + shutdownDrainGrace), lc_forced := True\<rparr>)"
| unwound: "lc_srv s = SrvUnwinding dl \<Longrightarrow> act T s (s\<lparr>lc_srv := SrvDone, lc_srvErr := Some ErrServerClosed\<rparr>)"
| worker_stops: "lc_wk s = WkRunning \<Longrightarrow> lc_cancelAt s \<noteq> None \<Longrightarrow> act T s (s\<lparr>lc_wk := WkDone\<rparr>)"

text \<open>Time passes up to the next deadline, and not while the server goroutine is ready to run.\<close>

definition may_wait :: "time \<Rightarrow> lifecycle \<Rightarrow> bool" where
  "may_wait t s \<longleftrightarrow> (case lc_srv s of SrvServing \<Rightarrow> lc_cancelAt s = None
     | SrvDraining dl \<Rightarrow> t \<le> dl | SrvUnwinding dl \<Rightarrow> t \<le> dl | _ \<Rightarrow> True)"

text \<open>
  What the goroutines do not choose: time passes, a connection becomes busy while the server
  accepts or, after the accept loop has failed, on a connection still open, and a busy one ends.
\<close>

inductive outside :: "lifecycle \<Rightarrow> lifecycle \<Rightarrow> bool" where
  tick: "lc_now s \<le> t \<Longrightarrow> may_wait t s \<Longrightarrow> outside s (s\<lparr>lc_now := t\<rparr>)"
| begins: "lc_srv s = SrvServing \<or> lc_srv s = SrvDone \<and> lc_srvErr s \<noteq> Some ErrServerClosed \<Longrightarrow>
    outside s (s\<lparr>lc_busy := Suc (lc_busy s)\<rparr>)"
| ends: "outside s (s\<lparr>lc_busy := lc_busy s - 1\<rparr>)"

inductive life :: "duration \<Rightarrow> lifecycle \<Rightarrow> lifecycle \<Rightarrow> bool" for T where
  act: "act T s s' \<Longrightarrow> life T s s'"
| outside: "outside s s' \<Longrightarrow> life T s s'"

inductive runs_to :: "duration \<Rightarrow> time \<Rightarrow> lifecycle \<Rightarrow> bool" for T t0 where
  start: "runs_to T t0 (startServe t0)"
| step: "runs_to T t0 s \<Longrightarrow> life T s s' \<Longrightarrow> runs_to T t0 s'"

inductive_cases act_elim: "act T s s'"

section \<open>Invariant\<close>

text \<open>What is running by where \<open>Serve\<close> is, and where the clock stands after a cancellation.\<close>

definition phases_ok :: "lifecycle \<Rightarrow> bool" where
  "phases_ok s \<longleftrightarrow> (case lc_pc s of
      Binding \<Rightarrow> lc_srv s = SrvNone \<and> lc_wk s = WkNone
    | Starting \<Rightarrow> lc_srv s \<noteq> SrvNone \<and> lc_wk s = WkNone
    | ServerOnly \<Rightarrow> lc_srv s \<noteq> SrvNone \<and> lc_wk s = WkNone \<and> lc_cancelAt s \<noteq> None \<and> lc_errors s \<noteq> []
    | WaitingServer \<Rightarrow> lc_srv s \<noteq> SrvNone \<and> lc_wk s \<noteq> WkNone
    | WaitingWorker \<Rightarrow> lc_srv s = SrvDone \<and> lc_wk s \<noteq> WkNone \<and> lc_cancelAt s \<noteq> None
    | Returned \<Rightarrow> (lc_srv s = SrvNone \<and> lc_wk s = WkNone \<and> lc_errors s \<noteq> []
        \<or> lc_srv s = SrvDone \<and> (lc_wk s = WkDone \<or> lc_wk s = WkNone \<and> lc_errors s \<noteq> [])) \<and> lc_cancelAt s \<noteq> None)"

definition clock_ok :: "duration \<Rightarrow> lifecycle \<Rightarrow> bool" where
  "clock_ok T s \<longleftrightarrow> (\<forall>t. lc_cancelAt s = Some t \<longrightarrow> t \<le> lc_now s) \<and>
     (lc_srv s = SrvNone \<or> (\<exists>b. lc_boundAt s = Some b \<and> b \<le> lc_now s \<and> (case lc_srv s of
        SrvServing \<Rightarrow> (\<forall>t. lc_cancelAt s = Some t \<longrightarrow> lc_now s = max t b)
      | SrvDraining dl \<Rightarrow> (\<exists>t. lc_cancelAt s = Some t \<and> dl = max t b + T \<and> lc_now s \<le> dl)
      | SrvUnwinding dl \<Rightarrow> (\<exists>t. lc_cancelAt s = Some t \<and> dl \<le> max t b + T + shutdownDrainGrace \<and> lc_now s \<le> dl)
      | _ \<Rightarrow> True)))"

text \<open>A drain ends without busy connections or at its deadline.\<close>

definition drain_ok :: "duration \<Rightarrow> lifecycle \<Rightarrow> bool" where
  "drain_ok T s \<longleftrightarrow>
     (lc_forced s \<longrightarrow> (\<exists>t b. lc_cancelAt s = Some t \<and> lc_boundAt s = Some b \<and> max t b + T \<le> lc_now s)) \<and>
     (lc_busy s \<noteq> 0 \<and> ((\<exists>dl. lc_srv s = SrvUnwinding dl) \<or> lc_srv s = SrvDone \<and> lc_srvErr s = Some ErrServerClosed)
        \<longrightarrow> lc_forced s) \<and>
     (lc_srv s = SrvNone \<longrightarrow> lc_busy s = 0 \<and> \<not> lc_forced s)"

lemma cancelCtx_simps [simp]:
  "lc_busy (cancelCtx s) = lc_busy s" "lc_forced (cancelCtx s) = lc_forced s"
  "lc_srv (cancelCtx s) = lc_srv s" "lc_wk (cancelCtx s) = lc_wk s" "lc_pc (cancelCtx s) = lc_pc s"
  "lc_errors (cancelCtx s) = lc_errors s" "lc_now (cancelCtx s) = lc_now s" "lc_cancelAt (cancelCtx s) \<noteq> None"
  "lc_srvErr (cancelCtx s) = lc_srvErr s" "lc_boundAt (cancelCtx s) = lc_boundAt s"
  "lc_cancelAt (cancelCtx s) = (if lc_cancelAt s = None then Some (lc_now s) else lc_cancelAt s)"
  by (auto simp: cancelCtx_def)

lemma act_phases: "act T s s' \<Longrightarrow> phases_ok s \<Longrightarrow> phases_ok s'"
  by (erule act.cases) (auto simp: phases_ok_def split: serve_pc.splits)

lemma clock_keep:
  "clock_ok T s \<Longrightarrow> lc_srv s' = lc_srv s \<Longrightarrow> lc_boundAt s' = lc_boundAt s \<Longrightarrow> lc_now s' = lc_now s \<Longrightarrow>
     lc_cancelAt s' = (if lc_cancelAt s = None then lc_cancelAt s' else lc_cancelAt s) \<Longrightarrow>
     lc_cancelAt s' \<in> {None, lc_cancelAt s, Some (lc_now s)} \<Longrightarrow> clock_ok T s'"
  unfolding clock_ok_def by (cases "lc_srv s"; cases "lc_cancelAt s") auto

lemma act_clock:
  assumes "act T s s'" "phases_ok s" "clock_ok T s" "0 \<le> T"
  shows "clock_ok T s'"
  using assms(1)
proof cases
  case bind_ok
  then have "lc_srv s = SrvNone" using assms(2) by (simp add: phases_ok_def)
  then show ?thesis using assms(3) bind_ok(1) by (auto simp: clock_ok_def max_def)
next
  case (accept_fails e)
  then show ?thesis using assms(3) by (auto simp: clock_ok_def)
next
  case shutdown
  then show ?thesis using assms(3,4) by (auto simp: clock_ok_def)
next
  case (drained dl)
  then show ?thesis using assms(3) by (auto simp: clock_ok_def units)
next
  case (forced dl)
  then show ?thesis using assms(3) by (auto simp: clock_ok_def units)
next
  case (unwound dl)
  then show ?thesis using assms(3) by (auto simp: clock_ok_def)
qed (rule clock_keep [OF assms(3)]; simp)+

lemma act_drain:
  assumes "act T s s'" "phases_ok s" "clock_ok T s" "drain_ok T s"
  shows "drain_ok T s'"
  using assms(1)
proof cases
  case (forced dl)
  then show ?thesis using assms(3) by (auto simp: clock_ok_def drain_ok_def)
next
  case bind_ok
  then show ?thesis using assms(2,4) by (auto simp: phases_ok_def drain_ok_def)
qed (use assms(4) in \<open>auto simp: drain_ok_def\<close>)

lemma busy_irrelevant [simp]:
  "phases_ok (s\<lparr>lc_busy := n\<rparr>) = phases_ok s" "clock_ok T (s\<lparr>lc_busy := n\<rparr>) = clock_ok T s"
  by (cases "lc_pc s"; simp add: phases_ok_def) (cases "lc_srv s"; simp add: clock_ok_def)

lemma clock_irrelevant [simp]: "phases_ok (s\<lparr>lc_now := t\<rparr>) = phases_ok s"
  by (cases "lc_pc s") (simp_all add: phases_ok_def)

lemma outside_ok:
  assumes "outside s s'" "phases_ok s \<and> clock_ok T s \<and> drain_ok T s"
  shows "phases_ok s' \<and> clock_ok T s' \<and> drain_ok T s'"
  using assms(1)
proof cases
  case (tick t)
  then show ?thesis
    using assms(2) by (auto simp: clock_ok_def drain_ok_def may_wait_def split: srv_phase.splits)
qed (use assms(2) in \<open>auto simp: drain_ok_def\<close>)

lemma reachable_ok:
  assumes "runs_to T t0 s" "0 \<le> T"
  shows "phases_ok s \<and> clock_ok T s \<and> drain_ok T s"
  using assms(1)
proof induction
  case start
  show ?case by (simp add: startServe_def phases_ok_def clock_ok_def drain_ok_def)
next
  case (step s s')
  from step.hyps(2) show ?case
  proof cases
    case act
    then show ?thesis using step.IH act_phases act_clock act_drain assms(2) by blast
  qed (use step.IH outside_ok in blast)
qed

section \<open>Guarantees\<close>

text \<open>
  C25: The worker never starts before the listener is bound, and when Serve has returned neither
  the server nor the worker goroutine is running; after a shutdown a connection is still busy
  then only if the shutdown timeout has run out on it.
\<close>

theorem nothing_outlives_serve:
  assumes "runs_to T t0 s" "0 \<le> T"
  shows "(lc_wk s \<noteq> WkNone \<longrightarrow> lc_srv s \<noteq> SrvNone)
    \<and> (lc_pc s = Returned \<longrightarrow> lc_srv s \<in> {SrvNone, SrvDone} \<and> lc_wk s \<in> {WkNone, WkDone} \<and> lc_cancelAt s \<noteq> None
         \<and> (lc_wk s = WkNone \<longrightarrow> lc_errors s \<noteq> [])
         \<and> (lc_srvErr s = Some ErrServerClosed \<and> lc_busy s \<noteq> 0 \<longrightarrow>
              (\<exists>t b. lc_cancelAt s = Some t \<and> lc_boundAt s = Some b \<and> max t b + T \<le> lc_now s)))"
  using reachable_ok [OF assms] by (auto simp: phases_ok_def drain_ok_def split: serve_pc.splits)

text \<open>
  C24: The server goroutine is gone once the shutdown timeout and the grace period have passed
  after the cancellation, however requests behave.
\<close>

theorem shutdown_is_bounded:
  assumes "runs_to T t0 s" "0 \<le> T" "lc_cancelAt s = Some t" "lc_boundAt s = Some b"
    and "max t b + T + shutdownDrainGrace < lc_now s"
  shows "lc_srv s \<in> {SrvNone, SrvDone}"
  using reachable_ok [OF assms(1,2)] assms by (auto simp: clock_ok_def units split: srv_phase.splits)

text \<open>A number that every step of a goroutine decreases.\<close>

definition rank :: "lifecycle \<Rightarrow> nat" where
  "rank s = (case lc_pc s of Binding \<Rightarrow> 20 | Starting \<Rightarrow> 12 | WaitingServer \<Rightarrow> 6 | ServerOnly \<Rightarrow> 5 | WaitingWorker \<Rightarrow> 3
       | Returned \<Rightarrow> 0)
     + (case lc_srv s of SrvServing \<Rightarrow> 4 | SrvDraining _ \<Rightarrow> 3 | SrvUnwinding _ \<Rightarrow> 2 | _ \<Rightarrow> 0)
     + (if lc_wk s = WkRunning then 1 else 0) + (if lc_cancelAt s = None then 1 else 0)"

lemma act_rank: "act T s s' \<Longrightarrow> phases_ok s \<Longrightarrow> rank s' < rank s"
  by (erule act.cases) (auto simp: rank_def phases_ok_def split: srv_phase.splits serve_pc.splits)

text \<open>
  The only wait of a cancelled \<open>Serve\<close> that no goroutine can end is the drain of busy connections
  before its deadline.
\<close>

definition draining :: "lifecycle \<Rightarrow> bool" where
  "draining s \<longleftrightarrow> lc_busy s \<noteq> 0 \<and> (\<exists>dl. lc_srv s = SrvDraining dl \<and> lc_now s < dl)"

lemma act_progress:
  assumes "phases_ok s" "lc_cancelAt s \<noteq> None" "lc_pc s \<noteq> Returned" "\<not> draining s"
  shows "\<exists>s'. act T s s'"
proof (cases "lc_srv s")
  case SrvNone
  then have "lc_pc s = Binding" using assms by (auto simp: phases_ok_def split: serve_pc.splits)
  then show ?thesis by (blast intro: act.intros)
next
  case (SrvDraining dl)
  then have "lc_busy s = 0 \<or> dl \<le> lc_now s" using assms(4) by (auto simp: draining_def)
  then show ?thesis using SrvDraining by (blast intro: act.intros)
next
  case SrvDone
  show ?thesis
  proof (cases "lc_wk s = WkRunning")
    case False
    then have "lc_pc s = Starting \<or> lc_pc s = ServerOnly \<or> lc_pc s = WaitingServer \<or> lc_pc s = WaitingWorker \<and> lc_wk s = WkDone"
      using assms SrvDone by (cases "lc_wk s"; cases "lc_pc s") (auto simp: phases_ok_def)
    then show ?thesis using SrvDone by (blast intro: act.intros)
  qed (use assms(2) in \<open>blast intro: act.intros\<close>)
qed (use assms in \<open>blast intro: act.intros\<close>)+

lemma act_keeps_cancelled: "act T s s' \<Longrightarrow> lc_cancelAt s \<noteq> None \<Longrightarrow> lc_cancelAt s' \<noteq> None"
  by (erule act.cases) auto

text \<open>\<open>serves T n s s'\<close>: a run with \<open>n\<close> steps of the goroutines and anything else in between.\<close>

inductive serves :: "duration \<Rightarrow> nat \<Rightarrow> lifecycle \<Rightarrow> lifecycle \<Rightarrow> bool" for T where
  none: "serves T 0 s s"
| goroutine: "serves T n s s1 \<Longrightarrow> act T s1 s2 \<Longrightarrow> serves T (Suc n) s s2"
| other: "serves T n s s1 \<Longrightarrow> outside s1 s2 \<Longrightarrow> serves T n s s2"

lemma outside_keeps: "outside s s' \<Longrightarrow> lc_cancelAt s' = lc_cancelAt s \<and> rank s' = rank s \<and> (phases_ok s \<longrightarrow> phases_ok s')"
  by (erule outside.cases) (auto simp: rank_def)

lemma serves_keeps:
  "serves T n s s' \<Longrightarrow> phases_ok s \<Longrightarrow> lc_cancelAt s \<noteq> None \<Longrightarrow> phases_ok s' \<and> lc_cancelAt s' \<noteq> None \<and> n + rank s' \<le> rank s"
proof (induction rule: serves.induct)
  case (goroutine n s s1 s2)
  then have "rank s2 < rank s1" using act_rank by blast
  then show ?case using goroutine act_phases act_keeps_cancelled by fastforce
qed (use outside_keeps in force)+

lemma serves_trans: "serves T m s1 s2 \<Longrightarrow> serves T n s0 s1 \<Longrightarrow> serves T (n + m) s0 s2"
  by (induction rule: serves.induct) (auto intro: serves.intros)

text \<open>Even when no busy connection ever ends, waiting for the deadline of the drain is enough.\<close>

lemma serve_can_return:
  assumes "phases_ok s" "lc_cancelAt s \<noteq> None"
  shows "\<exists>n s'. serves T n s s' \<and> lc_pc s' = Returned \<and> lc_busy s' = lc_busy s"
  using assms
proof (induction "rank s" arbitrary: s rule: less_induct)
  case less
  have go: ?case if "act T s1 s2" "serves T 0 s s1" "phases_ok s1" "lc_cancelAt s1 \<noteq> None" "rank s1 = rank s"
      "lc_busy s2 = lc_busy s" for s1 s2
  proof -
    note same = that(6)
    have "rank s2 < rank s" using act_rank [OF that(1,3)] that(5) by simp
    from less.hyps [OF this act_phases [OF that(1,3)] act_keeps_cancelled [OF that(1,4)]]
    obtain n s' where "serves T n s2 s'" "lc_pc s' = Returned" "lc_busy s' = lc_busy s" using same by auto
    then show ?thesis using serves_trans [OF _ serves.goroutine [OF that(2,1)]] by blast
  qed
  have busy: "lc_busy s2 = lc_busy s1" if "act T s1 s2" for s1 s2
    using that by cases (auto simp: cancelCtx_def)
  consider "lc_pc s = Returned" | "lc_pc s \<noteq> Returned" "draining s" | "lc_pc s \<noteq> Returned" "\<not> draining s" by blast
  then show ?case
  proof cases
    case 1
    then show ?thesis using serves.none by blast
  next
    case 2
    then obtain dl where dl: "lc_srv s = SrvDraining dl" "lc_now s < dl" by (auto simp: draining_def)
    let ?s = "s\<lparr>lc_now := dl\<rparr>"
    have t: "outside s ?s" by (rule outside.tick) (use dl in \<open>simp_all add: may_wait_def\<close>)
    have f: "act T ?s (?s\<lparr>lc_srv := SrvUnwinding (lc_now ?s + shutdownDrainGrace), lc_forced := True\<rparr>)"
      by (rule act.forced [of _ dl]) (simp_all add: dl)
    show ?thesis by (rule go [OF f serves.other [OF serves.none t]]) (use outside_keeps [OF t] less.prems in auto)
  next
    case 3
    from act_progress [OF less.prems 3] obtain s2 where "act T s s2" by blast
    then show ?thesis using go [OF _ serves.none less.prems refl] busy by blast
  qed
qed

text \<open>
  C23: Once the context is cancelled, Serve returns: no run has more than 25 steps of the
  goroutines, one in which none can step has returned unless it is draining busy connections
  before the shutdown deadline, and it can return even when no connection ever becomes idle.
\<close>

theorem serve_returns:
  assumes "runs_to T t0 s" "0 \<le> T" "lc_cancelAt s \<noteq> None"
  shows "(\<forall>n s'. serves T n s s' \<longrightarrow> n \<le> 25 \<and> ((\<nexists>s''. act T s' s'') \<longrightarrow> lc_pc s' = Returned
          \<or> lc_busy s' \<noteq> 0 \<and> (\<exists>dl. lc_srv s' = SrvDraining dl \<and> lc_now s' < dl)))
    \<and> (\<exists>n s'. serves T n s s' \<and> lc_pc s' = Returned \<and> lc_busy s' = lc_busy s)"
proof -
  have ok: "phases_ok s" using reachable_ok assms by blast
  have "rank s \<le> 25"
    using ok by (auto simp: rank_def phases_ok_def split: serve_pc.splits srv_phase.splits)
  then have "n \<le> 25 \<and> ((\<nexists>s''. act T s' s'') \<longrightarrow> lc_pc s' = Returned \<or> draining s')" if "serves T n s s'" for n s'
    using serves_keeps [OF that ok assms(3)] act_progress [of s' T] by auto
  then show ?thesis using serve_can_return [OF ok assms(3), of T] unfolding draining_def by blast
qed

section \<open>A concrete run\<close>

text \<open>The address is bound, a signal arrives at once, and the server shuts down.\<close>

definition ex_life :: "srv_phase \<Rightarrow> serve_end option \<Rightarrow> lifecycle" where
  "ex_life phase e = \<lparr>lc_now = 0, lc_cancelAt = Some 0, lc_boundAt = Some 0, lc_srv = phase, lc_srvErr = e,
     lc_busy = 0, lc_forced = False, lc_wk = WkNone, lc_wkErr = None, lc_pc = Starting, lc_errors = []\<rparr>"

lemma ex_serving: "runs_to T 0 (ex_life SrvServing None)"
proof -
  have "runs_to T 0 ((startServe 0)\<lparr>lc_pc := Starting, lc_srv := SrvServing, lc_boundAt := Some (lc_now (startServe 0))\<rparr>)"
    by (rule runs_to.step [OF runs_to.start life.act [OF act.bind_ok]]) (simp add: startServe_def)
  from runs_to.step [OF this life.act [OF act.signal]] show ?thesis
    by (simp add: startServe_def ex_life_def cancelCtx_def)
qed

lemma ex_stopped: "runs_to T 0 (ex_life SrvDone (Some ErrServerClosed))"
proof -
  have "act T (ex_life SrvServing None) (ex_life (SrvDraining T) None)"
    using act.shutdown [of "ex_life SrvServing None" T] by (simp add: ex_life_def)
  moreover have "act T (ex_life (SrvDraining T) None) (ex_life (SrvUnwinding shutdownDrainGrace) None)"
    using act.drained [of "ex_life (SrvDraining T) None" T T] by (simp add: ex_life_def)
  moreover have "act T (ex_life (SrvUnwinding shutdownDrainGrace) None) (ex_life SrvDone (Some ErrServerClosed))"
    using act.unwound [of "ex_life (SrvUnwinding shutdownDrainGrace) None" shutdownDrainGrace T] by (simp add: ex_life_def)
  ultimately show ?thesis using ex_serving by (meson life.act runs_to.step)
qed

lemma runs_serves: "serves T n s s' \<Longrightarrow> runs_to T t0 s \<Longrightarrow> runs_to T t0 s'"
  by (induction rule: serves.induct) (auto intro: runs_to.step life.intros)

text \<open>
  \<open>Close\<close> does not wait for handlers: \<open>Serve\<close> can return while one still runs, after the shutdown
  timeout has run out on it.
\<close>

theorem handlers_can_outlive_serve: "\<exists>s. runs_to (10 * Second) 0 s \<and> lc_pc s = Returned \<and> lc_busy s = 1"
proof -
  let ?s = "(ex_life SrvServing None)\<lparr>lc_busy := Suc (lc_busy (ex_life SrvServing None))\<rparr>"
  have r: "runs_to (10 * Second) 0 ?s"
    by (rule runs_to.step [OF ex_serving life.outside [OF outside.begins]]) (simp add: ex_life_def)
  have "phases_ok ?s" using reachable_ok [OF r] by (simp add: units)
  from serve_can_return [OF this, of "10 * Second"] obtain n s'
    where "serves (10 * Second) n ?s s'" "lc_pc s' = Returned" "lc_busy s' = lc_busy ?s" by (auto simp: ex_life_def)
  then show ?thesis using runs_serves [OF _ r] by (auto simp: ex_life_def)
qed

lemma nothing_outlives_serve_witness:
  "lc_srv (cancelCtx ((startServe 0)\<lparr>lc_pc := Returned, lc_errors := [''listen'']\<rparr>)) \<in> {SrvNone, SrvDone}"
proof -
  have "runs_to 1 0 (cancelCtx ((startServe 0)\<lparr>lc_pc := Returned, lc_errors := [''listen'']\<rparr>))"
    by (rule runs_to.step [OF runs_to.start life.act [OF act.setup_fails]]) (simp add: startServe_def)
  from nothing_outlives_serve [OF this] show ?thesis by simp
qed

lemma shutdown_is_bounded_witness:
  "lc_srv ((ex_life SrvDone (Some ErrServerClosed))\<lparr>lc_now := 20 * Second\<rparr>) \<in> {SrvNone, SrvDone}"
proof -
  have "runs_to (10 * Second) 0 ((ex_life SrvDone (Some ErrServerClosed))\<lparr>lc_now := 20 * Second\<rparr>)"
    by (rule runs_to.step [OF ex_stopped life.outside [OF outside.tick]]) (simp_all add: ex_life_def may_wait_def units)
  from shutdown_is_bounded [OF this, of 0 0] show ?thesis by (simp add: ex_life_def units)
qed

lemma serve_returns_witness: "\<exists>n s'. serves 5 n (ex_life SrvServing None) s' \<and> lc_pc s' = Returned"
  using serve_returns [OF ex_serving, of 5] by (auto simp: ex_life_def)

end
