(* ===== verification/S3.thy ===== *)
theory S3
  imports LocalFS Metrics "HOL-Library.Product_Lexorder"
begin

text \<open>
  \<open>blob/s3/s3.go\<close>: the blob store on an S3-compatible service.  The percent-encoding, the
  canonical query and the request signature are computed as the code does; SHA-256, HMAC, the
  date formats and what the service answers are parameters.  With a service that keeps
  objects, the store satisfies the contract \<open>blob_store\<close>.
\<close>

section \<open>Percent-encoding\<close>

definition unreserved :: "char \<Rightarrow> bool" where
  "unreserved c \<longleftrightarrow> (let n = of_char c :: nat in
     (65 \<le> n \<and> n \<le> 90) \<or> (97 \<le> n \<and> n \<le> 122) \<or> (48 \<le> n \<and> n \<le> 57)
     \<or> c = CHR ''-'' \<or> c = CHR ''.'' \<or> c = CHR ''_'' \<or> c = CHR ''~'')"

definition hexDigit :: "nat \<Rightarrow> char" where
  "hexDigit n = (if n < 10 then char_of (48 + n) else char_of (55 + n))"

text \<open>\<open>%%%02X\<close>: a percent sign and two upper-case hexadecimal digits.\<close>

definition encodeByte :: "char \<Rightarrow> string" where
  "encodeByte c =
     (if unreserved c then [c]
      else [CHR ''%'', hexDigit ((of_char c :: nat) div 16), hexDigit ((of_char c :: nat) mod 16)])"

definition uriEncode :: "string \<Rightarrow> string" where
  "uriEncode s = concat (map encodeByte s)"

definition uriEncodePath :: "string \<Rightarrow> string" where
  "uriEncodePath p = Join ''/'' (map uriEncode (Split CHR ''/'' p))"

text \<open>What the service makes of it: percent-decoding.\<close>

definition hexVal :: "char \<Rightarrow> nat" where
  "hexVal c = (let n = of_char c :: nat in if n \<le> 57 then n - 48 else n - 55)"

fun uriDecode :: "string \<Rightarrow> string" where
  "uriDecode (c # h # l # s) =
     (if c = CHR ''%'' then char_of (16 * hexVal h + hexVal l) # uriDecode s else c # uriDecode (h # l # s))"
| "uriDecode (c # s) = c # uriDecode s"
| "uriDecode [] = []"

lemma hexVal_hexDigit: "n < 16 \<Longrightarrow> hexVal (hexDigit n) = n"
  by (auto simp: hexVal_def hexDigit_def Let_def)

lemma percent_reserved: "\<not> unreserved CHR ''%''"
  by (simp add: unreserved_def Let_def)

lemma uriDecode_literal: "c \<noteq> CHR ''%'' \<Longrightarrow> uriDecode (c # s) = c # uriDecode s"
  by (cases s; cases "tl s") auto

lemma uriDecode_byte: "uriDecode (encodeByte c @ s) = c # uriDecode s"
proof (cases "unreserved c")
  case True
  then have "c \<noteq> CHR ''%''" using percent_reserved by auto
  with True show ?thesis by (simp add: encodeByte_def uriDecode_literal)
next
  case False
  have "(of_char c :: nat) < 256" by (rule nat_of_char_less_256)
  then have "(of_char c :: nat) div 16 < 16" by (simp add: less_mult_imp_div_less)
  then show ?thesis
    using False by (simp add: encodeByte_def hexVal_hexDigit mult.commute)
qed

lemma uriDecode_encode: "uriDecode (uriEncode s @ r) = s @ uriDecode r"
  by (induction s) (simp_all add: uriEncode_def uriDecode_byte)

lemma uriEncode_inj: "uriEncode s = uriEncode t \<Longrightarrow> s = t"
  using uriDecode_encode [of s "[]"] uriDecode_encode [of t "[]"] by simp

definition safeByte :: "char \<Rightarrow> bool" where
  "safeByte c \<longleftrightarrow> unreserved c \<or> c = CHR ''%''"

lemma hexDigit_unreserved: "n < 16 \<Longrightarrow> unreserved (hexDigit n)"
  by (auto simp: unreserved_def hexDigit_def Let_def)

lemma uriEncode_safe: "list_all safeByte (uriEncode s)"
proof (induction s)
  case (Cons c s)
  have "(of_char c :: nat) < 256" by (rule nat_of_char_less_256)
  then have "(of_char c :: nat) div 16 < 16" by (simp add: less_mult_imp_div_less)
  then have "list_all safeByte (encodeByte c)"
    by (simp add: encodeByte_def safeByte_def hexDigit_unreserved)
  with Cons show ?case by (simp add: uriEncode_def)
qed (simp add: uriEncode_def)

lemma safe_not: "safeByte c \<Longrightarrow> c \<noteq> CHR ''/'' \<and> c \<noteq> CHR ''&'' \<and> c \<noteq> CHR ''='' \<and> c \<noteq> CHR ''?'' \<and> c \<noteq> CHR 0x0A"
  by (auto simp: safeByte_def unreserved_def Let_def)

lemma uriEncode_no: "c \<in> {CHR ''/'', CHR ''&'', CHR ''='', CHR ''?'', CHR 0x0A} \<Longrightarrow> c \<notin> set (uriEncode s)"
  using uriEncode_safe [of s] safe_not [of c] by (auto simp: list_all_iff)

lemma uriEncode_id: "list_all unreserved s \<Longrightarrow> uriEncode s = s"
  by (induction s) (simp_all add: uriEncode_def encodeByte_def)

section \<open>The canonical query\<close>

text \<open>
  \<open>url.Values\<close>, in the order a range over the map happens to take.  \<open>sort.Slice\<close> orders by
  encoded name, then value, bytewise; pairs that compare equal are equal.
\<close>

type_synonym query = "(string \<times> string list) list"

definition encodedPairs :: "query \<Rightarrow> (string \<times> string) list" where
  "encodedPairs q = concat (map (\<lambda>(k, vals). map (\<lambda>v. (uriEncode k, uriEncode v)) vals) q)"

definition encodePair :: "string \<times> string \<Rightarrow> string" where
  "encodePair p = fst p @ ''='' @ snd p"

definition canonicalQuery :: "query \<Rightarrow> string" where
  "canonicalQuery q =
     (if q = [] then []
      else Join ''&'' (map encodePair (sort (encodedPairs q))))"

text \<open>\<open>Set\<close>, and what the service reads.\<close>

definition qSet :: "string \<Rightarrow> string \<Rightarrow> query \<Rightarrow> query" where
  "qSet k v q = (k, [v]) # filter (\<lambda>(k', _). k' \<noteq> k) q"

definition queryPairs :: "query \<Rightarrow> (string \<times> string) list" where
  "queryPairs q = concat (map (\<lambda>(k, vals). map (Pair k) vals) q)"

definition readPair :: "string \<Rightarrow> string \<times> string" where
  "readPair w = (case Split CHR ''='' w of n # v # _ \<Rightarrow> (uriDecode n, uriDecode v) | _ \<Rightarrow> ([], []))"

definition readQuery :: "string \<Rightarrow> (string \<times> string) list" where
  "readQuery s = (if s = [] then [] else map readPair (Split CHR ''&'' s))"

lemma encodedPairs_alt: "encodedPairs q = map (map_prod uriEncode uriEncode) (queryPairs q)"
  by (induction q) (auto simp: encodedPairs_def queryPairs_def)

lemma readPair_encoded: "readPair (encodePair (map_prod uriEncode uriEncode p)) = p"
proof -
  have no: "CHR ''='' \<notin> set (uriEncode x)" for x by (rule uriEncode_no) simp
  have "uriDecode (uriEncode x) = x" for x using uriDecode_encode [of x "[]"] by simp
  then show ?thesis by (cases p) (simp add: readPair_def encodePair_def Split_append [OF no] Split_word [OF no])
qed

lemma map_readPair: "map readPair (map encodePair (map (map_prod uriEncode uriEncode) ps)) = ps"
  by (induction ps) (simp_all add: readPair_encoded)

lemma readQuery_canonical:
  assumes "queryPairs q \<noteq> []"
  shows "mset (readQuery (canonicalQuery q)) = mset (queryPairs q)"
proof -
  let ?ps = "sort (encodedPairs q)"
  let ?enc = "map encodePair ?ps"
  have q: "q \<noteq> []" using assms by (auto simp: queryPairs_def)
  have no: "CHR ''&'' \<notin> set (uriEncode x)" for x by (rule uriEncode_no) simp
  have words: "\<forall>w \<in> set ?enc. CHR ''&'' \<notin> set w" using no by (auto simp: encodedPairs_alt encodePair_def)
  have ne: "?enc \<noteq> []" using assms by (auto simp: encodedPairs_alt dest: arg_cong [of _ _ length])
  have "Join ''&'' ?enc \<noteq> []"
    using ne by (cases ?enc; cases "tl ?enc") (auto simp: encodePair_def)
  then have r: "readQuery (canonicalQuery q) = map readPair ?enc"
    using q by (simp only: readQuery_def canonicalQuery_def Split_Join [OF ne words] if_False)
  have "mset (map readPair (map encodePair ?ps)) = mset (map readPair (map encodePair (encodedPairs q)))"
    by (simp only: mset_map mset_sort)
  also have "\<dots> = mset (queryPairs q)" by (simp only: encodedPairs_alt map_readPair)
  finally show ?thesis by (simp only: r)
qed

lemma mset_concat_map: "mset (concat (map f q)) = sum_mset (image_mset (\<lambda>x. mset (f x)) (mset q))"
  by (induction q) simp_all

text \<open>
  C35: The canonical query does not depend on the order in which the parameter map is ranged
  over, and a parser of query strings reads back exactly the parameters.
\<close>

theorem canonical_query_wellformed:
  assumes "mset q = mset q'"
  shows "canonicalQuery q = canonicalQuery q'
    \<and> (queryPairs q \<noteq> [] \<longrightarrow> mset (readQuery (canonicalQuery q)) = mset (queryPairs q))"
proof -
  have "mset (encodedPairs q) = mset (encodedPairs q')"
    using assms by (simp only: encodedPairs_def mset_concat_map)
  then have "sort (encodedPairs q) = sort (encodedPairs q')"
    by (metis properties_for_sort mset_sort sorted_sort)
  moreover have "q = [] \<longleftrightarrow> q' = []" using assms by auto
  ultimately have "canonicalQuery q = canonicalQuery q'" by (simp add: canonicalQuery_def)
  then show ?thesis using readQuery_canonical by blast
qed

lemma canonical_query_wellformed_witness:
  "canonicalQuery [(''b'', [''x y'']), (''A['', [''1''])] = canonicalQuery [(''A['', [''1'']), (''b'', [''x y''])]"
  using canonical_query_wellformed [of "[(''b'', [''x y'']), (''A['', [''1''])]" "[(''A['', [''1'']), (''b'', [''x y''])]"]
  by simp

theorem uri_encoding_roundtrip:
  "uriDecode (uriEncode s) = s \<and> list_all safeByte (uriEncode s)
   \<and> map uriDecode (Split CHR ''/'' (uriEncodePath p)) = Split CHR ''/'' p"
proof -
  have d: "uriDecode (uriEncode x) = x" for x using uriDecode_encode [of x "[]"] by simp
  have "CHR ''/'' \<notin> set (uriEncode x)" for x by (rule uriEncode_no) simp
  then have "Split CHR ''/'' (uriEncodePath p) = map uriEncode (Split CHR ''/'' p)"
    unfolding uriEncodePath_def by (intro Split_Join) auto
  then show ?thesis by (simp add: d uriEncode_safe comp_def)
qed

section \<open>Signing\<close>

text \<open>
  \<open>sg_date\<close> and \<open>sg_stamp\<close> are the layouts \<open>20060102\<close> and \<open>20060102T150405Z\<close>, \<open>sg_url\<close> is
  \<open>url.Parse\<close> with the path of its result.
\<close>

record sigenv =
  sg_date :: "time \<Rightarrow> string"
  sg_stamp :: "time \<Rightarrow> string"
  sg_sha256 :: "string \<Rightarrow> string"
  sg_hmac :: "string \<Rightarrow> string \<Rightarrow> string"
  sg_url :: "string \<Rightarrow> string option"

record s3config =
  sc_Endpoint :: string
  sc_Region :: string
  sc_Bucket :: string
  sc_AccessKey :: string
  sc_SecretKey :: string
  sc_Prefix :: string

record S3Store =
  s3_cfg :: s3config
  s3_scheme :: string
  s3_host :: string
  s3_tempDir :: string

text \<open>\<open>parse\<close> gives scheme and host of the endpoint.\<close>

definition NewS3 :: "(string \<Rightarrow> (string \<times> string) option) \<Rightarrow> s3config \<Rightarrow> string option \<Rightarrow> string + S3Store" where
  "NewS3 parse cfg tempDir =
     (if sc_Endpoint cfg = [] \<or> sc_Bucket cfg = [] \<or> sc_AccessKey cfg = [] \<or> sc_SecretKey cfg = []
      then Inl ''s3: endpoint, bucket, access key and secret key are required''
      else (let cfg1 = (if sc_Region cfg = [] then cfg\<lparr>sc_Region := ''us-east-1''\<rparr> else cfg);
                invalid = Inl (''s3: invalid endpoint '' @ sc_Endpoint cfg1) in
            case parse (sc_Endpoint cfg1) of
              None \<Rightarrow> invalid
            | Some (scheme, host) \<Rightarrow>
                if host = [] \<or> (scheme \<noteq> ''http'' \<and> scheme \<noteq> ''https'') then invalid
                else Inr \<lparr>s3_cfg = cfg1, s3_scheme = scheme, s3_host = host,
                          s3_tempDir = (case tempDir of None \<Rightarrow> [] | Some d \<Rightarrow> d)\<rparr>))"

definition hexLower :: "nat \<Rightarrow> char" where
  "hexLower n = (if n < 10 then char_of (48 + n) else char_of (87 + n))"

definition hexEncode :: "string \<Rightarrow> string" where
  "hexEncode b = concat (map (\<lambda>c. [hexLower ((of_char c :: nat) div 16), hexLower ((of_char c :: nat) mod 16)]) b)"

definition s3scope :: "sigenv \<Rightarrow> S3Store \<Rightarrow> time \<Rightarrow> string" where
  "s3scope sg st t = sg_date sg t @ ''/'' @ sc_Region (s3_cfg st) @ ''/s3/aws4_request''"

definition s3sign :: "sigenv \<Rightarrow> S3Store \<Rightarrow> time \<Rightarrow> string \<Rightarrow> string" where
  "s3sign sg st t canonicalRequest =
     (let stringToSign = Join newline [''AWS4-HMAC-SHA256'', sg_stamp sg t, s3scope sg st t,
            hexEncode (sg_sha256 sg canonicalRequest)];
          k1 = sg_hmac sg (''AWS4'' @ sc_SecretKey (s3_cfg st)) (sg_date sg t);
          k2 = sg_hmac sg k1 (sc_Region (s3_cfg st));
          k3 = sg_hmac sg k2 ''s3'';
          k4 = sg_hmac sg k3 ''aws4_request''
      in hexEncode (sg_hmac sg k4 stringToSign))"

definition objectPath :: "S3Store \<Rightarrow> string \<Rightarrow> string" where
  "objectPath st key = ''/'' @ sc_Bucket (s3_cfg st) @ ''/'' @ sc_Prefix (s3_cfg st) @ key"

record s3request =
  sr_Method :: string
  sr_URL :: string
  sr_Path :: string
  sr_Length :: nat
  sr_Headers :: "(string \<times> string) list"
  sr_Body :: string

definition canonicalRequest :: "S3Store \<Rightarrow> string \<Rightarrow> string \<Rightarrow> query \<Rightarrow> string \<Rightarrow> string \<Rightarrow> string" where
  "canonicalRequest st method path q payloadHash amzdate =
     Join newline [method, uriEncodePath path, canonicalQuery q,
       ''host:'' @ s3_host st @ newline @ ''x-amz-content-sha256:'' @ payloadHash @ newline
         @ ''x-amz-date:'' @ amzdate @ newline,
       ''host;x-amz-content-sha256;x-amz-date'', payloadHash]"

definition signedRequest ::
    "sigenv \<Rightarrow> S3Store \<Rightarrow> string \<Rightarrow> string \<Rightarrow> query \<Rightarrow> string \<Rightarrow> string \<Rightarrow> nat \<Rightarrow> time \<Rightarrow> s3request option" where
  "signedRequest sg st method key q body payloadHash n t =
     (let raw = s3_scheme st @ ''://'' @ s3_host st @ objectPath st key;
          rawURL = (if q \<noteq> [] then raw @ ''?'' @ canonicalQuery q else raw) in
      case sg_url sg rawURL of
        None \<Rightarrow> None
      | Some path \<Rightarrow>
          (let amzdate = sg_stamp sg t;
               canonical = canonicalRequest st method path q payloadHash amzdate
           in Some \<lparr>sr_Method = method, sr_URL = rawURL, sr_Path = path, sr_Length = n,
                sr_Headers = [(''X-Amz-Date'', amzdate), (''X-Amz-Content-Sha256'', payloadHash),
                  (''Authorization'', ''AWS4-HMAC-SHA256 Credential='' @ sc_AccessKey (s3_cfg st) @ ''/'' @ s3scope sg st t
                     @ '', SignedHeaders=host;x-amz-content-sha256;x-amz-date, Signature='' @ s3sign sg st t canonical)],
                sr_Body = body\<rparr>))"

text \<open>The presigned link: the query of \<open>presigned\<close>, signed and then sent with the signature.\<close>

definition presigned :: "sigenv \<Rightarrow> S3Store \<Rightarrow> time \<Rightarrow> string \<Rightarrow> string \<Rightarrow> query" where
  "presigned sg st t contentType disposition =
     (let q0 = qSet ''X-Amz-SignedHeaders'' ''host'' (qSet ''X-Amz-Expires'' ''900''
            (qSet ''X-Amz-Date'' (sg_stamp sg t)
              (qSet ''X-Amz-Credential'' (sc_AccessKey (s3_cfg st) @ ''/'' @ s3scope sg st t)
                (qSet ''X-Amz-Algorithm'' ''AWS4-HMAC-SHA256'' []))));
          q1 = (if contentType \<noteq> [] then qSet ''response-content-type'' contentType q0 else q0)
      in if disposition \<noteq> [] then qSet ''response-content-disposition'' disposition q1 else q1)"

definition presignedRequest :: "S3Store \<Rightarrow> string \<Rightarrow> query \<Rightarrow> string" where
  "presignedRequest st path q =
     Join newline [''GET'', uriEncodePath path, canonicalQuery q, ''host:'' @ s3_host st @ newline, ''host'',
       ''UNSIGNED-PAYLOAD'']"

definition s3URL :: "sigenv \<Rightarrow> S3Store \<Rightarrow> time \<Rightarrow> string \<Rightarrow> string \<Rightarrow> string \<Rightarrow> string" where
  "s3URL sg st t key contentType disposition =
     (let q = presigned sg st t contentType disposition;
          path = objectPath st key;
          q1 = qSet ''X-Amz-Signature'' (s3sign sg st t (presignedRequest st path q)) q
      in s3_scheme st @ ''://'' @ s3_host st @ path @ ''?'' @ canonicalQuery q1)"

section \<open>Objects\<close>

text \<open>
  What the service answers to a request is the parameter \<open>exchange\<close>: an answer with its status
  and body, whose transfer may break off, or no answer at all.  The state is the staging
  directory and that of the service.
\<close>

datatype s3answer = NoAnswer | Answer int string bool

datatype s3fault = TempFails | BufferFails nat | SeekFails

record 'e s3call =
  ca_tmp :: string
  ca_fault :: "s3fault option"
  ca_now :: time
  ca_net :: 'e

type_synonym ('e, 's) exchange = "'e \<Rightarrow> s3request \<Rightarrow> 's \<Rightarrow> s3answer \<times> 's"

definition emptyPayload :: string where
  "emptyPayload = ''e3b0c44298fc1c149afbf4c8996fb92427ae41e4649b934ca495991b7852b855''"

definition s3Put ::
    "sigenv \<Rightarrow> S3Store \<Rightarrow> ('e, 's) exchange \<Rightarrow> 'e s3call \<Rightarrow> string \<Rightarrow> string \<Rightarrow> files \<times> 's \<Rightarrow> (blob_err + int) \<times> files \<times> 's" where
  "s3Put sg st exch ca key body ds =
     (let (dir, s) = ds; removed = (\<lambda>d :: files. d(ca_tmp ca := None)) in
      case ca_fault ca of
        Some TempFails \<Rightarrow> (Inl BlobIO, dir, s)
      | Some (BufferFails n) \<Rightarrow> (Inl BlobIO, removed (dir(ca_tmp ca \<mapsto> take n body)), s)
      | Some SeekFails \<Rightarrow> (Inl BlobIO, removed (dir(ca_tmp ca \<mapsto> body)), s)
      | None \<Rightarrow>
          (let dir1 = dir(ca_tmp ca \<mapsto> body) in
           case signedRequest sg st ''PUT'' key [] body (hexEncode (sg_sha256 sg body)) (length body) (ca_now ca) of
             None \<Rightarrow> (Inl BlobIO, removed dir1, s)
           | Some req \<Rightarrow>
               (case exch (ca_net ca) req s of
                  (NoAnswer, s1) \<Rightarrow> (Inl BlobIO, removed dir1, s1)
                | (Answer status _ _, s1) \<Rightarrow>
                    if status div 100 \<noteq> 2 then (Inl BlobIO, removed dir1, s1)
                    else (Inr (int (length body)), removed dir1, s1))))"

text \<open>A successful \<open>Get\<close> leaves the body staged; \<open>Close\<close> of the reader removes it.\<close>

definition s3Get ::
    "sigenv \<Rightarrow> S3Store \<Rightarrow> ('e, 's) exchange \<Rightarrow> 'e s3call \<Rightarrow> string \<Rightarrow> files \<times> 's \<Rightarrow> (blob_err + string) \<times> files \<times> 's" where
  "s3Get sg st exch ca key ds =
     (let (dir, s) = ds; removed = (\<lambda>d :: files. d(ca_tmp ca := None)) in
      case signedRequest sg st ''GET'' key [] [] emptyPayload 0 (ca_now ca) of
        None \<Rightarrow> (Inl BlobIO, dir, s)
      | Some req \<Rightarrow>
          (case exch (ca_net ca) req s of
             (NoAnswer, s1) \<Rightarrow> (Inl BlobIO, dir, s1)
           | (Answer status body broken, s1) \<Rightarrow>
               if status = 404 then (Inl BlobNotFound, dir, s1)
               else if status div 100 \<noteq> 2 then (Inl BlobIO, dir, s1)
               else (case ca_fault ca of
                       Some TempFails \<Rightarrow> (Inl BlobIO, dir, s1)
                     | Some (BufferFails n) \<Rightarrow> (Inl BlobIO, removed (dir(ca_tmp ca \<mapsto> take n body)), s1)
                     | fault \<Rightarrow>
                         if broken \<or> fault = Some SeekFails then (Inl BlobIO, removed (dir(ca_tmp ca \<mapsto> body)), s1)
                         else (Inr body, dir(ca_tmp ca \<mapsto> body), s1))))"

definition s3Close :: "string \<Rightarrow> files \<times> 's \<Rightarrow> files \<times> 's" where
  "s3Close tmp ds = ((fst ds)(tmp := None), snd ds)"

definition s3Delete ::
    "sigenv \<Rightarrow> S3Store \<Rightarrow> ('e, 's) exchange \<Rightarrow> 'e s3call \<Rightarrow> string \<Rightarrow> files \<times> 's \<Rightarrow> (blob_err + unit) \<times> files \<times> 's" where
  "s3Delete sg st exch ca key ds =
     (let (dir, s) = ds in
      case signedRequest sg st ''DELETE'' key [] [] emptyPayload 0 (ca_now ca) of
        None \<Rightarrow> (Inl BlobIO, dir, s)
      | Some req \<Rightarrow>
          (case exch (ca_net ca) req s of
             (NoAnswer, s1) \<Rightarrow> (Inl BlobIO, dir, s1)
           | (Answer status _ _, s1) \<Rightarrow>
               if status div 100 \<noteq> 2 \<and> status \<noteq> 404 then (Inl BlobIO, dir, s1) else (Inr (), dir, s1)))"

section \<open>The service and the contract\<close>

text \<open>
  The documented behaviour of the service, as hypotheses: it keeps the bytes of each path; a
  request has its whole effect or none, whether or not its answer arrives; success is answered
  only after the effect, and in the environment \<open>calm\<close> reads are answered.
\<close>

definition object_service :: "('e, 's) exchange \<Rightarrow> (string \<Rightarrow> 's \<Rightarrow> string option) \<Rightarrow> 'e \<Rightarrow> bool" where
  "object_service exch obj calm \<longleftrightarrow>
     (\<forall>e req s a s'. exch e req s = (a, s') \<longrightarrow>
        (\<forall>p. p \<noteq> sr_Path req \<longrightarrow> obj p s' = obj p s)
      \<and> (sr_Method req = ''PUT'' \<longrightarrow> obj (sr_Path req) s' \<in> {obj (sr_Path req) s, Some (sr_Body req)}
           \<and> (\<forall>st b c. a = Answer st b c \<and> st div 100 = 2 \<longrightarrow> obj (sr_Path req) s' = Some (sr_Body req)))
      \<and> (sr_Method req = ''DELETE'' \<longrightarrow> obj (sr_Path req) s' \<in> {obj (sr_Path req) s, None}
           \<and> (\<forall>st b c. a = Answer st b c \<and> (st div 100 = 2 \<or> st = 404) \<longrightarrow> obj (sr_Path req) s' = None))
      \<and> (sr_Method req = ''GET'' \<and> e = calm \<longrightarrow>
           a = (case obj (sr_Path req) s of None \<Rightarrow> Answer 404 [] False | Some b \<Rightarrow> Answer 200 b False)))"

text \<open>Keys as the program makes them: the URL built from the key parses back to its path.\<close>

definition s3usable :: "sigenv \<Rightarrow> S3Store \<Rightarrow> string \<Rightarrow> bool" where
  "s3usable sg st key \<longleftrightarrow>
     sg_url sg (s3_scheme st @ ''://'' @ s3_host st @ objectPath st key) = Some (objectPath st key)"

lemma signed_obtain:
  assumes "s3usable sg st key"
  obtains req where "signedRequest sg st m key [] body h n t = Some req" "sr_Path req = objectPath st key"
    "sr_Method req = m" "sr_Body req = body"
  using assms by (auto simp: signedRequest_def s3usable_def Let_def)

lemma objectPath_inj: "objectPath st k = objectPath st k' \<Longrightarrow> k = k'"
  by (simp add: objectPath_def)

definition s3read :: "sigenv \<Rightarrow> S3Store \<Rightarrow> ('e, 's) exchange \<Rightarrow> 'e s3call \<Rightarrow> string \<Rightarrow> files \<times> 's \<Rightarrow> blob_err + string" where
  "s3read sg st exch ca key ds = fst (s3Get sg st exch ca key ds)"

lemma s3read_calm:
  assumes "object_service exch obj calm" "s3usable sg st key" "ca_net ca = calm" "ca_fault ca = None"
  shows "s3read sg st exch ca key ds = (case obj (objectPath st key) (snd ds) of None \<Rightarrow> Inl BlobNotFound | Some b \<Rightarrow> Inr b)"
proof -
  obtain req where r: "signedRequest sg st ''GET'' key [] [] emptyPayload 0 (ca_now ca) = Some req"
      "sr_Path req = objectPath st key" "sr_Method req = ''GET''"
    using signed_obtain [OF assms(2)] by metis
  obtain a s1 where x: "exch calm req (snd ds) = (a, s1)" by fastforce
  have "a = (case obj (objectPath st key) (snd ds) of None \<Rightarrow> Answer 404 [] False | Some b \<Rightarrow> Answer 200 b False)"
    using assms(1) x r unfolding object_service_def by metis
  then show ?thesis
    using r(1) x assms(3,4) by (cases ds) (auto simp: s3read_def s3Get_def split: option.splits)
qed

lemma s3Put_effect:
  assumes "object_service exch obj calm" "s3usable sg st key" "s3Put sg st exch ca key body ds = (r, ds')"
  shows "(\<forall>p. p \<noteq> objectPath st key \<longrightarrow> obj p (snd ds') = obj p (snd ds))
    \<and> obj (objectPath st key) (snd ds') \<in> {obj (objectPath st key) (snd ds), Some body}
    \<and> (\<forall>n. r = Inr n \<longrightarrow> obj (objectPath st key) (snd ds') = Some body \<and> n = int (length body))"
proof -
  obtain req where r: "signedRequest sg st ''PUT'' key [] body (hexEncode (sg_sha256 sg body)) (length body) (ca_now ca) = Some req"
      "sr_Path req = objectPath st key" "sr_Method req = ''PUT''" "sr_Body req = body"
    using signed_obtain [OF assms(2)] by metis
  obtain a s1 where x: "exch (ca_net ca) req (snd ds) = (a, s1)" by fastforce
  have e: "\<forall>p. p \<noteq> objectPath st key \<longrightarrow> obj p s1 = obj p (snd ds)"
    "obj (objectPath st key) s1 \<in> {obj (objectPath st key) (snd ds), Some body}"
    "\<forall>status b c. a = Answer status b c \<and> status div 100 = 2 \<longrightarrow> obj (objectPath st key) s1 = Some body"
    using assms(1) x r(2-4) unfolding object_service_def by metis+
  show ?thesis
    using assms(3) r(1) x e
    by (cases ds; cases a) (auto simp: s3Put_def Let_def split: option.splits s3fault.splits if_splits)
qed

lemma s3Delete_effect:
  assumes "object_service exch obj calm" "s3usable sg st key" "s3Delete sg st exch ca key ds = (r, ds')"
  shows "(\<forall>p. p \<noteq> objectPath st key \<longrightarrow> obj p (snd ds') = obj p (snd ds))
    \<and> obj (objectPath st key) (snd ds') \<in> {obj (objectPath st key) (snd ds), None}
    \<and> (r = Inr () \<longrightarrow> obj (objectPath st key) (snd ds') = None)"
proof -
  obtain req where r: "signedRequest sg st ''DELETE'' key [] [] emptyPayload 0 (ca_now ca) = Some req"
      "sr_Path req = objectPath st key" "sr_Method req = ''DELETE''"
    using signed_obtain [OF assms(2)] by metis
  obtain a s1 where x: "exch (ca_net ca) req (snd ds) = (a, s1)" by fastforce
  have e: "\<forall>p. p \<noteq> objectPath st key \<longrightarrow> obj p s1 = obj p (snd ds)"
    "obj (objectPath st key) s1 \<in> {obj (objectPath st key) (snd ds), None}"
    "\<forall>status b c. a = Answer status b c \<and> (status div 100 = 2 \<or> status = 404) \<longrightarrow> obj (objectPath st key) s1 = None"
    using assms(1) x r(2,3) unfolding object_service_def by metis+
  show ?thesis
    using assms(3) r(1) x e by (cases ds; cases a) (auto simp: s3Delete_def split: if_splits)
qed

text \<open>Over such a service the store keeps the contract of a blob store.\<close>

lemma s3_contract:
  assumes "object_service exch obj calm" "ca_net rd = calm" "ca_fault rd = None"
  shows "blob_store (s3Put sg st exch) (s3read sg st exch rd) (s3Delete sg st exch) (s3usable sg st)"
proof
  note rd = s3read_calm [OF assms(1) _ assms(2,3)]
  fix key k b ca ds n ds' x
  show "s3read sg st exch rd key ds' = Inr b \<and> n = int (length b)"
    if "s3usable sg st key" "s3Put sg st exch ca key b ds = (Inr n, ds')"
    using s3Put_effect [OF assms(1) that] rd that(1) by simp
  show "s3read sg st exch rd key ds' = s3read sg st exch rd key ds \<or> s3read sg st exch rd key ds' = Inr b"
    if "s3usable sg st key" "s3Put sg st exch ca key b ds = (Inl x, ds')"
    using s3Put_effect [OF assms(1) that] rd that(1) by auto
  show "s3read sg st exch rd k (snd (s3Put sg st exch ca key b ds)) = s3read sg st exch rd k ds"
    if "s3usable sg st key" "s3usable sg st k" "k \<noteq> key"
    using s3Put_effect [OF assms(1) that(1) prod.collapse [symmetric]] rd that objectPath_inj by metis
  show "s3read sg st exch rd key ds' = Inl BlobNotFound"
    if "s3usable sg st key" "s3Delete sg st exch ca key ds = (Inr (), ds')"
    using s3Delete_effect [OF assms(1) that] rd that(1) by simp
  show "s3read sg st exch rd key ds' = s3read sg st exch rd key ds \<or> s3read sg st exch rd key ds' = Inl BlobNotFound"
    if "s3usable sg st key" "s3Delete sg st exch ca key ds = (Inl x, ds')"
    using s3Delete_effect [OF assms(1) that] rd that(1) by auto
  show "s3read sg st exch rd k (snd (s3Delete sg st exch ca key ds)) = s3read sg st exch rd k ds"
    if "s3usable sg st key" "s3usable sg st k" "k \<noteq> key"
    using s3Delete_effect [OF assms(1) that(1) prod.collapse [symmetric]] rd that objectPath_inj by metis
qed

section \<open>Guarantees\<close>

text \<open>The objects of the store, by key.\<close>

definition objects_of :: "S3Store \<Rightarrow> (string \<Rightarrow> 's \<Rightarrow> string option) \<Rightarrow> files \<times> 's \<Rightarrow> files" where
  "objects_of st obj ds = (\<lambda>key. obj (objectPath st key) (snd ds))"

text \<open>
  C20: Over an object service that answers signed requests as documented, the S3 store refines a
  map from keys to bytes: a put or delete that succeeds has exactly its effect, one that fails
  has it or none, and a get reads the map.
\<close>

theorem s3_refines_map:
  assumes "object_service exch obj calm" "s3usable sg st key" "ca_net rd = calm" "ca_fault rd = None"
  shows "(s3Put sg st exch ca key body ds = (r, ds1) \<longrightarrow>
       (r = Inr (int (length body)) \<and> objects_of st obj ds1 = (objects_of st obj ds)(key \<mapsto> body))
     \<or> (\<exists>e. r = Inl e) \<and> objects_of st obj ds1 \<in> {objects_of st obj ds, (objects_of st obj ds)(key \<mapsto> body)})
   \<and> (s3Delete sg st exch ca key ds = (q, ds2) \<longrightarrow>
       (q = Inr () \<and> objects_of st obj ds2 = (objects_of st obj ds)(key := None))
     \<or> (\<exists>e. q = Inl e) \<and> objects_of st obj ds2 \<in> {objects_of st obj ds, (objects_of st obj ds)(key := None)})
   \<and> fst (s3Get sg st exch rd key ds) = (case objects_of st obj ds key of None \<Rightarrow> Inl BlobNotFound | Some b \<Rightarrow> Inr b)"
proof (intro conjI impI)
  have upd: "objects_of st obj ds' = (objects_of st obj ds)(key := obj (objectPath st key) (snd ds'))"
    if "\<forall>p. p \<noteq> objectPath st key \<longrightarrow> obj p (snd ds') = obj p (snd ds)" for ds'
  proof (rule ext)
    fix k show "objects_of st obj ds' k = ((objects_of st obj ds)(key := obj (objectPath st key) (snd ds'))) k"
      using that objectPath_inj [of st k key] by (cases "k = key") (auto simp: objects_of_def)
  qed
  have same: "f(key := f key) = f" for f :: files by simp
  have own: "obj (objectPath st key) (snd ds) = objects_of st obj ds key" by (simp add: objects_of_def)
  show "(r = Inr (int (length body)) \<and> objects_of st obj ds1 = (objects_of st obj ds)(key \<mapsto> body))
     \<or> (\<exists>e. r = Inl e) \<and> objects_of st obj ds1 \<in> {objects_of st obj ds, (objects_of st obj ds)(key \<mapsto> body)}"
    if "s3Put sg st exch ca key body ds = (r, ds1)"
    using s3Put_effect [OF assms(1,2) that] upd [of ds1] unfolding own by (cases r) auto
  show "(q = Inr () \<and> objects_of st obj ds2 = (objects_of st obj ds)(key := None))
     \<or> (\<exists>e. q = Inl e) \<and> objects_of st obj ds2 \<in> {objects_of st obj ds, (objects_of st obj ds)(key := None)}"
    if "s3Delete sg st exch ca key ds = (q, ds2)"
    using s3Delete_effect [OF assms(1,2) that] upd [of ds2] unfolding own by (cases q) auto
  show "fst (s3Get sg st exch rd key ds) = (case objects_of st obj ds key of None \<Rightarrow> Inl BlobNotFound | Some b \<Rightarrow> Inr b)"
    using s3read_calm [OF assms] by (simp add: s3read_def objects_of_def)
qed

theorem s3_staging_is_clean:
  assumes "ca_tmp ca \<notin> dom (fst ds)"
  shows "fst (snd (s3Put sg st exch ca key body ds)) = fst ds
    \<and> fst (snd (s3Delete sg st exch ca key ds)) = fst ds
    \<and> fst (s3Close (ca_tmp ca) (snd (s3Get sg st exch ca key ds))) = fst ds
    \<and> (\<forall>e. fst (s3Get sg st exch ca key ds) = Inl e \<longrightarrow> fst (snd (s3Get sg st exch ca key ds)) = fst ds)"
proof -
  obtain dir s where ds: "ds = (dir, s)" by fastforce
  have undo: "dir(ca_tmp ca := None) = dir" "dir(ca_tmp ca \<mapsto> x, ca_tmp ca := None) = dir" for x
    using assms ds by auto
  note out = option.splits s3fault.splits s3answer.splits prod.splits
  have "fst (snd (s3Put sg st exch ca key body ds)) = dir"
    using undo by (auto simp: ds s3Put_def Let_def split: out)
  moreover have "fst (snd (s3Delete sg st exch ca key ds)) = dir"
    by (auto simp: ds s3Delete_def split: out)
  moreover have "fst (s3Close (ca_tmp ca) (snd (s3Get sg st exch ca key ds))) = dir"
    using undo by (auto simp: ds s3Get_def s3Close_def Let_def split: out)
  moreover have "fst (s3Get sg st exch ca key ds) = Inl e \<Longrightarrow> fst (snd (s3Get sg st exch ca key ds)) = dir" for e
    using undo by (auto simp: ds s3Get_def Let_def split: out if_splits)
  ultimately show ?thesis using ds by simp
qed

definition plainPath :: "string \<Rightarrow> bool" where
  "plainPath p \<longleftrightarrow> list_all (\<lambda>c. unreserved c \<or> c = CHR ''/'') p"

lemma uriEncodePath_plain: "plainPath p \<Longrightarrow> uriEncodePath p = p"
proof -
  assume p: "plainPath p"
  have m: "set w \<subseteq> set p \<union> {}" if "w \<in> set (Split CHR ''/'' p)" for w
    using that by (induction p arbitrary: w) (auto split: if_splits list.splits, fastforce+)
  have "list_all unreserved w" if w: "w \<in> set (Split CHR ''/'' p)" for w
    using p m [OF w] Split_no_sep [OF w] by (auto simp: plainPath_def list_all_iff)
  then have "map uriEncode (Split CHR ''/'' p) = Split CHR ''/'' p"
    by (intro map_idI) (rule uriEncode_id)
  then show ?thesis by (simp add: uriEncodePath_def Join_Split)
qed

theorem presigned_link_is_what_was_signed:
  assumes "plainPath (objectPath st key)" "link = s3URL sg st t key contentType disposition"
  shows "\<exists>q. link = s3_scheme st @ ''://'' @ s3_host st @ objectPath st key @ ''?'' @ q
    \<and> mset (readQuery q) = mset ((''X-Amz-Signature'',
          s3sign sg st t (Join newline [''GET'', objectPath st key, canonicalQuery (presigned sg st t contentType disposition),
            ''host:'' @ s3_host st @ newline, ''host'', ''UNSIGNED-PAYLOAD''])) # queryPairs (presigned sg st t contentType disposition))
    \<and> (''X-Amz-Expires'', ''900'') \<in> set (readQuery q)
    \<and> (disposition \<noteq> [] \<longrightarrow> (''response-content-disposition'', disposition) \<in> set (readQuery q))
    \<and> (contentType \<noteq> [] \<longrightarrow> (''response-content-type'', contentType) \<in> set (readQuery q))"
proof -
  let ?ps = "presigned sg st t contentType disposition"
  let ?sig = "s3sign sg st t (presignedRequest st (objectPath st key) ?ps)"
  let ?q = "qSet ''X-Amz-Signature'' ?sig ?ps"
  have "queryPairs ?q = (''X-Amz-Signature'', ?sig) # queryPairs ?ps"
    by (simp add: presigned_def qSet_def queryPairs_def Let_def)
  moreover have "mset (readQuery (canonicalQuery ?q)) = mset (queryPairs ?q)"
    by (rule readQuery_canonical) (simp add: qSet_def queryPairs_def)
  ultimately have m: "mset (readQuery (canonicalQuery ?q)) = mset ((''X-Amz-Signature'', ?sig) # queryPairs ?ps)" by simp
  then have s: "set (readQuery (canonicalQuery ?q)) = insert (''X-Amz-Signature'', ?sig) (set (queryPairs ?ps))"
    by (metis list.simps(15) set_mset_mset)
  have e: "presignedRequest st (objectPath st key) ?ps = Join newline [''GET'', objectPath st key, canonicalQuery ?ps,
      ''host:'' @ s3_host st @ newline, ''host'', ''UNSIGNED-PAYLOAD'']"
    by (simp only: presignedRequest_def uriEncodePath_plain [OF assms(1)])
  have "link = s3_scheme st @ ''://'' @ s3_host st @ objectPath st key @ ''?'' @ canonicalQuery ?q"
    using assms(2) by (simp only: s3URL_def Let_def)
  moreover have "(''X-Amz-Expires'', ''900'') \<in> set (queryPairs ?ps)"
    "disposition \<noteq> [] \<longrightarrow> (''response-content-disposition'', disposition) \<in> set (queryPairs ?ps)"
    "contentType \<noteq> [] \<longrightarrow> (''response-content-type'', contentType) \<in> set (queryPairs ?ps)"
    by (simp_all add: presigned_def qSet_def queryPairs_def Let_def)
  ultimately show ?thesis using m s unfolding e by blast
qed

section \<open>A concrete service\<close>

definition ex_sigenv :: sigenv where
  "ex_sigenv = \<lparr>sg_date = (\<lambda>_. ''20260101''), sg_stamp = (\<lambda>_. ''20260101T000000Z''), sg_sha256 = (\<lambda>s. s),
     sg_hmac = (\<lambda>k m. k), sg_url = (\<lambda>s. Some (drop 8 s))\<rparr>"

definition ex_s3 :: S3Store where
  "ex_s3 = \<lparr>s3_cfg = \<lparr>sc_Endpoint = ''http://h'', sc_Region = ''us-east-1'', sc_Bucket = ''b'', sc_AccessKey = ''a'',
     sc_SecretKey = ''s'', sc_Prefix = []\<rparr>, s3_scheme = ''http'', s3_host = ''h'', s3_tempDir = []\<rparr>"

text \<open>The Boolean environment: \<open>True\<close> loses the answer of a request that took effect.\<close>

definition ex_exchange :: "(bool, files) exchange" where
  "ex_exchange lost req fs =
     (let fs1 = (if sr_Method req = ''PUT'' then fs(sr_Path req \<mapsto> sr_Body req)
                 else if sr_Method req = ''DELETE'' then fs(sr_Path req := None) else fs)
      in if lost then (NoAnswer, fs1)
         else if sr_Method req = ''GET'' then
           (case fs (sr_Path req) of None \<Rightarrow> Answer 404 [] False | Some b \<Rightarrow> Answer 200 b False, fs1)
         else (Answer 204 [] False, fs1))"

definition ex_call :: "bool \<Rightarrow> bool s3call" where
  "ex_call lost = \<lparr>ca_tmp = ''t'', ca_fault = None, ca_now = 0, ca_net = lost\<rparr>"

lemma ex_service: "object_service ex_exchange (\<lambda>p fs. fs p) False"
  unfolding object_service_def ex_exchange_def Let_def by (auto split: if_splits option.splits)

lemma ex_s3usable: "s3usable ex_sigenv ex_s3 ''k''"
  by code_simp

lemma s3_refines_map_witness:
  "objects_of ex_s3 (\<lambda>p fs. fs p) (snd (s3Put ex_sigenv ex_s3 ex_exchange (ex_call False) ''k'' ''x'' (Map.empty, Map.empty))) = [''k'' \<mapsto> ''x'']"
proof -
  let ?put = "s3Put ex_sigenv ex_s3 ex_exchange (ex_call False) ''k'' ''x'' (Map.empty, Map.empty)"
  obtain req where "signedRequest ex_sigenv ex_s3 ''PUT'' ''k'' [] ''x'' (hexEncode (sg_sha256 ex_sigenv ''x'')) (length ''x'') 0 = Some req"
      "sr_Method req = ''PUT''"
    using signed_obtain [OF ex_s3usable] by metis
  then have "fst ?put = Inr 1" by (simp add: s3Put_def ex_call_def ex_exchange_def)
  then have p: "?put = (Inr 1, snd ?put)" by (metis prod.collapse)
  have "objects_of ex_s3 (\<lambda>p fs. fs p) (Map.empty, Map.empty) = Map.empty" by (simp add: objects_of_def)
  moreover have c: "ca_net (ex_call False) = False" "ca_fault (ex_call False) = None" by (simp_all add: ex_call_def)
  from mp [OF conjunct1 [OF s3_refines_map [OF ex_service ex_s3usable c]] p]
  have "objects_of ex_s3 (\<lambda>p fs. fs p) (snd ?put) = (objects_of ex_s3 (\<lambda>p fs. fs p) (Map.empty, Map.empty))(''k'' \<mapsto> ''x'')"
    by blast
  ultimately show ?thesis by simp
qed

lemma s3_staging_is_clean_witness:
  "fst (snd (s3Put ex_sigenv ex_s3 ex_exchange (ex_call True) ''k'' ''x'' (Map.empty, Map.empty))) = Map.empty"
  using s3_staging_is_clean [of "ex_call True" "(Map.empty, Map.empty :: files)"] by simp

lemma presigned_link_is_what_was_signed_witness:
  "\<exists>q. s3URL ex_sigenv ex_s3 0 ''k'' ''audio/mpeg'' ''attachment'' = ''http://h/b/k?'' @ q
     \<and> (''response-content-disposition'', ''attachment'') \<in> set (readQuery q)"
proof -
  have pl: "plainPath (objectPath ex_s3 ''k'')" by code_simp
  have "s3_scheme ex_s3 @ ''://'' @ s3_host ex_s3 @ objectPath ex_s3 ''k'' @ ''?'' = ''http://h/b/k?''" by code_simp
  then show ?thesis
    using presigned_link_is_what_was_signed [OF pl refl, of ex_sigenv 0 "''audio/mpeg''" "''attachment''"]
    by (metis append_assoc list.distinct(1))
qed

end
