(* ===== verification/Command.thy ===== *)
theory Command
  imports Worker Media
begin

text \<open>
  \<open>transcribe/command\<close>: the transcriber that runs an external program.  The bounded capture of
  its output, the expansion of its arguments, the staged audio file, and the conversion of its
  standard output.  The program, \<open>encoding/json\<close> and the file system are parameters.
\<close>

section \<open>Bounded capture\<close>

record cappedBuffer =
  cb_buf :: string
  cb_limit :: nat
  cb_overflow :: bool

definition newCapped :: "nat \<Rightarrow> cappedBuffer" where
  "newCapped limit = \<lparr>cb_buf = [], cb_limit = limit, cb_overflow = False\<rparr>"

definition cb_Write :: "string \<Rightarrow> cappedBuffer \<Rightarrow> nat \<times> cappedBuffer" where
  "cb_Write p c =
     (let remaining = cb_limit c - length (cb_buf c) in
      if 0 < remaining \<and> length p \<le> remaining then (length p, c\<lparr>cb_buf := cb_buf c @ p\<rparr>)
      else (let c1 = (if 0 < remaining then c\<lparr>cb_buf := cb_buf c @ take remaining p\<rparr> else c)
            in (length p, if p \<noteq> [] then c1\<lparr>cb_overflow := True\<rparr> else c1)))"

definition capture :: "nat \<Rightarrow> string list \<Rightarrow> cappedBuffer" where
  "capture limit chunks = foldl (\<lambda>c p. snd (cb_Write p c)) (newCapped limit) chunks"

lemma cb_Write_step:
  assumes "cb_buf c = take (cb_limit c) s" "cb_overflow c \<longleftrightarrow> cb_limit c < length s"
  shows "snd (cb_Write p c) = \<lparr>cb_buf = take (cb_limit c) (s @ p), cb_limit = cb_limit c,
    cb_overflow = (cb_limit c < length (s @ p))\<rparr>"
proof -
  consider "length s + length p \<le> cb_limit c" | "cb_limit c < length s + length p" "length s < cb_limit c"
    | "cb_limit c \<le> length s" by linarith
  then show ?thesis
  proof cases
    case 1
    then show ?thesis using assms by (cases c; cases p) (auto simp: cb_Write_def Let_def)
  next
    case 2
    then show ?thesis using assms by (cases c) (auto simp: cb_Write_def Let_def)
  next
    case 3
    then show ?thesis using assms by (cases c; cases p) (auto simp: cb_Write_def Let_def)
  qed
qed

text \<open>However the output is chunked, the buffer is its prefix and the flag tells whether it is all of it.\<close>

lemma capture_is_prefix:
  "capture limit chunks = \<lparr>cb_buf = take limit (concat chunks), cb_limit = limit,
     cb_overflow = (limit < length (concat chunks))\<rparr>"
proof (induction chunks rule: rev_induct)
  case Nil
  show ?case by (simp add: capture_def newCapped_def)
next
  case (snoc p chunks)
  have "capture limit (chunks @ [p]) = snd (cb_Write p (capture limit chunks))" by (simp add: capture_def)
  then show ?case using cb_Write_step [of "capture limit chunks" "concat chunks" p] snoc by simp
qed

text \<open>
  C34: However the output of the external program is chunked, the capped buffer holds its prefix
  up to the limit, flags overflow exactly when bytes were dropped, and never makes the program
  see a short write.
\<close>

theorem capture_equals_prefix:
  "capture limit chunks = \<lparr>cb_buf = take limit (concat chunks), cb_limit = limit,
     cb_overflow = (limit < length (concat chunks))\<rparr> \<and> fst (cb_Write p c) = length p"
  by (simp add: capture_is_prefix) (simp add: cb_Write_def Let_def)

section \<open>Arguments\<close>

definition audioToken :: string where "audioToken = ''{{audio}}''"

text \<open>\<open>strings.ReplaceAll\<close> of the token: occurrences from the left, without overlap.\<close>

function replaceToken :: "string \<Rightarrow> string \<Rightarrow> string" where
  "replaceToken path s =
     (if hasPrefix s audioToken then path @ replaceToken path (drop 9 s)
      else (case s of [] \<Rightarrow> [] | c # cs \<Rightarrow> c # replaceToken path cs))"
  by pat_completeness auto

termination
  by (relation "measure (\<lambda>(path, s). length s)") (auto simp: hasPrefix_def audioToken_def)

declare replaceToken.simps [simp del]

section \<open>The transcriber\<close>

record CommandTranscriber =
  ct_name :: string
  ct_args :: "string list"
  ct_tempDir :: string

datatype CommandOption = WithArgs "string list" | WithCommandTempDir string

fun apply_command_option :: "CommandTranscriber \<Rightarrow> CommandOption \<Rightarrow> CommandTranscriber" where
  "apply_command_option t (WithArgs as) = t\<lparr>ct_args := as\<rparr>"
| "apply_command_option t (WithCommandTempDir d) = t\<lparr>ct_tempDir := d\<rparr>"

definition NewCommand :: "string \<Rightarrow> CommandOption list \<Rightarrow> CommandTranscriber" where
  "NewCommand name opts = foldl apply_command_option \<lparr>ct_name = name, ct_args = [audioToken], ct_tempDir = []\<rparr> opts"

definition maxStdoutBytes :: nat where "maxStdoutBytes = 64 * 1024 * 1024"
definition maxStderrBytes :: nat where "maxStderrBytes = 1024 * 1024"

definition extFor :: "TranscribeInput \<Rightarrow> string" where
  "extFor inp =
     (if fileExt (ti_Filename inp) \<noteq> [] then fileExt (ti_Filename inp)
      else if ti_MIME inp = ''audio/mpeg'' then ''.mp3''
      else if ti_MIME inp = ''audio/mp4'' \<or> ti_MIME inp = ''audio/x-m4a'' then ''.m4a''
      else if ti_MIME inp = ''audio/wav'' \<or> ti_MIME inp = ''audio/x-wav'' then ''.wav''
      else if ti_MIME inp = ''audio/ogg'' then ''.ogg''
      else ''.bin'')"

text \<open>
  What the program does with its arguments, the language variable and the staged audio: the
  error of \<open>cmd.Run\<close>, if any, and the chunks of its two streams.
\<close>

record cmdenv =
  ce_tempName :: "string \<Rightarrow> string \<Rightarrow> string"
  ce_createFails :: bool
  ce_copyFails :: bool
  ce_closeFails :: bool
  ce_run :: "string \<Rightarrow> string list \<Rightarrow> string option \<Rightarrow> string \<Rightarrow> string option \<times> string list \<times> string list"
  ce_parse :: "string \<Rightarrow> (string \<times> (float64 \<times> float64 \<times> string) list) option"

definition commandTranscribe ::
    "CommandTranscriber \<Rightarrow> cmdenv \<Rightarrow> TranscribeInput \<Rightarrow> (string \<rightharpoonup> string) \<Rightarrow> TranscribeResult \<times> (string \<rightharpoonup> string)" where
  "commandTranscribe t env inp dir0 =
     (if ce_createFails env then (TranscribeFailed ''command: temp file'', dir0)
      else
        (let tmp = ce_tempName env (ct_tempDir t) (''castlet-audio-*'' @ extFor inp);
             dir = dir0(tmp \<mapsto> ti_Audio inp); removed = (\<lambda>d :: string \<rightharpoonup> string. d(tmp := None)) in
         if ce_copyFails env then (TranscribeFailed ''command: stage audio'', removed dir)
         else if ce_closeFails env then (TranscribeFailed ''command: close audio'', removed dir)
         else
           (let args = map (replaceToken tmp) (ct_args t);
                lang = (if ti_Language inp = [] then None else Some (ti_Language inp));
                (failure, outs, errs) = ce_run env (ct_name t) args lang (ti_Audio inp);
                out = capture maxStdoutBytes outs; err = capture maxStderrBytes errs in
            case failure of
              Some msg \<Rightarrow> (TranscribeFailed (''command: '' @ ct_name t @ '' failed: '' @ msg @ '': '' @ trimSpace (cb_buf err)), removed dir)
            | None \<Rightarrow>
                if cb_overflow out then (TranscribeFailed (''command: '' @ ct_name t @ '' produced more than '' @ FormatInt (int maxStdoutBytes) @ '' bytes of stdout''), removed dir)
                else (case ce_parse env (cb_buf out) of
                        None \<Rightarrow> (TranscribeFailed ''command: parse output'', removed dir)
                      | Some (language, segs) \<Rightarrow>
                          (Transcribed language
                             (map (\<lambda>(a, b, s). \<lparr>s_StartSecs = a, s_EndSecs = b, s_Text = trimSpace s\<rparr>) segs), removed dir)))))"

section \<open>Cancellation\<close>

datatype kill_result = KillOk | KillNoProcess | KillDenied
datatype cancel_result = CancelNil | CancelProcessDone | CancelError

text \<open>The \<open>Cancel\<close> hook of the command: \<open>started\<close> is whether there is a process to signal.\<close>

definition cancelGroup :: "bool \<Rightarrow> kill_result \<Rightarrow> cancel_result" where
  "cancelGroup started kill =
     (if \<not> started then CancelNil
      else (case kill of KillOk \<Rightarrow> CancelNil | KillNoProcess \<Rightarrow> CancelProcessDone | KillDenied \<Rightarrow> CancelError))"

section \<open>Guarantees\<close>

text \<open>A transcript comes from the whole standard output of a program that succeeded.\<close>

theorem transcript_is_complete:
  assumes "commandTranscribe t env inp dir0 = (Transcribed language segs, dir)"
  shows "\<exists>tmp outs errs raw. ce_run env (ct_name t) (map (replaceToken tmp) (ct_args t))
       (if ti_Language inp = [] then None else Some (ti_Language inp)) (ti_Audio inp) = (None, outs, errs)
    \<and> length (concat outs) \<le> maxStdoutBytes \<and> ce_parse env (concat outs) = Some (language, raw)
    \<and> segs = map (\<lambda>(a, b, s). \<lparr>s_StartSecs = a, s_EndSecs = b, s_Text = trimSpace s\<rparr>) raw"
proof -
  let ?tmp = "ce_tempName env (ct_tempDir t) (''castlet-audio-*'' @ extFor inp)"
  let ?lang = "if ti_Language inp = [] then None else Some (ti_Language inp)"
  obtain failure outs errs where run: "ce_run env (ct_name t) (map (replaceToken ?tmp) (ct_args t)) ?lang (ti_Audio inp)
      = (failure, outs, errs)" by (metis surj_pair)
  have "failure = None \<and> length (concat outs) \<le> maxStdoutBytes
      \<and> (\<exists>raw. ce_parse env (concat outs) = Some (language, raw)
         \<and> segs = map (\<lambda>(a, b, s). \<lparr>s_StartSecs = a, s_EndSecs = b, s_Text = trimSpace s\<rparr>) raw)"
    using assms run
    by (cases failure) (auto simp: commandTranscribe_def Let_def capture_is_prefix split: if_splits option.splits)
  then show ?thesis using run by blast
qed

lemma length_cap: "length (FormatInt (int maxStdoutBytes)) = 8"
  by (simp add: maxStdoutBytes_def FormatInt_def natDigits.simps)

theorem staged_audio_is_removed:
  assumes "commandTranscribe t env inp dir0 = (r, dir)"
    and "ce_tempName env (ct_tempDir t) (''castlet-audio-*'' @ extFor inp) \<notin> dom dir0"
  shows "dir = dir0 \<and> (\<forall>msg. r = TranscribeFailed msg \<longrightarrow> length msg \<le> length (ct_name t) + maxStderrBytes
      + (case fst (ce_run env (ct_name t) (map (replaceToken (ce_tempName env (ct_tempDir t) (''castlet-audio-*'' @ extFor inp))) (ct_args t))
           (if ti_Language inp = [] then None else Some (ti_Language inp)) (ti_Audio inp)) of None \<Rightarrow> 0 | Some m \<Rightarrow> length m) + 64)"
proof -
  let ?tmp = "ce_tempName env (ct_tempDir t) (''castlet-audio-*'' @ extFor inp)"
  obtain failure outs errs where run: "ce_run env (ct_name t) (map (replaceToken ?tmp) (ct_args t))
       (if ti_Language inp = [] then None else Some (ti_Language inp)) (ti_Audio inp) = (failure, outs, errs)"
    by (metis surj_pair)
  have undo: "dir0(?tmp := None) = dir0" "dir0(?tmp \<mapsto> x, ?tmp := None) = dir0" for x using assms(2) by auto
  have trim: "length (trimSpace s) \<le> length s" for s
  proof -
    have "length (dropWhile P (rev (dropWhile P s))) \<le> length (dropWhile P s)" for P
      using length_dropWhile_le [of P "rev (dropWhile P s)"] by simp
    then have "length (dropWhile P (rev (dropWhile P s))) \<le> length s" for P
      using length_dropWhile_le le_trans by blast
    then show ?thesis by (simp only: trimSpace_def Let_def length_rev)
  qed
  have "length (trimSpace (take maxStderrBytes (concat errs))) \<le> 44 + maxStderrBytes"
    using trim [of "take maxStderrBytes (concat errs)"] by simp
  then show ?thesis
    using assms(1) run undo
    by (cases failure) (auto simp: commandTranscribe_def Let_def capture_is_prefix length_cap split: if_splits option.splits)
qed

section \<open>A concrete program\<close>

definition ex_cmdenv :: "string list \<Rightarrow> cmdenv" where
  "ex_cmdenv outs = \<lparr>ce_tempName = (\<lambda>d p. ''/tmp/a''), ce_createFails = False, ce_copyFails = False, ce_closeFails = False,
     ce_run = (\<lambda>_ _ _ _. (None, outs, [])), ce_parse = (\<lambda>s. Some (s, []))\<rparr>"

definition ex_input :: TranscribeInput where
  "ex_input = \<lparr>ti_Audio = ''x'', ti_MIME = ''audio/ogg'', ti_Filename = [], ti_Language = []\<rparr>"

lemma ex_command:
  "commandTranscribe (NewCommand ''w'' []) (ex_cmdenv [''e'', ''n'']) ex_input Map.empty = (Transcribed ''en'' [], Map.empty)"
  by (simp add: commandTranscribe_def Let_def ex_cmdenv_def ex_input_def capture_is_prefix maxStdoutBytes_def NewCommand_def)

lemma ex_args: "replaceToken ''/tmp/a'' ''-f={{audio}}'' = ''-f=/tmp/a''"
  by code_simp

lemma transcript_is_complete_witness:
  "\<exists>raw. ce_parse (ex_cmdenv [''e'', ''n'']) ''en'' = Some (''en'', raw :: (float64 \<times> float64 \<times> string) list)"
  using transcript_is_complete [OF ex_command] by (auto simp: ex_cmdenv_def)

lemma staged_audio_is_removed_witness:
  "snd (commandTranscribe (NewCommand ''w'' []) (ex_cmdenv [''e'', ''n'']) ex_input Map.empty) = Map.empty"
  using staged_audio_is_removed [OF ex_command] ex_command by (simp add: ex_cmdenv_def)

end
