(* ===== verification/App.thy ===== *)
theory App
  imports Config Server OidcClient Lifecycle Worker S3 Command
begin

unbundle bit_operations_syntax

text \<open>
  \<open>app/app.go\<close>: from a configuration to the wired components.  The file system, the JSON
  decoder and the discovery of the identity provider are parameters.  That \<open>Serve\<close> starts
  and stops them in order is the subject of \<open>Lifecycle\<close>.
\<close>

section \<open>Tuning options\<close>

definition queueOptions :: "Config \<Rightarrow> QueueOption list" where
  "queueOptions cfg =
     (if 0 < cf_JobLease cfg then [WithLease (cf_JobLease cfg)] else [])
     @ (if 0 < cf_JobMaxAttempts cfg then [WithMaxAttempts (cf_JobMaxAttempts cfg)] else [])"

definition workerTuningOptions :: "Config \<Rightarrow> WorkerOption list" where
  "workerTuningOptions cfg =
     (if 0 < cf_WorkerPollInterval cfg then [WithPollInterval (cf_WorkerPollInterval cfg)] else [])"

definition serverTuningOptions :: "Config \<Rightarrow> ServerOption list" where
  "serverTuningOptions cfg =
     (if 0 < cf_MaxUploadBytes cfg then [WithMaxUploadBytes (cf_MaxUploadBytes cfg)] else [])
     @ (if 0 < cf_ShutdownTimeout cfg then [WithShutdownTimeout (cf_ShutdownTimeout cfg)] else [])"

definition jobTimeoutPolicy :: "Config \<Rightarrow> JobTimeoutPolicy" where
  "jobTimeoutPolicy cfg = \<lparr>p_Factor = cf_TranscribeTimeoutFactor cfg, p_Min = cf_TranscribeTimeoutMin cfg,
     p_Max = cf_TranscribeTimeout cfg\<rparr>"

section \<open>The staging directory\<close>

text \<open>
  A file-system node with its permission bits.  \<open>disk\<close> is the tree and which calls fail;
  \<open>os.MkdirAll\<close> accepts an existing directory, also behind a symbolic link, and leaves its
  mode alone; the umask can only take bits away from a new one.
\<close>

datatype node = DirNode "9 word" | FileNode | LinkNode bool

record disk =
  dk_tree :: "string \<rightharpoonup> node"
  dk_umask :: "9 word"
  dk_mkdirFails :: bool
  dk_lstatFails :: bool
  dk_chmodFails :: bool

definition MkdirAll :: "string \<Rightarrow> 9 word \<Rightarrow> disk \<Rightarrow> (unit option) \<times> disk" where
  "MkdirAll dir mode dk =
     (if dk_mkdirFails dk then (None, dk)
      else (case dk_tree dk dir of
              None \<Rightarrow> (Some (), dk\<lparr>dk_tree := (dk_tree dk)(dir \<mapsto> DirNode (mode AND NOT (dk_umask dk)))\<rparr>)
            | Some (DirNode _) \<Rightarrow> (Some (), dk)
            | Some (LinkNode True) \<Rightarrow> (Some (), dk)
            | Some _ \<Rightarrow> (None, dk)))"

definition ownerOnly :: "9 word" where "ownerOnly = 0b111000000"
definition groupOther :: "9 word" where "groupOther = 0b000111111"

text \<open>\<open>join\<close> is \<open>filepath.Join\<close>.\<close>

definition stagingDir :: "(string \<Rightarrow> string \<Rightarrow> string) \<Rightarrow> Config \<Rightarrow> disk \<Rightarrow> (string + string) \<times> disk" where
  "stagingDir join cfg dk =
     (let dir = join (cf_DataDir cfg) ''tmp'' in
      case MkdirAll dir ownerOnly dk of
        (None, dk1) \<Rightarrow> (Inl ''app: create staging dir'', dk1)
      | (Some _, dk1) \<Rightarrow>
          if dk_lstatFails dk1 then (Inl ''app: stat staging dir'', dk1)
          else (case dk_tree dk1 dir of
                  None \<Rightarrow> (Inl ''app: stat staging dir'', dk1)
                | Some (LinkNode _) \<Rightarrow> (Inl ''app: staging dir is a symlink'', dk1)
                | Some FileNode \<Rightarrow> (Inl ''app: staging dir is not a directory'', dk1)
                | Some (DirNode perm) \<Rightarrow>
                    if perm AND groupOther \<noteq> 0 then
                      (if dk_chmodFails dk1 then (Inl ''app: secure staging dir'', dk1)
                       else (Inr dir, dk1\<lparr>dk_tree := (dk_tree dk1)(dir \<mapsto> DirNode ownerOnly)\<rparr>))
                    else (Inr dir, dk1)))"

section \<open>Backends\<close>

datatype blobBackend = LocalBackend string | S3Backend S3Store

record appenv =
  ap_join :: "string \<Rightarrow> string \<Rightarrow> string"
  ap_readFile :: "string \<Rightarrow> string option"
  ap_decodeHead :: "string \<Rightarrow> string option"
  ap_decodeDir :: "string \<Rightarrow> string"
  ap_decodeS3 :: "string \<Rightarrow> s3config option"
  ap_parseURL :: "string \<Rightarrow> (string \<times> string) option"
  ap_discover :: "string \<Rightarrow> provider option"
  ap_openStore :: "string \<Rightarrow> bool"

definition newLocal :: "string \<Rightarrow> disk \<Rightarrow> (string + blobBackend) \<times> disk" where
  "newLocal dir dk = (case MkdirAll dir ownerOnly dk of
     (None, dk1) \<Rightarrow> (Inl (''localfs: create root '' @ dir), dk1) | (Some _, dk1) \<Rightarrow> (Inr (LocalBackend dir), dk1))"

definition buildBlobStore :: "appenv \<Rightarrow> Config \<Rightarrow> disk \<Rightarrow> (string + blobBackend) \<times> disk" where
  "buildBlobStore env cfg dk =
     (let media = ap_join env (cf_DataDir cfg) ''media'' in
      if cf_BlobStoreConfig cfg = [] then newLocal media dk
      else (case ap_readFile env (cf_BlobStoreConfig cfg) of
              None \<Rightarrow> (Inl ''app: read blob store config'', dk)
            | Some data \<Rightarrow>
                (case ap_decodeHead env data of
                   None \<Rightarrow> (Inl ''app: parse blob store config'', dk)
                 | Some typ \<Rightarrow>
                     if typ = [] \<or> typ = ''fs'' then
                       newLocal (if ap_decodeDir env data = [] then media else ap_decodeDir env data) dk
                     else if typ = ''s3'' then
                       (case ap_decodeS3 env data of
                          None \<Rightarrow> (Inl ''app: parse s3 blob store config'', dk)
                        | Some c \<Rightarrow>
                            (case stagingDir (ap_join env) cfg dk of
                               (Inl e, dk1) \<Rightarrow> (Inl e, dk1)
                             | (Inr staging, dk1) \<Rightarrow>
                                 (case NewS3 (ap_parseURL env) c (Some staging) of
                                    Inl e \<Rightarrow> (Inl e, dk1) | Inr st \<Rightarrow> (Inr (S3Backend st), dk1))))
                     else (Inl (''app: unknown blob store type '' @ typ), dk))))"

datatype transcriberBackend = NullBackend | CommandBackend CommandTranscriber

definition buildTranscriber :: "appenv \<Rightarrow> Config \<Rightarrow> disk \<Rightarrow> (string + transcriberBackend) \<times> disk" where
  "buildTranscriber env cfg dk =
     (if cf_Transcriber cfg = [] \<or> cf_Transcriber cfg = ''null'' then (Inr NullBackend, dk)
      else if cf_Transcriber cfg = ''command'' then
        (if cf_TranscribeCommand cfg = [] then (Inl ''app: transcriber=command requires --transcribe-command'', dk)
         else (case stagingDir (ap_join env) cfg dk of
                 (Inl e, dk1) \<Rightarrow> (Inl e, dk1)
               | (Inr staging, dk1) \<Rightarrow>
                   (Inr (CommandBackend (NewCommand (cf_TranscribeCommand cfg)
                      [WithArgs (cf_TranscribeArgs cfg), WithCommandTempDir staging])), dk1)))
      else (Inl (''app: unknown transcriber '' @ cf_Transcriber cfg), dk))"

definition buildAuthenticator :: "appenv \<Rightarrow> Config \<Rightarrow> string + Authenticator option" where
  "buildAuthenticator env cfg =
     (if cf_OIDCIssuer cfg = [] then Inr None
      else (case NewAuthenticator (ap_discover env)
                   \<lparr>oc_Issuer = cf_OIDCIssuer cfg, oc_ClientID = cf_OIDCClientID cfg, oc_ClientSecret = cf_OIDCClientSecret cfg,
                    oc_RedirectURL = cf_OIDCRedirectURL cfg, oc_Scopes = cf_OIDCScopes cfg\<rparr> of
              Inl e \<Rightarrow> Inl e | Inr a \<Rightarrow> Inr (Some a)))"

section \<open>The application\<close>

record App =
  app_cfg :: Config
  app_blobs :: blobBackend
  app_queue :: "db Queue"
  app_transcriber :: transcriberBackend
  app_sessions :: Manager
  app_authn :: "Authenticator option"

definition OpenStore :: "appenv \<Rightarrow> Config \<Rightarrow> disk \<Rightarrow> (string + string) \<times> disk" where
  "OpenStore env cfg dk =
     (case MkdirAll (cf_DataDir cfg) ownerOnly dk of
        (None, dk1) \<Rightarrow> (Inl ''app: create data dir'', dk1)
      | (Some _, dk1) \<Rightarrow>
          (let path = ap_join env (cf_DataDir cfg) ''castlet.db''
           in if ap_openStore env path then (Inr path, dk1) else (Inl ''sqlite: open'', dk1)))"

text \<open>
  \<open>New\<close>: the application or an error, whether an opened store was closed again, and the disk.
  \<open>hmac\<close> is the keyed hash of the sessions.
\<close>

definition NewApp :: "appenv \<Rightarrow> (string \<Rightarrow> string \<Rightarrow> string) \<Rightarrow> Config \<Rightarrow> disk \<Rightarrow> (string + App) \<times> bool \<times> disk" where
  "NewApp env hmac cfg dk =
     (case OpenStore env cfg dk of
        (Inl e, dk1) \<Rightarrow> (Inl e, False, dk1)
      | (Inr _, dk1) \<Rightarrow>
          (case buildBlobStore env cfg dk1 of
             (Inl e, dk2) \<Rightarrow> (Inl e, True, dk2)
           | (Inr blobs, dk2) \<Rightarrow>
               (case buildTranscriber env cfg dk2 of
                  (Inl e, dk3) \<Rightarrow> (Inl e, True, dk3)
                | (Inr tr, dk3) \<Rightarrow>
                    (case buildAuthenticator env cfg of
                       Inl e \<Rightarrow> (Inl e, True, dk3)
                     | Inr authn \<Rightarrow>
                         (Inr \<lparr>app_cfg = cfg, app_blobs = blobs,
                               app_queue = NewQueue sqlite_jobs (queueOptions cfg), app_transcriber = tr,
                               app_sessions = NewManager hmac (cf_SessionKey cfg)
                                 [WithSecure (hasPrefix (cf_BaseURL cfg) ''https://'')],
                               app_authn = authn\<rparr>, False, dk3)))))"

text \<open>The options \<open>Serve\<close> gives the server and the worker.\<close>

definition serverOptions :: "App \<Rightarrow> string \<Rightarrow> ServerOption list" where
  "serverOptions a uploadStaging =
     [WithAddr (cf_Addr (app_cfg a)), WithBaseURL (cf_BaseURL (app_cfg a)), WithSiteName (cf_SiteName (app_cfg a)),
      WithAllowSignup (cf_AllowSignup (app_cfg a)), WithUploadTempDir uploadStaging]
     @ serverTuningOptions (app_cfg a)
     @ (case app_authn a of None \<Rightarrow> []
        | Some authn \<Rightarrow> WithAuthenticator (exchangeOf authn) #
            (if cf_OIDCAllowedDomains (app_cfg a) \<noteq> [] then [WithAllowedDomains (cf_OIDCAllowedDomains (app_cfg a))] else []))"

definition workerOptions :: "App \<Rightarrow> WorkerOption list" where
  "workerOptions a = WithJobTimeout (jobTimeoutPolicy (app_cfg a)) # workerTuningOptions (app_cfg a)"

text \<open>What \<open>Serve\<close> runs: the server and the worker over one registry.\<close>

definition wire :: "App \<Rightarrow> bool \<Rightarrow> string \<Rightarrow> string + Server \<times> Worker \<times> world Registry" where
  "wire a parses uploadStaging =
     (case NewServer (case app_blobs a of S3Backend _ \<Rightarrow> True | LocalBackend _ \<Rightarrow> False) parses
             (serverOptions a uploadStaging) (Some emptyRegistry) of
        Inl e \<Rightarrow> Inl e
      | Inr (srv, reg) \<Rightarrow> (let (wk, reg1) = NewWorker (app_queue a) (workerOptions a) reg in Inr (srv, wk, reg1)))"

section \<open>Guarantees\<close>

text \<open>Every knob that is not positive keeps the component's default, every other reaches it.\<close>

definition knob :: "int \<Rightarrow> int \<Rightarrow> int" where
  "knob v dflt = (if 0 < v then v else dflt)"

lemma NewApp_Inr:
  assumes "NewApp env hmac cfg dk = (Inr a, shut, dk')"
  shows "app_cfg a = cfg \<and> app_queue a = NewQueue sqlite_jobs (queueOptions cfg) \<and> \<not> shut
    \<and> (cf_OIDCIssuer cfg = [] \<longrightarrow> app_authn a = None)
    \<and> app_sessions a = NewManager hmac (cf_SessionKey cfg) [WithSecure (hasPrefix (cf_BaseURL cfg) ''https://'')]"
  using assms by (auto simp: NewApp_def buildAuthenticator_def split: prod.splits sum.splits if_splits)

text \<open>
  Every operational knob that is positive reaches the component it tunes, every other
  leaves the component's own positive default.
\<close>

theorem knobs_reach_components:
  assumes "NewApp env hmac cfg dk = (Inr a, shut, dk')" "wire a parses staging = Inr (srv, wk, reg)"
  shows "q_lease (app_queue a) = knob (cf_JobLease cfg) (10 * Minute) \<and> 0 < q_lease (app_queue a)
    \<and> q_maxAttempts (app_queue a) = knob (cf_JobMaxAttempts cfg) 5 \<and> 1 \<le> q_maxAttempts (app_queue a)
    \<and> w_pollInterval wk = knob (cf_WorkerPollInterval cfg) (5 * Second) \<and> 0 < w_pollInterval wk
    \<and> sv_maxUploadBytes srv = knob (cf_MaxUploadBytes cfg) (512 * 1048576) \<and> 0 < sv_maxUploadBytes srv
    \<and> sv_shutdownTimeout srv = knob (cf_ShutdownTimeout cfg) (10 * Second) \<and> 0 < sv_shutdownTimeout srv
    \<and> p_Max (w_jobTimeout wk) = knob (cf_TranscribeTimeout cfg) (2 * Hour) \<and> 0 < p_Min (w_jobTimeout wk)
    \<and> sv_uploadTempDir srv = staging \<and> w_queue wk = app_queue a
    \<and> (cf_OIDCIssuer cfg = [] \<longrightarrow> sv_authn srv = None)"
proof -
  note a = NewApp_Inr [OF assms(1)]
  obtain reg0 where n: "NewServer (case app_blobs a of S3Backend _ \<Rightarrow> True | LocalBackend _ \<Rightarrow> False) parses
      (serverOptions a staging) (Some emptyRegistry) = Inr (srv, reg0)"
    and w: "NewWorker (app_queue a) (workerOptions a) reg0 = (wk, reg)"
    using assms(2) by (auto simp: wire_def split: sum.splits prod.splits)
  have srv: "sv_maxUploadBytes srv = knob (cf_MaxUploadBytes cfg) (512 * 1048576)"
    "sv_shutdownTimeout srv = knob (cf_ShutdownTimeout cfg) (10 * Second)" "sv_uploadTempDir srv = staging"
    "sv_authn srv = map_option exchangeOf (app_authn a)"
    using n a by (auto simp: NewServer_def Let_def serverOptions_def serverTuningOptions_def knob_def
        split: if_splits option.splits)
  have wk: "w_pollInterval wk = knob (cf_WorkerPollInterval cfg) (5 * Second)" "w_queue wk = app_queue a"
    "w_jobTimeout wk = withDefaults (jobTimeoutPolicy cfg)"
    using w a by (auto simp: NewWorker_def Let_def workerOptions_def workerTuningOptions_def knob_def)
  have q: "q_lease (app_queue a) = knob (cf_JobLease cfg) (10 * Minute)" "q_maxAttempts (app_queue a) = knob (cf_JobMaxAttempts cfg) 5"
    using a by (auto simp: NewQueue_def queueOptions_def knob_def)
  have "p_Max (w_jobTimeout wk) = knob (cf_TranscribeTimeout cfg) (2 * Hour)" "0 < p_Min (w_jobTimeout wk)"
    unfolding wk by (auto simp: withDefaults_def jobTimeoutPolicy_def knob_def units)
  then show ?thesis using srv wk(1,2) q a by (auto simp: knob_def units)
qed


theorem failed_start_closes_store:
  assumes "NewApp env hmac cfg dk = (r, shut, dk')"
  shows "shut \<longleftrightarrow> (\<exists>e. r = Inl e) \<and> (\<exists>path. fst (OpenStore env cfg dk) = Inr path)"
  using assms by (auto simp: NewApp_def split: prod.splits sum.splits)

section \<open>A concrete installation\<close>

definition ex_cfg :: Config where
  "ex_cfg = (rf_cfg (flagDefaults ex_parsers ex_environment))\<lparr>cf_MaxUploadBytes := 0\<rparr>"

definition ex_appenv :: "bool \<Rightarrow> appenv" where
  "ex_appenv opens = \<lparr>ap_join = (\<lambda>a b. a @ ''/'' @ b), ap_readFile = (\<lambda>_. None), ap_decodeHead = (\<lambda>_. None),
     ap_decodeDir = (\<lambda>_. []), ap_decodeS3 = (\<lambda>_. None), ap_parseURL = (\<lambda>_. None), ap_discover = (\<lambda>_. None),
     ap_openStore = (\<lambda>_. opens)\<rparr>"

definition ex_disk :: disk where
  "ex_disk = \<lparr>dk_tree = [''/srv/tmp'' \<mapsto> DirNode 0b111101101], dk_umask = 0, dk_mkdirFails = False,
     dk_lstatFails = False, dk_chmodFails = False\<rparr>"

lemma ex_cfg_simps:
  "cf_DataDir ex_cfg = ''/srv''" "cf_BlobStoreConfig ex_cfg = []" "cf_Transcriber ex_cfg = ''null''"
  "cf_OIDCIssuer ex_cfg = []" "cf_MaxUploadBytes ex_cfg = 0"
  by (simp_all add: ex_cfg_def flagDefaults_def envStr_def ex_environment_def)

lemma ex_app: "\<exists>a dk'. NewApp (ex_appenv True) (\<lambda>k m. m) ex_cfg ex_disk = (Inr a, False, dk')"
  by (simp add: NewApp_def OpenStore_def buildBlobStore_def newLocal_def MkdirAll_def buildTranscriber_def
      buildAuthenticator_def ex_cfg_simps ex_appenv_def ex_disk_def Let_def)

lemma knobs_reach_components_witness:
  "\<exists>a srv wk reg. wire a True ''/srv/tmp'' = Inr (srv, wk, reg) \<and> sv_maxUploadBytes srv = 512 * 1048576 \<and> 0 < w_pollInterval wk"
proof -
  obtain a dk' where a: "NewApp (ex_appenv True) (\<lambda>k m. m) ex_cfg ex_disk = (Inr a, False, dk')" using ex_app by blast
  obtain wk reg where "NewWorker (app_queue a) (workerOptions a) (registerMetrics emptyRegistry) = (wk, reg)" by fastforce
  then obtain srv where w: "wire a True ''/srv/tmp'' = Inr (srv, wk, reg)" by (simp add: wire_def NewServer_def Let_def)
  from knobs_reach_components [OF a w] w show ?thesis by (auto simp: ex_cfg_simps knob_def)
qed

lemma ex_staging: "\<exists>dk'. stagingDir (\<lambda>a b. a @ ''/'' @ b) ex_cfg ex_disk = (Inr ''/srv/tmp'', dk')"
  by (simp add: stagingDir_def MkdirAll_def ex_cfg_simps ex_disk_def groupOther_def Let_def)


lemma failed_start_closes_store_witness: "\<exists>e. fst (NewApp (ex_appenv False) (\<lambda>k m. m) ex_cfg ex_disk) = Inl e"
proof -
  have o: "fst (OpenStore (ex_appenv False) ex_cfg ex_disk) = Inl ''sqlite: open''"
    by (simp add: OpenStore_def MkdirAll_def ex_cfg_simps ex_disk_def ex_appenv_def)
  obtain r shut dk' where n: "NewApp (ex_appenv False) (\<lambda>k m. m) ex_cfg ex_disk = (r, shut, dk')" by (metis surj_pair)
  from failed_start_closes_store [OF n] o have "\<not> shut" by simp
  then show ?thesis using n o by (auto simp: NewApp_def split: prod.splits sum.splits)
qed

end
