(* ===== verification/Cli.thy ===== *)
theory Cli
  imports App
begin

text \<open>
  \<open>cmd/castlet/main.go\<close>: the subcommands and their exit status, the password sources of
  \<open>user-create\<close> and the account it makes.  Files, the terminal, bcrypt and the opening and
  migration of the database are parameters.
\<close>

section \<open>Password sources\<close>

text \<open>The terminal: \<open>None\<close> when standard input is none, else what the prompt reads, if it does.\<close>

record cliEnv =
  cl_env :: environment
  cl_readFile :: "string \<Rightarrow> string option"
  cl_terminal :: "string option option"
  cl_canonical :: "string \<Rightarrow> string option"
  cl_bcrypt :: "string \<Rightarrow> string option"
  cl_openFails :: bool
  cl_migrateFails :: bool
  cl_newID :: string
  cl_now :: time

definition trimNewlines :: "string \<Rightarrow> string" where
  "trimNewlines s = rev (dropWhile (\<lambda>c. c = CHR 0x0D \<or> c = CHR 0x0A) (rev s))"

definition readPasswordFile :: "cliEnv \<Rightarrow> string \<Rightarrow> string + string" where
  "readPasswordFile env path =
     (case cl_readFile env path of None \<Rightarrow> Inl ''read password file'' | Some b \<Rightarrow> Inr (trimNewlines b))"

definition promptPassword :: "string option \<Rightarrow> string + string" where
  "promptPassword typed = (case typed of None \<Rightarrow> Inl ''read password'' | Some b \<Rightarrow> Inr b)"

definition resolvePassword :: "cliEnv \<Rightarrow> string \<Rightarrow> bool \<Rightarrow> string \<Rightarrow> bool \<Rightarrow> string + string" where
  "resolvePassword env passwordFile fileSet passwordFlag flagSet =
     (if fileSet then
        (if passwordFile = [] then Inl ''--password-file requires a path'' else readPasswordFile env passwordFile)
      else if flagSet then Inr passwordFlag
      else (case cl_terminal env of
              Some typed \<Rightarrow> promptPassword typed
            | None \<Rightarrow> Inl ''no password source: use --password-file, --password, or run interactively for a prompt''))"

section \<open>The user-create command\<close>

text \<open>The flag variables, with what \<open>Visit\<close> reports as set.\<close>

record userFlags =
  uf_dataDir :: string
  uf_email :: string
  uf_name :: string
  uf_passwordFile :: string
  uf_fileSet :: bool
  uf_password :: string
  uf_passwordSet :: bool

definition createFlags :: "userFlags flagentry list" where
  "createFlags =
     [(''data-dir'', False, strVar (\<lambda>v c. c\<lparr>uf_dataDir := v\<rparr>)),
      (''email'', False, strVar (\<lambda>v c. c\<lparr>uf_email := v\<rparr>)),
      (''name'', False, strVar (\<lambda>v c. c\<lparr>uf_name := v\<rparr>)),
      (''password-file'', False, strVar (\<lambda>v c. c\<lparr>uf_passwordFile := v, uf_fileSet := True\<rparr>)),
      (''password'', False, strVar (\<lambda>v c. c\<lparr>uf_password := v, uf_passwordSet := True\<rparr>))]"

definition createDefaults :: "cliEnv \<Rightarrow> userFlags" where
  "createDefaults env = \<lparr>uf_dataDir = envStr (cl_env env) ''CASTLET_DATA_DIR'' ''./data'', uf_email = [], uf_name = [],
     uf_passwordFile = [], uf_fileSet = False, uf_password = [], uf_passwordSet = False\<rparr>"

datatype cli_error = CliFlag flag_error | CliMessage string | CliStore err

definition cmdUserCreate :: "cliEnv \<Rightarrow> string list \<Rightarrow> db \<Rightarrow> (cli_error + user) \<times> db" where
  "cmdUserCreate env args d =
     (case parseFlags createFlags args (createDefaults env) of
        Inl e \<Rightarrow> (Inl (CliFlag e), d)
      | Inr f \<Rightarrow>
          if uf_email f = [] then (Inl (CliMessage ''--email is required''), d)
          else (case cl_canonical env (uf_email f) of
            None \<Rightarrow> (Inl (CliMessage ''invalid --email''), d)
          | Some canonicalEmail \<Rightarrow>
              (case resolvePassword env (uf_passwordFile f) (uf_fileSet f) (uf_password f) (uf_passwordSet f) of
                 Inl e \<Rightarrow> (Inl (CliMessage e), d)
               | Inr plaintext \<Rightarrow>
                   if plaintext = [] then (Inl (CliMessage ''a password is required''), d)
                   else if cl_openFails env then (Inl (CliMessage ''app: new''), d)
                   else if cl_migrateFails env then (Inl (CliMessage ''sqlite: migrate''), d)
                   else (case cl_bcrypt env plaintext of
                     None \<Rightarrow> (Inl (CliMessage ''hash password''), d)
                   | Some hash \<Rightarrow>
                       (let u = \<lparr>u_ID = cl_newID env, u_Email = canonicalEmail,
                                 u_DisplayName = (if uf_name f = [] then canonicalEmail else uf_name f),
                                 u_PasswordHash = hash, u_OIDCIssuer = [], u_OIDCSubject = [], u_SessionEpoch = 0,
                                 u_CreatedAt = cl_now env\<rparr>
                        in case CreateUser u d of
                             (Inl e, d1) \<Rightarrow> (Inl (CliStore e), d1)
                           | (Inr _, d1) \<Rightarrow> (Inr u, d1))))))"

section \<open>Dispatch\<close>

text \<open>\<open>run\<close> executes a subcommand and tells whether it returned an error; the exit status.\<close>

definition castletMain :: "(string \<Rightarrow> string list \<Rightarrow> bool) \<Rightarrow> string list \<Rightarrow> int" where
  "castletMain run argv =
     (case argv of
        _ # cmd # args \<Rightarrow>
          if cmd \<in> {''serve'', ''migrate'', ''user-create''} then (if run cmd args then 1 else 0)
          else if cmd \<in> {''version'', ''-v'', ''--version'', ''help'', ''-h'', ''--help''} then 0
          else 2
      | _ \<Rightarrow> 2)"

text \<open>
  \<open>cmdServe\<close>: configuration, construction, migration, service; the application is closed on
  every path after its construction.
\<close>

datatype serve_trace = LoadFailed load_error | NewFailed string | MigrateFailed | Served "string list"

definition cmdServe ::
    "parsers \<Rightarrow> environment \<Rightarrow> string \<Rightarrow> string list \<Rightarrow> (Config \<Rightarrow> string + App) \<Rightarrow> (App \<Rightarrow> bool) \<Rightarrow> (App \<Rightarrow> string list) \<Rightarrow> serve_trace \<times> bool" where
  "cmdServe ps env rnd args new migrateFails serve =
     (case Load ps env rnd args of
        Inl e \<Rightarrow> (LoadFailed e, False)
      | Inr cfg \<Rightarrow>
          (case new cfg of
             Inl e \<Rightarrow> (NewFailed e, False)
           | Inr a \<Rightarrow> if migrateFails a then (MigrateFailed, True) else (Served (serve a), True)))"

definition cmdMigrate ::
    "parsers \<Rightarrow> environment \<Rightarrow> string \<Rightarrow> string list \<Rightarrow> (Config \<Rightarrow> string option) \<Rightarrow> bool \<Rightarrow> serve_trace \<times> bool" where
  "cmdMigrate ps env rnd args openStore migrateFails =
     (case Load ps env rnd args of
        Inl e \<Rightarrow> (LoadFailed e, False)
      | Inr cfg \<Rightarrow>
          (case openStore cfg of
             Some e \<Rightarrow> (NewFailed e, False)
           | None \<Rightarrow> if migrateFails then (MigrateFailed, True) else (Served [], True)))"

section \<open>Guarantees\<close>

theorem user_create_sound:
  assumes "cmdUserCreate env args d = (r, d')"
  shows "(\<forall>e. r = Inl e \<longrightarrow> d' = d)
    \<and> (\<forall>u. r = Inr u \<longrightarrow>
         UserByEmail (u_Email u) d = Inl ErrNotFound
       \<and> UserByEmail (u_Email u) d' = Inr (stored_user u)
       \<and> users d' = users d @ [user_to_row u]
       \<and> (\<exists>f pw. parseFlags createFlags args (createDefaults env) = Inr f \<and> cl_canonical env (uf_email f) = Some (u_Email u)
            \<and> pw \<noteq> [] \<and> cl_bcrypt env pw = Some (u_PasswordHash u)
            \<and> (uf_fileSet f \<longrightarrow> (\<exists>b. cl_readFile env (uf_passwordFile f) = Some b \<and> pw = trimNewlines b))
            \<and> (\<not> uf_fileSet f \<and> uf_passwordSet f \<longrightarrow> pw = uf_password f)
            \<and> (\<not> uf_fileSet f \<and> \<not> uf_passwordSet f \<longrightarrow> cl_terminal env = Some (Some pw))))"
proof (cases r)
  case (Inl e)
  then show ?thesis
    using assms by (auto simp: cmdUserCreate_def CreateUser_def Let_def split: sum.splits option.splits if_splits prod.splits)
next
  case (Inr u)
  then obtain f pw where f: "parseFlags createFlags args (createDefaults env) = Inr f" "cl_canonical env (uf_email f) = Some (u_Email u)"
      "resolvePassword env (uf_passwordFile f) (uf_fileSet f) (uf_password f) (uf_passwordSet f) = Inr pw" "pw \<noteq> []"
      "cl_bcrypt env pw = Some (u_PasswordHash u)"
    and c: "CreateUser u d = (Inr (), d')"
    using assms by (auto simp: cmdUserCreate_def Let_def split: sum.splits option.splits if_splits prod.splits)
  have "users d' = users d @ [user_to_row u]" "UserByEmail (u_Email u) d = Inl ErrNotFound"
    using c by (auto simp: CreateUser_def UserByEmail_def userWhere_def list_ex_iff user_clash_def find_None_iff
        split: if_splits option.splits)
  moreover have "UserByEmail (u_Email u) d' = Inr (stored_user u)" by (rule UserByEmail_CreateUser [OF c refl])
  moreover have "(uf_fileSet f \<longrightarrow> (\<exists>b. cl_readFile env (uf_passwordFile f) = Some b \<and> pw = trimNewlines b))
      \<and> (\<not> uf_fileSet f \<and> uf_passwordSet f \<longrightarrow> pw = uf_password f)
      \<and> (\<not> uf_fileSet f \<and> \<not> uf_passwordSet f \<longrightarrow> cl_terminal env = Some (Some pw))"
    using f(3) by (auto simp: resolvePassword_def readPasswordFile_def promptPassword_def split: if_splits option.splits)
  ultimately show ?thesis using Inr f by auto
qed

section \<open>A concrete command line\<close>

definition ex_cli :: cliEnv where
  "ex_cli = \<lparr>cl_env = (\<lambda>_. []), cl_readFile = (\<lambda>p. Some (''secret'' @ [CHR 0x0A])), cl_terminal = None,
     cl_canonical = (\<lambda>s. Some s), cl_bcrypt = (\<lambda>p. Some (CHR ''$'' # p)), cl_openFails = False, cl_migrateFails = False,
     cl_newID = ''new'', cl_now = 0\<rparr>"

definition ex_args :: "string list" where
  "ex_args = [''--email=n@x'', ''--password-file=f'', ''--password=p'']"

lemma ex_create: "case fst (cmdUserCreate ex_cli ex_args empty_db) of Inl _ \<Rightarrow> False | Inr u \<Rightarrow> u_PasswordHash u = ''$secret''"
  by code_simp

lemma user_create_sound_witness:
  "\<exists>u. cmdUserCreate ex_cli ex_args empty_db = (Inr u, snd (cmdUserCreate ex_cli ex_args empty_db))
     \<and> UserByEmail (u_Email u) (snd (cmdUserCreate ex_cli ex_args empty_db)) = Inr (stored_user u)"
proof -
  obtain r d' where h: "cmdUserCreate ex_cli ex_args empty_db = (r, d')" by fastforce
  then obtain u where "r = Inr u" using ex_create by (auto split: sum.splits)
  with user_create_sound [OF h] h show ?thesis by auto
qed

end
