(* ===== verification/IdleStream.thy ===== *)
theory IdleStream
  imports Prelude
begin

text \<open>
  The two idle bounds on byte streams: the response writer of \<open>server/handlers_media.go\<close>, which
  refreshes a write deadline before every write, and the connection of \<open>blob/s3/s3.go\<close>, which
  refreshes one deadline for both directions before every read and write.  A connection is its
  deadlines; a call on it returns when the peer is ready or at its deadline, whichever is first.
\<close>

section \<open>A connection with deadlines\<close>

record conn =
  cn_read :: "time option"
  cn_write :: "time option"
  cn_supports :: bool

definition SetDeadline :: "time \<Rightarrow> conn \<Rightarrow> conn option" where
  "SetDeadline t c = (if cn_supports c then Some (c\<lparr>cn_read := Some t, cn_write := Some t\<rparr>) else None)"

definition SetWriteDeadline :: "time \<Rightarrow> conn \<Rightarrow> conn option" where
  "SetWriteDeadline t c = (if cn_supports c then Some (c\<lparr>cn_write := Some t\<rparr>) else None)"

text \<open>How and when a call returns; the peer is ready after \<open>wait\<close>, or never.\<close>

datatype io = IoOk time | IoTimeout time

fun io_until :: "time option \<Rightarrow> time \<Rightarrow> duration option \<Rightarrow> io option" where
  "io_until None now wait = map_option (\<lambda>n. IoOk (now + n)) wait"
| "io_until (Some dl) now None = Some (IoTimeout (max now dl))"
| "io_until (Some dl) now (Some n) = Some (if now + n \<le> dl then IoOk (now + n) else IoTimeout (max now dl))"

section \<open>The media response\<close>

datatype respWriter = PlainWriter | IdleDeadlineWriter duration

definition streamWithIdleDeadline :: "duration \<Rightarrow> time \<Rightarrow> conn \<Rightarrow> respWriter \<times> conn" where
  "streamWithIdleDeadline idle now c =
     (case SetWriteDeadline (now + idle) c of None \<Rightarrow> (PlainWriter, c) | Some c' \<Rightarrow> (IdleDeadlineWriter idle, c'))"

fun respWrite :: "respWriter \<Rightarrow> time \<Rightarrow> duration option \<Rightarrow> conn \<Rightarrow> io option \<times> conn" where
  "respWrite PlainWriter now wait c = (io_until (cn_write c) now wait, c)"
| "respWrite (IdleDeadlineWriter idle) now wait c =
     (let c' = (case SetWriteDeadline (now + idle) c of None \<Rightarrow> c | Some c' \<Rightarrow> c')
      in (io_until (cn_write c') now wait, c'))"

text \<open>
  The copy loop of \<open>http.ServeContent\<close>: for each chunk the time its bytes take to read and the
  time the client takes to accept them; it stops at the first failed write.
\<close>

fun serveChunks :: "respWriter \<Rightarrow> time \<Rightarrow> (duration \<times> duration option) list \<Rightarrow> conn \<Rightarrow> io option \<times> conn" where
  "serveChunks rw now [] c = (Some (IoOk now), c)"
| "serveChunks rw now ((gap, wait) # rest) c =
     (case respWrite rw (now + gap) wait c of
        (Some (IoOk t), c') \<Rightarrow> serveChunks rw t rest c'
      | r \<Rightarrow> r)"

definition prompt :: "duration \<Rightarrow> duration \<times> duration option \<Rightarrow> bool" where
  "prompt idle ch = (case snd ch of None \<Rightarrow> False | Some n \<Rightarrow> n \<le> idle)"

definition chunkTime :: "duration \<times> duration option \<Rightarrow> duration" where
  "chunkTime ch = fst ch + (case snd ch of None \<Rightarrow> 0 | Some n \<Rightarrow> n)"

lemma respWrite_idle:
  "cn_supports c \<Longrightarrow> 0 \<le> idle \<Longrightarrow> respWrite (IdleDeadlineWriter idle) now wait c =
     (Some (if prompt idle (gap, wait) then IoOk (now + chunkTime (0, wait)) else IoTimeout (now + idle)),
      c\<lparr>cn_write := Some (now + idle)\<rparr>)"
  by (cases wait) (auto simp: SetWriteDeadline_def prompt_def chunkTime_def)

lemma serveChunks_idle:
  assumes "cn_supports c" "0 \<le> idle"
  shows "fst (serveChunks (IdleDeadlineWriter idle) now chunks c) =
      (let pre = takeWhile (prompt idle) chunks; t = now + sum_list (map chunkTime pre)
       in Some (if pre = chunks then IoOk t else IoTimeout (t + fst (chunks ! length pre) + idle)))
    \<and> (chunks \<noteq> [] \<longrightarrow> cn_write (snd (serveChunks (IdleDeadlineWriter idle) now chunks c)) \<noteq> None)"
  using assms(1)
proof (induction chunks arbitrary: now c)
  case (Cons ch rest)
  obtain gap wait where ch: "ch = (gap, wait)" by fastforce
  let ?c = "c\<lparr>cn_write := Some (now + gap + idle)\<rparr>"
  show ?case
  proof (cases "prompt idle ch")
    case True
    have t: "now + gap + chunkTime (0, wait) = now + chunkTime ch" by (simp add: ch chunkTime_def)
    have s: "serveChunks (IdleDeadlineWriter idle) now (ch # rest) c
        = serveChunks (IdleDeadlineWriter idle) (now + chunkTime ch) rest ?c"
      unfolding t [symmetric] using True Cons.prems
      by (simp add: ch respWrite_idle [OF _ assms(2), where gap = gap] del: respWrite.simps)
    have "cn_supports ?c" using Cons.prems by simp
    note IH = Cons.IH [OF this, of "now + chunkTime ch"]
    show ?thesis
      unfolding s using IH True by (cases "rest = []") (auto simp: Let_def add.assoc)
  next
    case False
    then show ?thesis
      using Cons.prems by (simp add: ch respWrite_idle [OF _ assms(2), where gap = gap] del: respWrite.simps)
  qed
qed simp

text \<open>
  C40: A media download is never cut while each write is accepted within the idle window, however
  long it lasts; the first write the client stalls ends it exactly one window after it began,
  and the connection keeps its deadline.
\<close>

theorem media_stream_bound:
  assumes "cn_supports c" "0 \<le> idle" "streamWithIdleDeadline idle now c = (rw, c1)"
    and "serveChunks rw now chunks c1 = (r, c2)"
  shows "(let pre = takeWhile (prompt idle) chunks; t = now + sum_list (map chunkTime pre)
      in r = Some (if pre = chunks then IoOk t else IoTimeout (t + fst (chunks ! length pre) + idle)))
    \<and> cn_write c2 \<noteq> None"
proof -
  have rw: "rw = IdleDeadlineWriter idle" "c1 = c\<lparr>cn_write := Some (now + idle)\<rparr>"
    using assms(1,3) by (simp_all add: streamWithIdleDeadline_def SetWriteDeadline_def)
  then have "cn_supports c1" using assms(1) by simp
  from serveChunks_idle [OF this assms(2), of now chunks] assms(4) rw
  show ?thesis by (cases "chunks = []") (auto simp: Let_def)
qed

lemma media_stream_bound_witness:
  "fst (serveChunks (IdleDeadlineWriter 60) 0 [(0, Some 50), (5, Some 50), (1, None)] \<lparr>cn_read = None, cn_write = Some 60, cn_supports = True\<rparr>)
     = Some (IoTimeout 166)"
proof -
  obtain r c2 where s: "serveChunks (IdleDeadlineWriter 60) 0 [(0, Some 50), (5, Some 50), (1, None)]
      \<lparr>cn_read = None, cn_write = Some 60, cn_supports = True\<rparr> = (r, c2)" by fastforce
  have o: "streamWithIdleDeadline 60 0 \<lparr>cn_read = None, cn_write = None, cn_supports = True\<rparr>
      = (IdleDeadlineWriter 60, \<lparr>cn_read = None, cn_write = Some 60, cn_supports = True\<rparr>)"
    by (simp add: streamWithIdleDeadline_def SetWriteDeadline_def)
  from media_stream_bound [OF _ _ o s] have "r = Some (IoTimeout 166)"
    by (simp add: prompt_def chunkTime_def)
  then show ?thesis by (simp only: s fst_conv)
qed

section \<open>The object-store connection\<close>

record idleTimeoutConn =
  it_conn :: conn
  it_idle :: duration

text \<open>Read and Write refresh the shared deadline and then call the connection; \<open>None\<close>: refused.\<close>

definition refresh :: "time \<Rightarrow> idleTimeoutConn \<Rightarrow> idleTimeoutConn option" where
  "refresh now w = map_option (\<lambda>c. w\<lparr>it_conn := c\<rparr>) (SetDeadline (now + it_idle w) (it_conn w))"

definition idleTimeout :: duration where [units]: "idleTimeout = 30 * Second"

text \<open>
  A transfer over HTTP/1.1: the request body is written while the response is awaited.  The
  pending calls of the two directions, the clock, and when the connection was cut.
\<close>

record duplex =
  dx_now :: time
  dx_conn :: idleTimeoutConn
  dx_reading :: bool
  dx_writing :: bool
  dx_last :: time
  dx_cutAt :: "time option"

definition pending :: "duplex \<Rightarrow> bool" where "pending s \<longleftrightarrow> dx_reading s \<or> dx_writing s"

text \<open>A pending call returns at its deadline at the latest, also when the deadline moved since.\<close>

inductive dstep :: "duplex \<Rightarrow> duplex \<Rightarrow> bool" where
  call_read: "dx_cutAt s = None \<Longrightarrow> \<not> dx_reading s \<Longrightarrow> refresh (dx_now s) (dx_conn s) = Some w \<Longrightarrow>
    dstep s (s\<lparr>dx_conn := w, dx_reading := True, dx_last := dx_now s\<rparr>)"
| call_write: "dx_cutAt s = None \<Longrightarrow> \<not> dx_writing s \<Longrightarrow> refresh (dx_now s) (dx_conn s) = Some w \<Longrightarrow>
    dstep s (s\<lparr>dx_conn := w, dx_writing := True, dx_last := dx_now s\<rparr>)"
| read_done: "dx_reading s \<Longrightarrow> dstep s (s\<lparr>dx_reading := False\<rparr>)"
| write_done: "dx_writing s \<Longrightarrow> dstep s (s\<lparr>dx_writing := False\<rparr>)"
| tick: "dx_now s \<le> t \<Longrightarrow> (dx_reading s \<Longrightarrow> \<forall>dl. cn_read (it_conn (dx_conn s)) = Some dl \<longrightarrow> t \<le> dl) \<Longrightarrow>
    (dx_writing s \<Longrightarrow> \<forall>dl. cn_write (it_conn (dx_conn s)) = Some dl \<longrightarrow> t \<le> dl) \<Longrightarrow> dstep s (s\<lparr>dx_now := t\<rparr>)"
| timeout: "dx_reading s \<and> cn_read (it_conn (dx_conn s)) = Some (dx_now s)
    \<or> dx_writing s \<and> cn_write (it_conn (dx_conn s)) = Some (dx_now s) \<Longrightarrow>
    dstep s (s\<lparr>dx_cutAt := Some (dx_now s), dx_reading := False, dx_writing := False\<rparr>)"

inductive transfer :: "duration \<Rightarrow> time \<Rightarrow> duplex \<Rightarrow> bool" for idle t0 where
  dial: "transfer idle t0 \<lparr>dx_now = t0, dx_conn = \<lparr>it_conn = \<lparr>cn_read = None, cn_write = None, cn_supports = True\<rparr>, it_idle = idle\<rparr>,
     dx_reading = False, dx_writing = False, dx_last = t0, dx_cutAt = None\<rparr>"
| step: "transfer idle t0 s \<Longrightarrow> dstep s s' \<Longrightarrow> transfer idle t0 s'"

definition duplex_ok :: "duration \<Rightarrow> duplex \<Rightarrow> bool" where
  "duplex_ok idle s \<longleftrightarrow> it_idle (dx_conn s) = idle \<and> cn_supports (it_conn (dx_conn s)) \<and> dx_last s \<le> dx_now s
     \<and> (pending s \<longrightarrow> cn_read (it_conn (dx_conn s)) = Some (dx_last s + idle)
          \<and> cn_write (it_conn (dx_conn s)) = Some (dx_last s + idle) \<and> dx_now s \<le> dx_last s + idle \<and> dx_cutAt s = None)
     \<and> (\<forall>t. dx_cutAt s = Some t \<longrightarrow> t = dx_last s + idle)"

lemma dstep_eq: "dstep s s' \<Longrightarrow> s' = s'' \<Longrightarrow> dstep s s''" by simp

lemma dstep_ok: "dstep s s' \<Longrightarrow> 0 \<le> idle \<Longrightarrow> duplex_ok idle s \<Longrightarrow> duplex_ok idle s'"
  by (erule dstep.cases) (auto simp: duplex_ok_def pending_def refresh_def SetDeadline_def)

text \<open>
  A transfer to the object store is cut only after a whole idle window in which neither
  direction made a call, and a call never stays pending longer than one window past the last
  call of either direction.
\<close>

theorem transfer_idle_bound:
  assumes "transfer idle t0 s" "0 \<le> idle"
  shows "(pending s \<longrightarrow> dx_now s \<le> dx_last s + idle) \<and> (\<forall>t. dx_cutAt s = Some t \<longrightarrow> t = dx_last s + idle)"
proof -
  have "duplex_ok idle s" using assms(1)
  proof induction
    case dial
    then show ?case by (simp add: duplex_ok_def pending_def)
  next
    case (step s s')
    then show ?case using dstep_ok [OF _ assms(2)] by blast
  qed
  then show ?thesis by (simp add: duplex_ok_def)
qed

lemma transfer_idle_bound_witness:
  "\<exists>s. transfer idleTimeout 0 s \<and> dx_cutAt s = Some idleTimeout \<and> dx_last s = 0"
proof -
  let ?w = "\<lparr>it_conn = \<lparr>cn_read = Some idleTimeout, cn_write = Some idleTimeout, cn_supports = True\<rparr>, it_idle = idleTimeout\<rparr>"
  let ?s1 = "\<lparr>dx_now = 0, dx_conn = ?w, dx_reading = True, dx_writing = False, dx_last = 0, dx_cutAt = None\<rparr>"
  have i: "0 \<le> idleTimeout" by (simp add: units)
  have "transfer idleTimeout 0 ?s1"
    by (rule transfer.step [OF transfer.dial]) (rule dstep_eq [OF dstep.call_read [where w = ?w]]; simp add: refresh_def SetDeadline_def)
  from transfer.step [OF this dstep.tick, of idleTimeout] i have s2: "transfer idleTimeout 0 (?s1\<lparr>dx_now := idleTimeout\<rparr>)"
    by simp
  obtain s where s: "transfer idleTimeout 0 s" "dx_cutAt s = Some idleTimeout"
    using transfer.step [OF s2 dstep.timeout] by force
  with transfer_idle_bound [OF s(1) i] show ?thesis by (intro exI [of _ s]) auto
qed

end
