(* ===== verification/Idgen.thy ===== *)
theory Idgen
  imports S3
begin

text \<open>
  \<open>internal/idgen/idgen.go\<close>: identifiers are 16 random bytes in Crockford's base32 without
  padding.  The encoder of \<open>encoding/base32\<close> cuts the bits of the input, most significant
  first, into groups of five and fills the last group with zeros.
\<close>

definition crockford :: string where "crockford = ''0123456789ABCDEFGHJKMNPQRSTVWXYZ''"

definition byteBits :: "8 word \<Rightarrow> bool list" where "byteBits b = map (\<lambda>i. bit b (7 - i)) [0..<8]"

definition bitsValue :: "bool list \<Rightarrow> nat" where "bitsValue bs = foldl (\<lambda>n b. 2 * n + of_bool b) 0 bs"

fun quintets :: "bool list \<Rightarrow> bool list list" where
  "quintets (a # b # c # d # e # bs) = [a, b, c, d, e] # quintets bs"
| "quintets [] = []"
| "quintets bs = [take 5 (bs @ replicate 4 False)]"

definition EncodeToString :: "8 word list \<Rightarrow> string" where
  "EncodeToString bytes = map (\<lambda>g. crockford ! bitsValue g) (quintets (concat (map byteBits bytes)))"

text \<open>\<open>New\<close>, over the bytes the system's random source returned.\<close>

definition newID :: "8 word list \<Rightarrow> string" where "newID b = EncodeToString b"

section \<open>Decoding\<close>

definition symbolBits :: "char \<Rightarrow> bool list" where
  "symbolBits c = (let v = length (takeWhile (\<lambda>x. x \<noteq> c) crockford) in map (\<lambda>i. odd (v div 2 ^ (4 - i))) [0..<5])"

fun packBytes :: "bool list \<Rightarrow> 8 word list" where
  "packBytes (a # b # c # d # e # f # g # h # bs) = of_nat (bitsValue [a, b, c, d, e, f, g, h]) # packBytes bs"
| "packBytes bs = []"

definition readID :: "string \<Rightarrow> 8 word list" where "readID s = packBytes (concat (map symbolBits s))"

lemma symbol_table: "list_all (\<lambda>g. symbolBits (crockford ! bitsValue g) = g \<and> unreserved (crockford ! bitsValue g))
    (List.n_lists 5 [False, True])"
  by code_simp

lemma five_bits: "length g = 5 \<Longrightarrow> symbolBits (crockford ! bitsValue g) = g \<and> unreserved (crockford ! bitsValue g)"
proof -
  assume "length g = 5"
  then have "g \<in> set (List.n_lists 5 [False, True])" by (auto simp: set_n_lists)
  with symbol_table show ?thesis by (simp only: list_all_iff)
qed

lemma quintets_length: "g \<in> set (quintets bs) \<Longrightarrow> length g = 5"
  by (induction bs rule: quintets.induct) auto

lemma length_quintets: "length bs \<le> 5 * length (quintets bs) \<and> 5 * length (quintets bs) < length bs + 5"
  by (induction bs rule: quintets.induct) auto

lemma concat_quintets: "concat (quintets bs) = bs @ replicate (5 * length (quintets bs) - length bs) False"
  by (induction bs rule: quintets.induct) (simp_all add: numeral_eq_Suc)

lemma decode_quintets: "concat (map symbolBits (EncodeToString bytes)) = concat (quintets (concat (map byteBits bytes)))"
proof -
  have "map symbolBits (EncodeToString bytes) = quintets (concat (map byteBits bytes))"
    using five_bits quintets_length by (auto simp: EncodeToString_def intro!: map_idI)
  then show ?thesis by simp
qed

lemma byteBits_rev: "byteBits b = rev (map (bit b) [0..<8])"
  by (rule nth_equalityI) (auto simp: byteBits_def rev_nth)

lemma bitsValue_rev: "bitsValue (rev bs) = horner_sum of_bool 2 bs"
  by (simp add: bitsValue_def foldl_conv_foldr horner_sum_foldr add.commute)

lemma of_nat_horner: "of_nat (horner_sum of_bool 2 bs) = (horner_sum of_bool 2 bs :: 8 word)"
  by (induction bs) simp_all

lemma byteBits_value: "of_nat (bitsValue (byteBits b)) = b"
proof -
  have "(of_nat (bitsValue (byteBits b)) :: 8 word) = horner_sum of_bool 2 (map (bit b) [0..<8])"
    by (simp only: byteBits_rev bitsValue_rev of_nat_horner)
  also have "\<dots> = take_bit 8 b" by (rule horner_sum_bit_eq_take_bit)
  finally show ?thesis by (simp add: take_bit_word_eq_self)
qed

lemma packBytes_short: "length x < 8 \<Longrightarrow> packBytes x = []"
  by (induction x rule: packBytes.induct) auto

lemma packBytes_bytes: "length x < 8 \<Longrightarrow> packBytes (concat (map byteBits bytes) @ x) = bytes"
proof (induction bytes)
  case (Cons b bytes)
  obtain a c d e f g h i where l: "byteBits b = [a, c, d, e, f, g, h, i]" by (simp add: byteBits_def upt_rec)
  have "of_nat (bitsValue [a, c, d, e, f, g, h, i]) = b" using byteBits_value [of b] by (simp only: l)
  with Cons show ?case by (simp add: l)
qed (simp add: packBytes_short)

text \<open>
  C37: An identifier is 26 characters that need no escaping in a URL, and decodes to the random
  bytes it was made of, so two identifiers coincide only if the source repeats itself.
\<close>

theorem identifier_roundtrip:
  assumes "length b = 16"
  shows "length (newID b) = 26 \<and> list_all unreserved (newID b) \<and> readID (newID b) = b"
proof -
  let ?bits = "concat (map byteBits b)"
  have n: "length ?bits = 128"
    using assms by (simp add: length_concat comp_def byteBits_def sum_list_triv)
  have "length (newID b) = 26"
    using length_quintets [of ?bits] n by (simp add: newID_def EncodeToString_def)
  moreover have "list_all unreserved (newID b)"
    using five_bits quintets_length by (auto simp: newID_def EncodeToString_def list_all_iff)
  moreover have "readID (newID b) = b"
    using length_quintets [of ?bits] unfolding readID_def newID_def decode_quintets concat_quintets
    by (intro packBytes_bytes) (simp only: length_replicate, linarith)
  ultimately show ?thesis by blast
qed

lemma identifier_roundtrip_witness: "readID (newID (map of_nat [0..<16])) = map of_nat [0..<16]"
  using identifier_roundtrip [of "map of_nat [0..<16]"] by simp

end
