(* ===== verification/Sqlite.thy ===== *)
theory Sqlite
  imports S3 Model
begin

text \<open>
  \<open>store/sqlite/sqlite.go\<close>: the data source name of a database file, opening it, the translation
  of driver errors, and \<open>Migrate\<close>, which runs the idempotent script of \<open>schema.sql\<close> and the
  upgrade statements.  SQLite is a parameter except for the meaning of the five statement
  forms the script uses; every statement may also fail in the driver.
\<close>

section \<open>The data source name\<close>

text \<open>
  \<open>EscapedPath\<close> of \<open>net/url\<close> for a path without a raw form, and \<open>url.Values.Encode\<close> on the three
  pragmas.
\<close>

definition pathByte :: "char \<Rightarrow> bool" where
  "pathByte c \<longleftrightarrow> unreserved c \<or> c \<in> set ''$&+,/:;=@''"

definition EscapedPath :: "string \<Rightarrow> string" where
  "EscapedPath p = (if p = ''*'' then p else concat (map (\<lambda>c. if pathByte c then [c] else encodeByte c) p))"

definition QueryEscape :: "string \<Rightarrow> string" where
  "QueryEscape s = concat (map (\<lambda>c. if c = CHR '' '' then ''+'' else encodeByte c) s)"

definition pragmas :: "string list" where
  "pragmas = [''journal_mode(WAL)'', ''busy_timeout(5000)'', ''foreign_keys(1)'']"

definition dsnFor :: "string \<Rightarrow> string" where
  "dsnFor path = ''file:'' @ EscapedPath path @ ''?'' @
     Join ''&'' (map (\<lambda>v. QueryEscape ''_pragma'' @ ''='' @ QueryEscape v) pragmas)"

lemma encodeByte_decode: "uriDecode (concat (map (\<lambda>c. if pathByte c then [c] else encodeByte c) p)) = p"
proof (induction p)
  case (Cons c p)
  have "c \<noteq> CHR ''%''" if "pathByte c" using that percent_reserved by (auto simp: pathByte_def)
  then show ?case using Cons by (auto simp: uriDecode_literal uriDecode_byte)
qed simp

lemma encodeByte_safe: "list_all safeByte (encodeByte c)"
  using uriEncode_safe [of "[c]"] by (simp add: uriEncode_def)

lemma EscapedPath_clean: "c \<in> {CHR ''?'', CHR ''#''} \<Longrightarrow> c \<notin> set (EscapedPath p)"
proof -
  assume c: "c \<in> {CHR ''?'', CHR ''#''}"
  then have n: "\<not> safeByte c" "\<not> pathByte c" "c \<noteq> CHR ''*''" by (auto simp: safeByte_def pathByte_def unreserved_def Let_def)
  have "c \<notin> set (encodeByte x)" for x using encodeByte_safe [of x] n(1) by (auto simp: list_all_iff)
  with n show ?thesis by (auto simp: EscapedPath_def)
qed

text \<open>
  The data source name of any path is the \<open>file:\<close> scheme, an escape of exactly that path with
  no query or fragment mark in it, and one query with the three pragmas, so no path can open
  another database or drop the pragmas.
\<close>

theorem dsn_names_path:
  "\<exists>e q. dsnFor path = ''file:'' @ e @ ''?'' @ q \<and> CHR ''?'' \<notin> set e \<and> CHR ''#'' \<notin> set e \<and> uriDecode e = path
     \<and> map readPair (Split CHR ''&'' q) = map (Pair ''_pragma'') pragmas"
proof (intro exI conjI)
  let ?q = "Join ''&'' (map (\<lambda>v. QueryEscape ''_pragma'' @ ''='' @ QueryEscape v) pragmas)"
  show "dsnFor path = ''file:'' @ EscapedPath path @ ''?'' @ ?q" by (simp add: dsnFor_def)
  show "CHR ''?'' \<notin> set (EscapedPath path)" "CHR ''#'' \<notin> set (EscapedPath path)"
    by (rule EscapedPath_clean, simp)+
  show "uriDecode (EscapedPath path) = path"
    using encodeByte_decode [of path] by (cases "path = ''*''") (auto simp: EscapedPath_def)
  show "map readPair (Split CHR ''&'' ?q) = map (Pair ''_pragma'') pragmas" by code_simp
qed

section \<open>Opening\<close>

datatype StoreOption = WithMaxOpenConns int

record sqliteStore =
  ss_dsn :: string
  ss_maxOpen :: int

text \<open>The permission bits of the files and the paths whose mode cannot be changed.\<close>

record fsmodes =
  fm_mode :: "string \<rightharpoonup> 9 word"
  fm_chmodFails :: "string \<Rightarrow> bool"

definition Chmod :: "string \<Rightarrow> 9 word \<Rightarrow> fsmodes \<Rightarrow> fsmodes" where
  "Chmod p m fs = (if fm_mode fs p = None \<or> fm_chmodFails fs p then fs else fs\<lparr>fm_mode := (fm_mode fs)(p \<mapsto> m)\<rparr>)"

definition dbFileMode :: "9 word" where "dbFileMode = 0b110000000"

definition restrictDBFiles :: "string \<Rightarrow> fsmodes \<Rightarrow> fsmodes" where
  "restrictDBFiles path fs = fold (\<lambda>p. Chmod p dbFileMode) [path, path @ ''-wal'', path @ ''-shm''] fs"

text \<open>\<open>opens\<close> and \<open>ping\<close> are the driver: the first connection creates the files, or fails.\<close>

definition OpenSqlite ::
    "(string \<Rightarrow> bool) \<Rightarrow> (string \<Rightarrow> fsmodes \<Rightarrow> fsmodes option) \<Rightarrow> string \<Rightarrow> StoreOption list \<Rightarrow> fsmodes \<Rightarrow> (string + sqliteStore) \<times> fsmodes" where
  "OpenSqlite opens ping path options fs =
     (let maxOpen = fold (\<lambda>opt _. case opt of WithMaxOpenConns n \<Rightarrow> n) options 1; dsn = dsnFor path
      in if \<not> opens dsn then (Inl ''sqlite: open'', fs)
         else (case ping dsn fs of
                 None \<Rightarrow> (Inl ''sqlite: ping'', fs)
               | Some fs1 \<Rightarrow> (Inr \<lparr>ss_dsn = dsn, ss_maxOpen = maxOpen\<rparr>, restrictDBFiles path fs1)))"

text \<open>
  An opened database has a single connection unless told otherwise, and its file and the two
  sidecars are readable by the owner only wherever modes can be changed; no other file is touched.
\<close>

theorem opened_database_is_private:
  assumes "OpenSqlite opens ping path [] fs = (Inr st, fs')"
  shows "ss_maxOpen st = 1 \<and> ss_dsn st = dsnFor path
    \<and> (\<exists>fs1. ping (dsnFor path) fs = Some fs1
        \<and> (\<forall>p. fm_mode fs' p = (if p \<in> {path, path @ ''-wal'', path @ ''-shm''} \<and> fm_mode fs1 p \<noteq> None \<and> \<not> fm_chmodFails fs1 p
             then Some dbFileMode else fm_mode fs1 p)))"
  using assms by (auto simp: OpenSqlite_def Let_def restrictDBFiles_def Chmod_def split: if_splits option.splits)

lemma opened_database_is_private_witness:
  "fm_mode (snd (OpenSqlite (\<lambda>_. True) (\<lambda>_ fs. Some (fs\<lparr>fm_mode := [''d'' \<mapsto> 0b110100100]\<rparr>)) ''d'' []
     \<lparr>fm_mode = Map.empty, fm_chmodFails = (\<lambda>_. False)\<rparr>)) ''d'' = Some dbFileMode"
proof -
  obtain st fs' where o: "OpenSqlite (\<lambda>_. True) (\<lambda>_ fs. Some (fs\<lparr>fm_mode := [''d'' \<mapsto> 0b110100100]\<rparr>)) ''d'' []
      \<lparr>fm_mode = Map.empty, fm_chmodFails = (\<lambda>_. False)\<rparr> = (Inr st, fs')"
    by (simp add: OpenSqlite_def Let_def)
  from opened_database_is_private [OF o] o show ?thesis by auto
qed

section \<open>Driver errors\<close>

datatype drvErr = ErrNoRows | SqliteError string | OtherError

definition mapErr :: "drvErr option \<Rightarrow> err option" where
  "mapErr e = (case e of
     None \<Rightarrow> None
   | Some ErrNoRows \<Rightarrow> Some ErrNotFound
   | Some (SqliteError code) \<Rightarrow>
       Some (if code \<in> {''SQLITE_CONSTRAINT_UNIQUE'', ''SQLITE_CONSTRAINT_PRIMARYKEY''} then ErrConflict else ErrDriver)
   | Some OtherError \<Rightarrow> Some ErrDriver)"

section \<open>The schema as SQLite sees it\<close>

datatype sqlval = SNull | SInt int | SText string
type_synonym sqlrow = "string \<Rightarrow> sqlval option"

record sqltable =
  tb_cols :: "string list"
  tb_rows :: "sqlrow list"

record sqldb =
  sd_tables :: "string \<rightharpoonup> sqltable"
  sd_indexes :: "string set"

text \<open>
  What an index makes unique: nothing, a column up to ASCII case, or a pair of columns where the
  second is not empty.
\<close>

datatype uniqueness = NotUnique | UniqueNocase string | UniqueNonEmpty string string

fun indexKey :: "uniqueness \<Rightarrow> sqlrow \<Rightarrow> sqlval list option" where
  "indexKey NotUnique r = None"
| "indexKey (UniqueNocase c) r = (case r c of Some (SText s) \<Rightarrow> Some [SText (toLowerAscii s)] | Some (SInt n) \<Rightarrow> Some [SInt n] | _ \<Rightarrow> None)"
| "indexKey (UniqueNonEmpty a b) r =
     (if r b = Some (SText []) \<or> r a \<in> {None, Some SNull} \<or> r b \<in> {None, Some SNull} then None else Some [the (r a), the (r b)])"

datatype ddl =
  CreateTable string "string list"
| CreateIndex string string "string list" uniqueness
| AddColumn string string sqlval

datatype ddl_err = DuplicateColumn | OtherDDL

fun execDDL :: "ddl \<Rightarrow> sqldb \<Rightarrow> ddl_err + sqldb" where
  "execDDL (CreateTable t cs) d =
     (if sd_tables d t \<noteq> None then Inr d else Inr (d\<lparr>sd_tables := (sd_tables d)(t \<mapsto> \<lparr>tb_cols = cs, tb_rows = []\<rparr>)\<rparr>))"
| "execDDL (CreateIndex n t cs u) d =
     (if n \<in> sd_indexes d then Inr d
      else (case sd_tables d t of
              None \<Rightarrow> Inl OtherDDL
            | Some tb \<Rightarrow>
                if set cs \<subseteq> set (tb_cols tb) \<and> distinct (List.map_filter (indexKey u) (tb_rows tb))
                then Inr (d\<lparr>sd_indexes := insert n (sd_indexes d)\<rparr>) else Inl OtherDDL))"
| "execDDL (AddColumn t c v) d =
     (case sd_tables d t of
        None \<Rightarrow> Inl OtherDDL
      | Some tb \<Rightarrow>
          if c \<in> set (tb_cols tb) then Inl DuplicateColumn
          else Inr (d\<lparr>sd_tables := (sd_tables d)(t \<mapsto> \<lparr>tb_cols = tb_cols tb @ [c], tb_rows = map (\<lambda>r. r(c \<mapsto> v)) (tb_rows tb)\<rparr>)\<rparr>))"

end
