(* ===== verification/Migrate.thy ===== *)
theory Migrate
  imports Sqlite
begin

text \<open>
  \<open>Migrate\<close> of \<open>store/sqlite/sqlite.go\<close>: the statements of \<open>schema.sql\<close>, the columns added since,
  the two unique indexes and the blob tables, each run on its own, and what a migration
  interrupted anywhere and run again leaves.
\<close>

section \<open>The script\<close>

definition schemaStmts :: "ddl list" where
  "schemaStmts =
     [CreateTable ''users'' [''id'', ''email'', ''display_name'', ''password_hash'', ''oidc_issuer'', ''oidc_subject'', ''session_epoch'', ''created_at''],
      CreateIndex ''idx_users_email'' ''users'' [''email''] (UniqueNocase ''email''),
      CreateTable ''channels'' [''id'', ''user_id'', ''title'', ''description'', ''language'', ''image_key'', ''created_at'', ''updated_at''],
      CreateIndex ''idx_channels_user'' ''channels'' [''user_id''] NotUnique,
      CreateTable ''episodes'' [''id'', ''channel_id'', ''title'', ''description'', ''media_key'', ''media_mime'', ''media_kind'', ''media_bytes'',
        ''duration_secs'', ''language'', ''position'', ''status'', ''transcript_status'', ''published_at'', ''created_at'', ''updated_at''],
      CreateIndex ''idx_episodes_channel'' ''episodes'' [''channel_id''] NotUnique,
      CreateTable ''transcripts'' [''episode_id'', ''language'', ''segments'', ''created_at''],
      CreateTable ''blob_reservations'' [''id'', ''media_key'', ''created_at''],
      CreateIndex ''idx_blob_reservations_key'' ''blob_reservations'' [''media_key''] NotUnique,
      CreateTable ''blob_delete_leases'' [''id'', ''media_key'', ''created_at''],
      CreateIndex ''idx_blob_delete_leases_key'' ''blob_delete_leases'' [''media_key''] NotUnique,
      CreateTable ''jobs'' [''id'', ''kind'', ''payload'', ''status'', ''attempts'', ''last_error'', ''run_after'', ''created_at'', ''updated_at''],
      CreateIndex ''idx_jobs_claim'' ''jobs'' [''status'', ''run_after''] NotUnique]"

definition alterStmts :: "ddl list" where
  "alterStmts =
     [AddColumn ''users'' ''oidc_issuer'' (SText []),
      AddColumn ''users'' ''oidc_subject'' (SText []),
      AddColumn ''users'' ''session_epoch'' (SInt 0),
      AddColumn ''episodes'' ''language'' (SText []),
      AddColumn ''episodes'' ''position'' (SInt 0)]"

definition oidcIndex :: ddl where
  "oidcIndex = CreateIndex ''idx_users_oidc'' ''users'' [''oidc_issuer'', ''oidc_subject''] (UniqueNonEmpty ''oidc_issuer'' ''oidc_subject'')"

definition emailIndex :: ddl where
  "emailIndex = CreateIndex ''idx_users_email'' ''users'' [''email''] (UniqueNocase ''email'')"

definition blobStmts :: "ddl list" where
  "blobStmts =
     [CreateTable ''blob_reservations'' [''id'', ''media_key'', ''created_at''],
      CreateIndex ''idx_blob_reservations_key'' ''blob_reservations'' [''media_key''] NotUnique,
      CreateTable ''blob_delete_leases'' [''id'', ''media_key'', ''created_at''],
      CreateIndex ''idx_blob_delete_leases_key'' ''blob_delete_leases'' [''media_key''] NotUnique]"

datatype stage = StMigrate | StAlter | StIndex | StEmailIndex | StBlobTables

text \<open>
  Each statement commits on its own.  \<open>fl\<close> tells which statements, counted from the start, fail
  in the driver; only an upgrade statement tolerates a duplicate column.
\<close>

fun runScript :: "(nat \<Rightarrow> bool) \<Rightarrow> nat \<Rightarrow> (stage \<times> ddl) list \<Rightarrow> sqldb \<Rightarrow> (stage + unit) \<times> sqldb" where
  "runScript fl n [] d = (Inr (), d)"
| "runScript fl n ((st, q) # qs) d =
     (if fl n then (Inl st, d)
      else (case execDDL q d of
              Inr d' \<Rightarrow> runScript fl (Suc n) qs d'
            | Inl e \<Rightarrow> if st = StAlter \<and> e = DuplicateColumn then runScript fl (Suc n) qs d else (Inl st, d)))"

definition migrationScript :: "(stage \<times> ddl) list" where
  "migrationScript = map (Pair StMigrate) schemaStmts @ map (Pair StAlter) alterStmts
     @ [(StIndex, oidcIndex), (StEmailIndex, emailIndex)] @ map (Pair StBlobTables) blobStmts"

definition Migrate :: "(nat \<Rightarrow> bool) \<Rightarrow> sqldb \<Rightarrow> (stage + unit) \<times> sqldb" where
  "Migrate fl d = runScript fl 0 migrationScript d"

section \<open>Data is kept\<close>

text \<open>Every table, index, row and value of the first database is in the second.\<close>

definition grows :: "sqldb \<Rightarrow> sqldb \<Rightarrow> bool" where
  "grows d d' \<longleftrightarrow> sd_indexes d \<subseteq> sd_indexes d' \<and>
     (\<forall>t tb. sd_tables d t = Some tb \<longrightarrow> (\<exists>tb'. sd_tables d' t = Some tb' \<and> set (tb_cols tb) \<subseteq> set (tb_cols tb')
        \<and> list_all2 (\<lambda>r r'. \<forall>c \<in> set (tb_cols tb). r' c = r c) (tb_rows tb) (tb_rows tb')))"

lemma grows_refl [simp]: "grows d d"
  by (simp add: grows_def list_all2_refl)

lemma rows_trans:
  assumes "list_all2 (\<lambda>r r'. \<forall>c \<in> A. r' c = r c) xs ys" "list_all2 (\<lambda>r r'. \<forall>c \<in> B. r' c = r c) ys zs" "A \<subseteq> B"
  shows "list_all2 (\<lambda>r r'. \<forall>c \<in> A. r' c = r c) xs zs"
  by (rule list_all2_trans [OF _ assms(1,2)]) (use assms(3) in auto)

lemma grows_trans:
  assumes "grows d d'" "grows d' d''" shows "grows d d''"
  unfolding grows_def
proof (intro conjI allI impI)
  show "sd_indexes d \<subseteq> sd_indexes d''" using assms by (auto simp: grows_def)
  fix t tb assume "sd_tables d t = Some tb"
  then obtain tb' where 1: "sd_tables d' t = Some tb'" "set (tb_cols tb) \<subseteq> set (tb_cols tb')"
      "list_all2 (\<lambda>r r'. \<forall>c \<in> set (tb_cols tb). r' c = r c) (tb_rows tb) (tb_rows tb')"
    using assms(1) unfolding grows_def by blast
  then obtain tb'' where 2: "sd_tables d'' t = Some tb''" "set (tb_cols tb') \<subseteq> set (tb_cols tb'')"
      "list_all2 (\<lambda>r r'. \<forall>c \<in> set (tb_cols tb'). r' c = r c) (tb_rows tb') (tb_rows tb'')"
    using assms(2) unfolding grows_def by blast
  show "\<exists>tb''. sd_tables d'' t = Some tb'' \<and> set (tb_cols tb) \<subseteq> set (tb_cols tb'')
      \<and> list_all2 (\<lambda>r r'. \<forall>c \<in> set (tb_cols tb). r' c = r c) (tb_rows tb) (tb_rows tb'')"
    using 1 2 rows_trans [OF 1(3) 2(3) 1(2)] by blast
qed

lemma execDDL_grows: "execDDL q d = Inr d' \<Longrightarrow> grows d d'"
proof (cases q)
  case (AddColumn t c v)
  assume "execDDL q d = Inr d'"
  then show ?thesis using AddColumn
    by (auto simp: grows_def list_all2_map2 list_all2_refl split: option.splits if_splits intro!: list_all2_refl)
qed (auto simp: grows_def list_all2_refl split: option.splits if_splits)

lemma runScript_grows: "grows d (snd (runScript fl n qs d))"
  by (induction fl n qs d rule: runScript.induct)
    (auto split: sum.splits intro: grows_trans [OF execDDL_grows])

section \<open>What a statement establishes\<close>

fun established :: "ddl \<Rightarrow> sqldb \<Rightarrow> bool" where
  "established (CreateTable t cs) d \<longleftrightarrow> sd_tables d t \<noteq> None"
| "established (CreateIndex n t cs u) d \<longleftrightarrow> n \<in> sd_indexes d"
| "established (AddColumn t c v) d \<longleftrightarrow> (\<exists>tb. sd_tables d t = Some tb \<and> c \<in> set (tb_cols tb))"

lemma execDDL_established: "execDDL q d = Inr d' \<Longrightarrow> established q d'"
  by (cases q) (auto split: option.splits if_splits)

lemma duplicate_established: "execDDL q d = Inl DuplicateColumn \<Longrightarrow> established q d"
  by (cases q) (auto split: option.splits if_splits)

lemma established_grows: "grows d d' \<Longrightarrow> established q d \<Longrightarrow> established q d'"
  by (cases q) (fastforce simp: grows_def)+

lemma established_again: "established q d \<Longrightarrow> execDDL q d = Inr d \<or> execDDL q d = Inl DuplicateColumn \<and> (\<exists>t c v. q = AddColumn t c v)"
  by (cases q) auto

lemma runScript_establishes:
  "runScript fl n qs d = (Inr (), d') \<Longrightarrow> q \<in> snd ` set qs \<Longrightarrow> established q d'"
proof (induction fl n qs d rule: runScript.induct)
  case (2 fl n st p qs d)
  have keep: "established p d' \<Longrightarrow> ?case" using "2.IH" "2.prems" by (auto split: sum.splits if_splits)
  obtain d1 where d1: "runScript fl (Suc n) qs d1 = (Inr (), d')" "established p d1"
    using "2.prems"(1) execDDL_established duplicate_established by (fastforce split: sum.splits if_splits)
  have "grows d1 d'" using runScript_grows [of d1 fl "Suc n" qs] d1(1) by simp
  then show ?case using keep established_grows d1(2) by blast
qed simp

lemma runScript_again:
  assumes "\<forall>(st, q) \<in> set qs. established q d \<and> ((\<exists>t c v. q = AddColumn t c v) \<longrightarrow> st = StAlter)"
  shows "runScript (\<lambda>_. False) n qs d = (Inr (), d)"
  using assms
proof (induction qs arbitrary: n)
  case (Cons p qs)
  then show ?case using established_again [of "snd p" d] by (cases p) fastforce
qed simp

lemma only_alter: "\<forall>(st, q) \<in> set migrationScript. (\<exists>t c v. q = AddColumn t c v) \<longrightarrow> st = StAlter"
  by (auto simp: migrationScript_def schemaStmts_def alterStmts_def oidcIndex_def emailIndex_def blobStmts_def)

section \<open>Databases of earlier versions\<close>

definition addedColumns :: "(string \<times> string) list" where
  "addedColumns = map (\<lambda>q. case q of AddColumn t c v \<Rightarrow> (t, c) | _ \<Rightarrow> ([], [])) alterStmts"

text \<open>The rows of \<open>users\<close> meet the two unique indexes, once the missing columns have their defaults.\<close>

definition usersUnique :: "sqltable \<Rightarrow> bool" where
  "usersUnique tb \<longleftrightarrow> distinct (List.map_filter (indexKey (UniqueNocase ''email'')) (tb_rows tb)) \<and>
     (''oidc_subject'' \<notin> set (tb_cols tb) \<or> (\<forall>r \<in> set (tb_rows tb). r ''oidc_subject'' = Some (SText []))
      \<or> ''oidc_issuer'' \<in> set (tb_cols tb)
        \<and> distinct (List.map_filter (indexKey (UniqueNonEmpty ''oidc_issuer'' ''oidc_subject'')) (tb_rows tb)))"

text \<open>An empty database, one of an earlier version, or one of an interrupted migration.\<close>

definition upgradable :: "sqldb \<Rightarrow> bool" where
  "upgradable d \<longleftrightarrow>
     (\<forall>t cs tb. CreateTable t cs \<in> set schemaStmts \<longrightarrow> sd_tables d t = Some tb \<longrightarrow>
        (\<forall>c \<in> set cs. (t, c) \<in> set addedColumns \<or> c \<in> set (tb_cols tb)))
     \<and> (\<forall>tb. sd_tables d ''users'' = Some tb \<longrightarrow> usersUnique tb)"

text \<open>Every table of the schema with all its columns, and every index.\<close>

definition current :: "sqldb \<Rightarrow> bool" where
  "current d \<longleftrightarrow>
     (\<forall>t cs. CreateTable t cs \<in> set schemaStmts \<longrightarrow> (\<exists>tb. sd_tables d t = Some tb \<and> set cs \<subseteq> set (tb_cols tb)))
     \<and> (\<forall>n t cs u. CreateIndex n t cs u \<in> snd ` set migrationScript \<longrightarrow> n \<in> sd_indexes d)"

lemma script_simps:
  "CreateTable t cs \<in> snd ` set migrationScript \<longleftrightarrow> CreateTable t cs \<in> set schemaStmts"
  "AddColumn t c v \<in> snd ` set migrationScript \<longleftrightarrow> AddColumn t c v \<in> set alterStmts"
  by (auto simp: migrationScript_def schemaStmts_def alterStmts_def oidcIndex_def emailIndex_def blobStmts_def)

lemma schema_tables: "CreateTable t cs \<in> set schemaStmts \<Longrightarrow> CreateTable t cs' \<in> set schemaStmts \<Longrightarrow> cs' = cs"
  by (auto simp: schemaStmts_def)

lemma added_default:
  "AddColumn t c v \<in> set alterStmts \<Longrightarrow> (t, c) \<in> set addedColumns \<and> c \<noteq> ''email'' \<and> (c = ''oidc_subject'' \<longrightarrow> v = SText [])"
  by (auto simp: alterStmts_def addedColumns_def)

lemma added_alter: "(t, x) \<in> set addedColumns \<Longrightarrow> \<exists>v. AddColumn t x v \<in> set alterStmts"
proof -
  have adds: "list_all (\<lambda>q. case q of AddColumn t c v \<Rightarrow> True | _ \<Rightarrow> False) alterStmts" by (simp add: alterStmts_def)
  assume "(t, x) \<in> set addedColumns"
  then obtain q where q: "q \<in> set alterStmts" "(t, x) = (case q of AddColumn t c v \<Rightarrow> (t, c) | _ \<Rightarrow> ([], []))"
    unfolding addedColumns_def by auto
  with adds show ?thesis by (cases q) (auto simp: list_all_iff)
qed

lemma map_filter_map: "List.map_filter f (map g xs) = List.map_filter (f \<circ> g) xs"
  by (simp add: List.map_filter_def comp_def filter_map)

lemma map_filter_none: "(\<forall>x \<in> set xs. f x = None) \<Longrightarrow> List.map_filter f xs = []"
  by (induction xs) (auto simp: List.map_filter_simps)

lemma usersUnique_add:
  assumes "usersUnique tb" "c \<notin> set (tb_cols tb)" "c \<noteq> ''email''" "c = ''oidc_subject'' \<longrightarrow> v = SText []"
  shows "usersUnique \<lparr>tb_cols = tb_cols tb @ [c], tb_rows = map (\<lambda>r. r(c \<mapsto> v)) (tb_rows tb)\<rparr>"
proof -
  have "indexKey (UniqueNocase ''email'') \<circ> (\<lambda>r. r(c \<mapsto> v)) = indexKey (UniqueNocase ''email'')"
    using assms(3) by (auto simp: fun_eq_iff)
  then have e: "distinct (List.map_filter (indexKey (UniqueNocase ''email'')) (map (\<lambda>r. r(c \<mapsto> v)) (tb_rows tb)))"
    using assms(1) unfolding map_filter_map usersUnique_def by metis
  show ?thesis
  proof (cases "''oidc_subject'' \<in> set (tb_cols tb) \<and> ''oidc_issuer'' \<in> set (tb_cols tb)")
    case True
    then have "indexKey (UniqueNonEmpty ''oidc_issuer'' ''oidc_subject'') \<circ> (\<lambda>r. r(c \<mapsto> v))
        = indexKey (UniqueNonEmpty ''oidc_issuer'' ''oidc_subject'')"
      using assms(2) by (auto simp: fun_eq_iff)
    then have "List.map_filter (indexKey (UniqueNonEmpty ''oidc_issuer'' ''oidc_subject'')) (map (\<lambda>r. r(c \<mapsto> v)) (tb_rows tb))
        = List.map_filter (indexKey (UniqueNonEmpty ''oidc_issuer'' ''oidc_subject'')) (tb_rows tb)"
      unfolding map_filter_map by metis
    then show ?thesis using True assms e by (auto simp: usersUnique_def)
  next
    case False
    then show ?thesis using assms e by (auto simp: usersUnique_def)
  qed
qed

lemma execDDL_upgradable:
  assumes "execDDL q d = Inr d'" "q \<in> snd ` set migrationScript" "upgradable d"
  shows "upgradable d'"
proof (cases q)
  case (CreateTable t cs)
  then have "CreateTable t cs \<in> set schemaStmts" using assms(2) by (simp only: script_simps)
  then have new: "(t, c) \<in> set addedColumns \<or> c \<in> set cs" if "CreateTable t cs' \<in> set schemaStmts" "c \<in> set cs'" for c cs'
    using schema_tables that by blast
  have fresh: "usersUnique \<lparr>tb_cols = cs, tb_rows = []\<rparr>" by (simp add: usersUnique_def List.map_filter_simps)
  show ?thesis
  proof (cases "sd_tables d t")
    case None
    then have d': "d' = d\<lparr>sd_tables := (sd_tables d)(t \<mapsto> \<lparr>tb_cols = cs, tb_rows = []\<rparr>)\<rparr>"
      using assms(1) CreateTable by simp
    show ?thesis using assms(3) new fresh unfolding d' upgradable_def by auto
  qed (use assms(1,3) CreateTable in simp)
next
  case (CreateIndex n t cs u)
  then have "sd_tables d' = sd_tables d" using assms(1) by (auto split: if_splits option.splits)
  then show ?thesis using assms(3) by (simp only: upgradable_def)
next
  case (AddColumn t c v)
  then have a: "AddColumn t c v \<in> set alterStmts" using assms(2) by (simp only: script_simps)
  obtain tb where tb: "sd_tables d t = Some tb" "c \<notin> set (tb_cols tb)"
    and d': "d' = d\<lparr>sd_tables := (sd_tables d)(t \<mapsto> \<lparr>tb_cols = tb_cols tb @ [c], tb_rows = map (\<lambda>r. r(c \<mapsto> v)) (tb_rows tb)\<rparr>)\<rparr>"
    using assms(1) AddColumn by (auto split: option.splits if_splits)
  have "usersUnique tb" if "t = ''users''" using that tb(1) assms(3) by (simp add: upgradable_def)
  then have "usersUnique \<lparr>tb_cols = tb_cols tb @ [c], tb_rows = map (\<lambda>r. r(c \<mapsto> v)) (tb_rows tb)\<rparr>" if "t = ''users''"
    using usersUnique_add [OF _ tb(2)] added_default [OF a] that by blast
  moreover have "(t', x) \<in> set addedColumns \<or> x \<in> set (tb_cols tb')"
    if h: "CreateTable t' cs \<in> set schemaStmts" "sd_tables d' t' = Some tb'" "x \<in> set cs" for t' cs tb' x
  proof -
    obtain tb0 where "sd_tables d t' = Some tb0" "set (tb_cols tb0) \<subseteq> set (tb_cols tb')"
      using h(2) tb unfolding d' by (cases "t' = t") (use that in force)+
    with assms(3) h(1,3) show ?thesis unfolding upgradable_def by blast
  qed
  moreover have "usersUnique tb'" if "sd_tables d' ''users'' = Some tb'" "t \<noteq> ''users''" for tb'
    using that assms(3) by (simp add: d' upgradable_def)
  ultimately show ?thesis unfolding upgradable_def by (cases "t = ''users''") (auto simp: d')
qed

lemma runScript_upgradable:
  "snd ` set qs \<subseteq> snd ` set migrationScript \<Longrightarrow> upgradable d \<Longrightarrow> upgradable (snd (runScript fl n qs d))"
proof (induction fl n qs d rule: runScript.induct)
  case (2 fl n st q qs d)
  have "upgradable d'" if "execDDL q d = Inr d'" for d'
    by (rule execDDL_upgradable [OF that _ "2.prems"(2)]) (use "2.prems"(1) in simp)
  then show ?case using 2 by (auto split: sum.splits)
qed simp

section \<open>An upgrade succeeds\<close>

text \<open>Each statement finds the columns it needs: \<open>C\<close> are those known to exist before it.\<close>

fun wellScripted :: "(string \<times> string) list \<Rightarrow> ddl list \<Rightarrow> bool" where
  "wellScripted C [] = True"
| "wellScripted C (CreateTable t cs # qs) =
     wellScripted (map (Pair t) (filter (\<lambda>c. (t, c) \<notin> set addedColumns) cs) @ C) qs"
| "wellScripted C (CreateIndex n t cs u # qs) =
     (list_all (\<lambda>c. (t, c) \<in> set C) cs \<and> t \<in> set (map fst C)
      \<and> (u = NotUnique \<or> t = ''users'' \<and> (u = UniqueNocase ''email'' \<or> u = UniqueNonEmpty ''oidc_issuer'' ''oidc_subject''
           \<and> list_all (\<lambda>c. (t, c) \<in> set C) [''oidc_issuer'', ''oidc_subject'']))
      \<and> wellScripted C qs)"
| "wellScripted C (AddColumn t c v # qs) = (t \<in> set (map fst C) \<and> wellScripted ((t, c) # C) qs)"

lemma script_wellScripted: "wellScripted [] (map snd migrationScript)"
  by code_simp

definition has_columns :: "(string \<times> string) list \<Rightarrow> sqldb \<Rightarrow> bool" where
  "has_columns C d \<longleftrightarrow> (\<forall>(t, c) \<in> set C. \<exists>tb. sd_tables d t = Some tb \<and> c \<in> set (tb_cols tb))"

lemma has_columns_grows: "grows d d' \<Longrightarrow> has_columns C d \<Longrightarrow> has_columns C d'"
  unfolding has_columns_def grows_def by fastforce

lemma index_ready:
  assumes "upgradable d" "has_columns C d" "wellScripted C (CreateIndex n t cs u # qs)"
  shows "\<exists>d'. execDDL (CreateIndex n t cs u) d = Inr d'"
proof -
  obtain c where "(t, c) \<in> set C" using assms(3) by auto
  then obtain tb where tb: "sd_tables d t = Some tb" using assms(2) by (auto simp: has_columns_def)
  have has: "x \<in> set (tb_cols tb)" if "(t, x) \<in> set C" for x
    using that assms(2) tb by (fastforce simp: has_columns_def)
  then have "set cs \<subseteq> set (tb_cols tb)" using assms(3) by (auto simp: list_all_iff)
  moreover have "distinct (List.map_filter (indexKey u) (tb_rows tb))"
  proof (cases "u = NotUnique")
    case True
    then show ?thesis by (simp add: map_filter_none)
  next
    case False
    then have us: "usersUnique tb" using assms(1,3) tb by (auto simp: upgradable_def)
    show ?thesis
    proof (cases "u = UniqueNocase ''email''")
      case True
      then show ?thesis using us by (simp add: usersUnique_def)
    next
      case False
      then have u: "u = UniqueNonEmpty ''oidc_issuer'' ''oidc_subject''" "''oidc_subject'' \<in> set (tb_cols tb)"
        using assms(3) \<open>u \<noteq> NotUnique\<close> has by auto
      show ?thesis
        using us u by (auto simp: usersUnique_def map_filter_none)
    qed
  qed
  ultimately show ?thesis using tb by simp
qed

lemma runScript_succeeds:
  assumes "upgradable d" "has_columns C d" "wellScripted C (map snd qs)" "snd ` set qs \<subseteq> snd ` set migrationScript"
    and "\<forall>(st, q) \<in> set qs. (\<exists>t c v. q = AddColumn t c v) \<longrightarrow> st = StAlter"
  shows "fst (runScript (\<lambda>_. False) n qs d) = Inr ()"
  using assms
proof (induction qs arbitrary: d C n)
  case (Cons p qs)
  obtain st q where p: "p = (st, q)" by fastforce
  have q: "q \<in> snd ` set migrationScript" using Cons.prems(4) p by auto
  have rest: "fst (runScript (\<lambda>_. False) (Suc n) qs d') = Inr ()"
    if "upgradable d'" "has_columns C' d'" "wellScripted C' (map snd qs)" for d' C'
    using Cons.IH [OF that] Cons.prems(4,5) by simp
  show ?case
  proof (cases q)
    case (CreateTable t cs)
    obtain d' where d': "execDDL q d = Inr d'" using CreateTable by (cases "sd_tables d t") auto
    have up: "upgradable d'" by (rule execDDL_upgradable [OF d' q Cons.prems(1)])
    have "sd_tables d' t \<noteq> None" using execDDL_established [OF d'] CreateTable by simp
    moreover have "CreateTable t cs \<in> set schemaStmts" using q by (simp only: CreateTable script_simps)
    ultimately have "has_columns (map (Pair t) (filter (\<lambda>c. (t, c) \<notin> set addedColumns) cs) @ C) d'"
      using up has_columns_grows [OF execDDL_grows [OF d'] Cons.prems(2)]
      unfolding has_columns_def upgradable_def by fastforce
    then show ?thesis using rest [OF up] Cons.prems(3) d' p CreateTable by simp
  next
    case (CreateIndex m t cs u)
    obtain d' where d': "execDDL q d = Inr d'"
      using index_ready [OF Cons.prems(1,2), of m t cs u "map snd qs"] Cons.prems(3) p CreateIndex by auto
    show ?thesis
      using rest [OF execDDL_upgradable [OF d' q Cons.prems(1)] has_columns_grows [OF execDDL_grows [OF d'] Cons.prems(2)]]
        Cons.prems(3) d' p CreateIndex by (simp del: execDDL.simps)
  next
    case (AddColumn t c v)
    then obtain x where "(t, x) \<in> set C" using Cons.prems(3) p by auto
    then obtain tb where tb: "sd_tables d t = Some tb" using Cons.prems(2) by (auto simp: has_columns_def)
    have st: "st = StAlter" using Cons.prems(5) p AddColumn by auto
    obtain d' where d': "execDDL q d = Inr d' \<or> execDDL q d = Inl DuplicateColumn \<and> d' = d"
      using tb AddColumn by (cases "c \<in> set (tb_cols tb)") auto
    then have "established q d'" using execDDL_established duplicate_established by blast
    moreover have g: "grows d d'" "upgradable d'"
      using d' execDDL_grows execDDL_upgradable [OF _ q Cons.prems(1)] Cons.prems(1) by auto
    ultimately have "has_columns ((t, c) # C) d'"
      using has_columns_grows [OF g(1) Cons.prems(2)] AddColumn by (auto simp: has_columns_def)
    then show ?thesis using rest [OF g(2)] Cons.prems(3) d' p AddColumn st by (auto simp del: execDDL.simps)
  qed
qed simp

lemma Migrate_succeeds: "upgradable d \<Longrightarrow> \<exists>d'. Migrate (\<lambda>_. False) d = (Inr (), d')"
proof -
  assume "upgradable d"
  then have "fst (Migrate (\<lambda>_. False) d) = Inr ()"
    unfolding Migrate_def using script_wellScripted only_alter
    by (intro runScript_succeeds [where C = "[]"]) (auto simp: has_columns_def)
  then show ?thesis by (metis prod.collapse)
qed

lemma Migrate_current:
  assumes "upgradable d" "Migrate fl d = (Inr (), d')"
  shows "current d' \<and> Migrate (\<lambda>_. False) d' = (Inr (), d')"
proof -
  have est: "\<forall>q \<in> snd ` set migrationScript. established q d'"
    using runScript_establishes assms(2) unfolding Migrate_def by blast
  have up: "upgradable d'" using runScript_upgradable [of migrationScript d fl 0] assms by (simp add: Migrate_def)
  have "\<exists>tb. sd_tables d' t = Some tb \<and> set cs \<subseteq> set (tb_cols tb)" if c: "CreateTable t cs \<in> set schemaStmts" for t cs
  proof -
    have "established (CreateTable t cs) d'" using est c by (simp only: script_simps)
    then obtain tb where tb: "sd_tables d' t = Some tb" by auto
    have "x \<in> set (tb_cols tb)" if "(t, x) \<in> set addedColumns" for x
    proof -
      from added_alter [OF that] obtain v where "AddColumn t x v \<in> set alterStmts" by blast
      then have "established (AddColumn t x v) d'" using est by (simp only: script_simps)
      then show ?thesis using tb by simp
    qed
    then show ?thesis using tb up c unfolding upgradable_def by blast
  qed
  moreover have "n \<in> sd_indexes d'" if "CreateIndex n t cs u \<in> snd ` set migrationScript" for n t cs u
    using est that by fastforce
  moreover have "Migrate (\<lambda>_. False) d' = (Inr (), d')"
    unfolding Migrate_def using est only_alter by (intro runScript_again) fastforce
  ultimately show ?thesis unfolding current_def by blast
qed


text \<open>A database of the first version, with two accounts, interrupted after the second new column.\<close>

definition ex_legacy :: sqldb where
  "ex_legacy = \<lparr>sd_tables = [''users'' \<mapsto> \<lparr>tb_cols = [''id'', ''email'', ''display_name'', ''password_hash'', ''created_at''],
      tb_rows = [[''id'' \<mapsto> SText ''1'', ''email'' \<mapsto> SText ''a@x''], [''id'' \<mapsto> SText ''2'', ''email'' \<mapsto> SText ''B@x'']]\<rparr>],
     sd_indexes = {}\<rparr>"

lemma ex_lower_letters: "toLowerAscii ''a@x'' = ''a@x''" "toLowerAscii ''B@x'' = ''b@x''"
  by code_simp+

lemma ex_upgradable: "upgradable ex_legacy"
  by (auto simp: upgradable_def ex_legacy_def schemaStmts_def addedColumns_def alterStmts_def usersUnique_def
      List.map_filter_simps ex_lower_letters)


end
