(* ===== verification/QueueContract.thy ===== *)
theory QueueContract
  imports WorkerProgress
begin

text \<open>
  The contract of \<open>queue/queue.go\<close>: what any \<open>JobQueue\<close> promises its workers about deliveries,
  as an interface of its own.  Every store that meets the contract of job persistence gives one
  through \<open>dbqueue\<close>, and the SQLite store does.
\<close>

section \<open>The interface\<close>

text \<open>
  \<open>state\<close> gives the status and the fencing token of a job.  A delivery advances the token of one
  job and stays within the attempt limit; no other operation lowers a token, and \<open>other\<close> is
  whatever else happens to the store between two calls.
\<close>

locale job_queue =
  fixes deq :: "JobKind list \<Rightarrow> time \<Rightarrow> time \<Rightarrow> 'd \<Rightarrow> (job \<times> bool) option res \<times> 'd"
    and jack :: "job \<Rightarrow> time \<Rightarrow> 'd \<Rightarrow> unit res \<times> 'd"
    and jnack :: "job \<Rightarrow> string option \<Rightarrow> time \<Rightarrow> time \<Rightarrow> 'd \<Rightarrow> bool res \<times> 'd"
    and other :: "'o \<Rightarrow> 'd \<Rightarrow> 'd"
    and token :: "string \<Rightarrow> 'd \<Rightarrow> int option"
    and inv :: "'d \<Rightarrow> bool"
    and limit :: int
  assumes deq_run: "inv d \<Longrightarrow> deq ks t t' d = (Inr (Some (j, False)), d') \<Longrightarrow>
      token (j_ID j) d = Some (j_Attempts j - 1) \<and> token (j_ID j) d' = Some (j_Attempts j) \<and> j_Attempts j \<le> limit"
    and deq_keeps: "inv d \<Longrightarrow> inv (snd (deq ks t t' d)) \<and> (\<forall>i n. token i d = Some n \<longrightarrow> (\<exists>n' \<ge> n. token i (snd (deq ks t t' d)) = Some n'))"
    and ack_keeps: "inv d \<Longrightarrow> inv (snd (jack j t d)) \<and> (\<forall>i n. token i d = Some n \<longrightarrow> (\<exists>n' \<ge> n. token i (snd (jack j t d)) = Some n'))"
    and nack_keeps: "inv d \<Longrightarrow> inv (snd (jnack j c t t' d)) \<and> (\<forall>i n. token i d = Some n \<longrightarrow> (\<exists>n' \<ge> n. token i (snd (jnack j c t t' d)) = Some n'))"
    and other_keeps: "inv d \<Longrightarrow> inv (other x d) \<and> (\<forall>i n. token i d = Some n \<longrightarrow> (\<exists>n' \<ge> n. token i (other x d) = Some n'))"

datatype 'o qevent =
  QDequeue "JobKind list" time time | QAck job time | QNack job "string option" time time | QOther 'o

text \<open>The deliveries to run, as job and token, of any sequence of calls of any workers.\<close>

fun deliveries ::
    "(JobKind list \<Rightarrow> time \<Rightarrow> time \<Rightarrow> 'd \<Rightarrow> (job \<times> bool) option res \<times> 'd) \<Rightarrow> (job \<Rightarrow> time \<Rightarrow> 'd \<Rightarrow> unit res \<times> 'd) \<Rightarrow>
     (job \<Rightarrow> string option \<Rightarrow> time \<Rightarrow> time \<Rightarrow> 'd \<Rightarrow> bool res \<times> 'd) \<Rightarrow> ('o \<Rightarrow> 'd \<Rightarrow> 'd) \<Rightarrow> 'o qevent list \<Rightarrow> 'd \<Rightarrow> (string \<times> int) list" where
  "deliveries deq jack jnack other [] d = []"
| "deliveries deq jack jnack other (QDequeue ks t t' # es) d =
     (case deq ks t t' d of
        (Inr (Some (j, False)), d') \<Rightarrow> (j_ID j, j_Attempts j) # deliveries deq jack jnack other es d'
      | (_, d') \<Rightarrow> deliveries deq jack jnack other es d')"
| "deliveries deq jack jnack other (QAck j t # es) d = deliveries deq jack jnack other es (snd (jack j t d))"
| "deliveries deq jack jnack other (QNack j c t t' # es) d = deliveries deq jack jnack other es (snd (jnack j c t t' d))"
| "deliveries deq jack jnack other (QOther x # es) d = deliveries deq jack jnack other es (other x d)"

context job_queue
begin

definition later :: "'d \<Rightarrow> 'd \<Rightarrow> bool" where
  "later d d' \<longleftrightarrow> inv d' \<and> (\<forall>i n. token i d = Some n \<longrightarrow> (\<exists>n' \<ge> n. token i d' = Some n'))"

text \<open>The tokens of later deliveries are above the present one.\<close>

definition above :: "'d \<Rightarrow> (string \<times> int) list \<Rightarrow> bool" where
  "above d ds \<longleftrightarrow> distinct ds \<and> (\<forall>(i, n) \<in> set ds. n \<le> limit \<and> (\<forall>m. token i d = Some m \<longrightarrow> m < n))"

lemma above_later:
  assumes "later d d'" "above d' ds" shows "above d ds"
proof -
  have "m < n" if mem: "(i, n) \<in> set ds" and tok: "token i d = Some m" for i n m
  proof -
    obtain m' where "m \<le> m'" "token i d' = Some m'" using assms(1) tok unfolding later_def by blast
    with assms(2) mem show ?thesis unfolding above_def by fastforce
  qed
  then show ?thesis using assms(2) unfolding above_def by blast
qed

lemma above_deliveries: "inv d \<Longrightarrow> above d (deliveries deq jack jnack other es d)"
proof (induction es arbitrary: d)
  case (Cons e es)
  have step: "above d (deliveries deq jack jnack other es d')" if "later d d'" for d'
    using that Cons.IH [of d'] above_later [OF that] by (simp add: later_def)
  show ?case
  proof (cases e)
    case (QDequeue ks t t')
    obtain r d' where r: "deq ks t t' d = (r, d')" by fastforce
    have l: "later d d'" using deq_keeps [OF Cons.prems, of ks t t'] r by (simp add: later_def)
    show ?thesis
    proof (cases "\<exists>j. r = Inr (Some (j, False))")
      case True
      then obtain j where j: "r = Inr (Some (j, False))" by blast
      let ?ds = "deliveries deq jack jnack other es d'"
      note t = deq_run [OF Cons.prems r [unfolded j]]
      have a: "above d' ?ds" using l Cons.IH by (simp add: later_def)
      have "(j_ID j, j_Attempts j) \<notin> set ?ds"
        using a t unfolding above_def by fastforce
      then show ?thesis using QDequeue r j step [OF l] t unfolding above_def by auto
    next
      case False
      then show ?thesis
        using QDequeue r step [OF l] by (auto split: sum.splits option.splits bool.splits)
    qed
  qed (use step ack_keeps nack_keeps other_keeps Cons.prems in \<open>auto simp: later_def\<close>)
qed (simp add: above_def)

text \<open>No token is delivered twice, and a job runs at most as often as it has attempts left.\<close>

lemma deliveries_bounded:
  assumes "inv d" "token i d = Some n"
  shows "length (filter (\<lambda>x. fst x = i) (deliveries deq jack jnack other es d)) \<le> nat (limit - n)"
proof -
  let ?ds = "filter (\<lambda>x. fst x = i) (deliveries deq jack jnack other es d)"
  note a = above_deliveries [OF assms(1), of es]
  have sub: "snd ` set ?ds \<subseteq> {n + 1..limit}" using a assms(2) unfolding above_def by fastforce
  have "inj_on snd (set ?ds)" by (auto simp: inj_on_def)
  then have "card (snd ` set ?ds) = card (set ?ds)" by (rule card_image)
  moreover have "card (set ?ds) = length ?ds" using a by (intro distinct_card) (simp add: above_def)
  moreover have "card (snd ` set ?ds) \<le> card {n + 1..limit}" by (rule card_mono [OF _ sub]) simp
  ultimately show ?thesis by simp
qed

end

section \<open>A store gives a queue\<close>

text \<open>A \<open>dbqueue\<close> over a store that meets the contract of job persistence.\<close>

locale store_queue = job_store st state inv
  for st :: "'d JobStore" and state :: "string \<Rightarrow> 'd \<Rightarrow> (JobStatus \<times> int) option" and inv :: "'d \<Rightarrow> bool" +
  fixes q :: "'d Queue" and other :: "'o \<Rightarrow> 'd \<Rightarrow> 'd"
  assumes over: "q_store q = st"
    and other_keeps: "inv d \<Longrightarrow> inv (other x d) \<and> (\<forall>i s n. state i d = Some (s, n) \<longrightarrow> (\<exists>s' n'. n \<le> n' \<and> state i (other x d) = Some (s', n')))"
begin

definition token_of :: "string \<Rightarrow> 'd \<Rightarrow> int option" where
  "token_of i d = map_option snd (state i d)"

definition keeps_tokens :: "'d \<Rightarrow> 'd \<Rightarrow> bool" where
  "keeps_tokens d d' \<longleftrightarrow> inv d' \<and> (\<forall>i n. token_of i d = Some n \<longrightarrow> (\<exists>n' \<ge> n. token_of i d' = Some n'))"

lemma keeps_one:
  assumes "inv d'" "state i d = Some (s, n)" "n \<le> n'" "\<forall>k. state k d' = (if k = i then Some (s', n') else state k d)"
  shows "keeps_tokens d d'"
  using assms by (auto simp: keeps_tokens_def token_of_def)

lemma keeps_same: "inv d \<Longrightarrow> keeps_tokens d d" by (auto simp: keeps_tokens_def)

lemma tokens_kept_trans:
  assumes "keeps_tokens d d'" "keeps_tokens d' d''" shows "keeps_tokens d d''"
  using assms unfolding keeps_tokens_def by (meson order.trans)

lemma settle_keeps:
  assumes "inv d"
  shows "keeps_tokens d (snd (sCompleteJob st i n t d))" "keeps_tokens d (snd (sRescheduleJob st i n ra c t d))"
    "keeps_tokens d (snd (sFailJob st i n c t d))"
proof -
  show "keeps_tokens d (snd (sCompleteJob st i n t d))"
    using complete_live [OF assms] complete_stale [OF assms] keeps_one keeps_same [OF assms]
    by (cases "state i d = Some (JobProcessing, n)") (metis order_refl snd_conv)+
  show "keeps_tokens d (snd (sRescheduleJob st i n ra c t d))"
    using reschedule_live [OF assms] reschedule_stale [OF assms] keeps_one keeps_same [OF assms]
    by (cases "state i d = Some (JobProcessing, n)") (metis order_refl snd_conv)+
  show "keeps_tokens d (snd (sFailJob st i n c t d))"
    using fail_live [OF assms] fail_stale [OF assms] keeps_one keeps_same [OF assms]
    by (cases "state i d = Some (JobProcessing, n)") (metis order_refl snd_conv)+
qed

lemma claim_keeps:
  assumes "inv d" shows "keeps_tokens d (snd (sClaimJob st ks t l d))"
proof -
  obtain r d' where r: "sClaimJob st ks t l d = (r, d')" by fastforce
  show ?thesis
  proof (cases r)
    case (Inl e)
    then have "d' = d" using claim_Inl [OF assms] r by blast
    then show ?thesis using r keeps_same [OF assms] by simp
  next
    case (Inr j)
    from claim_Inr [OF assms r [unfolded Inr]] obtain s where
      "inv d'" "state (j_ID j) d = Some (s, j_Attempts j - 1)"
      "\<forall>i. state i d' = (if i = j_ID j then Some (JobProcessing, j_Attempts j) else state i d)" by blast
    then show ?thesis using keeps_one [of d' "j_ID j" d s "j_Attempts j - 1" "j_Attempts j" JobProcessing] r by simp
  qed
qed

lemma queue_keeps:
  assumes "inv d"
  shows "keeps_tokens d (snd (Dequeue q ks t t' d))" "keeps_tokens d (snd (Ack q j t d))" "keeps_tokens d (snd (Nack q j c t t' d))"
proof -
  obtain r d1 where c: "sClaimJob st ks t (q_lease q) d = (r, d1)" by fastforce
  have k: "keeps_tokens d d1" using claim_keeps [OF assms, of ks t "q_lease q"] c by simp
  then have "inv d1" by (simp add: keeps_tokens_def)
  then have dead: "keeps_tokens d (snd (sFailJob st a b m t' d1))" for a b m by (rule tokens_kept_trans [OF k settle_keeps(3)])
  show "keeps_tokens d (snd (Dequeue q ks t t' d))"
    using c k dead over by (auto simp: Dequeue_def split: sum.splits prod.splits) (metis snd_conv)+
  show "keeps_tokens d (snd (Ack q j t d))"
    using settle_keeps(1) [OF assms, of "j_ID j" "j_Attempts j" t] over by (auto simp: Ack_def split: sum.splits prod.splits)
  have f: "keeps_tokens d d'" if "sFailJob st a b m u d = (x, d')" for a b m u x d'
    using that settle_keeps(3) [OF assms, of a b m u] by simp
  have g: "keeps_tokens d d'" if "sRescheduleJob st a b ra m u d = (x, d')" for a b m u ra x d'
    using that settle_keeps(2) [OF assms, of a b ra m u] by simp
  let ?msg = "case c of None \<Rightarrow> [] | Some m \<Rightarrow> m"
  obtain x d2 where x: "sFailJob st (j_ID j) (j_Attempts j) ?msg t' d = (x, d2)" by fastforce
  show "keeps_tokens d (snd (Nack q j c t t' d))"
  proof (cases "q_maxAttempts q \<le> j_Attempts j")
    case True
    then show ?thesis using x f [OF x] over by (auto simp: Nack_def Let_def split: sum.splits)
  next
    case False
    show ?thesis
    proof (cases "q_backoff q (j_Attempts j)")
      case None
      then show ?thesis using False keeps_same [OF assms] by (simp add: Nack_def Let_def)
    next
      case (Some b)
      obtain y d3 where y: "sRescheduleJob st (j_ID j) (j_Attempts j) (t + b) ?msg t' d = (y, d3)" by fastforce
      then show ?thesis using False Some g [OF y] over by (auto simp: Nack_def Let_def split: sum.splits)
    qed
  qed
qed

end

sublocale store_queue \<subseteq> jq: job_queue "Dequeue q" "Ack q" "Nack q" other token_of inv "q_maxAttempts q"
proof unfold_locales
  fix d d' ks t t' j
  assume d: "inv d" "Dequeue q ks t t' d = (Inr (Some (j, False)), d')"
  from Dequeue_run [OF d(1) over d(2)] show "token_of (j_ID j) d = Some (j_Attempts j - 1)
      \<and> token_of (j_ID j) d' = Some (j_Attempts j) \<and> j_Attempts j \<le> q_maxAttempts q"
    by (auto simp: token_of_def)
next
  fix d and x :: 'o assume "inv d"
  with other_keeps [OF this, of x] show "inv (other x d) \<and> (\<forall>i n. token_of i d = Some n \<longrightarrow> (\<exists>n' \<ge> n. token_of i (other x d) = Some n'))"
    by (fastforce simp: token_of_def)
qed (use queue_keeps in \<open>auto simp: keeps_tokens_def\<close>)

section \<open>The queue of the program\<close>

lemma sqlite_contract: "job_store sqlite_jobs job_state wf_db"
proof unfold_locales
  fix d d' :: db and ks :: "JobKind list" and now l t :: int and e j and i c :: string and n :: int
  assume wf: "wf_db d"
  note wj = wf_jobsI [OF wf]
  have w: "wf_db d'" if "(x, d') = op d" "\<And>d. runs d (snd (op d))" for x :: "'a res" and op d'
    using opRuns_wf [OF that(2) wf] that(1) by (metis snd_conv)
  show "d' = d" if "sClaimJob sqlite_jobs ks now l d = (Inl e, d')" by (rule sq.claim_Inl [OF wj that])
  show "wf_db d' \<and> (\<exists>s. job_state (j_ID j) d = Some (s, j_Attempts j - 1) \<and> s \<in> {JobPending, JobProcessing})
      \<and> (\<forall>i. job_state i d' = (if i = j_ID j then Some (JobProcessing, j_Attempts j) else job_state i d))"
    if "sClaimJob sqlite_jobs ks now l d = (Inr j, d')"
    using sq.claim_Inr [OF wj that] opRuns_wf [OF any.sqlite_runs(1) wf] that by (metis snd_conv)
  show "\<exists>d'. sCompleteJob sqlite_jobs i n now d = (Inr (), d') \<and> wf_db d'
      \<and> (\<forall>k. job_state k d' = (if k = i then Some (JobDone, n) else job_state k d))"
    if "job_state i d = Some (JobProcessing, n)"
    using sq.complete_live [OF wj that, of now] opRuns_wf [OF any.sqlite_runs(2) wf] by (metis snd_conv)
  show "\<exists>d'. sRescheduleJob sqlite_jobs i n t c now d = (Inr (), d') \<and> wf_db d'
      \<and> (\<forall>k. job_state k d' = (if k = i then Some (JobPending, n) else job_state k d))"
    if "job_state i d = Some (JobProcessing, n)"
    using sq.reschedule_live [OF wj that, of t c now] opRuns_wf [OF any.sqlite_runs(3) wf] by (metis snd_conv)
  show "\<exists>d'. sFailJob sqlite_jobs i n c now d = (Inr (), d') \<and> wf_db d'
      \<and> (\<forall>k. job_state k d' = (if k = i then Some (JobFailed, n) else job_state k d))"
    if "job_state i d = Some (JobProcessing, n)"
    using sq.fail_live [OF wj that, of c now] opRuns_wf [OF any.sqlite_runs(4) wf] by (metis snd_conv)
qed (use sq.complete_stale sq.reschedule_stale sq.fail_stale wf_jobsI in blast)+

lemma apply_option_store: "q_store (apply_option opt q) = q_store q"
  by (cases opt) simp_all

lemma fold_option_store: "q_store (fold apply_option opts q) = q_store q"
  by (induction opts arbitrary: q) (simp_all add: apply_option_store)

lemma NewQueue_store: "q_store (NewQueue s opts) = s"
  by (simp add: NewQueue_def fold_option_store)

interpretation dbq: store_queue sqlite_jobs job_state wf_db "NewQueue sqlite_jobs opts" "\<lambda>op d. snd (exec op d)" for opts
proof (rule store_queue.intro [OF sqlite_contract store_queue_axioms.intro])
  show "q_store (NewQueue sqlite_jobs opts) = sqlite_jobs"
    by (rule NewQueue_store)
  fix d and x assume wf: "wf_db d"
  show "wf_db (snd (exec x d)) \<and> (\<forall>i s n. job_state i d = Some (s, n) \<longrightarrow> (\<exists>s' n'. n \<le> n' \<and> job_state i (snd (exec x d)) = Some (s', n')))"
    using exec_wf [OF wf, of x] exec_forward [OF wf, of x] unfolding jobs_forward_def forward_def by fastforce
qed

definition queueDeliveries :: "QueueOption list \<Rightarrow> store_op qevent list \<Rightarrow> db \<Rightarrow> (string \<times> int) list" where
  "queueDeliveries opts = deliveries (Dequeue (NewQueue sqlite_jobs opts)) (Ack (NewQueue sqlite_jobs opts))
     (Nack (NewQueue sqlite_jobs opts)) (\<lambda>op d. snd (exec op d))"

text \<open>
  C12: Whatever any number of workers and handlers do, crashes and expired leases included, no
  job is ever handed out twice under the same fencing token, and a job is handed out to run at
  most as often as it has attempts left.
\<close>

theorem deliveries_are_fenced:
  assumes "wf_db d"
  shows "distinct (queueDeliveries opts es d)
    \<and> (\<forall>i s n. job_state i d = Some (s, n) \<longrightarrow>
         length (filter (\<lambda>x. fst x = i) (queueDeliveries opts es d)) \<le> nat (q_maxAttempts (NewQueue sqlite_jobs opts) - n))"
proof -
  have "distinct (queueDeliveries opts es d)"
    using dbq.jq.above_deliveries [OF assms] unfolding dbq.jq.above_def queueDeliveries_def by blast
  then show ?thesis
    using dbq.jq.deliveries_bounded [OF assms] unfolding queueDeliveries_def dbq.token_of_def by fastforce
qed

lemma deliveries_are_fenced_witness:
  "length (filter (\<lambda>x. fst x = ''j'') (queueDeliveries []
     [QDequeue [] 0 0, QDequeue [] Hour Hour, QOther (OpClaimJob [] 0 Minute)] (ex_db TranscriptPending JobPending 4 0))) \<le> 1"
proof -
  let ?d = "ex_db TranscriptPending JobPending 4 0"
  have "job_state ''j'' ?d = Some (JobPending, 4)" by (simp add: ex_job_state)
  moreover have "nat (q_maxAttempts (NewQueue sqlite_jobs []) - 4) = 1" by (simp add: NewQueue_def)
  ultimately show ?thesis
    using deliveries_are_fenced [OF ex_wf, of "[]" "[QDequeue [] 0 0, QDequeue [] Hour Hour, QOther (OpClaimJob [] 0 Minute)]"
        TranscriptPending JobPending 4 0] by metis
qed

end
