(* ===== verification/MediaRefinement.thy ===== *)
theory MediaRefinement
  imports BlobProtocol AdminGuarantees
begin

text \<open>
  The handlers of the admin area against the upload and delete protocol: whatever fails in a
  request and whatever unrelated store operations run in between, what it does to the database
  and to the blob store is a run of the protocol's steps.
\<close>

section \<open>Runs of the protocol\<close>

abbreviation bruns :: "duration \<Rightarrow> bsys \<Rightarrow> bsys \<Rightarrow> bool" where
  "bruns gap \<equiv> (bstep gap)\<^sup>*\<^sup>*"

text \<open>The protocol's view of a site at a time, with the entries of the requests under way.\<close>

definition view :: "time \<Rightarrow> db \<Rightarrow> (string \<rightharpoonup> string) \<Rightarrow> upload set \<Rightarrow> deletion set \<Rightarrow> bsys" where
  "view t d blobs us ds = \<lparr>b_now = t, b_db = d, b_blobs = dom blobs, b_uploads = us, b_deletes = ds\<rparr>"

definition site_view :: "time \<Rightarrow> site \<Rightarrow> bsys" where
  "site_view t s = view t (si_db s) (si_blobs s) {} {}"

lemma view_simps [simp]:
  "b_now (view t d bs us ds) = t" "b_db (view t d bs us ds) = d" "b_blobs (view t d bs us ds) = dom bs"
  "b_uploads (view t d bs us ds) = us" "b_deletes (view t d bs us ds) = ds"
  by (simp_all add: view_def)

definition entry :: "int \<Rightarrow> string \<Rightarrow> time \<Rightarrow> stage \<Rightarrow> upload" where
  "entry tok key t st = \<lparr>up_tok = tok, up_key = key, up_t = t, up_stage = st\<rparr>"

definition lease_entry :: "int \<Rightarrow> string \<Rightarrow> time \<Rightarrow> bool \<Rightarrow> deletion" where
  "lease_entry tok key t x = \<lparr>de_tok = tok, de_key = key, de_t = t, de_done = x\<rparr>"

text \<open>One rule per step, over views.\<close>

lemma run_wait: "t \<le> t' \<Longrightarrow> bruns gap (view t d bs us ds) (view t' d bs us ds)"
  using bstep.tick [of "t' - t" gap "view t d bs us ds"] by (auto simp: view_def)

lemma run_reserve:
  "t \<le> n \<Longrightarrow> ReserveBlob key t d = (Inr tok, d') \<Longrightarrow>
     bruns gap (view n d bs {} ds) (view n d' bs {entry tok key t Reserved} ds)"
  using bstep.reserve [of t "view n d bs {} ds" key tok d' gap] by (auto simp: view_def entry_def)

lemma run_put:
  "bruns gap (view n d bs {entry tok key t Reserved} ds) (view n d (bs(key \<mapsto> bytes)) {entry tok key t Stored} ds)"
  using bstep.put [of "entry tok key t Reserved" "view n d bs {entry tok key t Reserved} ds" gap]
  by (auto simp: view_def entry_def)

lemma run_create:
  "n \<le> t + UploadProtectWindow \<Longrightarrow> e_MediaKey ep = key \<Longrightarrow> CreateEpisode ep d = (Inr (), d') \<Longrightarrow>
     bruns gap (view n d bs {entry tok key t Stored} ds) (view n d' bs {entry tok key t Committed} ds)"
  using bstep.create [of "entry tok key t Stored" "view n d bs {entry tok key t Stored} ds" ep d' gap]
  by (auto simp: view_def entry_def up_deadline_def)

lemma run_release:
  "bruns gap (view n d bs {entry tok key t st} ds) (view n (snd (ReleaseBlob tok d)) bs {} ds)"
  using bstep.release [of "entry tok key t st" "view n d bs {entry tok key t st} ds" gap] by (auto simp: view_def entry_def)

lemma run_abandon: "bruns gap (view n d bs {u} ds) (view n d bs {} ds)"
  using bstep.crash_upload [of u "view n d bs {u} ds" gap] by (auto simp: view_def)

lemma run_delete:
  "t \<le> n \<Longrightarrow> DeleteEpisode eid t d = (Inr (key, orphaned, tok), d') \<Longrightarrow>
     bruns gap (view n d bs us {}) (view n d' bs us (if orphaned then {lease_entry tok key t False} else {}))"
  using bstep.delete_episode [of t "view n d bs us {}" eid key orphaned tok d' gap]
  by (auto simp: view_def lease_entry_def)

lemma run_orphan:
  "t \<le> n \<Longrightarrow> BlobOrphaned key t d = (Inr (orphaned, tok), d') \<Longrightarrow>
     bruns gap (view n d bs us {}) (view n d' bs us (if orphaned then {lease_entry tok key t False} else {}))"
  using bstep.orphan_check [of t "view n d bs us {}" key orphaned tok d' gap]
  by (auto simp: view_def lease_entry_def)

lemma run_physical:
  "n \<le> t + gap + BlobDeleteTimeout \<Longrightarrow>
     bruns gap (view n d bs us {lease_entry tok key t False}) (view n d (bs(key := None)) us {lease_entry tok key t True})"
  using bstep.physical [of "lease_entry tok key t False" "view n d bs us {lease_entry tok key t False}" gap]
  by (auto simp: view_def lease_entry_def del_deadline_def)

lemma run_unlease:
  "bruns gap (view n d bs us {lease_entry tok key t x}) (view n (snd (ReleaseDeleteLease tok d)) bs us {})"
  using bstep.unlease [of "lease_entry tok key t x" "view n d bs us {lease_entry tok key t x}" gap]
  by (auto simp: view_def lease_entry_def)

lemma run_abandon_delete: "bruns gap (view n d bs us {x}) (view n d bs us {})"
  using bstep.crash_delete [of x "view n d bs us {x}" gap] by (auto simp: view_def)

section \<open>Operations that leave media alone\<close>

abbreviation nruns :: "db \<Rightarrow> db \<Rightarrow> bool" where "nruns \<equiv> opRuns blob_neutral"

lemmas nruns_trans = opRuns_trans [of blob_neutral]
lemmas nruns_exec = opRuns_exec [of blob_neutral]
lemmas nruns_all = opRuns_all [of blob_neutral]

lemma run_neutral: "nruns d d' \<Longrightarrow> bruns gap (view n d bs us ds) (view n d' bs us ds)"
proof -
  have "list_all blob_neutral ops \<Longrightarrow> bruns gap (view n d bs us ds) (view n (exec_all ops d) bs us ds)" for ops
  proof (induction ops arbitrary: d)
    case (Cons op ops)
    then have "bstep gap (view n d bs us ds) (view n (snd (exec op d)) bs us ds)"
      using bstep.other [of op gap "view n d bs us ds"] by (simp add: view_def)
    with Cons show ?case by (simp add: converse_rtranclp_into_rtranclp)
  qed simp
  then show "nruns d d' \<Longrightarrow> ?thesis" by (auto simp: opRuns_def)
qed

text \<open>A site whose other processes leave media alone while the request runs.\<close>

definition undisturbed :: "adminenv \<Rightarrow> bool" where
  "undisturbed env \<longleftrightarrow> q_store (ad_queue env) = sqlite_jobs \<and> (\<forall>c. list_all blob_neutral (ad_others env c))
     \<and> (\<forall>k. list_all blob_neutral (ad_between env k))"

text \<open>The clock readings of the request in order; the reservation is the one that succeeds.\<close>

definition in_order :: "time \<Rightarrow> adminenv \<Rightarrow> bool" where
  "in_order t env \<longleftrightarrow> t \<le> ad_now env AWrite \<and> 0 \<le> ad_elapsed env
     \<and> (\<forall>k. t \<le> ad_reserveNow env k \<and> ad_reserveNow env k + ad_elapsed env \<le> ad_now env AOrphan)"

lemma nruns_adm:
  assumes "undisturbed env" "\<And>d. nruns d (snd (op d))"
  shows "nruns d (snd (adm env c op d))"
proof -
  have "nruns d (exec_all (ad_others env c) d)" using assms(1) by (simp add: undisturbed_def nruns_all)
  then show ?thesis using nruns_trans [OF _ assms(2)] by (simp add: adm_def Let_def)
qed

lemma nruns_read: "undisturbed env \<Longrightarrow> adm env c (\<lambda>d. (f d, d)) d = (x, d') \<Longrightarrow> nruns d d'"
  using nruns_adm [of env "\<lambda>d. (f d, d)" d c] by simp

lemma nruns_owned:
  assumes "undisturbed env"
  shows "ownedChannel env usr cid d = (x, d') \<Longrightarrow> nruns d d'" "ownedEpisode env usr eid d = (y, d'') \<Longrightarrow> nruns d d''"
proof -
  show c: "ownedChannel env usr cid d = (x, d') \<Longrightarrow> nruns d d'" for cid d x d'
    using assms by (auto simp: ownedChannel_def dest: nruns_read split: prod.splits sum.splits if_splits)
  show "ownedEpisode env usr eid d = (y, d'') \<Longrightarrow> nruns d d''"
    using assms by (auto simp: ownedEpisode_def dest!: c nruns_read intro: nruns_trans split: prod.splits sum.splits)
qed

text \<open>A call either fails after the others have run, or is its operation on what they left.\<close>

lemma adm_parts:
  assumes "undisturbed env" "adm env c op d = (x, d')"
  shows "\<exists>d0. nruns d d0 \<and> (x = Inl ErrDriver \<and> d' = d0 \<or> op d0 = (x, d'))"
  using assms nruns_all [of "ad_others env c" d] by (auto simp: adm_def Let_def undisturbed_def split: if_splits)

lemmas nruns_ops =
  nruns_exec [where op = "OpCreateChannel c" for c, simplified] nruns_exec [where op = "OpUpdateChannel c" for c, simplified]
  nruns_exec [where op = "OpUpdateEpisodeMetadata e ti de la t" for e ti de la t, simplified]
  nruns_exec [where op = "OpSetEpisodePublication e st p t" for e st p t, simplified]
  nruns_exec [where op = "OpReorderEpisodes c ids t" for c ids t, simplified]
  nruns_exec [where op = "OpEnqueueTranscriptionJob j e t" for j e t, simplified]

lemma nruns_enqueue: "undisturbed env \<Longrightarrow> nruns d (snd (EnqueueTranscription (ad_queue env) e j t d))"
  by (simp add: undisturbed_def EnqueueTranscription_def sqlite_jobs_def nruns_ops)

lemma nruns_with:
  assumes "undisturbed env" "\<And>r1 ep ch d1. nruns d1 (snd (act r1 ep ch d1))"
  shows "nruns d (snd (withOwnedEpisode env usr r d act))"
  using assms by (auto simp: withOwnedEpisode_def dest: nruns_owned(2) split: prod.split option.split sum.split)
    (metis nruns_owned(2) nruns_trans snd_conv)

lemma nruns_handlers:
  assumes u: "undisturbed env"
  shows "nruns d (snd (handleChannelCreate env usr r d))" "nruns d (snd (handleChannelUpdate env usr r d))"
    "nruns d (snd (handleEpisodeUpdate env usr r d))" "nruns d (snd (setEpisodePublished publish env usr r d))"
    "nruns d (snd (handleEpisodeMove env usr r d))" "nruns d (snd (handleEpisodeTranscribe env usr r d))"
proof -
  note a = nruns_adm [OF u nruns_ops(1)] nruns_adm [OF u nruns_ops(2)] nruns_adm [OF u nruns_ops(3)]
    nruns_adm [OF u nruns_ops(4)] nruns_adm [OF u nruns_ops(5)] nruns_adm [OF u nruns_enqueue [OF u]]
  show "nruns d (snd (handleChannelCreate env usr r d))"
    by (simp add: handleChannelCreate_def Let_def a split: prod.split option.split)
  show "nruns d (snd (handleChannelUpdate env usr r d))"
    using a(2) by (auto simp: handleChannelUpdate_def Let_def split: prod.split option.split sum.split
        dest!: nruns_owned(1) [OF u] intro: nruns_trans)
  show "nruns d (snd (handleEpisodeUpdate env usr r d))"
    unfolding handleEpisodeUpdate_def by (rule nruns_with [OF u]) (simp add: Let_def a)
  show "nruns d (snd (setEpisodePublished publish env usr r d))"
    unfolding setEpisodePublished_def by (rule nruns_with [OF u]) (simp add: Let_def a)
  show "nruns d (snd (handleEpisodeTranscribe env usr r d))"
    unfolding handleEpisodeTranscribe_def by (rule nruns_with [OF u]) (simp add: a)
  show "nruns d (snd (handleEpisodeMove env usr r d))"
    unfolding handleEpisodeMove_def
  proof (rule nruns_with [OF u])
    fix r1 :: request and ep :: episode and ch :: channel and d1
    obtain x d2 where l: "adm env AList (\<lambda>d. (Inr (ListEpisodes (allOf (c_ID ch)) d), d)) d1 = (x :: episode list res, d2)"
      by fastforce
    show "nruns d1 (snd (case adm env AList (\<lambda>d. (Inr (ListEpisodes (allOf (c_ID ch)) d), d)) d1 of
       (Inl e, d2) \<Rightarrow> (Plain serverError, d2)
     | (Inr eps, d2) \<Rightarrow>
         (let ids = map e_ID eps; i = index_of ids (e_ID ep);
              j = (if FormValue r1 ''dir'' = ''down'' then int i + 1 else int i - 1)
          in if length ids \<le> i \<or> j < 0 \<or> int (length ids) \<le> j then (Plain (redirect (episodesPath ch)), d2)
             else (case adm env AWrite (ReorderEpisodes (c_ID ch) (swapped i (nat j) ids) (ad_now env AWrite)) d2 of
                     (Inl e, d3) \<Rightarrow>
                       (Plain (if e = ErrInvalidReorder
                          then page 400 ''The episode order is out of date. Please reload and try again.''
                          else serverError), d3)
                   | (Inr _, d3) \<Rightarrow> (Plain (redirect (episodesPath ch)), d3)))))"
      using l nruns_read [OF u l] a(5) by (cases x) (auto simp: Let_def intro: nruns_trans)
  qed
qed

section \<open>The media handlers\<close>

lemma run_releaseBlob:
  assumes "undisturbed env"
  shows "bruns gap (view n d bs {entry tok key t st} ds) (view n (releaseBlob env tok d) bs {} ds)"
proof -
  obtain x d' where r: "adm env ARelease (ReleaseBlob tok) d = (x, d')" by fastforce
  then obtain d0 where d0: "nruns d d0" "x = Inl ErrDriver \<and> d' = d0 \<or> ReleaseBlob tok d0 = (x, d')"
    using adm_parts [OF assms r] by blast
  have "bruns gap (view n d0 bs {entry tok key t st} ds) (view n d' bs {} ds)"
    using d0(2) run_abandon run_release [of gap n d0 bs tok key t st ds] by auto
  then show ?thesis using run_neutral [OF d0(1)] r by (simp add: releaseBlob_def) (meson rtranclp_trans)
qed

lemma run_deleteLeased:
  assumes "undisturbed env" "0 \<le> gap" "n \<le> t" "key \<noteq> []"
  shows "bruns gap (view n (si_db s) (si_blobs s) us {lease_entry tok key t False})
    (view n (si_db (deleteLeasedBlob env key tok s)) (si_blobs (deleteLeasedBlob env key tok s)) us {})"
proof -
  let ?d1 = "exec_all (ad_others env APhysical) (si_db s)"
  define bs where "bs = (if ad_fault env APhysical then si_blobs s else (si_blobs s)(key := None))"
  obtain x d' where r: "adm env AUnlease (ReleaseDeleteLease tok) ?d1 = (x, d')" by fastforce
  then obtain d0 where d0: "nruns ?d1 d0" "x = Inl ErrDriver \<and> d' = d0 \<or> ReleaseDeleteLease tok d0 = (x, d')"
    using adm_parts [OF assms(1) r] by blast
  have "nruns (si_db s) ?d1" using assms(1) by (simp add: undisturbed_def nruns_all)
  then have 1: "bruns gap (view n (si_db s) (si_blobs s) us {lease_entry tok key t False})
      (view n d0 (si_blobs s) us {lease_entry tok key t False})"
    by (rule run_neutral [OF nruns_trans [OF _ d0(1)]])
  have "n \<le> t + gap + BlobDeleteTimeout" using assms(2,3) by (simp add: units)
  then have "\<exists>y. bruns gap (view n d0 (si_blobs s) us {lease_entry tok key t False}) (view n d0 bs us {lease_entry tok key t y})"
    using run_physical [of n t gap d0 "si_blobs s" us tok key] by (cases "ad_fault env APhysical") (auto simp: bs_def)
  then obtain y where 2: "bruns gap (view n d0 (si_blobs s) us {lease_entry tok key t False})
      (view n d0 bs us {lease_entry tok key t y})" by blast
  have 3: "bruns gap (view n d0 bs us {lease_entry tok key t y}) (view n d' bs us {})"
    using d0(2) run_abandon_delete run_unlease [of gap n d0 bs us tok key t y] by auto
  have e: "deleteLeasedBlob env key tok s = s\<lparr>si_blobs := bs, si_db := d'\<rparr>"
    using assms(4) r by (simp add: deleteLeasedBlob_def Let_def bs_def)
  show ?thesis using rtranclp_trans [OF rtranclp_trans [OF 1 2] 3] by (simp add: e)
qed

lemma run_deleteOrphan:
  assumes "undisturbed env" "0 \<le> gap" "n \<le> ad_now env AOrphan"
  shows "\<exists>n'. bruns gap (view n (si_db s) (si_blobs s) {} {}) (site_view n' (deleteOrphanBlob env key s))"
proof (cases "key = []")
  case True
  then show ?thesis by (auto simp: deleteOrphanBlob_def site_view_def)
next
  case False
  let ?t = "ad_now env AOrphan"
  obtain x d1 where r: "adm env AOrphan (BlobOrphaned key ?t) (si_db s) = (x, d1)" by fastforce
  then obtain d0 where d0: "nruns (si_db s) d0" "x = Inl ErrDriver \<and> d1 = d0 \<or> BlobOrphaned key ?t d0 = (x, d1)"
    using adm_parts [OF assms(1) r] by blast
  have 1: "bruns gap (view n (si_db s) (si_blobs s) {} {}) (view ?t d0 (si_blobs s) {} {})"
    using run_neutral [OF d0(1)] run_wait [OF assms(3)] by (meson rtranclp_trans)
  show ?thesis
  proof (cases x)
    case (Inl e)
    then have "d1 = d0" using d0(2) by (auto simp: BlobOrphaned_eq split: if_splits)
    then show ?thesis using 1 Inl r False by (auto simp: deleteOrphanBlob_def site_view_def)
  next
    case (Inr p)
    obtain orphaned tok where p: "p = (orphaned, tok)" by fastforce
    with Inr d0(2) have b: "BlobOrphaned key ?t d0 = (Inr (orphaned, tok), d1)" by auto
    note 2 = rtranclp_trans [OF 1 run_orphan [OF order_refl b, of gap "si_blobs s" "{}"]]
    show ?thesis
    proof (cases orphaned)
      case True
      have 3: "bruns gap (view ?t d1 (si_blobs s) {} {lease_entry tok key ?t False})
          (site_view ?t (deleteLeasedBlob env key tok (s\<lparr>si_db := d1\<rparr>)))"
        using run_deleteLeased [OF assms(1,2) order_refl False, of ?t "s\<lparr>si_db := d1\<rparr>" "{}" tok] by (simp add: site_view_def)
      have "deleteOrphanBlob env key s = deleteLeasedBlob env key tok (s\<lparr>si_db := d1\<rparr>)"
        using r Inr p False True by (simp add: deleteOrphanBlob_def)
      then show ?thesis using rtranclp_trans [OF 2 [unfolded if_P [OF True]] 3] by auto
    next
      case no: False
      have "deleteOrphanBlob env key s = s\<lparr>si_db := d1\<rparr>" using r Inr p False no by (simp add: deleteOrphanBlob_def)
      then show ?thesis using 2 no by (auto simp: site_view_def)
    qed
  qed
qed

lemma run_episodeDelete:
  assumes "undisturbed env" "0 \<le> gap" "n \<le> ad_now env AWrite"
  shows "\<exists>n'. bruns gap (site_view n s) (site_view n' (snd (handleEpisodeDelete env usr r s)))"
proof -
  let ?t = "ad_now env AWrite"
  have keep: "\<exists>n'. bruns gap (site_view n s) (site_view n' (s\<lparr>si_db := d'\<rparr>))" if "nruns (si_db s) d'" for d'
    using run_neutral [OF that, of gap n "si_blobs s" "{}" "{}"] by (auto simp: site_view_def)
  obtain rs r1 where ps: "parseSmallForm r = (rs, r1)" by fastforce
  obtain x d1 where o: "ownedEpisode env usr (rq_PathID r) (si_db s) = (x, d1)" by fastforce
  note n1 = nruns_owned(2) [OF assms(1) o]
  show ?thesis
  proof (cases "\<exists>ep ch. rs = None \<and> x = Inr (ep, ch)")
    case False
    then have "snd (handleEpisodeDelete env usr r s) \<in> {s, s\<lparr>si_db := d1\<rparr>}"
      using ps o by (cases rs; cases x) (auto simp: handleEpisodeDelete_def)
    then show ?thesis using keep [OF n1] keep [OF opRuns_refl] by auto
  next
    case True
    then obtain ep ch where x: "rs = None" "x = Inr (ep, ch)" by blast
    obtain y d2 where w: "adm env AWrite (DeleteEpisode (e_ID ep) ?t) d1 = (y, d2)" by fastforce
    then obtain d0 where d0: "nruns d1 d0" "y = Inl ErrDriver \<and> d2 = d0 \<or> DeleteEpisode (e_ID ep) ?t d0 = (y, d2)"
      using adm_parts [OF assms(1) w] by blast
    note n0 = nruns_trans [OF n1 d0(1)]
    show ?thesis
    proof (cases y)
      case (Inl e)
      then have "d2 = d0" using d0(2) by (auto simp: DeleteEpisode_eq Let_def split: option.splits if_splits)
      then show ?thesis using keep [OF n0] ps o x w Inl by (simp add: handleEpisodeDelete_def)
    next
      case (Inr q)
      obtain key orphaned tok where q: "q = (key, orphaned, tok)" by (metis prod.exhaust)
      with Inr d0(2) have del: "DeleteEpisode (e_ID ep) ?t d0 = (Inr (key, orphaned, tok), d2)" by auto
      have 1: "bruns gap (site_view n s) (view ?t d0 (si_blobs s) {} {})"
        unfolding site_view_def using run_neutral [OF n0] run_wait [OF assms(3)] by (meson rtranclp_trans)
      note 2 = rtranclp_trans [OF 1 run_delete [OF order_refl del, of gap "si_blobs s" "{}"]]
      show ?thesis
      proof (cases orphaned)
        case True
        with del have "key \<noteq> []" by (auto simp: DeleteEpisode_eq Let_def split: option.splits if_splits)
        then have 3: "bruns gap (view ?t d2 (si_blobs s) {} {lease_entry tok key ?t False})
            (site_view ?t (deleteLeasedBlob env key tok (s\<lparr>si_db := d2\<rparr>)))"
          using run_deleteLeased [OF assms(1,2) order_refl, of key ?t "s\<lparr>si_db := d2\<rparr>" "{}" tok] by (simp add: site_view_def)
        have "snd (handleEpisodeDelete env usr r s) = deleteLeasedBlob env key tok (s\<lparr>si_db := d2\<rparr>)"
          using ps o x w Inr q True by (simp add: handleEpisodeDelete_def)
        then show ?thesis using rtranclp_trans [OF 2 [unfolded if_P [OF True]] 3] by auto
      next
        case False
        have "snd (handleEpisodeDelete env usr r s) = s\<lparr>si_db := d2\<rparr>"
          using ps o x w Inr q False by (simp add: handleEpisodeDelete_def)
        then show ?thesis using 2 False by (auto simp: site_view_def)
      qed
    qed
  qed
qed

lemma run_reserveLoop:
  assumes "undisturbed env" "reserveLoop env key deadline k t d = (x, d')"
  shows "case x of Inl e \<Rightarrow> nruns d d'
    | Inr tok \<Rightarrow> \<exists>k d0. nruns d d0 \<and> ReserveBlob key (ad_reserveNow env k) d0 = (Inr tok, d')"
  using assms
proof (induction env key deadline k t d rule: reserveLoop.induct)
  case (1 env key deadline k t d)
  let ?d0 = "exec_all (ad_between env k) d"
  have n0: "nruns d ?d0" using 1(2) by (simp add: undisturbed_def nruns_all)
  obtain y d1 where y: "(if ad_reserveFails env k then (Inl ErrDriver, ?d0) else ReserveBlob key (ad_reserveNow env k) ?d0) = (y, d1)"
    by fastforce
  show ?case
  proof (cases y)
    case (Inr tok)
    then have "x = Inr tok" "ReserveBlob key (ad_reserveNow env k) ?d0 = (Inr tok, d')"
      using y 1(3) by (auto simp: reserveLoop.simps split: if_splits)
    then show ?thesis using n0 by auto
  next
    case (Inl e)
    then have d1: "d1 = ?d0" using y by (auto simp: ReserveBlob_eq split: if_splits)
    show ?thesis
    proof (cases "e \<noteq> ErrBlobDeleting \<or> \<not> t < deadline \<or> ad_cancelled env k")
      case True
      then have "d' = ?d0 \<and> (\<exists>e'. x = Inl e')"
        using y Inl d1 1(3) by (auto simp: reserveLoop.simps Let_def split: if_splits)
      then show ?thesis using n0 by auto
    next
      case False
      then have r: "reserveLoop env key deadline (Suc k) (t + reserveStep + int (ad_delay env (Suc k))) ?d0 = (x, d')"
        using y Inl d1 1(3) by (subst (asm) reserveLoop.simps) (simp add: Let_def)
      have "case x of Inl e \<Rightarrow> nruns ?d0 d'
          | Inr tok \<Rightarrow> \<exists>k d0. nruns ?d0 d0 \<and> ReserveBlob key (ad_reserveNow env k) d0 = (Inr tok, d')"
        by (rule 1(1) [of "Inl e" ?d0 e]) (use False y Inl d1 r 1(2) in \<open>simp_all add: Let_def\<close>)
      then show ?thesis using nruns_trans [OF n0] by (auto split: sum.splits)
    qed
  qed
qed

lemma admProtected_parts:
  assumes "undisturbed env" "admProtected env c op d = (x, d')"
  shows "\<exists>d0. nruns d d0 \<and> (x = Inl ErrDriver \<and> d' = d0 \<or> ad_elapsed env < UploadProtectWindow \<and> op d0 = (x, d'))"
proof (cases "UploadProtectWindow \<le> ad_elapsed env")
  case True
  then show ?thesis
    using assms nruns_all [of "ad_others env c" d] by (auto simp: admProtected_def undisturbed_def)
next
  case False
  then show ?thesis using adm_parts [OF assms(1), of c op d x d'] assms(2) by (simp add: admProtected_def)
qed

text \<open>What follows the reservation, which was made at \<open>r\<close>.\<close>

lemma run_storeReserved:
  assumes "undisturbed env" "0 \<le> gap" "r + ad_elapsed env \<le> ad_now env AOrphan" "0 \<le> ad_elapsed env"
    and "reserveMediaKey env (su_mediaKey up) (si_db s) = (Inr tok, d1)"
  shows "\<exists>n'. bruns gap (view r d1 (si_blobs s) {entry tok (su_mediaKey up) r Reserved} {})
    (site_view n' (snd (storeUpload env ch up bytes s)))"
proof -
  let ?key = "su_mediaKey up" and ?n = "r + ad_elapsed env" and ?ep = "newEpisode env ch up (int (length bytes))"
  let ?bs = "(si_blobs s)(?key \<mapsto> bytes)"
  define d2 where "d2 = exec_all (ad_others env APut) d1"
  have "nruns d1 d2" using assms(1) by (simp add: undisturbed_def nruns_all d2_def)
  then have 1: "bruns gap (view r d1 (si_blobs s) {entry tok ?key r Reserved} {}) (view ?n d2 (si_blobs s) {entry tok ?key r Reserved} {})"
    using run_neutral run_wait [of r ?n] assms(4) by (meson le_add_same_cancel1 rtranclp_trans)
  show ?thesis
  proof (cases "ad_fault env APut")
    case True
    then have "snd (storeUpload env ch up bytes s) = s\<lparr>si_db := releaseBlob env tok d2\<rparr>"
      using assms(5) by (simp add: storeUpload_def Let_def d2_def)
    then have "bruns gap (view ?n d2 (si_blobs s) {entry tok ?key r Reserved} {}) (site_view ?n (snd (storeUpload env ch up bytes s)))"
      using run_releaseBlob [OF assms(1), of gap ?n d2] by (simp add: site_view_def)
    then show ?thesis using rtranclp_trans [OF 1] by blast
  next
    case False
    obtain y d3 where c: "admProtected env ACreate (CreateEpisode ?ep) d2 = (y, d3)" by fastforce
    obtain d0 where d0: "nruns d2 d0"
      "y = Inl ErrDriver \<and> d3 = d0 \<or> ad_elapsed env < UploadProtectWindow \<and> CreateEpisode ?ep d0 = (y, d3)"
      using admProtected_parts [OF assms(1) c] by blast
    note 2 = rtranclp_trans [OF rtranclp_trans [OF 1 run_put] run_neutral [OF d0(1)], of bytes]
    show ?thesis
    proof (cases y)
      case (Inl e)
      then have d3: "d3 = d0" using d0(2) by (auto simp: CreateEpisode_def split: if_splits)
      let ?s = "s\<lparr>si_blobs := ?bs, si_db := releaseBlob env tok d3\<rparr>"
      have "snd (storeUpload env ch up bytes s) = deleteOrphanBlob env ?key ?s"
        using assms(5) False c Inl by (simp add: storeUpload_def Let_def d2_def)
      moreover have "bruns gap (view r d1 (si_blobs s) {entry tok ?key r Reserved} {}) (view ?n (si_db ?s) (si_blobs ?s) {} {})"
        using rtranclp_trans [OF 2 run_releaseBlob [OF assms(1)]] by (simp add: d3)
      ultimately show ?thesis
        using run_deleteOrphan [OF assms(1,2,3), of ?s ?key] rtranclp_trans by (metis (no_types, lifting))
    next
      case (Inr z)
      then have ce: "CreateEpisode ?ep d0 = (Inr (), d3)" "?n \<le> r + UploadProtectWindow" using d0(2) by auto
      have "e_MediaKey ?ep = ?key" by (simp add: newEpisode_def)
      note 3 = rtranclp_trans [OF 2 run_create [OF ce(2) this ce(1)]]
      obtain res d4 where q: "adm env AEnqueue (EnqueueTranscription (ad_queue env) (e_ID ?ep) (ad_jobID env) (ad_now env AEnqueue)) d3
          = (res, d4)" by fastforce
      have "nruns d3 (snd (adm env AEnqueue (EnqueueTranscription (ad_queue env) (e_ID ?ep) (ad_jobID env) (ad_now env AEnqueue)) d3))"
        by (rule nruns_adm [OF assms(1)]) (rule nruns_enqueue [OF assms(1)])
      then have "nruns d3 d4" by (simp add: q)
      note 4 = rtranclp_trans [OF 3 rtranclp_trans [OF run_neutral [OF this] run_releaseBlob [OF assms(1)]]]
      have "snd (storeUpload env ch up bytes s) = s\<lparr>si_blobs := ?bs, si_db := releaseBlob env tok d4\<rparr>"
        using assms(5) False c Inr q by (simp add: storeUpload_def Let_def d2_def)
      then show ?thesis using 4 by (auto simp: site_view_def)
    qed
  qed
qed

lemma run_storeUpload:
  assumes "undisturbed env" "0 \<le> gap" "in_order n env"
  shows "\<exists>n'. bruns gap (site_view n s) (site_view n' (snd (storeUpload env ch up bytes s)))"
proof -
  obtain x d1 where r: "reserveMediaKey env (su_mediaKey up) (si_db s) = (x, d1)" by fastforce
  note rl = run_reserveLoop [OF assms(1) r [unfolded reserveMediaKey_def]]
  show ?thesis
  proof (cases x)
    case (Inl e)
    then have "snd (storeUpload env ch up bytes s) = s\<lparr>si_db := d1\<rparr>" "nruns (si_db s) d1"
      using r rl by (simp_all add: storeUpload_def)
    then show ?thesis using run_neutral [of "si_db s" d1 gap n "si_blobs s" "{}" "{}"] by (auto simp: site_view_def)
  next
    case (Inr tok)
    with rl obtain k d0 where k: "nruns (si_db s) d0" "ReserveBlob (su_mediaKey up) (ad_reserveNow env k) d0 = (Inr tok, d1)" by auto
    let ?t = "ad_reserveNow env k"
    have t: "n \<le> ?t" "?t + ad_elapsed env \<le> ad_now env AOrphan" "0 \<le> ad_elapsed env"
      using assms(3) by (auto simp: in_order_def)
    have 1: "bruns gap (site_view n s) (view ?t d1 (si_blobs s) {entry tok (su_mediaKey up) ?t Reserved} {})"
      unfolding site_view_def
      by (rule rtranclp_trans [OF run_neutral [OF k(1)] rtranclp_trans [OF run_wait [OF t(1)] run_reserve [OF order_refl k(2)]]])
    show ?thesis
      using run_storeReserved [OF assms(1,2) t(2,3) r [unfolded Inr], of ch bytes] rtranclp_trans [OF 1] by blast
  qed
qed

lemma site_view_cong: "si_db s' = si_db s \<Longrightarrow> si_blobs s' = si_blobs s \<Longrightarrow> site_view n s' = site_view n s"
  by (simp add: site_view_def)

lemma run_episodeCreate:
  assumes "undisturbed env" "0 \<le> gap" "in_order n env"
  shows "\<exists>n'. bruns gap (site_view n s) (site_view n' (snd (handleEpisodeCreate env usr q s)))"
proof -
  obtain x d1 where o: "ownedChannel env usr (uq_PathID q) (si_db s) = (x, d1)" by fastforce
  have 1: "bruns gap (site_view n s) (site_view n s1)" if "si_db s1 = d1" "si_blobs s1 = si_blobs s" for s1
    using run_neutral [OF nruns_owned(1) [OF assms(1) o]] that by (simp add: site_view_def)
  have c: "si_db (setReadDeadline env t s') = si_db s'" "si_blobs (setReadDeadline env t s') = si_blobs s'"
    "si_db (abortUpload env s') = si_db s'" "si_blobs (abortUpload env s') = si_blobs s'" for t s'
    by (simp_all add: setReadDeadline_def abortUpload_def)
  have done1: "\<exists>n'. bruns gap (site_view n s) (site_view n' s1)" if "si_db s1 = d1" "si_blobs s1 = si_blobs s" for s1
    using 1 [OF that] by blast
  have staged: "\<exists>n'. bruns gap (site_view n s) (site_view n' s3)"
    if cs: "createStaged env ch up s2 = (v, s')" and s2: "si_db s2 = d1" "si_blobs s2 = si_blobs s"
      and s3: "si_db s3 = si_db s'" "si_blobs s3 = si_blobs s'" for ch up s2 v s' s3
  proof -
    have "s' = s2 \<or> (\<exists>bytes. s' = snd (storeUpload env ch up bytes s2))"
      using cs by (auto simp: createStaged_def Let_def split: if_splits option.splits) (metis snd_conv)+
    then have "\<exists>n'. bruns gap (site_view n s2) (site_view n' s')"
      using run_storeUpload [OF assms] by auto
    then show ?thesis using 1 [OF s2] rtranclp_trans site_view_cong [OF s3] by metis
  qed
  let ?r = "snd (handleEpisodeCreate env usr q s)"
  show ?thesis
  proof (cases "\<exists>ch up dir. x = Inr ch \<and> upload_admitted env usr q s
      \<and> stageMultipartUpload (ad_stage env) (uq_Opened q) (uq_Parts q) (uq_End q) (si_staging s) = (Inr up, dir)")
    case True
    then obtain ch up dir where x: "x = Inr ch" and ad: "upload_admitted env usr q s"
      and st: "stageMultipartUpload (ad_stage env) (uq_Opened q) (uq_Parts q) (uq_End q) (si_staging s) = (Inr up, dir)"
      by blast
    let ?s2 = "(setReadDeadline env (ad_now env ADeadline + uploadReadTimeout (ad_maxUploadBytes env)) (s\<lparr>si_db := d1\<rparr>))\<lparr>si_staging := dir\<rparr>"
    obtain v s' where cs: "createStaged env ch up ?s2 = (v, s')" by fastforce
    have "si_staging (setReadDeadline env t s') = si_staging s'" for t s' by (simp add: setReadDeadline_def)
    then have "si_db ?r = si_db s'" "si_blobs ?r = si_blobs s'"
      using o x ad st cs by (auto simp: handleEpisodeCreate_def upload_admitted_def Let_def split: option.split)
    then show ?thesis using staged [OF cs] by (simp add: c)
  next
    case False
    have e: "si_staging (setReadDeadline env t s') = si_staging s'" for t s' by (simp add: setReadDeadline_def)
    obtain y dir where st: "stageMultipartUpload (ad_stage env) (uq_Opened q) (uq_Parts q) (uq_End q) (si_staging s) = (y, dir)"
      by fastforce
    have "si_db ?r = d1 \<and> si_blobs ?r = si_blobs s"
      using o st False by (cases x; cases y) (auto simp: handleEpisodeCreate_def upload_admitted_def Let_def c e split: if_splits)
    then show ?thesis using done1 by blast
  qed
qed

lemma handlers_refine:
  assumes "undisturbed env" "0 \<le> gap" "in_order n env"
  shows "\<exists>n'. (bstep gap)\<^sup>*\<^sup>* (site_view n s) (site_view n' (snd (admin env usr rq s)))"
proof -
  have d: "\<exists>n'. bruns gap (site_view n s) (site_view n' (snd (on_db h s)))" if "nruns (si_db s) (snd (h (si_db s)))" for h
    using run_neutral [OF that, of gap n "si_blobs s" "{}" "{}"] by (auto simp: site_view_def on_db_def split: prod.split)
  have w: "n \<le> ad_now env AWrite" using assms(3) by (simp add: in_order_def)
  show ?thesis
    by (cases rq) (simp_all add: d nruns_handlers [OF assms(1)] handleEpisodePublish_def handleEpisodeUnpublish_def
        run_episodeCreate [OF assms] run_episodeDelete [OF assms(1,2) w])
qed

text \<open>
  C6: The handlers of the admin area refine the upload and delete protocol: whatever call of a
  request fails, and with any unrelated store operations in between, what the request does to
  the database and the blob store is a run of the protocol's steps.
\<close>

theorem handlers_refine_protocol:
  assumes "undisturbed env" "0 \<le> gap" "in_order n env"
  shows "\<exists>n'. (bstep gap)\<^sup>*\<^sup>* (site_view n s) (site_view n' (snd (admin env usr rq s)))"
  by (rule handlers_refine [OF assms])

section \<open>What the protocol gives the site\<close>

definition media_safe :: "site \<Rightarrow> bool" where
  "media_safe s \<longleftrightarrow> (\<forall>r \<in> set (episodes (si_db s)). er_media_key r \<noteq> [] \<longrightarrow> si_blobs s (er_media_key r) \<noteq> None)"

lemma binv_site: "binv gap (site_view n s) \<longleftrightarrow> wf_db (si_db s) \<and> media_safe s"
  by (auto simp: binv_def site_view_def media_present_def media_safe_def media_keys_def)

lemma binv_run:
  "(bstep gap)\<^sup>*\<^sup>* b b' \<Longrightarrow> gap + BlobDeleteTimeout \<le> BlobDeleteLeaseTTL - Second \<Longrightarrow> binv gap b \<Longrightarrow> binv gap b'"
  by (induction rule: rtranclp_induct) (auto intro: binv_step)

section \<open>Concrete requests\<close>

lemma ex_undisturbed: "undisturbed (ex_adminenv f)" and ex_in_order: "in_order 0 (ex_adminenv f)"
  by (simp_all add: undisturbed_def in_order_def ex_adminenv_def NewQueue_def)

lemma handlers_refine_protocol_witness:
  "\<exists>n'. (bstep 0)\<^sup>*\<^sup>* (site_view 0 ex_site)
     (site_view n' (snd (admin (ex_adminenv (\<lambda>_. True)) ex_owner (AdmEpisodeDelete (ex_action ''e'' [])) ex_site)))"
  by (rule handlers_refine_protocol [OF ex_undisturbed order_refl ex_in_order])

end
