(* ===== verification/Serve.thy ===== *)
theory Serve
  imports Server Feed MediaRefinement Worker
begin

text \<open>
  The whole HTTP handler of \<open>server/router.go\<close> as one function: the middleware, the route table
  and every handler composed over one state, and what holds of any request, of any sequence of
  requests, and of any history of requests and worker passes.  The counters that every request bumps are the subject of \<open>Server\<close>.
\<close>

section \<open>The service\<close>

text \<open>What outlives a request: the site, and the limiter in memory.\<close>

record service =
  sc_site :: site
  sc_limiter :: loginLimiter

text \<open>
  What a request runs under: the environments of the handlers, the random tokens drawn, and
  what other requests do to the store in the middle of a single sign-on.
\<close>

record serviceenv =
  en_server :: Server
  en_auth :: authenv
  en_admin :: adminenv
  en_media :: mediaenv
  en_rnd :: string
  en_authCodeURL :: "(string \<Rightarrow> string \<Rightarrow> string) option"
  en_state :: string
  en_nonce :: string
  en_between1 :: "store_op list"
  en_between2 :: "store_op list"
  en_fmtDate :: "time \<Rightarrow> string"
  en_marshal :: "rss \<Rightarrow> string option"
  en_pingFails :: bool
  en_fmtG :: "rat \<Rightarrow> string"
  en_registry :: "world Registry"
  en_countFails :: bool

datatype answer =
  AnsProbe "write_event list"
| AnsPage response
| AnsAdmin adminview
| AnsPublic public_page
| AnsMedia media_response
| AnsFeed feed_response
| AnsStatic string
| AnsUnmatched

abbreviation service_db :: "service \<Rightarrow> db" where
  "service_db s \<equiv> si_db (sc_site s)"

definition put_db :: "db \<Rightarrow> service \<Rightarrow> service" where
  "put_db d s = s\<lparr>sc_site := (sc_site s)\<lparr>si_db := d\<rparr>\<rparr>"

definition mediaOf :: "serviceenv \<Rightarrow> service \<Rightarrow> mediaenv" where
  "mediaOf env s = (en_media env)\<lparr>me_blobs := si_blobs (sc_site s)\<rparr>"

definition on_server :: "(server \<Rightarrow> response \<times> server) \<Rightarrow> service \<Rightarrow> answer \<times> service" where
  "on_server h s =
     (case h \<lparr>sv_db = service_db s, sv_limiter = sc_limiter s\<rparr> of
        (rs, sv) \<Rightarrow> (AnsPage rs, (put_db (sv_db sv) s)\<lparr>sc_limiter := sv_limiter sv\<rparr>))"

section \<open>The handlers by route\<close>

definition secureCookies :: "serviceenv \<Rightarrow> bool" where
  "secureCookies env = cookieSecure (sv_baseURL (en_server env))"

fun runRoute :: "serviceenv \<Rightarrow> Route \<Rightarrow> string \<Rightarrow> user option \<Rightarrow> request \<Rightarrow> uploadreq \<Rightarrow> service \<Rightarrow> answer \<times> service" where
  "runRoute env AtStatic i usr r q s = (AnsStatic i, s)"
| "runRoute env AtMedia i usr r q s = (AnsMedia (handleMedia (mediaOf env s) i (service_db s)), s)"
| "runRoute env AtLoginForm i usr r q s = (AnsPage (handleLoginForm usr), s)"
| "runRoute env AtLogin i usr r q s = on_server (handleLogin (en_auth env) r) s"
| "runRoute env AtLogout i usr r q s = on_server (handleLogout (en_auth env) r) s"
| "runRoute env AtSignupForm i usr r q s = (AnsPage (handleSignupForm (en_auth env) usr), s)"
| "runRoute env AtSignup i usr r q s = on_server (handleSignup (en_auth env) r) s"
| "runRoute env AtOIDCLogin i usr r q s =
     (AnsPage (handleOIDCLogin (secureCookies env) (en_authCodeURL env) (en_state env) (en_nonce env)), s)"
| "runRoute env AtOIDCCallback i usr r q s =
     (case handleOIDCCallback (en_auth env) (secureCookies env) (sv_allowedDomains (en_server env)) (sv_authn (en_server env))
             (en_between1 env) (en_between2 env) r (service_db s) of
        (rs, d) \<Rightarrow> (AnsPage rs, put_db d s))"
| "runRoute env (AtAdmin a) i usr r q s =
     (case usr of None \<Rightarrow> (AnsPage (redirect ''/login''), s)
      | Some u \<Rightarrow>
          (case adminHandler (en_admin env) a u (r\<lparr>rq_PathID := i\<rparr>) (q\<lparr>uq_PathID := i\<rparr>) (sc_site s) of
             (v, t) \<Rightarrow> (AnsAdmin v, s\<lparr>sc_site := t\<rparr>)))"
| "runRoute env AtLanding i usr r q s = (AnsPublic (handleLanding (mediaOf env s) (service_db s)), s)"
| "runRoute env AtChannel i usr r q s = (AnsPublic (handleChannel (mediaOf env s) i (service_db s)), s)"
| "runRoute env AtFeed i usr r q s =
     (AnsFeed (handleFeed (mediaOf env s) (en_fmtDate env) (en_marshal env) (sv_baseURL (en_server env)) i (service_db s)), s)"
| "runRoute env AtEpisode i usr r q s = (AnsPublic (handleEpisode (mediaOf env s) i (service_db s)), s)"

fun runProbe :: "serviceenv \<Rightarrow> Probe \<Rightarrow> service \<Rightarrow> write_event list" where
  "runProbe env Healthz s = handleHealthz"
| "runProbe env Readyz s = handleReadyz (en_pingFails env)"
| "runProbe env MetricsProbe s =
     handleMetrics (en_fmtG env)
       \<lparr>wd_now = ae_now (en_auth env), wd_db = service_db s, wd_countFails = en_countFails env\<rparr> (en_registry env)"

section \<open>The handler\<close>

definition serve :: "serviceenv \<Rightarrow> request \<Rightarrow> uploadreq \<Rightarrow> string \<Rightarrow> service \<Rightarrow> answer \<times> service" where
  "serve env r q path s =
     (case dispatch (en_auth env) (secureCookies env) (en_rnd env) r path (service_db s) of
        ReachProbe p \<Rightarrow> (AnsProbe (runProbe env p s), s)
      | ReachReject rs \<Rightarrow> (AnsPage rs, s)
      | ReachUnmatched \<Rightarrow> (AnsUnmatched, s)
      | ReachRun rt ids usr r1 \<Rightarrow> runRoute env rt (case ids of [] \<Rightarrow> [] | x # _ \<Rightarrow> x) usr r1 q s)"

text \<open>The reply on the wire: the baseline headers and the token cookie come with every answer.\<close>

record reply =
  rp_headers :: "string \<rightharpoonup> string"
  rp_tokenCookies :: "cookie list"
  rp_answer :: answer

definition handler :: "serviceenv \<Rightarrow> request \<Rightarrow> uploadreq \<Rightarrow> string \<Rightarrow> service \<Rightarrow> reply \<times> service" where
  "handler env r q path s =
     (case serve env r q path s of
        (a, s1) \<Rightarrow>
          (\<lparr>rp_headers = securityHeaders Map.empty,
            rp_tokenCookies = (case a of AnsProbe _ \<Rightarrow> [] | _ \<Rightarrow> snd (ensureCSRFCookie (secureCookies env) (en_rnd env) r)),
            rp_answer = a\<rparr>, s1))"

type_synonym call = "serviceenv \<times> request \<times> uploadreq \<times> string"

fun handle_all :: "call list \<Rightarrow> service \<Rightarrow> service" where
  "handle_all [] s = s"
| "handle_all ((env, r, q, path) # cs) s = handle_all cs (snd (handler env r q path s))"

lemma handler_state: "snd (handler env r q path s) = snd (serve env r q path s)"
  by (simp add: handler_def split: prod.split)

section \<open>What a request can do\<close>

fun account_op :: "store_op \<Rightarrow> bool" where
  "account_op (OpCreateUser _) = True"
| "account_op (OpUpdateUser _) = True"
| "account_op (OpBumpSessionEpoch _) = True"
| "account_op (OpLinkOIDCIdentity _ _ _) = True"
| "account_op _ = False"

lemma account_op_users: "account_op op \<Longrightarrow> (snd (exec op d))\<lparr>users := []\<rparr> = d\<lparr>users := []\<rparr>"
  by (cases op) (auto simp: CreateUser_def UpdateUser_def BumpSessionEpoch_def LinkOIDCIdentity_def Let_def)

lemma account_op_neutral: "account_op op \<Longrightarrow> blob_neutral op"
  by (cases op) simp_all

lemma opRuns_users: "opRuns account_op d d' \<Longrightarrow> d'\<lparr>users := []\<rparr> = d\<lparr>users := []\<rparr>"
proof -
  have "list_all account_op ops \<Longrightarrow> (exec_all ops d)\<lparr>users := []\<rparr> = d\<lparr>users := []\<rparr>" for ops
    by (induction ops arbitrary: d) (simp_all add: account_op_users)
  then show "opRuns account_op d d' \<Longrightarrow> ?thesis" by (auto simp: opRuns_def)
qed

text \<open>Operations on accounts are all that the routes outside the admin area do to the store.\<close>

lemma opRuns_account_ops:
  assumes "\<And>op. account_op op \<Longrightarrow> P op"
  shows "opRuns P d (snd (CreateUser u d))" "opRuns P d (snd (BumpSessionEpoch uid d))" "opRuns P d (snd (LinkOIDCIdentity uid iss sub d))"
  using opRuns_exec [of P "OpCreateUser u" d] opRuns_exec [of P "OpBumpSessionEpoch uid" d]
    opRuns_exec [of P "OpLinkOIDCIdentity uid iss sub" d] assms by simp_all

lemma opRuns_oidcCall:
  assumes "list_all P ops" "\<And>d. opRuns P d (snd (op d))" "oidcCall env c op (exec_all ops d) = (x, d')"
  shows "opRuns P d d'"
proof -
  have "opRuns P (exec_all ops d) d'" using assms(2) [of "exec_all ops d"] assms(3) by (auto simp: oidcCall_def split: if_splits)
  then show ?thesis using opRuns_trans [OF opRuns_all [OF assms(1)]] by blast
qed

lemma opRuns_resolve:
  assumes P: "\<And>op. account_op op \<Longrightarrow> P op" and "list_all P b1" "list_all P b2"
  shows "opRuns P d (snd (resolveOIDCUser env domains b1 b2 i d))"
proof -
  have l: "opRuns P d d1" "opRuns P d (exec_all b2 d1)"
    if "oidcCall env OLink (LinkOIDCIdentity uid iss sub) (exec_all b1 d) = (x, d1)" for uid iss sub x d1
    using opRuns_oidcCall [OF assms(2) opRuns_account_ops(3) [OF P] that] opRuns_trans [OF _ opRuns_all [OF assms(3)]] by blast+
  have c': "opRuns P d d1" if "oidcCall env OCreate (CreateUser u) (exec_all b1 d) = (x, d1)" for u x d1
    using opRuns_oidcCall [OF assms(2) opRuns_account_ops(1) [OF P] that] .
  have c: "opRuns P d (snd (oidcCall env OCreate (CreateUser u) (exec_all b1 d)))" for u
    using c' [OF prod.collapse [symmetric]] .
  show ?thesis
    by (auto simp: resolveOIDCUser_def Let_def c dest: l c' split: sum.split prod.split)
qed

lemma login_keeps_db: "sv_db (snd (handleLogin env r sv)) = sv_db sv"
  by (simp add: handleLogin_def Let_def split: option.split prod.split)

lemma opRuns_password_handlers:
  assumes P: "\<And>op. account_op op \<Longrightarrow> P op"
  shows "opRuns P (sv_db sv) (sv_db (snd (handleLogout env r sv)))"
    "opRuns P (sv_db sv) (sv_db (snd (handleSignup env r sv)))"
proof -
  have b: "opRuns P d d1" if "BumpSessionEpoch uid d = (x, d1)" for uid d x d1
    using opRuns_account_ops(2) [where P = P and d = d and uid = uid] P that by simp
  have c: "opRuns P d d1" if "CreateUser u d = (x, d1)" for u d x d1
    using opRuns_account_ops(1) [where P = P and d = d and u = u] P that by simp
  show "opRuns P (sv_db sv) (sv_db (snd (handleLogout env r sv)))"
    by (auto simp: handleLogout_def Let_def dest: b split: option.split prod.split sum.split)
  show "opRuns P (sv_db sv) (sv_db (snd (handleSignup env r sv)))"
    by (auto simp: handleSignup_def Let_def dest: c split: option.split prod.split sum.split)
qed

lemma runRoute_public:
  assumes P: "\<And>op. account_op op \<Longrightarrow> P op" and "list_all P (en_between1 env)" "list_all P (en_between2 env)"
    and "\<And>a. rt \<noteq> AtAdmin a"
  shows "\<exists>d. opRuns P (service_db s) d \<and> sc_site (snd (runRoute env rt i usr r q s)) = (sc_site s)\<lparr>si_db := d\<rparr>"
proof -
  have o: "sc_site (snd (on_server h s)) = (sc_site s)\<lparr>si_db := sv_db (snd (h \<lparr>sv_db = service_db s, sv_limiter = sc_limiter s\<rparr>))\<rparr>" for h
    by (simp add: on_server_def put_db_def split: prod.split)
  have res': "opRuns P d (snd (resolveOIDCUser e ds (en_between1 env) (en_between2 env) x d))" for e ds x d
    using opRuns_resolve [OF P assms(2,3)] by blast
  have res: "opRuns P d d1" if "resolveOIDCUser e ds (en_between1 env) (en_between2 env) x d = (y, d1)" for e ds x d y d1
    using res' [of d e ds x] that by simp
  have cb: "opRuns P (service_db s) (snd (handleOIDCCallback e sec ds au (en_between1 env) (en_between2 env) r (service_db s)))" for e sec ds au
    by (auto simp: handleOIDCCallback_def Let_def res' dest: res split: option.split sum.split prod.split)
  have srv: ?thesis if "runRoute env rt i usr r q s = on_server h s"
    and "opRuns P (service_db s) (sv_db (snd (h \<lparr>sv_db = service_db s, sv_limiter = sc_limiter s\<rparr>)))" for h
    using that(2) by (auto simp: that(1) o)
  have same: ?thesis if "sc_site (snd (runRoute env rt i usr r q s)) = sc_site s"
    using that by (intro exI [of _ "service_db s"]) simp
  show ?thesis
  proof (cases rt)
    case AtLogin
    then show ?thesis by (intro srv [where h = "handleLogin (en_auth env) r"]) (simp_all add: login_keeps_db)
  next
    case AtLogout
    show ?thesis
      using opRuns_password_handlers(1) [OF P, where sv = "\<lparr>sv_db = service_db s, sv_limiter = sc_limiter s\<rparr>"] AtLogout
      by (intro srv) simp_all
  next
    case AtSignup
    show ?thesis
      using opRuns_password_handlers(2) [OF P, where sv = "\<lparr>sv_db = service_db s, sv_limiter = sc_limiter s\<rparr>"] AtSignup
      by (intro srv) simp_all
  next
    case AtOIDCCallback
    then show ?thesis using cb by (auto simp: put_db_def split: prod.split) (metis snd_conv)
  qed (use assms(4) same in simp_all)
qed

lemma on_db_site: "snd (on_db h s) = s\<lparr>si_db := snd (h (si_db s))\<rparr>"
  by (simp add: on_db_def split: prod.split)

lemma admin_reads_site:
  assumes "alone env" "a \<notin> set writingRoutes"
  shows "snd (adminHandler env a u r q s) = s"
proof -
  have "snd (adminHandler env a u r q s) = s\<lparr>si_db := si_db (snd (adminHandler env a u r q s))\<rparr>"
    using assms(2) by (cases a) (simp_all add: writingRoutes_def on_db_site)
  then show ?thesis using admin_reads [OF assms] by simp
qed

section \<open>Who can change what\<close>

text \<open>Everything the service stores but the accounts.\<close>

definition content :: "site \<Rightarrow> site" where
  "content t = t\<lparr>si_db := (si_db t)\<lparr>users := []\<rparr>\<rparr>"

definition quiet :: "serviceenv \<Rightarrow> bool" where
  "quiet env \<longleftrightarrow> alone (en_admin env) \<and> en_between1 env = [] \<and> en_between2 env = []"

lemma runRoute_content:
  assumes "quiet env" "\<And>a. rt \<noteq> AtAdmin a"
  shows "content (sc_site (snd (runRoute env rt i usr r q s))) = content (sc_site s)"
proof -
  from runRoute_public [of account_op env rt s i usr r q] assms obtain d where d: "opRuns account_op (service_db s) d"
    "sc_site (snd (runRoute env rt i usr r q s)) = (sc_site s)\<lparr>si_db := d\<rparr>" by (auto simp: quiet_def)
  then show ?thesis using opRuns_users [OF d(1)] by (simp add: content_def)
qed

lemma dispatch_run:
  assumes "dispatch env secure rnd r path d = ReachRun rt ids usr r1"
  shows "lookupRoute appRoutes (rq_Method r) (splitSegs [] path) = Some (rt, ids)" "usr = loadUser env r d"
    "\<exists>token cks. csrf secure rnd r = (None, token, cks, r1)" "rt = AtAdmin a \<Longrightarrow> usr \<noteq> None"
  using assms by (auto simp: dispatch_def Let_def dest: sym [of "Some _"] split: option.splits prod.splits Route.splits)

lemma content_change:
  assumes "quiet env" "wf_db (service_db s)" "handler env r q path s = (rp, s')"
    and "content (sc_site s') \<noteq> content (sc_site s)"
  shows "\<exists>u. loadUser (en_auth env) r (service_db s) = Some u \<and> rq_Method r = ''POST''
    \<and> (let token = fst (requestCSRFToken r) in
         token \<noteq> [] \<and> (map_of (rq_Cookies r) csrfCookieName = Some token \<or> token = newCSRFToken (en_rnd env)))
    \<and> foreign u (service_db s') = foreign u (service_db s)"
proof -
  have alone: "alone (en_admin env)" using assms(1) by (simp add: quiet_def)
  have s': "s' = snd (serve env r q path s)" using handler_state [of env r q path s] assms(3) by simp
  with assms(4) obtain rt ids usr r1 where
      d: "dispatch (en_auth env) (secureCookies env) (en_rnd env) r path (service_db s) = ReachRun rt ids usr r1"
    by (auto simp: serve_def split: reached.splits)
  define i where "i = (case ids of [] \<Rightarrow> [] | x # _ \<Rightarrow> x)"
  have run: "s' = snd (runRoute env rt i usr r1 q s)" using s' by (simp add: serve_def d i_def)
  with assms(4) obtain a where a: "rt = AtAdmin a" using runRoute_content [OF assms(1)] by blast
  obtain u where u: "usr = Some u" using dispatch_run(4) [OF d a] by blast
  have site: "sc_site s' = snd (adminHandler (en_admin env) a u (r1\<lparr>rq_PathID := i\<rparr>) (q\<lparr>uq_PathID := i\<rparr>) (sc_site s))"
    by (simp add: run a u split: prod.split)
  have w: "a \<in> set writingRoutes" using admin_reads_site [OF alone] site assms(4) by metis
  have post: "rq_Method r = ''POST''"
    using lookup_method [OF dispatch_run(1) [OF d]] writing_routes_post w by (auto simp: a list_all_iff methodMatches_def)
  obtain token cks where c: "csrf (secureCookies env) (en_rnd env) r = (None, token, cks, r1)"
    using dispatch_run(3) [OF d] by blast
  note tok = csrf_passed [OF c, unfolded post csrfSafeMethod_def, simplified]
  obtain rq where "sc_site s' = snd (admin (en_admin env) u rq (sc_site s))" using admin_writes [OF w] site by metis
  then have "foreign u (service_db s') = foreign u (service_db s)"
    using keeps_admin [OF alone assms(2), of u rq] by (simp add: keeps_def)
  with u post tok dispatch_run(2) [OF d] show ?thesis by (auto simp: Let_def)
qed

text \<open>
  C4: Only a signed-in user's own POST with the token changes content: when a request, to any
  path and with any failures inside, changes anything stored besides the accounts, it is a POST
  with a live session of a user and the CSRF token of its own cookie, and every row of another
  user is as it was.
\<close>

theorem content_needs_login_and_token:
  assumes "quiet env" "wf_db (service_db s)" "handler env r q path s = (rp, s')"
    and "content (sc_site s') \<noteq> content (sc_site s)"
  shows "\<exists>u. loadUser (en_auth env) r (service_db s) = Some u \<and> rq_Method r = ''POST''
    \<and> (let token = fst (requestCSRFToken r) in
         token \<noteq> [] \<and> (map_of (rq_Cookies r) csrfCookieName = Some token \<or> token = newCSRFToken (en_rnd env)))
    \<and> foreign u (service_db s') = foreign u (service_db s)"
  by (rule content_change [OF assms])

definition readingRoute :: "Route \<Rightarrow> bool" where
  "readingRoute rt = (case rt of AtLogin \<Rightarrow> False | AtLogout \<Rightarrow> False | AtSignup \<Rightarrow> False
     | AtAdmin a \<Rightarrow> a \<notin> set writingRoutes | _ \<Rightarrow> True)"

lemma get_routes_read:
  "list_all (\<lambda>(p, _, rt). p \<in> {''GET'', ''POST''} \<and> (p = ''GET'' \<longrightarrow> readingRoute rt)) appRoutes"
  by code_simp

lemma runRoute_reading:
  assumes "alone (en_admin env)" "readingRoute rt" "rt \<noteq> AtOIDCCallback"
  shows "snd (runRoute env rt i usr r q s) = s"
  using assms by (cases rt) (simp_all add: readingRoute_def prod.case_eq_if admin_reads_site split: option.split)

text \<open>
  C32: Reading is safe: a GET or HEAD request leaves the whole service as it was, to any path,
  unless it is the return from a single sign-on with the state and nonce of the browser's own
  cookies and a code the provider vouched for, and even that changes accounts only.
\<close>

theorem reads_change_nothing:
  assumes "quiet env" "rq_Method r \<in> {''GET'', ''HEAD''}" "handler env r q path s = (rp, s')" "s' \<noteq> s"
  shows "\<exists>ids exchange nonce ident.
      lookupRoute appRoutes (rq_Method r) (splitSegs [] path) = Some (AtOIDCCallback, ids) \<and> validOIDCState r
    \<and> sv_authn (en_server env) = Some exchange \<and> map_of (rq_Cookies r) oidcNonceCookie = Some nonce
    \<and> exchange (getFirst (rq_Query r) ''code'') nonce = Some ident \<and> content (sc_site s') = content (sc_site s)"
proof -
  have s': "s' = snd (serve env r q path s)" using handler_state [of env r q path s] assms(3) by simp
  with assms(4) obtain rt ids usr r1 where
      d: "dispatch (en_auth env) (secureCookies env) (en_rnd env) r path (service_db s) = ReachRun rt ids usr r1"
    by (auto simp: serve_def split: reached.splits)
  have r1: "r1 = r" using dispatch_run(3) [OF d] assms(2) by (auto simp: csrf_def csrfSafeMethod_def split: prod.splits)
  have run: "s' = snd (runRoute env rt (case ids of [] \<Rightarrow> [] | x # _ \<Rightarrow> x) usr r q s)" using s' by (simp add: serve_def d r1)
  have "readingRoute rt"
    using lookup_method [OF dispatch_run(1) [OF d]] get_routes_read assms(2) by (fastforce simp: list_all_iff methodMatches_def)
  with run assms(1,4) have rt: "rt = AtOIDCCallback" using runRoute_reading unfolding quiet_def by blast
  have "put_db (service_db s) s = s" by (simp add: put_db_def)
  with run assms(4) have "snd (handleOIDCCallback (en_auth env) (secureCookies env) (sv_allowedDomains (en_server env))
      (sv_authn (en_server env)) (en_between1 env) (en_between2 env) r (service_db s)) \<noteq> service_db s"
    by (auto simp: rt split: prod.splits)
  then obtain exchange nonce ident where "sv_authn (en_server env) = Some exchange" "validOIDCState r"
      "map_of (rq_Cookies r) oidcNonceCookie = Some nonce" "exchange (getFirst (rq_Query r) ''code'') nonce = Some ident"
    by (auto simp: handleOIDCCallback_def Let_def split: option.splits if_splits)
  moreover have "content (sc_site s') = content (sc_site s)" unfolding run by (rule runRoute_content [OF assms(1)]) (simp add: rt)
  ultimately show ?thesis using dispatch_run(1) [OF d] by (simp add: rt)
qed

section \<open>Published media stays available\<close>

text \<open>A request whose parts come in order, with nothing under way that uploads or deletes.\<close>

definition calm :: "serviceenv \<Rightarrow> bool" where
  "calm env \<longleftrightarrow> undisturbed (en_admin env) \<and> (\<exists>t. in_order t (en_admin env))
     \<and> list_all blob_neutral (en_between1 env) \<and> list_all blob_neutral (en_between2 env)"

definition sound :: "site \<Rightarrow> bool" where
  "sound t \<longleftrightarrow> wf_db (si_db t) \<and> media_safe t"

lemma admin_call_sound:
  assumes "undisturbed env" "\<exists>t. in_order t env" "sound s"
  shows "sound (snd (admin env usr rq s))"
proof -
  from assms(2) obtain t where t: "in_order t env" by blast
  obtain n' where "(bstep 0)\<^sup>*\<^sup>* (site_view t s) (site_view n' (snd (admin env usr rq s)))"
    using handlers_refine [OF assms(1) order_refl t] by blast
  from binv_run [OF this] show ?thesis using assms(3) by (simp add: binv_site units sound_def)
qed

lemma neutral_sound: "nruns (si_db t) d \<Longrightarrow> sound t \<Longrightarrow> sound (t\<lparr>si_db := d\<rparr>)"
proof -
  assume d: "nruns (si_db t) d" and t: "sound t"
  have "binv 0 (view 0 d (si_blobs t) {} {})"
    by (rule binv_run [OF run_neutral [OF d, of 0 0 "si_blobs t" "{}" "{}"]]) (use t binv_site [of 0 0 t] in \<open>simp_all add: sound_def site_view_def units\<close>)
  then show ?thesis using binv_site [of 0 0 "t\<lparr>si_db := d\<rparr>"] by (simp add: sound_def site_view_def)
qed

lemma nruns_reading_handlers:
  assumes u: "undisturbed env"
  shows "nruns d (snd (handleAdminDashboard env usr d))" "nruns d (snd (handleUpload env usr d))"
    "nruns d (snd (handleChannelEdit env usr r d))" "nruns d (snd (handleEpisodeList env usr r d))"
    "nruns d (snd (handleEpisodeNew env usr r d))" "nruns d (snd (handleEpisodeEdit env usr r d))"
    "nruns d (snd (handleEpisodeStatus env usr r d))"
proof -
  have a: "nruns d (snd (adm env c (\<lambda>d. (f d, d)) d))" for c :: acall and f :: "db \<Rightarrow> 'a res" and d
    by (rule nruns_adm [OF u]) simp
  have o: "nruns d (snd (ownedChannel env usr cid d))" "nruns d (snd (ownedEpisode env usr eid d))" for cid eid
    using nruns_owned [OF u] prod.collapse by metis+
  note [simp] = a o
  note [intro] = nruns_trans [OF _ a]
  note [dest!] = nruns_owned [OF u] nruns_read [OF u]
  show "nruns d (snd (handleAdminDashboard env usr d))" "nruns d (snd (handleUpload env usr d))"
    unfolding handleAdminDashboard_def handleUpload_def by (auto split: prod.split sum.split list.split)
  show "nruns d (snd (handleChannelEdit env usr r d))" "nruns d (snd (handleEpisodeList env usr r d))"
    "nruns d (snd (handleEpisodeNew env usr r d))" "nruns d (snd (handleEpisodeEdit env usr r d))"
    "nruns d (snd (handleEpisodeStatus env usr r d))"
    unfolding handleChannelEdit_def handleEpisodeList_def handleEpisodeNew_def handleEpisodeEdit_def handleEpisodeStatus_def
    by (auto intro: nruns_trans split: prod.split sum.split)
qed

lemma admin_site_sound:
  assumes "undisturbed env" "\<exists>t. in_order t env" "sound s"
  shows "sound (snd (adminHandler env a u r q s))"
proof (cases "a \<in> set writingRoutes")
  case True
  then show ?thesis using admin_writes admin_call_sound [OF assms] by metis
next
  case False
  have "nruns (si_db s) (si_db (snd (adminHandler env a u r q s)))"
    "snd (adminHandler env a u r q s) = s\<lparr>si_db := si_db (snd (adminHandler env a u r q s))\<rparr>"
    using False nruns_reading_handlers [OF assms(1)] by (cases a; simp add: writingRoutes_def on_db_site)+
  then show ?thesis using neutral_sound assms(3) by metis
qed

lemma serve_sound:
  assumes "calm env" "sound (sc_site s)"
  shows "sound (sc_site (snd (serve env r q path s)))"
proof (cases "dispatch (en_auth env) (secureCookies env) (en_rnd env) r path (service_db s)")
  case (ReachRun rt ids usr r1)
  let ?i = "case ids of [] \<Rightarrow> [] | x # _ \<Rightarrow> x"
  have c: "undisturbed (en_admin env)" "\<exists>t. in_order t (en_admin env)" "list_all blob_neutral (en_between1 env)"
    "list_all blob_neutral (en_between2 env)" using assms(1) by (auto simp: calm_def)
  have "sound (sc_site (snd (runRoute env rt ?i usr r1 q s)))"
  proof (cases "\<exists>a. rt = AtAdmin a")
    case True
    then show ?thesis using admin_site_sound [OF c(1,2) assms(2)] assms(2) by (auto simp: prod.case_eq_if split: option.split)
  next
    case False
    then obtain d where "opRuns blob_neutral (service_db s) d"
      "sc_site (snd (runRoute env rt ?i usr r1 q s)) = (sc_site s)\<lparr>si_db := d\<rparr>"
      using runRoute_public [OF account_op_neutral c(3,4)] by blast
    then show ?thesis using neutral_sound assms(2) by simp
  qed
  then show ?thesis by (simp add: serve_def ReachRun)
qed (simp_all add: serve_def assms(2))

text \<open>The process as a whole: requests, and passes of the worker over the same store.\<close>

datatype event = EvRequest call | EvPass Worker env "world Registry"

fun happen :: "event \<Rightarrow> service \<Rightarrow> service" where
  "happen (EvRequest (env, r, q, path)) s = snd (handler env r q path s)"
| "happen (EvPass w ev reg) s = put_db (fst (snd (processOne w ev (service_db s, reg)))) s"

definition history :: "event list \<Rightarrow> service \<Rightarrow> service" where
  "history es s = fold happen es s"

fun calm_event :: "event \<Rightarrow> bool" where
  "calm_event (EvRequest (env, r, q, path)) \<longleftrightarrow> calm env"
| "calm_event (EvPass w ev reg) \<longleftrightarrow> sqlite_worker w \<and> (\<forall>c. list_all blob_neutral (ev_others ev c))"

lemma worker_op_neutral: "worker_op op \<Longrightarrow> blob_neutral op"
  by (cases op) simp_all

lemma pass_neutral:
  assumes "sqlite_worker w" "\<forall>c. list_all blob_neutral (ev_others ev c)"
  shows "nruns d (fst (snd (processOne w ev (d, reg))))"
proof -
  have p: "pass_of blob_neutral ev" using assms(2) by unfold_locales (simp_all add: worker_op_neutral)
  obtain x st where "processOne w ev (d, reg) = (x, st)" by (metis surj_pair)
  from pass_of.processOne_runs [OF p assms(1) this] this show ?thesis by simp
qed

lemma happen_sound: "calm_event e \<Longrightarrow> sound (sc_site s) \<Longrightarrow> sound (sc_site (happen e s))"
  by (induction e s rule: happen.induct) (auto simp: handler_state serve_sound put_db_def neutral_sound pass_neutral)

lemma history_sound: "list_all calm_event es \<Longrightarrow> sound (sc_site s) \<Longrightarrow> sound (sc_site (history es s))"
  by (induction es arbitrary: s) (simp_all add: history_def happen_sound)

lemma splitSegs_word: "CHR ''/'' \<notin> set cs \<Longrightarrow> splitSegs acc cs = (if acc = [] \<and> cs = [] then [] else [rev acc @ cs])"
  by (induction cs arbitrary: acc) auto

lemma media_path: "CHR ''/'' \<notin> set key \<Longrightarrow> key \<noteq> [] \<Longrightarrow> splitSegs [] (''/media/'' @ key) = [''media'', key]"
  using splitSegs_word [of key "[]"] by simp

lemma media_route:
  assumes "rq_Method r = ''GET''" "splitSegs [] path = [''media'', key]" "CHR ''/'' \<notin> set key"
  shows "\<exists>r1. dispatch env secure rnd r path d = ReachRun AtMedia [key] (loadUser env r d) r1"
proof -
  have "key \<noteq> ''/''" using assms(3) by auto
  then have "lookupRoute appRoutes ''GET'' [''media'', key] = Some (AtMedia, [key])"
    "lookupRoute rootRoutes ''GET'' [''media'', key] = None"
    by (simp_all add: lookupRoute_def appRoutes_def rootRoutes_def entryMatch_def methodMatches_def)
  then show ?thesis by (auto simp: dispatch_def assms(1,2) csrf_def csrfSafeMethod_def split: prod.split)
qed

lemma published_streams:
  assumes "media_safe t" "row \<in> set (episodes (si_db t))" "er_status row = EpisodePublished" "er_media_key row \<noteq> []"
    and "me_fault env = (\<lambda>_. False)" "\<not> me_getFault env (er_media_key row)" "me_direct env = None"
    "me_blobs env = si_blobs t"
  shows "\<exists>ct bytes. handleMedia env (er_media_key row) (si_db t) = MediaStream ct True True bytes
    \<and> si_blobs t (er_media_key row) = Some bytes"
proof -
  obtain ep where ep: "PublishedEpisodeByMediaKey (er_media_key row) (si_db t) = Inr ep"
    using published_iff assms(2,3) by blast
  obtain bytes where b: "si_blobs t (er_media_key row) = Some bytes" using assms(1,2,4) by (auto simp: media_safe_def)
  then show ?thesis
    by (auto simp: handleMedia_def storeRead_def serveBlob_def blobGet_def sniffContentType_def ep assms(5-8))
qed

text \<open>
  C5: What is published can be heard: after any history of requests of anybody and passes of the
  worker, whatever failed inside them, a GET of the media of a published episode streams the bytes stored under its key,
  as an attachment with sniffing off, as long as this one request meets no failure itself.
\<close>

theorem published_media_plays:
  assumes "wf_db (service_db s)" "media_safe (sc_site s)" "list_all calm_event es"
    and "row \<in> set (episodes (service_db (history es s)))" "er_status row = EpisodePublished"
    and "er_media_key row \<noteq> []" "CHR ''/'' \<notin> set (er_media_key row)"
    and "me_fault (en_media env) = (\<lambda>_. False)" "me_getFault (en_media env) = (\<lambda>_. False)" "me_direct (en_media env) = None"
    and "rq_Method r = ''GET''"
  shows "\<exists>ct bytes. rp_answer (fst (handler env r q (''/media/'' @ er_media_key row) (history es s)))
      = AnsMedia (MediaStream ct True True bytes)
    \<and> si_blobs (sc_site (history es s)) (er_media_key row) = Some bytes"
proof -
  let ?s = "history es s"
  have "media_safe (sc_site ?s)" using history_sound [OF assms(3)] assms(1,2) by (simp add: sound_def)
  from published_streams [OF this assms(4-6), of "mediaOf env ?s"] assms(8-10)
  obtain ct bytes where m: "handleMedia (mediaOf env ?s) (er_media_key row) (service_db ?s) = MediaStream ct True True bytes"
    "si_blobs (sc_site ?s) (er_media_key row) = Some bytes" by (auto simp: mediaOf_def)
  define p where "p = ''/media/'' @ er_media_key row"
  have "splitSegs [] p = [''media'', er_media_key row]" unfolding p_def by (rule media_path [OF assms(7,6)])
  then obtain r1 where "dispatch (en_auth env) (secureCookies env) (en_rnd env) r p (service_db ?s)
      = ReachRun AtMedia [er_media_key row] (loadUser (en_auth env) r (service_db ?s)) r1"
    using media_route [OF assms(11) _ assms(7)] by blast
  then show ?thesis using m unfolding p_def [symmetric] by (simp add: handler_def serve_def)
qed

section \<open>What others can do to an account's shows\<close>

definition owned :: "user \<Rightarrow> db \<Rightarrow> channel_row list \<times> episode_row list \<times> transcript_row list" where
  "owned v d =
     (filter (\<lambda>r. cr_user_id r = u_ID v) (channels d),
      filter (\<lambda>r. er_channel_id r \<in> own_ids v d) (episodes d),
      filter (\<lambda>t. tr_episode_id t \<in> own_episodes v d) (transcripts d))"

lemma filter_within: "(\<And>x. x \<in> set xs \<Longrightarrow> P x \<Longrightarrow> Q x) \<Longrightarrow> filter P xs = filter P (filter Q xs)"
  by (auto intro: filter_cong)

text \<open>Ids are unique, so what is one's own is not another's.\<close>

lemma own_disjoint:
  assumes "wf_db d" "u_ID u \<noteq> u_ID v"
  shows "own_ids u d \<inter> own_ids v d = {}" "own_episodes u d \<inter> own_episodes v d = {}"
proof -
  have c: "inj_on cr_id (set (channels d))" and e: "inj_on er_id (set (episodes d))"
    using assms(1) by (simp_all add: wf_defs distinct_map)
  show ids: "own_ids u d \<inter> own_ids v d = {}"
    using inj_onD [OF c] assms(2) unfolding own_ids_def by fastforce
  show "own_episodes u d \<inter> own_episodes v d = {}"
    using inj_onD [OF e] ids unfolding own_episodes_def by fastforce
qed

lemma owned_foreign:
  assumes "wf_db d" "wf_db d'" "foreign u d' = foreign u d" "u_ID u \<noteq> u_ID v"
  shows "owned v d' = owned v d"
proof -
  have o: "filter (\<lambda>r. cr_user_id r = u_ID v) (channels x) = filter (\<lambda>r. cr_user_id r = u_ID v) (ot_channels (foreign u x))"
    "filter (\<lambda>r. er_channel_id r \<in> own_ids v x) (episodes x) = filter (\<lambda>r. er_channel_id r \<in> own_ids v x) (ot_episodes (foreign u x))"
    "filter (\<lambda>t. tr_episode_id t \<in> own_episodes v x) (transcripts x)
       = filter (\<lambda>t. tr_episode_id t \<in> own_episodes v x) (ot_transcripts (foreign u x))"
    if "wf_db x" for x
    using own_disjoint [OF that assms(4)] assms(4) unfolding foreign_def others.simps by (intro filter_within; auto)+
  have ids: "own_ids v x = cr_id ` set (filter (\<lambda>r. cr_user_id r = u_ID v) (channels x))"
    "own_episodes v x = er_id ` set (filter (\<lambda>r. er_channel_id r \<in> own_ids v x) (episodes x))" for x
    by (auto simp: own_ids_def own_episodes_def)
  have c: "own_ids v d' = own_ids v d" by (simp only: ids(1) o(1) [OF assms(1)] o(1) [OF assms(2)] assms(3))
  have e: "own_episodes v d' = own_episodes v d" by (simp only: ids(2) c o(2) [OF assms(2), unfolded c assms(3)] o(2) [OF assms(1)])
  show ?thesis
    by (simp only: owned_def o [OF assms(1)] o [OF assms(2), unfolded c e assms(3)] c e)
qed

lemma owned_users: "d'\<lparr>users := []\<rparr> = d\<lparr>users := []\<rparr> \<Longrightarrow> owned v d' = owned v d"
  by (cases d; cases d') (simp add: owned_def own_ids_def own_episodes_def)

fun signed_in_as :: "user \<Rightarrow> call \<Rightarrow> service \<Rightarrow> bool" where
  "signed_in_as v (env, r, q, path) s =
     (case loadUser (en_auth env) r (service_db s) of None \<Rightarrow> False | Some u \<Rightarrow> u_ID u = u_ID v)"

fun acts :: "user \<Rightarrow> call list \<Rightarrow> service \<Rightarrow> bool" where
  "acts v [] s = False"
| "acts v ((env, r, q, path) # cs) s =
     (signed_in_as v (env, r, q, path) s \<or> acts v cs (snd (handler env r q path s)))"

lemma serve_wf:
  assumes "quiet env" "wf_db (service_db s)"
  shows "wf_db (service_db (snd (handler env r q path s)))"
proof -
  have alone: "alone (en_admin env)" using assms(1) by (simp add: quiet_def)
  have admin: "wf_db (si_db (snd (adminHandler (en_admin env) a u r q (sc_site s))))" for a u r q
    using admin_writes admin_reads_site [OF alone] keeps_admin [OF alone assms(2)] assms(2) unfolding keeps_def by metis
  have run: "wf_db (service_db (snd (runRoute env rt i usr r q s)))" for rt i usr r
  proof (cases "\<exists>a. rt = AtAdmin a")
    case True
    then show ?thesis using admin assms(2) by (auto simp: prod.case_eq_if split: option.split)
  next
    case False
    then obtain d where "opRuns account_op (service_db s) d" "sc_site (snd (runRoute env rt i usr r q s)) = (sc_site s)\<lparr>si_db := d\<rparr>"
      using runRoute_public [of account_op env rt s i usr r q] assms(1) by (auto simp: quiet_def)
    then show ?thesis using opRuns_wf [OF _ assms(2)] by simp
  qed
  show ?thesis
    by (cases "dispatch (en_auth env) (secureCookies env) (en_rnd env) r path (service_db s)")
      (simp_all add: handler_state serve_def assms(2) run)
qed

text \<open>
  C3: Nobody but its owner touches a show: whatever sequence of requests is served, as long as
  none of them comes with a live session of the account, its channels, their episodes and their
  transcripts are what they were.
\<close>

theorem others_cannot_touch:
  assumes "wf_db (service_db s)" "\<forall>(env, r, q, path) \<in> set cs. quiet env" "\<not> acts v cs s"
  shows "owned v (service_db (handle_all cs s)) = owned v (service_db s)"
  using assms
proof (induction cs s rule: handle_all.induct)
  case (2 env r q path cs s)
  obtain rp s' where h: "handler env r q path s = (rp, s')" by fastforce
  have q: "quiet env" using "2.prems"(2) by simp
  have wf: "wf_db (service_db s')" using serve_wf [OF q "2.prems"(1)] h by (metis snd_conv)
  have "owned v (service_db s') = owned v (service_db s)"
  proof (cases "content (sc_site s') = content (sc_site s)")
    case True
    then show ?thesis by (intro owned_users) (auto simp: content_def dest: arg_cong [of _ _ si_db])
  next
    case False
    from content_change [OF q "2.prems"(1) h False] "2.prems"(3) show ?thesis
      using owned_foreign [OF "2.prems"(1) wf] by auto
  qed
  with "2.IH" [OF _ _ _] wf "2.prems"(2,3) h show ?case by auto
qed simp

section \<open>Concrete requests\<close>

definition ex_Server :: Server where
  "ex_Server = \<lparr>sv_addr = [], sv_baseURL = ''https://c'', sv_siteName = [], sv_allowSignup = False,
     sv_authn = Some (\<lambda>c n. Some ex_identity), sv_allowedDomains = [''b''], sv_maxUploadBytes = 1000, sv_shutdownTimeout = 0,
     sv_uploadTempDir = [], sv_mediaWriteIdle = 0, sv_direct = False, sv_loginLimiter = newLoginLimiter 5 Minute 100\<rparr>"

definition ex_serviceenv :: serviceenv where
  "ex_serviceenv = \<lparr>en_server = ex_Server, en_auth = ex_authenv, en_admin = ex_adminenv (\<lambda>_. False), en_media = ex_mediaenv,
     en_rnd = [], en_authCodeURL = None, en_state = [], en_nonce = [], en_between1 = [], en_between2 = [],
     en_fmtDate = (\<lambda>_. []), en_marshal = (\<lambda>_. None), en_pingFails = False, en_fmtG = (\<lambda>_. []),
     en_registry = emptyRegistry, en_countFails = False\<rparr>"

definition ex_service :: service where
  "ex_service = \<lparr>sc_site = ex_site\<lparr>si_blobs := (\<lambda>_. Some ''b'')\<rparr>, sc_limiter = newLoginLimiter 5 Minute 100\<rparr>"

lemma ex_serviceenv_simps [simp]:
  "en_auth ex_serviceenv = ex_authenv" "en_admin ex_serviceenv = ex_adminenv (\<lambda>_. False)" "en_rnd ex_serviceenv = []"
  "en_between1 ex_serviceenv = []" "en_between2 ex_serviceenv = []" "en_media ex_serviceenv = ex_mediaenv"
  "sv_authn (en_server ex_serviceenv) = Some (\<lambda>c n. Some ex_identity)" "sv_allowedDomains (en_server ex_serviceenv) = [''b'']"
  "secureCookies ex_serviceenv" "service_db ex_service = si_db ex_site"
  by (simp_all add: ex_serviceenv_def ex_Server_def secureCookies_def cookieSecure_def hasPrefix_def ex_service_def)

lemma ex_quiet: "quiet ex_serviceenv" and ex_calm: "calm ex_serviceenv"
  using ex_alone ex_undisturbed ex_in_order by (auto simp: quiet_def calm_def)

lemma ex_service_sound: "sound (sc_site ex_service)"
  using ex_site_wf by (simp add: ex_service_def sound_def media_safe_def)

lemma ex_unpublish_request:
  "service_db (snd (handler ex_serviceenv ex_post ex_upload ''/admin/episodes/e/unpublish'' ex_service))
     = snd (SetEpisodePublication ''e'' EpisodeDraft (Some 0) 0 (si_db ex_site))"
  by (simp add: handler_state serve_def ex_post_route ex_unpublish_db ex_service_def prod.case_eq_if)

lemma content_needs_login_and_token_witness:
  "\<exists>u. loadUser ex_authenv ex_post (service_db ex_service) = Some u
     \<and> foreign u (service_db (snd (handler ex_serviceenv ex_post ex_upload ''/admin/episodes/e/unpublish'' ex_service)))
       = foreign u (service_db ex_service)"
proof -
  obtain rp s' where h: "handler ex_serviceenv ex_post ex_upload ''/admin/episodes/e/unpublish'' ex_service = (rp, s')"
    by fastforce
  have "EpisodeByID ''e'' (service_db s') \<noteq> EpisodeByID ''e'' (service_db ex_service)"
    using ex_unpublish_request ex_unpublished h by (simp add: ex_unpublish_db)
  then have "content (sc_site s') \<noteq> content (sc_site ex_service)"
    by (auto simp: content_def EpisodeByID_def episodeWhere_def dest!: arg_cong [of _ _ "\<lambda>t. episodes (si_db t)"])
  moreover have "wf_db (service_db ex_service)" using ex_site_wf by simp
  ultimately show ?thesis using content_needs_login_and_token [OF ex_quiet _ h] h by auto
qed

lemma callback_any_method:
  "handleOIDCCallback env sec ds au b1 b2 (r\<lparr>rq_Method := m\<rparr>) d = handleOIDCCallback env sec ds au b1 b2 r d"
proof -
  have "validOIDCState (r\<lparr>rq_Method := m\<rparr>) = validOIDCState r" by (simp add: validOIDCState_def cong: option.case_cong)
  then show ?thesis by (simp add: handleOIDCCallback_def cong: option.case_cong if_cong)
qed

lemma reads_change_nothing_witness:
  "\<exists>ids. lookupRoute appRoutes ''GET'' (splitSegs [] ''/auth/oidc/callback'') = Some (AtOIDCCallback, ids)
     \<and> content (sc_site (snd (handler ex_serviceenv (ex_callback\<lparr>rq_Method := ''GET''\<rparr>) ex_upload ''/auth/oidc/callback'' ex_service)))
       = content (sc_site ex_service)"
proof -
  let ?r = "ex_callback\<lparr>rq_Method := ''GET''\<rparr>" and ?p = "''/auth/oidc/callback''"
  let ?cb = "\<lambda>r. handleOIDCCallback ex_authenv True [''b''] (Some (\<lambda>c n. Some ex_identity)) [] [] r (si_db ex_site)"
  obtain rp s' where h: "handler ex_serviceenv ?r ex_upload ?p ex_service = (rp, s')" by fastforce
  have "lookupRoute appRoutes ''GET'' (splitSegs [] ?p) = Some (AtOIDCCallback, [])"
    "lookupRoute rootRoutes ''GET'' (splitSegs [] ?p) = None" by code_simp+
  then have "\<exists>usr. dispatch ex_authenv True [] ?r ?p (si_db ex_site) = ReachRun AtOIDCCallback [] usr ?r"
    by (auto simp: dispatch_def csrf_def csrfSafeMethod_def split: prod.split)
  then obtain usr where "dispatch ex_authenv True [] ?r ?p (si_db ex_site) = ReachRun AtOIDCCallback [] usr ?r" by blast
  then have db: "service_db s' = snd (?cb ?r)"
    using handler_state [of ex_serviceenv ?r ex_upload ?p ex_service] h by (simp add: serve_def put_db_def prod.case_eq_if)
  have site: "si_db ex_site = sv_db ex_server" by (simp add: ex_site_def ex_server_def)
  have "?cb ?r = ?cb ex_callback" by (rule callback_any_method)
  moreover obtain rs d where cb: "?cb ex_callback = (rs, d)" by fastforce
  moreover have "rs_Status rs = 303" using ex_callback_redirects [of "\<lambda>c n. Some ex_identity"] cb site by simp
  ultimately obtain u :: user where "identity_of (u_ID u) (service_db s') = Some (''iss'', ''sub'')"
    using oidc_callback_facts [OF ex_server_wf, of _ True "[''b'']" "\<lambda>c n. Some ex_identity" "[]" ex_callback rs d] site db
    by (auto simp: ex_identity_def)
  moreover have "identity_of x (service_db ex_service) \<noteq> Some (''iss'', ''sub'')" for x
    by (simp add: identity_of_def ex_site_def ex)
  ultimately have "s' \<noteq> ex_service" by auto
  from reads_change_nothing [OF ex_quiet _ h this] h show ?thesis by auto
qed

definition ex_history :: "event list" where
  "ex_history = [EvPass ex_worker (ex_env Unsupported) emptyRegistry,
     EvRequest (ex_serviceenv, ex_post, ex_upload, ''/admin/episodes/e/unpublish'')]"

lemma ex_idle_pass: "fst (snd (processOne ex_worker (ex_env Unsupported) (si_db ex_site, emptyRegistry :: world Registry))) = si_db ex_site"
  by code_simp

lemma ex_history_row: "ex_episode_row ''f'' ''l'' TranscriptNone \<in> set (episodes (service_db (history ex_history ex_service)))"
proof -
  have "put_db (si_db ex_site) ex_service = ex_service" by (simp add: put_db_def ex_service_def)
  then show ?thesis
    by (simp add: history_def ex_history_def ex_idle_pass ex_unpublish_request SetEpisodePublication_def update_episode_def Let_def
        upd_where_def) (simp add: ex_site_def ex)
qed

lemma published_media_plays_witness:
  "\<exists>ct bytes. rp_answer (fst (handler ex_serviceenv (ex_callback\<lparr>rq_Method := ''GET''\<rparr>) ex_upload (''/media/'' @ ''l'')
       (history ex_history ex_service)))
     = AnsMedia (MediaStream ct True True bytes)"
proof -
  let ?row = "ex_episode_row ''f'' ''l'' TranscriptNone"
  have "wf_db (service_db ex_service)" "media_safe (sc_site ex_service)" using ex_service_sound by (simp_all add: sound_def)
  moreover have "list_all calm_event ex_history"
    using ex_calm ex_sqlite_worker by (simp add: ex_history_def) (simp add: ex_env_def)
  ultimately have "\<exists>ct bytes. rp_answer (fst (handler ex_serviceenv (ex_callback\<lparr>rq_Method := ''GET''\<rparr>) ex_upload
      (''/media/'' @ er_media_key ?row) (history ex_history ex_service))) = AnsMedia (MediaStream ct True True bytes)
    \<and> si_blobs (sc_site (history ex_history ex_service)) (er_media_key ?row) = Some bytes"
    using ex_history_row by (intro published_media_plays) (simp_all add: ex_episode_row_def ex_mediaenv_def)
  then show ?thesis by (auto simp: ex_episode_row_def)
qed

lemma others_cannot_touch_witness:
  "owned ex_owner (service_db (handle_all [(ex_serviceenv, ex_callback\<lparr>rq_Method := ''GET''\<rparr>, ex_upload, ''/auth/oidc/callback''),
     (ex_serviceenv, ex_action ''e'' [], ex_upload, ''/admin/episodes/e/delete'')] ex_service))
   = owned ex_owner (service_db ex_service)"
proof -
  have "sessionUserID (ae_sessions ex_authenv) (rq_Cookies r) (ae_now ex_authenv) = None"
    if "r \<in> {ex_callback\<lparr>rq_Method := ''GET''\<rparr>, ex_action ''e'' []}" for r
    using that by (elim insertE emptyE; hypsubst) code_simp+
  then have "loadUser ex_authenv r d = None" if "r \<in> {ex_callback\<lparr>rq_Method := ''GET''\<rparr>, ex_action ''e'' []}" for r d
    using that by (simp add: loadUser_def)
  moreover have "wf_db (service_db ex_service)" using ex_site_wf by simp
  ultimately show ?thesis by (intro others_cannot_touch) (use ex_quiet in simp_all)
qed

end
