(* ===== verification/Spec2Isabelle.thy ===== *)
theory Spec2Isabelle
  imports
    StoreGuarantees BlobProtocol TranscriptProtocol Worker Metrics
    Session RateLimit Http Auth Oidc Media LocalFS Publication Render Cli IdleStream Idgen
    Migrate QueueContract WorkerSuccess Serve
begin

text \<open>
  Castlet, a self-hosted podcast server: a shallow embedding of its core and the theorems
  that make it correct.

  - The program.  A single Go process serves public pages, feeds and media, an admin area
  behind password or single sign-on sessions, and runs a background worker that transcribes
  uploads.  All state is in one SQLite database (\<open>store/sqlite\<close>) and one blob store
  (\<open>blob/localfs\<close> or \<open>blob/s3\<close>).  Handlers (\<open>server\<close>) and the worker (\<open>worker\<close>) meet only in
  the store: jobs are claimed under fencing tokens through \<open>queue/dbqueue\<close>, media bytes are
  content-addressed and guarded by reservations and delete leases.  \<open>app\<close> wires the parts from
  a configuration (\<open>config\<close>), \<open>cmd/castlet\<close> is the command line.

  - The store.  \<open>Prelude\<close>: time, ASCII case, tables as lists of rows and their update
  lemmas, transactions.  \<open>Model\<close>: \<open>model/model.go\<close> and the errors and bounds of
  \<open>store/store.go\<close>.  \<open>Db\<close>: the tables and constraints of \<open>schema.sql\<close>.  \<open>StoreUsers\<close>,
  \<open>StoreEpisodes\<close>, \<open>StoreBlobs\<close>, \<open>StoreJobs\<close>: the operations of \<open>sqlite_crud.go\<close> and
  \<open>sqlite_jobs.go\<close>, one function each, with the invariant they keep.  \<open>StoreSystem\<close>: the
  writing operations as a datatype with an executor, reachable databases, and what every
  sequence of operations preserves.  \<open>StoreGuarantees\<close>: the promises of store and queue.
  \<open>Sqlite\<close>, \<open>Migrate\<close>: opening a database file and the migration script of \<open>sqlite.go\<close>.
  \<open>Idgen\<close>: identifiers.

  - Jobs and the worker.  \<open>Queue\<close>: \<open>dbqueue.go\<close> against the contract \<open>job_store\<close>.  \<open>Worker\<close>: one
  pass of \<open>worker.go\<close> with faults and interference at every store call.  \<open>WorkerProgress\<close>: the
  job table as an array of automata, the polling loop and the end of its drain.
  \<open>WorkerSuccess\<close>: a pass that succeeds, step by step.
  \<open>QueueContract\<close>: the contract of \<open>queue/queue.go\<close> and what it gives for any number of workers.
  \<open>Command\<close>: the external transcriber.  \<open>TranscriptProtocol\<close>, \<open>BlobProtocol\<close>: the step relations of handlers and workers
  over jobs and media; \<open>MediaRefinement\<close>: the handlers themselves are runs of the latter.

  - The server.  \<open>Session\<close>, \<open>RateLimit\<close>, \<open>Http\<close>, \<open>Auth\<close>, \<open>Oidc\<close>, \<open>OidcClient\<close>, \<open>Media\<close>, \<open>Feed\<close>:
  sessions, limiter, forms and CSRF check, authentication, single sign-on with its client,
  public and media pages, the RSS feed.  \<open>Upload\<close>, \<open>Admin\<close>, \<open>AdminMedia\<close>: the admin area
  (\<open>handlers_admin.go\<close>): the streaming upload parser, the channel and episode handlers, the
  upload and deletion of media; \<open>Tenancy\<close> and \<open>AdminGuarantees\<close> hold what they promise.
  \<open>Publication\<close> follows an upload through the worker and publication to the feed, the media
  endpoint and the public page.
  \<open>Router\<close>: the route table and the chain of middlewares.  \<open>Serve\<close>: the whole handler, one
  function from a request and the state of the service to the answer and the new state, and what
  holds of every request, of every sequence of requests and of every history of requests and
  worker passes.  \<open>Server\<close>, \<open>Render\<close>: options,
  page rendering and metrics.  \<open>IdleStream\<close>: the idle bounds of downloads and of object-store connections.
  \<open>Strconv\<close>, \<open>Metrics\<close>: integer formatting and the metrics registry.

  - Blobs and process.  \<open>LocalFS\<close>, \<open>S3\<close>: the two blob stores.  \<open>Config\<close>, \<open>App\<close>, \<open>Cli\<close>,
  \<open>Lifecycle\<close>: configuration, wiring, command line, and the start and end of the goroutines.
  \<open>Examples\<close>, \<open>AdminExamples\<close>: a small installation used by the witnesses.

  - Correspondence.  A method of the store is a function from its arguments and the database
  to a result and a database; an error is \<open>Inl\<close>.  Go structs are records with a short field
  prefix, string enumerations are datatypes, durations and times are nanoseconds as
  integers, stored times are seconds.  A handler is a function from an environment (what the
  standard library, the clock and the random source answer), a request and the state to a
  response and the state.  A concurrent run is a sequence of these functions, as the single
  database connection of the program serialises transactions; goroutines and connections
  with their timers are step relations over a clock.

  - Interfaces.  \<open>blob_guard\<close> (reservations against deletions), \<open>job_store\<close> (claims and
  settlements), \<open>job_queue\<close> with \<open>store_queue\<close> (deliveries), \<open>authenticator\<close> (the sign-on
  exchange), \<open>pass_of\<close> (the kinds of operations a worker pass may do) and \<open>blob_store\<close> (put, get,
  delete) are locales, each interpreted on the
  model's own operations; \<open>store_queue\<close> gives \<open>job_queue\<close> for every job store; \<open>s3_contract\<close> shows that the S3 store meets \<open>blob_store\<close> over any
  object service that answers as documented.

  - What is shown.  Invariants of every reachable state (schema, one active job per episode,
  media of live episodes present), the outcome of every operation on its branches, atomicity
  and fencing of settlements, isolation of accounts, authentication and CSRF soundness,
  non-interference and reachability for the served handler (nobody else touches a show, content
  needs a session and a token, reading changes nothing, published media plays), refinement (job
  table to automata, handlers to the media protocol, S3 store to a map), termination (drain loop, reservation
  loop, shutdown), round trips (sessions, transcripts, identifiers, encodings, durations) and
  bounds (back-off, time-outs, captured output, idle streams).

  - Bounds.  No fuel is used: every loop of the modelled code is structural or bounded by its
  data.  The worker's drain loop takes its passes as an argument, and the attempts left in the
  queue bound them; the reservation loop ends within 26 attempts by its own budget.

  - Not modelled.  The SQL engine (statements are given their meaning on tables), the parsing and
  execution of HTML templates, HTTP transport, range requests, logging, usage
  texts and the response headers of single handlers.  HMAC, SHA-256, bcrypt, mail-address and media-type
  grammars, XML and JSON encoders, content sniffing, date formats, duration and float
  parsers, the identity provider, the object service, the external program and its process
  group are parameters.
\<close>

end
